(* ===== verification/Prelude.thy ===== *)
theory Prelude
  imports Main "HOL-Library.Word" "HOL-Library.Log_Nat"
begin

text \<open>
  Shared vocabulary of the development: the machine integers of the C and C++ sources as
  words of their width, the byte order helpers that every frame of the CAN protocols uses,
  the result type of operations that can hit undefined behaviour, and the lemma collections
  (\<open>bytes\<close> for byte order, \<open>fp\<close> for floating point) that the component proofs share.
\<close>

unbundle bit_operations_syntax

named_theorems bytes "splitting machine integers into bytes and joining them again"
named_theorems fp "rules of the floating point model"

section \<open>Machine integers\<close>

type_synonym u8 = "8 word"
type_synonym u16 = "16 word"
type_synonym u32 = "32 word"
type_synonym u64 = "64 word"

text \<open>Signed integers are words of the same width read with \<^const>\<open>sint\<close>.\<close>

type_synonym i8 = "8 word"
type_synonym i16 = "16 word"
type_synonym i32 = "32 word"

section \<open>Undefined behaviour as values\<close>

text \<open>
  What the C and C++ standards leave undefined, and the sources do not guard against, is an
  error value of the model: a float to integer conversion whose truncated value does not fit
  (or a NaN), an array read or write out of range, a union member read that was not the one
  last written, a null or uninitialised pointer followed, an integer divided by zero. The last
  value is an exception that no caller handles, \<open>std::length_error\<close> of a container.
\<close>

datatype ub = BadCast | OutOfRange | WrongMember | NullDeref | Uninitialised | DivByZero | LengthError

text \<open>Sequencing of operations that can fail.\<close>

fun bind_ub :: "ub + 'a \<Rightarrow> ('a \<Rightarrow> ub + 'b) \<Rightarrow> ub + 'b" where
  "bind_ub (Inl e) f = Inl e"
| "bind_ub (Inr x) f = f x"

lemma bind_ub_Inr_iff:
  "bind_ub m f = Inr y \<longleftrightarrow> (\<exists>x. m = Inr x \<and> f x = Inr y)"
  by (cases m) auto

lemma bind_ub_cong [fundef_cong]:
  "m = m' \<Longrightarrow> (\<And>x. m' = Inr x \<Longrightarrow> f x = f' x) \<Longrightarrow> bind_ub m f = bind_ub m' f'"
  by (cases m') auto

section \<open>Small words\<close>

lemma word_less_8_cases:
  assumes "(i :: u32) < 8" shows "i \<in> {0, 1, 2, 3, 4, 5, 6, 7}"
proof -
  have "unat i < 8" using assms by (simp add: word_less_nat_alt)
  then have "unat i \<in> {0, 1, 2, 3, 4, 5, 6, 7}" by auto
  then have "of_nat (unat i) \<in> (of_nat ` {0, 1, 2, 3, 4, 5, 6, 7} :: u32 set)" by (rule imageI)
  then show ?thesis by simp
qed

section \<open>Byte order\<close>

text \<open>
  The two expressions the parsers use throughout: joining a high and a low byte, and the
  32-bit version. The shifts happen on promoted operands, so no bit is lost.
\<close>

definition join16 :: "u8 \<Rightarrow> u8 \<Rightarrow> u16" where
  "join16 hi lo = ucast lo OR push_bit 8 (ucast hi)"

definition join32 :: "u8 \<Rightarrow> u8 \<Rightarrow> u8 \<Rightarrow> u8 \<Rightarrow> u32" where
  "join32 msb hi lo lsb =
     ucast lsb OR push_bit 8 (ucast lo) OR push_bit 16 (ucast hi) OR push_bit 24 (ucast msb)"

text \<open>\<open>(uint8_t)(x >> 8)\<close> and \<open>(uint8_t)(x & 0x00ff)\<close>.\<close>

definition hi8 :: "u16 \<Rightarrow> u8" where
  "hi8 w = ucast (drop_bit 8 w)"

definition lo8 :: "u16 \<Rightarrow> u8" where
  "lo8 w = ucast (w AND 0x00ff)"

lemma mask_255 [bytes]: "bit (0xff :: u16) n \<longleftrightarrow> n < 8"
proof -
  have "(0xff :: u16) = mask 8" by (simp add: mask_eq_exp_minus_1)
  then show ?thesis by (simp only: bit_mask_iff) auto
qed

lemma bit_u8_len [bytes]: "bit (x :: u8) (8 + n) \<longleftrightarrow> False"
  using bit_imp_le_length [of x "8 + n"] by auto

lemma lo8_ucast [bytes]: "lo8 w = ucast w"
  by (rule bit_word_eqI) (simp only: lo8_def bit_and_iff bit_unsigned_iff mask_255, auto)

lemma join16_hi_lo [bytes, simp]: "join16 (hi8 w) (lo8 w) = w"
  by (rule bit_word_eqI) (auto simp: join16_def hi8_def lo8_ucast bit_simps)

lemma hi8_join16 [bytes, simp]: "hi8 (join16 h l) = h"
  by (rule bit_word_eqI) (auto simp: join16_def hi8_def bit_simps bit_u8_len)

lemma lo8_join16 [bytes, simp]: "lo8 (join16 h l) = l"
  by (rule bit_word_eqI) (auto simp: join16_def lo8_ucast bit_simps)

section \<open>Checksums\<close>

text \<open>
  The loop \<open>for (int i = 0; i < (dlc - 1); ++i) checksum += data[i]\<close> that both protocol versions
  have: \<open>n\<close> iterations are left, and a read past the array is \<^const>\<open>OutOfRange\<close>. \<open>dlc - 1\<close> is an
  \<open>int\<close>, so the loop does not run for \<open>dlc = 0\<close>.
\<close>

fun sum_bytes :: "nat \<Rightarrow> u8 \<Rightarrow> u8 list \<Rightarrow> ub + u8" where
  "sum_bytes 0 checksum data = Inr checksum"
| "sum_bytes (Suc n) checksum [] = Inl OutOfRange"
| "sum_bytes (Suc n) checksum (x # data) = sum_bytes n (checksum + x) data"

lemma sum_bytes_eq: "n \<le> length data \<Longrightarrow> sum_bytes n c data = Inr (c + sum_list (take n data))"
  by (induction n c data rule: sum_bytes.induct) (auto simp: add.assoc)

end
