(* ===== verification/Ieee.thy ===== *)
theory Ieee
  imports Prelude
begin

text \<open>
  The \<open>float\<close> and \<open>double\<close> arithmetic of the sources: IEEE 754 binary32 and binary64 with
  round to nearest, ties to even, subnormals and overflow to infinity. A finite value is the
  rational number it denotes, so every definition computes. The sign of zero and the payload
  of a NaN are not represented: no operation modelled here depends on them.
\<close>

datatype flt = Num rat | Infty bool | NaN

text \<open>A format: the precision in bits and the largest exponent.\<close>

record fmt =
  prec :: int
  emax :: int

definition b32 :: fmt where "b32 = \<lparr>prec = 24, emax = 127\<rparr>"
definition b64 :: fmt where "b64 = \<lparr>prec = 53, emax = 1023\<rparr>"

lemma fmt_simps [simp]:
  "prec b32 = 24" "emax b32 = 127" "prec b64 = 53" "emax b64 = 1023"
  by (simp_all add: b32_def b64_def)

section \<open>Rounding\<close>

text \<open>The largest \<open>e\<close> with \<open>2 powi e \<le> x\<close>, for a positive \<open>x\<close>.\<close>

definition ilog2 :: "rat \<Rightarrow> int" where
  "ilog2 x = (let (a, b) = quotient_of x; e = bitlen a - bitlen b
              in if 2 powi e \<le> x then e else e - 1)"

definition rne :: "rat \<Rightarrow> int" where
  "rne x = (let f = \<lfloor>x\<rfloor>; d = x - of_int f in
     if d < 1 / 2 then f else if 1 / 2 < d then f + 1 else if even f then f else f + 1)"

text \<open>The exponent of the last place of a value of magnitude \<open>x\<close>.\<close>

definition qexp :: "fmt \<Rightarrow> rat \<Rightarrow> int" where
  "qexp m x = max (ilog2 x - (prec m - 1)) (1 - emax m - (prec m - 1))"

definition rounded :: "fmt \<Rightarrow> rat \<Rightarrow> rat" where
  "rounded m x = (if x = 0 then 0
     else let q = 2 powi qexp m \<bar>x\<bar> in of_int (rne (x / q)) * q)"

definition fround :: "fmt \<Rightarrow> rat \<Rightarrow> flt" where
  "fround m x = (let y = rounded m x in
     if 2 powi (emax m + 1) \<le> \<bar>y\<bar> then Infty (x < 0) else Num y)"

section \<open>Operations\<close>

fun fconv :: "fmt \<Rightarrow> flt \<Rightarrow> flt" where
  "fconv m (Num x) = fround m x"
| "fconv m (Infty s) = Infty s"
| "fconv m NaN = NaN"

fun fneg :: "flt \<Rightarrow> flt" where
  "fneg (Num x) = Num (- x)"
| "fneg (Infty s) = Infty (\<not> s)"
| "fneg NaN = NaN"

fun fabs :: "flt \<Rightarrow> flt" where
  "fabs (Num x) = Num \<bar>x\<bar>"
| "fabs (Infty s) = Infty False"
| "fabs NaN = NaN"

fun fmul :: "fmt \<Rightarrow> flt \<Rightarrow> flt \<Rightarrow> flt" where
  "fmul m (Num x) (Num y) = fround m (x * y)"
| "fmul m NaN y = NaN"
| "fmul m x NaN = NaN"
| "fmul m (Infty s) (Infty t) = Infty (s \<noteq> t)"
| "fmul m (Infty s) (Num y) = (if y = 0 then NaN else Infty (s \<noteq> (y < 0)))"
| "fmul m (Num x) (Infty t) = (if x = 0 then NaN else Infty ((x < 0) \<noteq> t))"

text \<open>The denominator of every division of the sources that can be zero is a constant
  \<open>+0.0\<close>, so the sign of the quotient of a finite value by zero is that of the numerator.\<close>

fun fdiv :: "fmt \<Rightarrow> flt \<Rightarrow> flt \<Rightarrow> flt" where
  "fdiv m (Num x) (Num y) =
     (if y = 0 then (if x = 0 then NaN else Infty (x < 0)) else fround m (x / y))"
| "fdiv m NaN y = NaN"
| "fdiv m x NaN = NaN"
| "fdiv m (Infty s) (Infty t) = NaN"
| "fdiv m (Infty s) (Num y) = Infty (s \<noteq> (y < 0))"
| "fdiv m (Num x) (Infty t) = Num 0"

text \<open>\<open>x < y\<close>: false when either side is a NaN.\<close>

fun fless :: "flt \<Rightarrow> flt \<Rightarrow> bool" where
  "fless (Num x) (Num y) = (x < y)"
| "fless (Num x) (Infty s) = (\<not> s)"
| "fless (Infty s) (Num y) = s"
| "fless (Infty s) (Infty t) = (s \<and> \<not> t)"
| "fless NaN y = False"
| "fless x NaN = False"

definition trunc :: "rat \<Rightarrow> int" where
  "trunc x = (if 0 \<le> x then \<lfloor>x\<rfloor> else \<lceil>x\<rceil>)"

text \<open>A conversion to an integer type of range \<open>lo..hi\<close>, undefined when the truncated
  value does not fit.\<close>

fun fcast :: "int \<Rightarrow> int \<Rightarrow> flt \<Rightarrow> ub + 'a::len word" where
  "fcast lo hi (Num x) =
     (let t = trunc x in if lo \<le> t \<and> t \<le> hi then Inr (word_of_int t) else Inl BadCast)"
| "fcast lo hi (Infty s) = Inl BadCast"
| "fcast lo hi NaN = Inl BadCast"

definition cast_i16 :: "flt \<Rightarrow> ub + i16" where "cast_i16 = fcast (- 32768) 32767"
definition cast_u16 :: "flt \<Rightarrow> ub + u16" where "cast_u16 = fcast 0 65535"
definition cast_i8 :: "flt \<Rightarrow> ub + i8" where "cast_i8 = fcast (- 128) 127"

section \<open>Facts on rounding\<close>

lemma ilog2_bounds:
  assumes "0 < x"
  shows "2 powi ilog2 x \<le> x" and "x < 2 powi (ilog2 x + 1)"
proof -
  obtain a b where q: "quotient_of x = (a, b)" by fastforce
  have b: "0 < b" using q by (rule quotient_of_denom_pos)
  have x: "x = of_int a / of_int b" using q by (rule quotient_of_div)
  have a: "0 < a" using assms x b by (simp add: zero_less_divide_iff)
  define la lb where "la = nat (bitlen a - 1)" and "lb = nat (bitlen b - 1)"
  have ba: "bitlen a = int la + 1" and bb: "bitlen b = int lb + 1"
    using a b by (auto simp: la_def lb_def bitlen_alt_def)
  have a1: "2 ^ la \<le> a" "a < 2 ^ Suc la" and b1: "2 ^ lb \<le> b" "b < 2 ^ Suc lb"
    using bitlen_bounds [OF a] bitlen_bounds [OF b] by (simp_all add: ba bb nat_add_distrib)
  have ra: "(2::rat) ^ la \<le> of_int a" "of_int a < (2::rat) ^ Suc la"
    using a1 by (metis of_int_le_iff of_int_less_iff of_int_numeral of_int_power)+
  have rb: "(2::rat) ^ lb \<le> of_int b" "of_int b < (2::rat) ^ Suc lb"
    using b1 by (metis of_int_le_iff of_int_less_iff of_int_numeral of_int_power)+
  let ?e = "bitlen a - bitlen b"
  have e: "2 powi ?e = (2::rat) ^ la / 2 ^ lb"
    by (simp add: ba bb power_int_diff)
  have up: "x < 2 powi (?e + 1)"
  proof -
    have "x < 2 ^ Suc la / of_int b"
      using ra b by (simp add: x divide_strict_right_mono)
    also have "\<dots> \<le> 2 ^ Suc la / 2 ^ lb"
      using rb b by (intro divide_left_mono) auto
    also have "\<dots> = 2 powi (?e + 1)" using e by (simp add: power_int_add)
    finally show ?thesis .
  qed
  have low: "2 powi (?e - 1) \<le> x"
  proof -
    have "2 powi (?e - 1) = (2::rat) ^ la / 2 ^ Suc lb" using e by (simp add: power_int_diff)
    also have "\<dots> \<le> 2 ^ la / of_int b"
      using rb b by (intro divide_left_mono) auto
    also have "\<dots> \<le> x" using ra b by (simp add: x divide_right_mono)
    finally show ?thesis .
  qed
  show "2 powi ilog2 x \<le> x" using low by (simp add: ilog2_def q Let_def)
  show "x < 2 powi (ilog2 x + 1)" using up by (simp add: ilog2_def q Let_def)
qed

lemma ilog2_less: "0 < x \<Longrightarrow> x < 2 powi (e + 1) \<Longrightarrow> ilog2 x \<le> e"
  using ilog2_bounds(1) [of x] power_int_increasing [of "e + 1" "ilog2 x" "2::rat"]
  by force

lemma ilog2_ge: "0 < x \<Longrightarrow> 2 powi e \<le> x \<Longrightarrow> e \<le> ilog2 x"
  using ilog2_bounds(2) [of x] power_int_increasing [of "ilog2 x + 1" e "2::rat"]
  by force

lemma ilog2_mono: "0 < x \<Longrightarrow> x \<le> y \<Longrightarrow> ilog2 x \<le> ilog2 y"
  by (rule ilog2_ge) (use ilog2_bounds(1) [of x] in auto)

lemma rne_error: "\<bar>of_int (rne x) - x\<bar> \<le> 1 / 2"
proof -
  have "of_int \<lfloor>x\<rfloor> \<le> x" "x < of_int \<lfloor>x\<rfloor> + 1" by linarith+
  then show ?thesis by (auto simp: rne_def Let_def abs_if) linarith
qed

lemma rne_of_int [simp]: "rne (of_int n) = n"
  by (simp add: rne_def)

lemma rne_bounds: "\<lfloor>x\<rfloor> \<le> rne x" "rne x \<le> \<lfloor>x\<rfloor> + 1"
  by (auto simp: rne_def Let_def)

lemma rne_mono: "x \<le> y \<Longrightarrow> rne x \<le> rne y"
proof (cases "\<lfloor>x\<rfloor> = \<lfloor>y\<rfloor>")
  case True
  moreover assume "x \<le> y"
  ultimately show ?thesis by (auto simp: rne_def Let_def)
next
  case False
  moreover assume "x \<le> y"
  ultimately have "\<lfloor>x\<rfloor> + 1 \<le> \<lfloor>y\<rfloor>" using floor_mono [of x y] by linarith
  then show ?thesis using rne_bounds [of x] rne_bounds [of y] by linarith
qed

lemma rne_minus: "rne (- x) = - rne x"
proof (cases "of_int \<lfloor>x\<rfloor> = x")
  case True
  then show ?thesis by (metis of_int_minus rne_of_int)
next
  case False
  then have "of_int \<lfloor>x\<rfloor> < x" by (simp add: less_le)
  moreover have "x < of_int \<lfloor>x\<rfloor> + 1" by linarith
  ultimately have "\<lfloor>- x\<rfloor> = - \<lfloor>x\<rfloor> - 1" by (intro floor_unique) auto
  then show ?thesis by (auto simp: rne_def Let_def)
qed

lemma rounded_0 [simp]: "rounded m 0 = 0"
  by (simp add: rounded_def)

lemma rounded_minus: "rounded m (- x) = - rounded m x"
  by (simp add: rounded_def Let_def rne_minus)

lemma rounded_error: "\<bar>rounded m x - x\<bar> \<le> 2 powi qexp m \<bar>x\<bar> / 2"
proof (cases "x = 0")
  case False
  define q :: rat where "q = 2 powi qexp m \<bar>x\<bar>"
  have q: "0 < q" by (simp add: q_def)
  have "\<bar>rounded m x - x\<bar> = \<bar>of_int (rne (x / q)) - x / q\<bar> * q"
    using q False by (simp add: rounded_def q_def [symmetric] Let_def field_simps flip: abs_mult_pos)
  also have "\<dots> \<le> 1 / 2 * q" using q rne_error by (intro mult_right_mono) auto
  finally show ?thesis by (simp add: q_def)
qed simp

text \<open>In the normal range the error is at most half a unit in the last place, relatively.\<close>

lemma rounded_rel:
  assumes "2 powi (1 - emax m) \<le> \<bar>x\<bar>"
  shows "\<bar>rounded m x - x\<bar> \<le> \<bar>x\<bar> * 2 powi (- prec m)"
proof -
  have pos: "0 < \<bar>x\<bar>" using assms by (meson less_le_trans zero_less_numeral zero_less_power_int)
  then have "1 - emax m \<le> ilog2 \<bar>x\<bar>" using assms by (rule ilog2_ge)
  then have "qexp m \<bar>x\<bar> = ilog2 \<bar>x\<bar> + 1 - prec m" by (simp add: qexp_def)
  then have "2 powi qexp m \<bar>x\<bar> / 2 = 2 powi ilog2 \<bar>x\<bar> * (2::rat) powi (- prec m)"
    by (simp add: power_int_add power_int_diff power_int_minus divide_simps)
  also have "\<dots> \<le> \<bar>x\<bar> * 2 powi (- prec m)"
    using ilog2_bounds(1) [OF pos] by (intro mult_right_mono) auto
  finally show ?thesis using rounded_error [of m x] by linarith
qed

text \<open>A value with at most \<open>prec\<close> significant bits is its own rounding.\<close>

lemma rounded_exact:
  assumes x: "x = of_int k * 2 powi e" and k: "\<bar>k\<bar> < 2 ^ nat (prec m)"
    and p: "0 < prec m" and e: "2 - emax m - prec m \<le> e"
  shows "rounded m x = x"
proof (cases "x = 0")
  case False
  have "\<bar>x\<bar> = of_int \<bar>k\<bar> * 2 powi e" by (simp add: x abs_mult)
  also have "\<dots> < 2 ^ nat (prec m) * 2 powi e"
    using k by (intro mult_strict_right_mono) (auto simp flip: of_int_less_iff [where 'a=rat])
  also have "\<dots> = 2 powi (prec m + e)"
    using p by (simp add: power_int_add power_int_nonneg_exp)
  finally have "ilog2 \<bar>x\<bar> \<le> prec m + e - 1" using False by (intro ilog2_less) auto
  then have q: "qexp m \<bar>x\<bar> \<le> e" using e by (simp add: qexp_def)
  define Q where "Q = qexp m \<bar>x\<bar>"
  define j where "j = k * 2 ^ nat (e - Q)"
  have e1: "(2::rat) powi e = 2 powi (e - Q) * 2 powi Q"
    by (simp add: power_int_diff)
  have e2: "(2::rat) powi (e - Q) = 2 ^ nat (e - Q)"
    using q by (simp add: Q_def power_int_nonneg_exp)
  have xj: "x = of_int j * 2 powi Q"
    by (simp only: x e1 e2 j_def of_int_mult of_int_power of_int_numeral mult.assoc)
  then have "x / 2 powi Q = of_int j" by simp
  then have "rne (x / 2 powi Q) = j" by (simp only: rne_of_int)
  moreover have "rounded m x = of_int (rne (x / 2 powi Q)) * 2 powi Q"
    using False by (simp add: rounded_def Let_def Q_def)
  ultimately have "rounded m x = of_int j * 2 powi Q" by (simp only:)
  then show ?thesis by (simp only: xj [symmetric])
qed simp

lemma rounded_of_int:
  "\<bar>k\<bar> < 2 ^ nat (prec m) \<Longrightarrow> 0 < prec m \<Longrightarrow> 2 \<le> emax m + prec m \<Longrightarrow>
   rounded m (of_int k) = of_int k"
  by (rule rounded_exact [of _ k 0]) auto

lemma rounded_pow2:
  assumes "1 < prec m" "2 - emax m - prec m \<le> e"
  shows "rounded m (2 powi e) = 2 powi e"
  using assms by (intro rounded_exact [of _ 1 e]) (auto simp: power_strict_increasing_iff)

lemma rounded_le_same_qexp:
  assumes "qexp m \<bar>x\<bar> = qexp m \<bar>y\<bar>" "x \<le> y" "x \<noteq> 0" "y \<noteq> 0"
  shows "rounded m x \<le> rounded m y"
proof -
  have "rne (x / 2 powi qexp m \<bar>y\<bar>) \<le> rne (y / 2 powi qexp m \<bar>y\<bar>)"
    using assms by (intro rne_mono divide_right_mono) auto
  then show ?thesis using assms by (simp add: rounded_def Let_def mult_right_mono)
qed

lemma rounded_nonneg: "0 \<le> x \<Longrightarrow> 0 \<le> rounded m x"
proof -
  assume "0 \<le> x"
  then have "0 \<le> rne (x / 2 powi qexp m \<bar>x\<bar>)"
    using rne_mono [of 0 "x / 2 powi qexp m \<bar>x\<bar>"] rne_of_int [of 0] by simp
  then show ?thesis by (simp add: rounded_def Let_def)
qed

text \<open>Rounding a value never takes it past the power of two above or below it.\<close>

lemma rounded_le_pow2:
  assumes "0 < x" "x < 2 powi e" "2 - emax m - prec m \<le> e" "1 < prec m"
  shows "rounded m x \<le> 2 powi e"
proof -
  have q: "qexp m \<bar>x\<bar> \<le> e"
    using assms ilog2_less [of x "e - 1"] by (simp add: qexp_def)
  let ?q = "(2::rat) powi qexp m \<bar>x\<bar>"
  have pow: "2 powi e / ?q = of_int (2 ^ nat (e - qexp m \<bar>x\<bar>))"
    using q by (simp add: power_int_nonneg_exp flip: power_int_diff)
  have "rne (x / ?q) \<le> rne (2 powi e / ?q)"
    using assms by (intro rne_mono divide_right_mono) auto
  then have "rne (x / ?q) \<le> 2 ^ nat (e - qexp m \<bar>x\<bar>)" by (simp only: pow rne_of_int)
  then have "of_int (rne (x / ?q)) \<le> 2 powi e / ?q"
    by (simp only: pow of_int_le_iff)
  then show ?thesis using assms by (simp add: rounded_def Let_def field_simps)
qed

lemma rounded_ge_pow2:
  assumes "0 < x" "2 powi e \<le> x" "2 - emax m - prec m \<le> e" "1 < prec m" "e \<le> ilog2 x"
  shows "2 powi e \<le> rounded m x"
proof -
  define i where "i = ilog2 x"
  have lx: "2 powi i \<le> x" using assms ilog2_bounds(1) [of x] by (simp add: i_def)
  have q: "qexp m \<bar>x\<bar> \<le> i" using assms by (simp add: qexp_def i_def)
  let ?q = "(2::rat) powi qexp m \<bar>x\<bar>"
  have pow: "2 powi i / ?q = of_int (2 ^ nat (i - qexp m \<bar>x\<bar>))"
    using q by (simp add: power_int_nonneg_exp flip: power_int_diff)
  have "rne (2 powi i / ?q) \<le> rne (x / ?q)"
    using lx by (intro rne_mono divide_right_mono) auto
  then have "2 ^ nat (i - qexp m \<bar>x\<bar>) \<le> rne (x / ?q)" by (simp only: pow rne_of_int)
  then have "2 powi i / ?q \<le> of_int (rne (x / ?q))"
    by (simp only: pow of_int_le_iff)
  then have "2 powi i \<le> rounded m x" using assms by (simp add: rounded_def Let_def field_simps)
  then show ?thesis using assms power_int_increasing [of e i "2::rat"] by (simp add: i_def)
qed

lemma rounded_mono_pos:
  assumes "0 < x" "x \<le> y" "1 < prec m"
  shows "rounded m x \<le> rounded m y"
proof (cases "qexp m x = qexp m y")
  case True
  then show ?thesis using assms by (intro rounded_le_same_qexp) auto
next
  case False
  have "ilog2 x \<le> ilog2 y" using assms by (intro ilog2_mono) auto
  then have lt: "ilog2 x < ilog2 y" "2 - emax m - prec m < ilog2 y - (prec m - 1)"
    using False by (auto simp: qexp_def max_def split: if_splits)
  have "x < 2 powi ilog2 y"
    using ilog2_bounds(2) [OF assms(1)] lt(1)
      power_int_increasing [of "ilog2 x + 1" "ilog2 y" "2::rat"] by simp
  then have "rounded m x \<le> 2 powi ilog2 y" using assms lt by (intro rounded_le_pow2) auto
  also have "\<dots> \<le> rounded m y"
    using assms lt ilog2_bounds(1) [of y] by (intro rounded_ge_pow2) auto
  finally show ?thesis .
qed

lemma rounded_mono:
  assumes "x \<le> y" "1 < prec m"
  shows "rounded m x \<le> rounded m y"
proof -
  consider "0 < x" | "x \<le> 0" "0 \<le> y" | "y < 0" using assms by linarith
  then show ?thesis
  proof cases
    case 1
    then show ?thesis using assms by (intro rounded_mono_pos)
  next
    case 2
    then show ?thesis
      using rounded_nonneg [of y m] rounded_nonneg [of "- x" m] by (simp add: rounded_minus)
  next
    case 3
    then show ?thesis
      using rounded_mono_pos [of "- y" "- x" m] assms by (simp add: rounded_minus)
  qed
qed

section \<open>Casts\<close>

lemma trunc_of_int [simp]: "trunc (of_int n) = n"
  by (simp add: trunc_def)

lemma trunc_minus: "trunc (- x) = - trunc x"
  by (auto simp: trunc_def ceiling_def)

lemma trunc_mono: "x \<le> y \<Longrightarrow> trunc x \<le> trunc y"
proof (cases "x < 0 \<and> 0 \<le> y")
  case True
  then have "\<lceil>x\<rceil> \<le> 0" "0 \<le> \<lfloor>y\<rfloor>" by (auto simp: ceiling_le_iff)
  then have "\<lceil>x\<rceil> \<le> \<lfloor>y\<rfloor>" by linarith
  with True show ?thesis by (simp add: trunc_def)
next
  case False
  moreover assume "x \<le> y"
  ultimately show ?thesis by (auto simp: trunc_def intro: floor_mono ceiling_mono)
qed

lemma trunc_abs_le: "\<bar>x\<bar> \<le> of_int n \<Longrightarrow> \<bar>trunc x\<bar> \<le> n"
  using trunc_mono [of x "of_int n"] trunc_mono [of "- of_int n" x]
  by (simp add: abs_le_iff trunc_minus [of "of_int n"])

lemma fcast_Num:
  "lo \<le> trunc x \<Longrightarrow> trunc x \<le> hi \<Longrightarrow> fcast lo hi (Num x) = Inr (word_of_int (trunc x))"
  by (simp add: Let_def)

lemma rounded_abs_le:
  assumes "1 < prec m" "rounded m y = y" "\<bar>x\<bar> \<le> y"
  shows "\<bar>rounded m x\<bar> \<le> y"
  using rounded_mono [of x y m] rounded_mono [of "- y" x m] assms
  by (simp add: abs_le_iff rounded_minus)

section \<open>Rounding to a finite value\<close>

definition sane :: "fmt \<Rightarrow> bool" where
  "sane m \<longleftrightarrow> 1 < prec m \<and> 1 < emax m"

lemma sane_b32 [simp]: "sane b32" and sane_b64 [simp]: "sane b64"
  by (simp_all add: sane_def)

lemma fround_Num [fp]:
  assumes "sane m" "\<bar>x\<bar> \<le> 2 powi emax m"
  shows "fround m x = Num (rounded m x)"
proof -
  have "\<bar>rounded m x\<bar> \<le> 2 powi emax m"
    using assms by (intro rounded_abs_le rounded_pow2) (auto simp: sane_def)
  also have "\<dots> < 2 powi (emax m + 1)" by (rule power_int_strict_increasing) auto
  finally show ?thesis by (simp add: fround_def Let_def)
qed

text \<open>The two formats, for values well inside their range.\<close>

lemma fround_b32 [fp]: "\<bar>x\<bar> \<le> 2 ^ 60 \<Longrightarrow> fround b32 x = Num (rounded b32 x)"
  using power_int_increasing [of 60 127 "2::rat"] by (intro fround_Num) simp_all

lemma fround_b64 [fp]: "\<bar>x\<bar> \<le> 2 ^ 60 \<Longrightarrow> fround b64 x = Num (rounded b64 x)"
proof (rule fround_Num)
  assume "\<bar>x\<bar> \<le> 2 ^ 60"
  also have "(2::rat) ^ 60 = 2 powi 60" by simp
  also have "\<dots> \<le> 2 powi 1023" by (rule power_int_increasing) simp_all
  finally show "\<bar>x\<bar> \<le> 2 powi emax b64" by (simp only: fmt_simps)
qed simp

lemma rounded_rel_small:
  assumes "sane m" "60 < emax m" "1 / 2 ^ 60 \<le> \<bar>x\<bar>"
  shows "\<bar>rounded m x - x\<bar> \<le> \<bar>x\<bar> * 2 powi (- prec m)"
proof (rule rounded_rel)
  have "(2::rat) powi (1 - emax m) \<le> 2 powi (- 60)"
    using assms by (intro power_int_increasing) auto
  also have "\<dots> = 1 / 2 ^ 60" by (simp add: power_int_minus)
  finally show "2 powi (1 - emax m) \<le> \<bar>x\<bar>" using assms(3) by linarith
qed

lemma rounded_rel_b32: "1 / 2 ^ 60 \<le> \<bar>x\<bar> \<Longrightarrow> \<bar>rounded b32 x - x\<bar> \<le> \<bar>x\<bar> / 2 ^ 24"
  using rounded_rel_small [of b32 x] by (simp add: power_int_minus)

lemma rounded_rel_b64: "1 / 2 ^ 60 \<le> \<bar>x\<bar> \<Longrightarrow> \<bar>rounded b64 x - x\<bar> \<le> \<bar>x\<bar> / 2 ^ 53"
  using rounded_rel_small [of b64 x] by (simp add: power_int_minus)

lemma rounded_b32_of_int: "\<bar>k\<bar> < 2 ^ 24 \<Longrightarrow> rounded b32 (of_int k) = of_int k"
  by (rule rounded_of_int) auto

end
