(* ===== verification/Quantise.thy ===== *)
theory Quantise
  imports Ieee
begin

text \<open>
  How physical quantities cross the wire: the conversions between 16-bit integers counting
  thousandths or tenths and the \<open>float\<close> fields of the messages, in the exact floating point
  arithmetic the sources use, and the error bounds of both directions. Shared by the version 1
  and version 2 codecs.
\<close>

section \<open>Conversions\<close>

text \<open>Integers of at most 32 bits convert to \<open>double\<close> exactly.\<close>

abbreviation of_i16 :: "u16 \<Rightarrow> flt" where "of_i16 w \<equiv> Num (of_int (sint w))"
abbreviation of_u16 :: "u16 \<Rightarrow> flt" where "of_u16 w \<equiv> Num (of_int (uint w))"

definition c01 :: flt where "c01 = fround b64 (1 / 10)"
definition c0001 :: flt where "c0001 = fround b64 (1 / 1000)"
definition c01f :: flt where "c01f = fround b32 (1 / 10)"

text \<open>\<open>(int16_t) w / 1000.0\<close>, \<open>(int16_t) w * 0.1\<close>, \<open>(int16_t) w * 0.001\<close> (in double, stored as
  float) and \<open>(int16_t) w * 0.1f\<close> (in float).\<close>

definition milli :: "u16 \<Rightarrow> flt" where
  "milli w = fconv b32 (fdiv b64 (of_i16 w) (Num 1000))"

definition deci :: "u16 \<Rightarrow> flt" where
  "deci w = fconv b32 (fmul b64 (of_i16 w) c01)"

definition deci_u :: "u16 \<Rightarrow> flt" where
  "deci_u w = fconv b32 (fmul b64 (of_u16 w) c01)"

definition milli_mul :: "u16 \<Rightarrow> flt" where
  "milli_mul w = fconv b32 (fmul b64 (of_i16 w) c0001)"

definition deci_f :: "u16 \<Rightarrow> flt" where
  "deci_f w = fmul b32 (of_i16 w) c01f"

definition float_of_i32 :: "u32 \<Rightarrow> flt" where
  "float_of_i32 w = fround b32 (of_int (sint w))"

definition float_of_i16 :: "u16 \<Rightarrow> flt" where
  "float_of_i16 w = fround b32 (of_int (sint w))"

definition float_of_i8 :: "u8 \<Rightarrow> flt" where
  "float_of_i8 w = fround b32 (of_int (sint w))"

text \<open>\<open>(int16_t)(v * 1000)\<close> in float arithmetic.\<close>

definition to_milli :: "flt \<Rightarrow> ub + i16" where
  "to_milli v = cast_i16 (fmul b32 v (Num 1000))"

section \<open>Error bounds\<close>

declare of_int_sint [simp del] of_int_uint [simp del]

lemma sint16_bounds: "- 32768 \<le> sint (w :: u16)" "sint (w :: u16) < 32768"
  using sint_ge [of w] sint_lt [of w] by simp_all

lemma sint16_abs: "\<bar>rat_of_int (sint (w :: u16))\<bar> \<le> 32768"
proof -
  have "\<bar>sint w\<bar> \<le> 32768" using sint16_bounds [of w] by linarith
  then have "rat_of_int \<bar>sint w\<bar> \<le> rat_of_int 32768" by (simp only: of_int_le_iff)
  then show ?thesis by (simp only: of_int_abs of_int_numeral)
qed

text \<open>Rounding to double and then to float: at most \<open>2 ^ - 23\<close> of the value in total.\<close>

lemma double_rounding:
  assumes "1 / 1000 \<le> \<bar>x\<bar>" "\<bar>x\<bar> \<le> 2 ^ 20"
  shows "\<bar>rounded b32 (rounded b64 x) - x\<bar> \<le> \<bar>x\<bar> / 2 ^ 23"
proof -
  let ?y = "rounded b64 x"
  have y: "\<bar>?y - x\<bar> \<le> \<bar>x\<bar> / 2 ^ 53"
    using assms by (intro rounded_rel_b64) (simp add: divide_simps)
  then have "\<bar>x\<bar> / 2 \<le> \<bar>?y\<bar>" "\<bar>?y\<bar> \<le> \<bar>x\<bar> * (1 + 1 / 2 ^ 53)"
    by (auto simp: abs_if field_simps split: if_splits)
  then have "\<bar>rounded b32 ?y - ?y\<bar> \<le> \<bar>x\<bar> * (1 + 1 / 2 ^ 53) / 2 ^ 24"
    using assms rounded_rel_b32 [of ?y] by (simp add: field_simps)
  with y have "\<bar>rounded b32 ?y - x\<bar> \<le> \<bar>x\<bar> * (1 + 1 / 2 ^ 53) / 2 ^ 24 + \<bar>x\<bar> / 2 ^ 53"
    by linarith
  also have "\<dots> \<le> \<bar>x\<bar> / 2 ^ 23" by (simp add: field_simps)
  finally show ?thesis .
qed

lemma rounded_range: "sane m \<Longrightarrow> \<bar>x\<bar> \<le> 2 ^ 20 \<Longrightarrow> - emax m \<le> 0 \<Longrightarrow> \<bar>rounded m x\<bar> \<le> 2 ^ 20"
  using rounded_abs_le [of m "2 powi 20" x] rounded_pow2 [of m 20] by (simp add: sane_def)

lemma milli_Num: "milli w = Num (rounded b32 (rounded b64 (of_int (sint w) / 1000)))"
proof -
  let ?x = "rat_of_int (sint w) / 1000"
  have x: "\<bar>?x\<bar> \<le> 2 ^ 20" using sint16_abs [of w] by (simp add: abs_divide)
  then have "\<bar>rounded b64 ?x\<bar> \<le> 2 ^ 20" by (intro rounded_range) auto
  with x show ?thesis by (simp add: milli_def fround_b64 fround_b32)
qed

text \<open>A decoded velocity is within \<open>2 ^ - 23\<close>, relatively, of the thousandths on the wire.\<close>

lemma milli_error:
  "\<exists>v. milli w = Num v \<and> \<bar>v - of_int (sint w) / 1000\<bar> \<le> \<bar>of_int (sint w)\<bar> / 1000 / 2 ^ 23"
proof (cases "sint w = 0")
  case False
  let ?x = "rat_of_int (sint w) / 1000"
  have "1 \<le> \<bar>sint w\<bar>" using False by linarith
  then have "rat_of_int 1 \<le> rat_of_int \<bar>sint w\<bar>" by (simp only: of_int_le_iff)
  then have "1 / 1000 \<le> \<bar>?x\<bar>" by (simp add: abs_divide)
  moreover have "\<bar>?x\<bar> \<le> 2 ^ 20" using sint16_abs [of w] by (simp add: abs_divide)
  ultimately have "\<bar>rounded b32 (rounded b64 ?x) - ?x\<bar> \<le> \<bar>?x\<bar> / 2 ^ 23"
    by (rule double_rounding)
  then show ?thesis by (simp add: milli_Num abs_divide)
qed (simp add: milli_Num)

text \<open>The product of a float by 1000, in the range where the cast is defined.\<close>

lemma to_milli_Num:
  assumes "\<bar>v\<bar> \<le> 2 ^ 10"
  shows "to_milli (Num v) = cast_i16 (Num (rounded b32 (v * 1000)))"
proof -
  have "\<bar>v * 1000\<bar> \<le> 2 ^ 60" using assms by (simp add: abs_mult)
  then show ?thesis by (simp add: to_milli_def fround_b32)
qed

lemma rounded_times_1000:
  assumes "\<bar>v\<bar> \<le> 40"
  shows "\<bar>rounded b32 (v * 1000) - v * 1000\<bar> \<le> 1 / 2 ^ 8"
proof (cases "1 / 2 ^ 60 \<le> \<bar>v * 1000\<bar>")
  case True
  then have "\<bar>rounded b32 (v * 1000) - v * 1000\<bar> \<le> \<bar>v * 1000\<bar> / 2 ^ 24"
    by (rule rounded_rel_b32)
  also have "\<dots> \<le> 1 / 2 ^ 8" using assms by (simp add: abs_mult field_simps)
  finally show ?thesis .
next
  case False
  let ?e = "(2::rat) powi (- 60)"
  have e: "?e = 1 / 2 ^ 60" by (simp add: power_int_minus)
  have "rounded b32 ?e = ?e" by (rule rounded_pow2) auto
  then have "\<bar>rounded b32 (v * 1000)\<bar> \<le> ?e"
    by (intro rounded_abs_le) (use False e in auto)
  then have "\<bar>rounded b32 (v * 1000) - v * 1000\<bar> \<le> ?e + ?e" using False e by linarith
  also have "\<dots> \<le> 1 / 2 ^ 8" unfolding e by simp
  finally show ?thesis .
qed

lemma abs_trunc_diff: "\<bar>of_int (trunc x) - x\<bar> < 1"
  unfolding trunc_def by (auto simp: abs_if) linarith+

lemma trunc_between:
  assumes "\<bar>x - of_int n\<bar> < 1"
  shows "trunc x = n \<or> trunc x = n - sgn n"
proof -
  consider "0 < n" | "n = 0" | "n < 0" by linarith
  then show ?thesis
  proof cases
    case 1
    then have "0 \<le> x" using assms by linarith
    moreover have "\<lfloor>x\<rfloor> = n \<or> \<lfloor>x\<rfloor> = n - 1" using assms by linarith
    ultimately show ?thesis using 1 by (simp add: trunc_def)
  next
    case 2
    have "trunc x = 0" unfolding trunc_def using assms 2 by (auto simp: floor_eq_iff ceiling_eq_iff)
    then show ?thesis using 2 by simp
  next
    case 3
    then have "x < 0" using assms by linarith
    moreover have "\<lceil>x\<rceil> = n \<or> \<lceil>x\<rceil> = n + 1" using assms by linarith
    ultimately show ?thesis using 3 by (simp add: trunc_def)
  qed
qed

lemma sint_word_of_int_16:
  "- 32768 \<le> k \<Longrightarrow> k \<le> 32767 \<Longrightarrow> sint (word_of_int k :: u16) = k"
  by (simp add: sint_sbintrunc' signed_take_bit_int_eq_self)

lemma cast_i16_Num:
  assumes "- 32768 \<le> trunc x" "trunc x \<le> 32767"
  shows "\<exists>w. cast_i16 (Num x) = Inr w \<and> sint w = trunc x"
proof -
  have "sint (word_of_int (trunc x) :: u16) = trunc x"
    using assms by (rule sint_word_of_int_16)
  then show ?thesis using assms by (simp add: cast_i16_def fcast_Num)
qed

lemma cast_i16_InrD: "cast_i16 (Num x) = Inr w \<Longrightarrow> sint w = trunc x"
  by (auto simp: cast_i16_def Let_def sint_word_of_int_16 split: if_splits)

text \<open>Decoding a velocity and encoding it again gives the same count, or the next one towards
  zero: the encoder truncates.\<close>

lemma to_milli_milli:
  "\<exists>w'. to_milli (milli w) = Inr w' \<and> (sint w' = sint w \<or> sint w' = sint w - sgn (sint w))"
proof -
  let ?n = "rat_of_int (sint w)"
  obtain v where v: "milli w = Num v" and e: "\<bar>v - ?n / 1000\<bar> \<le> \<bar>?n\<bar> / 1000 / 2 ^ 23"
    using milli_error by blast
  have n: "\<bar>?n\<bar> \<le> 32768" by (rule sint16_abs)
  then have "\<bar>?n\<bar> / 1000 / 2 ^ 23 \<le> 1 / 2 ^ 17" by simp
  with e have e': "\<bar>v - ?n / 1000\<bar> \<le> 1 / 2 ^ 17" by linarith
  then have v40: "\<bar>v\<bar> \<le> 40" using n by (simp add: abs_if split: if_splits)
  let ?u = "rounded b32 (v * 1000)"
  have "\<bar>v * 1000 - ?n\<bar> \<le> 1 / 2 ^ 7" using e' by (simp add: abs_if split: if_splits)
  then have "\<bar>?u - ?n\<bar> < 1" using rounded_times_1000 [OF v40] by (simp add: abs_if split: if_splits)
  then have t: "trunc ?u = sint w \<or> trunc ?u = sint w - sgn (sint w)" by (rule trunc_between)
  then have "- 32768 \<le> trunc ?u" "trunc ?u \<le> 32767"
    using sint16_bounds [of w] by (auto simp: sgn_if)
  then obtain w' where "cast_i16 (Num ?u) = Inr w'" "sint w' = trunc ?u" using cast_i16_Num by blast
  with t show ?thesis using v40 by (simp add: v to_milli_Num)
qed

text \<open>Encoding a value and decoding it again: off by little more than one thousandth.\<close>

lemma milli_to_milli:
  assumes "to_milli (Num v) = Inr w" and "\<bar>v\<bar> \<le> 32.767"
  shows "\<exists>v'. milli w = Num v' \<and> \<bar>v' - v\<bar> < 1.02 / 1000"
proof -
  let ?n = "rat_of_int (sint w)"
  let ?u = "rounded b32 (v * 1000)"
  have v40: "\<bar>v\<bar> \<le> 40" using assms(2) by simp
  have "cast_i16 (Num ?u) = Inr w" using assms(1) v40 by (simp add: to_milli_Num)
  then have "sint w = trunc ?u" by (rule cast_i16_InrD)
  then have "\<bar>?n - ?u\<bar> < 1" by (simp only: abs_trunc_diff)
  then have nv: "\<bar>?n / 1000 - v\<bar> < 1 / 1000 + 1 / 2 ^ 8 / 1000"
    using rounded_times_1000 [OF v40] by (simp add: abs_if split: if_splits)
  obtain v' where v': "milli w = Num v'" and e: "\<bar>v' - ?n / 1000\<bar> \<le> \<bar>?n\<bar> / 1000 / 2 ^ 23"
    using milli_error by blast
  have "\<bar>?n\<bar> / 1000 / 2 ^ 23 \<le> 1 / 2 ^ 17" using sint16_abs [of w] by simp
  with e nv have "\<bar>v' - v\<bar> < 1 / 1000 + 1 / 2 ^ 8 / 1000 + 1 / 2 ^ 17" by linarith
  then show ?thesis using v' by simp
qed

text \<open>Every command up to 32.767 in magnitude is encodable.\<close>

lemma to_milli_defined:
  assumes "\<bar>v\<bar> \<le> 32.767"
  shows "\<exists>w. to_milli (Num v) = Inr w \<and> sint w = trunc (rounded b32 (v * 1000))"
proof -
  let ?u = "rounded b32 (v * 1000)"
  have "rounded b32 32767 = 32767" using rounded_b32_of_int [of 32767] by simp
  moreover have "\<bar>v * 1000\<bar> \<le> 32767" using assms by (simp add: abs_mult)
  ultimately have "\<bar>?u\<bar> \<le> of_int 32767" by (simp add: rounded_abs_le)
  then have "\<bar>trunc ?u\<bar> \<le> 32767" by (rule trunc_abs_le)
  then have "\<exists>w. cast_i16 (Num ?u) = Inr w \<and> sint w = trunc ?u" by (intro cast_i16_Num) auto
  moreover have "\<bar>v\<bar> \<le> 2 ^ 10" using assms by simp
  ultimately show ?thesis by (simp only: to_milli_Num)
qed

text \<open>The encoder keeps the order of commands.\<close>

lemma to_milli_mono:
  assumes "v \<le> v'" "\<bar>v\<bar> \<le> 32.767" "\<bar>v'\<bar> \<le> 32.767"
    "to_milli (Num v) = Inr w" "to_milli (Num v') = Inr w'"
  shows "sint w \<le> sint w'"
proof -
  have "rounded b32 (v * 1000) \<le> rounded b32 (v' * 1000)"
    using assms(1) by (intro rounded_mono) auto
  then have "trunc (rounded b32 (v * 1000)) \<le> trunc (rounded b32 (v' * 1000))"
    by (rule trunc_mono)
  then show ?thesis using to_milli_defined [OF assms(2)] to_milli_defined [OF assms(3)] assms(4,5)
    by auto
qed

end
