(* ===== verification/Agx_Types.thy ===== *)
theory Agx_Types
  imports Ieee
begin

text \<open>
  The data of the AgileX SDK: the enumerations of \<open>agilex_types.h\<close>, the messages of
  \<open>agilex_message.h\<close> (one record per struct, the tagged union \<open>AgxMessage\<close> as a record of the
  tag and a datatype with one constructor per union member) and the CAN frame of
  \<open>parser_base.hpp\<close>.

  A C enumeration holds any value of its underlying integer, and the parsers store raw frame
  bytes in enumeration fields, so an enumeration type is a 32-bit word with named values.
  A \<open>float\<close> field is a \<^typ>\<open>flt\<close>.
\<close>

section \<open>Enumerations\<close>

type_synonym AgxLightMode = u32

abbreviation (input) CONST_OFF :: AgxLightMode where "CONST_OFF \<equiv> 0"
abbreviation (input) CONST_ON :: AgxLightMode where "CONST_ON \<equiv> 1"
abbreviation (input) BREATH :: AgxLightMode where "BREATH \<equiv> 2"
abbreviation (input) CUSTOM :: AgxLightMode where "CUSTOM \<equiv> 3"

record AgxLightOperation =
  mode :: AgxLightMode
  custom_value :: u8

type_synonym AgxVehicleState = u32

abbreviation (input) VEHICLE_STATE_NORMAL :: AgxVehicleState where "VEHICLE_STATE_NORMAL \<equiv> 0"
abbreviation (input) VEHICLE_STATE_ESTOP :: AgxVehicleState where "VEHICLE_STATE_ESTOP \<equiv> 1"
abbreviation (input) VEHICLE_STATE_EXCEPTION :: AgxVehicleState where "VEHICLE_STATE_EXCEPTION \<equiv> 2"

type_synonym AgxControlMode = u32

abbreviation (input) CONTROL_MODE_STANDBY :: AgxControlMode where "CONTROL_MODE_STANDBY \<equiv> 0"
abbreviation (input) CONTROL_MODE_CAN :: AgxControlMode where "CONTROL_MODE_CAN \<equiv> 1"
abbreviation (input) CONTROL_MODE_UART :: AgxControlMode where "CONTROL_MODE_UART \<equiv> 2"
abbreviation (input) CONTROL_MODE_RC :: AgxControlMode where "CONTROL_MODE_RC \<equiv> 3"

type_synonym AgxBrakeMode = u32

abbreviation (input) BRAKE_MODE_UNLOCK :: AgxBrakeMode where "BRAKE_MODE_UNLOCK \<equiv> 0"
abbreviation (input) BRAKE_MODE_LOCK :: AgxBrakeMode where "BRAKE_MODE_LOCK \<equiv> 1"

type_synonym AgxRcSwitchState = u32

abbreviation (input) RC_SWITCH_UP :: AgxRcSwitchState where "RC_SWITCH_UP \<equiv> 0"
abbreviation (input) RC_SWITCH_MIDDLE :: AgxRcSwitchState where "RC_SWITCH_MIDDLE \<equiv> 1"
abbreviation (input) RC_SWITCH_DOWN :: AgxRcSwitchState where "RC_SWITCH_DOWN \<equiv> 2"

section \<open>Messages\<close>

record MotionCommandMessage =
  mcm_linear_velocity :: flt
  mcm_angular_velocity :: flt
  mcm_lateral_velocity :: flt
  mcm_steering_angle :: flt

record LightCommandMessage =
  enable_cmd_ctrl :: bool
  front_light :: AgxLightOperation
  rear_light :: AgxLightOperation

record BrakingCommandMessage =
  enable_braking :: bool

record MotionModeCommandMessage =
  mmc_motion_mode :: u8

record MotionCommandMessageV1 =
  mc1_control_mode :: AgxControlMode
  mc1_clear_all_error :: bool
  mc1_linear :: flt
  mc1_angular :: flt
  mc1_lateral :: flt

record ValueSetCommandMessageV1 =
  set_neutral :: bool

type_synonym ValueSetStateMessageV1 = ValueSetCommandMessageV1

record SystemStateMessage =
  vehicle_state :: AgxVehicleState
  control_mode :: AgxControlMode
  battery_voltage :: flt
  error_code :: u16

record MotionStateMessage =
  linear_velocity :: flt
  angular_velocity :: flt
  lateral_velocity :: flt
  steering_angle :: flt

type_synonym LightStateMessage = LightCommandMessage

record RcStateMessage =
  swa :: AgxRcSwitchState
  swb :: AgxRcSwitchState
  swc :: AgxRcSwitchState
  swd :: AgxRcSwitchState
  stick_right_v :: i8
  stick_right_h :: i8
  stick_left_v :: i8
  stick_left_h :: i8
  var_a :: i8

record ActuatorHSStateMessage =
  hs_motor_id :: u8
  hs_rpm :: i16
  hs_current :: flt
  hs_pulse_count :: i32

record ActuatorLSStateMessage =
  ls_motor_id :: u8
  ls_driver_voltage :: flt
  ls_driver_temp :: flt
  ls_motor_temp :: flt
  ls_driver_state :: u8

record MotionModeStateMessage =
  motion_mode :: u8
  mode_changing :: u8

record ActuatorStateMessageV1 =
  a1_motor_id :: u8
  a1_current :: flt
  a1_rpm :: i16
  a1_driver_temp :: flt
  a1_motor_temp :: flt

record OdometryMessage =
  left_wheel :: flt
  right_wheel :: flt

record UltrasonicMessage =
  us_sensor_id :: u8
  us_distance :: "u8 list"

record UwbMessage =
  uwb_sensor_id :: u8
  relative_distance :: flt
  relative_angle :: flt
  is_normal :: bool
  channels :: "i8 list"

record BmsBasicMessage =
  battery_soc :: u8
  battery_soh :: u8
  bms_voltage :: flt
  bms_current :: flt
  bms_temperature :: flt

record MotorAngleMessage =
  angle_5 :: flt
  angle_6 :: flt
  angle_7 :: flt
  angle_8 :: flt

record MotorSpeedMessage =
  speed_1 :: flt
  speed_2 :: flt
  speed_3 :: flt
  speed_4 :: flt

record BmsExtendedMessage =
  alarm_status_1 :: u8
  alarm_status_2 :: u8
  warn_status_1 :: u8
  warn_status_2 :: u8

record VersionResponseMessage =
  vr_bytes :: "u8 list"

record ControlModeConfigMessage =
  cmc_mode :: AgxControlMode

record BrakeModeConfigMessage =
  bmc_mode :: AgxBrakeMode

record StateResetConfigMessage =
  error_clear_byte :: u8

datatype MsgType =
     AgxMsgUnkonwn | AgxMsgMotionCommand | AgxMsgLightCommand | AgxMsgBrakingCommand
   | AgxMsgSetMotionModeCommand | AgxMsgSystemState | AgxMsgMotionState
   | AgxMsgLightState | AgxMsgMotionModeState | AgxMsgRcState | AgxMsgActuatorHSState
   | AgxMsgActuatorLSState | AgxMsgMotorAngle | AgxMsgMotorSpeed | AgxMsgOdometry
   | AgxMsgImuAccel | AgxMsgImuGyro | AgxMsgImuEuler | AgxMsgSafetyBumper
   | AgxMsgUltrasonic | AgxMsgUwb | AgxMsgBmsBasic | AgxMsgBmsExtended
   | AgxMsgVersionRequest | AgxMsgVersionResponse | AgxMsgControlModeConfig
   | AgxMsgSteerNeutralRequest | AgxMsgSteerNeutralResponse | AgxMsgStateResetConfig
   | AgxMsgBrakeModeConfig | AgxMsgMotionCommandV1 | AgxMsgValueSetCommandV1
   | AgxMsgValueSetStateV1 | AgxMsgActuatorStateV1

text \<open>
  The union. \<open>Uninit\<close> is a union no member of which was written. \<open>LightStateMessage\<close> and
  \<open>ValueSetStateMessageV1\<close> are type aliases in the source, so the state and the command member
  are one constructor. The members of message kinds whose body no code under \<open>src/\<close> reads or
  writes (the IMU, bumper, braking and neutral setting messages) have no constructor.
\<close>

datatype AgxBody =
    Uninit
  | U_motion_command MotionCommandMessage
  | U_light_command LightCommandMessage
  | U_motion_mode MotionModeCommandMessage
  | U_system_state SystemStateMessage
  | U_motion_state MotionStateMessage
  | U_motion_mode_state MotionModeStateMessage
  | U_rc_state RcStateMessage
  | U_actuator_hs_state ActuatorHSStateMessage
  | U_actuator_ls_state ActuatorLSStateMessage
  | U_odometry OdometryMessage
  | U_ultrasonic UltrasonicMessage
  | U_uwb UwbMessage
  | U_bms_basic BmsBasicMessage
  | U_bms_extended BmsExtendedMessage
  | U_version_response VersionResponseMessage
  | U_control_mode_config ControlModeConfigMessage
  | U_brake_mode_config BrakeModeConfigMessage
  | U_state_reset_config StateResetConfigMessage
  | U_v1_motion_command MotionCommandMessageV1
  | U_v1_value_set ValueSetCommandMessageV1
  | U_v1_actuator_state ActuatorStateMessageV1
  | U_motor_angle MotorAngleMessage
  | U_motor_speed MotorSpeedMessage

record AgxMessage =
  msg_type :: MsgType
  msg_body :: AgxBody

section \<open>Reading the union\<close>

text \<open>
  Reading a member that was not the one written is \<^const>\<open>WrongMember\<close>, but for the two members
  that consist of one enumeration at the same address: the encoder reads the brake mode of a
  \<open>BrakeModeConfigMessage\<close> through \<open>control_mode_config_msg\<close>.
\<close>

fun motion_command_msg :: "AgxBody \<Rightarrow> ub + MotionCommandMessage" where
  "motion_command_msg (U_motion_command x) = Inr x"
| "motion_command_msg _ = Inl WrongMember"

fun light_command_msg :: "AgxBody \<Rightarrow> ub + LightCommandMessage" where
  "light_command_msg (U_light_command x) = Inr x"
| "light_command_msg _ = Inl WrongMember"

fun motion_mode_msg :: "AgxBody \<Rightarrow> ub + MotionModeCommandMessage" where
  "motion_mode_msg (U_motion_mode x) = Inr x"
| "motion_mode_msg _ = Inl WrongMember"

fun system_state_msg :: "AgxBody \<Rightarrow> ub + SystemStateMessage" where
  "system_state_msg (U_system_state x) = Inr x"
| "system_state_msg _ = Inl WrongMember"

fun motion_state_msg :: "AgxBody \<Rightarrow> ub + MotionStateMessage" where
  "motion_state_msg (U_motion_state x) = Inr x"
| "motion_state_msg _ = Inl WrongMember"

fun motion_mode_state_msg :: "AgxBody \<Rightarrow> ub + MotionModeStateMessage" where
  "motion_mode_state_msg (U_motion_mode_state x) = Inr x"
| "motion_mode_state_msg _ = Inl WrongMember"

fun rc_state_msg :: "AgxBody \<Rightarrow> ub + RcStateMessage" where
  "rc_state_msg (U_rc_state x) = Inr x"
| "rc_state_msg _ = Inl WrongMember"

fun actuator_hs_state_msg :: "AgxBody \<Rightarrow> ub + ActuatorHSStateMessage" where
  "actuator_hs_state_msg (U_actuator_hs_state x) = Inr x"
| "actuator_hs_state_msg _ = Inl WrongMember"

fun actuator_ls_state_msg :: "AgxBody \<Rightarrow> ub + ActuatorLSStateMessage" where
  "actuator_ls_state_msg (U_actuator_ls_state x) = Inr x"
| "actuator_ls_state_msg _ = Inl WrongMember"

fun ultrasonic_msg :: "AgxBody \<Rightarrow> ub + UltrasonicMessage" where
  "ultrasonic_msg (U_ultrasonic x) = Inr x"
| "ultrasonic_msg _ = Inl WrongMember"

fun uwb_msg :: "AgxBody \<Rightarrow> ub + UwbMessage" where
  "uwb_msg (U_uwb x) = Inr x"
| "uwb_msg _ = Inl WrongMember"

fun bms_basic_msg :: "AgxBody \<Rightarrow> ub + BmsBasicMessage" where
  "bms_basic_msg (U_bms_basic x) = Inr x"
| "bms_basic_msg _ = Inl WrongMember"

fun bms_extended_msg :: "AgxBody \<Rightarrow> ub + BmsExtendedMessage" where
  "bms_extended_msg (U_bms_extended x) = Inr x"
| "bms_extended_msg _ = Inl WrongMember"

fun version_response_msg :: "AgxBody \<Rightarrow> ub + VersionResponseMessage" where
  "version_response_msg (U_version_response x) = Inr x"
| "version_response_msg _ = Inl WrongMember"

fun control_mode_config_msg :: "AgxBody \<Rightarrow> ub + ControlModeConfigMessage" where
  "control_mode_config_msg (U_control_mode_config x) = Inr x"
| "control_mode_config_msg (U_brake_mode_config x) = Inr \<lparr>cmc_mode = bmc_mode x\<rparr>"
| "control_mode_config_msg _ = Inl WrongMember"

fun v1_motion_command_msg :: "AgxBody \<Rightarrow> ub + MotionCommandMessageV1" where
  "v1_motion_command_msg (U_v1_motion_command x) = Inr x"
| "v1_motion_command_msg _ = Inl WrongMember"

fun v1_value_set_msg :: "AgxBody \<Rightarrow> ub + ValueSetCommandMessageV1" where
  "v1_value_set_msg (U_v1_value_set x) = Inr x"
| "v1_value_set_msg _ = Inl WrongMember"

fun v1_actuator_state_msg :: "AgxBody \<Rightarrow> ub + ActuatorStateMessageV1" where
  "v1_actuator_state_msg (U_v1_actuator_state x) = Inr x"
| "v1_actuator_state_msg _ = Inl WrongMember"

fun motor_angle_msg :: "AgxBody \<Rightarrow> ub + MotorAngleMessage" where
  "motor_angle_msg (U_motor_angle x) = Inr x"
| "motor_angle_msg _ = Inl WrongMember"

fun motor_speed_msg :: "AgxBody \<Rightarrow> ub + MotorSpeedMessage" where
  "motor_speed_msg (U_motor_speed x) = Inr x"
| "motor_speed_msg _ = Inl WrongMember"

section \<open>CAN frames\<close>

text \<open>The data bytes are an array of eight: \<open>wf_frame\<close>.\<close>

record can_frame =
  can_id :: u32
  can_dlc :: u8
  can_data :: "u8 list"

definition wf_frame :: "can_frame \<Rightarrow> bool" where
  "wf_frame f \<longleftrightarrow> length (can_data f) = 8"

datatype ProtocolVersion = UNKONWN | AGX_V1 | AGX_V2

text \<open>\<open>memcpy(tx_frame->data, &frame, n)\<close>: the first \<open>n\<close> bytes are overwritten.\<close>

definition put_data :: "u8 list \<Rightarrow> can_frame \<Rightarrow> can_frame" where
  "put_data bs f = f\<lparr>can_data := bs @ drop (length bs) (can_data f)\<rparr>"

lemma wf_put_data: "length bs \<le> 8 \<Longrightarrow> wf_frame f \<Longrightarrow> wf_frame (put_data bs f)"
  by (simp add: wf_frame_def put_data_def)

lemma put_data_8 [simp]:
  "length bs = 8 \<Longrightarrow> length (can_data f) = 8 \<Longrightarrow> can_data (put_data bs f) = bs"
  by (simp add: put_data_def)

lemma put_data_frame [simp]:
  "can_id (put_data bs f) = can_id f" "can_dlc (put_data bs f) = can_dlc f"
  by (simp_all add: put_data_def)

lemma length_8_conv:
  "length xs = 8 \<longleftrightarrow> (\<exists>a b c d e f g h. xs = [a, b, c, d, e, f, g, h])"
  by (auto simp: length_Suc_conv numeral_eq_Suc)

end
