(* ===== verification/Parser_Interface.thy ===== *)
theory Parser_Interface
  imports Agx_Types
begin

text \<open>
  The parser interface \<open>ParserBase\<close> (\<open>parser_base.hpp\<close>), which \<open>AgilexBase<ParserType>\<close> is
  instantiated with: its virtual functions as a record of functions, and what the robot classes
  rely on as the locale \<open>can_parser\<close>. Each codec theory interprets the locale.
\<close>

section \<open>The virtual functions\<close>

text \<open>
  \<open>'s\<close> is the state of the encoder (its \<open>static\<close> counters). \<open>EncodeMessage\<close> also takes the
  indeterminate bytes of its local frame variable.
\<close>

record 's parser_ops =
  DecodeMessage :: "can_frame \<Rightarrow> AgxMessage \<Rightarrow> ub + bool \<times> AgxMessage"
  EncodeMessage :: "u8 list \<Rightarrow> AgxMessage \<Rightarrow> 's \<Rightarrow> can_frame \<Rightarrow> ub + bool \<times> 's \<times> can_frame"
  CalculateChecksum :: "u16 \<Rightarrow> u8 list \<Rightarrow> u8 \<Rightarrow> ub + u8"
  GetParserProtocolVersion :: ProtocolVersion

section \<open>Messages the robot classes can consume\<close>

fun holds :: "('a \<Rightarrow> bool) \<Rightarrow> ub + 'a \<Rightarrow> bool" where
  "holds P (Inl e) = False"
| "holds P (Inr x) = P x"

text \<open>
  The body holds the member that the tag announces, for every tag whose body the update
  functions of \<open>AgilexBase\<close> read; motor numbers index arrays of \<open>AGX_MAX_ACTUATOR_NUM\<close>.
\<close>

definition AGX_MAX_ACTUATOR_NUM :: nat where [simp]: "AGX_MAX_ACTUATOR_NUM = 8"

definition readable :: "AgxMessage \<Rightarrow> bool" where
  "readable m = (let b = msg_body m in case msg_type m of
     AgxMsgSystemState \<Rightarrow> holds (\<lambda>_. True) (system_state_msg b)
   | AgxMsgMotionState \<Rightarrow> holds (\<lambda>_. True) (motion_state_msg b)
   | AgxMsgLightState \<Rightarrow> holds (\<lambda>_. True) (light_command_msg b)
   | AgxMsgMotionModeState \<Rightarrow> holds (\<lambda>_. True) (motion_mode_state_msg b)
   | AgxMsgRcState \<Rightarrow> holds (\<lambda>_. True) (rc_state_msg b)
   | AgxMsgMotorAngle \<Rightarrow> holds (\<lambda>_. True) (motor_angle_msg b)
   | AgxMsgMotorSpeed \<Rightarrow> holds (\<lambda>_. True) (motor_speed_msg b)
   | AgxMsgActuatorHSState \<Rightarrow>
       holds (\<lambda>x. unat (hs_motor_id x) < AGX_MAX_ACTUATOR_NUM) (actuator_hs_state_msg b)
   | AgxMsgActuatorLSState \<Rightarrow>
       holds (\<lambda>x. unat (ls_motor_id x) < AGX_MAX_ACTUATOR_NUM) (actuator_ls_state_msg b)
   | AgxMsgActuatorStateV1 \<Rightarrow>
       holds (\<lambda>x. unat (a1_motor_id x) < AGX_MAX_ACTUATOR_NUM) (v1_actuator_state_msg b)
   | AgxMsgBmsBasic \<Rightarrow> holds (\<lambda>_. True) (bms_basic_msg b)
   | AgxMsgBmsExtended \<Rightarrow> holds (\<lambda>_. True) (bms_extended_msg b)
   | AgxMsgVersionResponse \<Rightarrow> holds (\<lambda>x. length (vr_bytes x) = 8) (version_response_msg b)
   | _ \<Rightarrow> True)"

section \<open>The contract\<close>

text \<open>A frame as the kernel delivers it: eight data bytes in memory, at most eight used.\<close>

definition valid_rx :: "can_frame \<Rightarrow> bool" where
  "valid_rx f \<longleftrightarrow> wf_frame f \<and> can_dlc f \<le> 8"

text \<open>A frame that the CAN interface accepts: also an 11-bit identifier, so none of the flag
  bits of \<open>can_id\<close> is set.\<close>

definition valid_tx :: "can_frame \<Rightarrow> bool" where
  "valid_tx f \<longleftrightarrow> wf_frame f \<and> can_dlc f \<le> 8 \<and> can_id f \<le> 0x7ff"

locale can_parser =
  fixes P :: "'s parser_ops"
  assumes decode_total: "valid_rx f \<Longrightarrow> \<exists>r. DecodeMessage P f m = Inr r"
    and decode_readable: "DecodeMessage P f m = Inr (True, m') \<Longrightarrow> readable m'"
    and encode_valid: "EncodeMessage P junk m s f = Inr (True, s', f') \<Longrightarrow> length junk = 8 \<Longrightarrow>
      wf_frame f \<Longrightarrow> valid_tx f'"
begin

text \<open>What a client may conclude from a received frame: either it is refused, or it comes with a
  message the client can read.\<close>

lemma decode_cases:
  assumes "valid_rx f"
  obtains m' where "DecodeMessage P f m = Inr (False, m')"
  | m' where "DecodeMessage P f m = Inr (True, m')" "readable m'"
  using decode_total [OF assms, of m] decode_readable [of f m]
  by (metis (full_types) surj_pair)

end

end
