(* ===== verification/Codec_V1.thy ===== *)
theory Codec_V1
  imports Quantise Parser_Interface
begin

text \<open>
  The version 1 CAN protocol: the identifiers and command frames of
  \<open>protocol_v1/agilex_protocol_v1.h\<close>, \<open>DecodeCanFrameV1\<close>, \<open>EncodeCanFrameV1\<close> and
  \<open>CalcCanFrameChecksumV1\<close> of \<open>agilex_msg_parser_v1.c\<close>, the limits of \<open>robot_limits.hpp\<close> and the
  parser class template \<open>ProtocolV1Parser\<close> of \<open>protocol_v1_parser.hpp\<close>. The lemmas show what the
  checksum does and does not protect, and which robots the scaling of motion commands works for.
\<close>

section \<open>Identifiers and frame layouts\<close>

abbreviation (input) V1_MOTION_COMMAND_ID :: u32 where "V1_MOTION_COMMAND_ID \<equiv> 0x130"
abbreviation (input) V1_LIGHT_COMMAND_ID :: u32 where "V1_LIGHT_COMMAND_ID \<equiv> 0x140"
abbreviation (input) V1_VALUE_SET_COMMAND_ID :: u32 where "V1_VALUE_SET_COMMAND_ID \<equiv> 0x210"
abbreviation (input) V1_MOTION_STATE_ID :: u32 where "V1_MOTION_STATE_ID \<equiv> 0x131"
abbreviation (input) V1_LIGHT_STATE_ID :: u32 where "V1_LIGHT_STATE_ID \<equiv> 0x141"
abbreviation (input) V1_SYSTEM_STATE_ID :: u32 where "V1_SYSTEM_STATE_ID \<equiv> 0x151"
abbreviation (input) V1_VALUE_SET_STATE_ID :: u32 where "V1_VALUE_SET_STATE_ID \<equiv> 0x211"
abbreviation (input) V1_ACTUATOR1_STATE_ID :: u32 where "V1_ACTUATOR1_STATE_ID \<equiv> 0x200"
abbreviation (input) V1_ACTUATOR2_STATE_ID :: u32 where "V1_ACTUATOR2_STATE_ID \<equiv> 0x201"
abbreviation (input) V1_ACTUATOR3_STATE_ID :: u32 where "V1_ACTUATOR3_STATE_ID \<equiv> 0x202"
abbreviation (input) V1_ACTUATOR4_STATE_ID :: u32 where "V1_ACTUATOR4_STATE_ID \<equiv> 0x203"

abbreviation (input) CTRL_MODE_CMD_CAN :: u8 where "CTRL_MODE_CMD_CAN \<equiv> 0x01"
abbreviation (input) ERROR_CLR_NONE :: u8 where "ERROR_CLR_NONE \<equiv> 0x00"
abbreviation (input) LIGHT_ENABLE_CMD_CTRL :: u8 where "LIGHT_ENABLE_CMD_CTRL \<equiv> 0x01"
abbreviation (input) LIGHT_DISABLE_CMD_CTRL :: u8 where "LIGHT_DISABLE_CMD_CTRL \<equiv> 0x00"

record V1MotionCommandFrame =
  v1m_control_mode :: u8
  v1m_error_clear_byte :: u8
  v1m_linear_percentage :: i8
  v1m_angular_percentage :: i8
  v1m_lateral_percentage :: i8
  v1m_reserved0 :: u8
  v1m_count :: u8
  v1m_checksum :: u8

record V1LightCommandFrame =
  v1l_enable_cmd_ctrl :: u8
  v1l_front_mode :: u8
  v1l_front_custom :: u8
  v1l_rear_mode :: u8
  v1l_rear_custom :: u8
  v1l_reserved0 :: u8
  v1l_count :: u8
  v1l_checksum :: u8

record V1ValueSetCommandFrame =
  v1v_set_neutral :: u8
  v1v_reserved0 :: u8
  v1v_reserved1 :: u8
  v1v_reserved2 :: u8
  v1v_reserved3 :: u8
  v1v_reserved4 :: u8
  v1v_count :: u8
  v1v_checksum :: u8

text \<open>The memory images, and the cast of the data bytes to a light frame.\<close>

definition mem_V1MotionCommandFrame :: "V1MotionCommandFrame \<Rightarrow> u8 list" where
  "mem_V1MotionCommandFrame f =
     [v1m_control_mode f, v1m_error_clear_byte f, v1m_linear_percentage f,
      v1m_angular_percentage f, v1m_lateral_percentage f, v1m_reserved0 f, v1m_count f,
      v1m_checksum f]"

definition mem_V1LightCommandFrame :: "V1LightCommandFrame \<Rightarrow> u8 list" where
  "mem_V1LightCommandFrame f =
     [v1l_enable_cmd_ctrl f, v1l_front_mode f, v1l_front_custom f, v1l_rear_mode f,
      v1l_rear_custom f, v1l_reserved0 f, v1l_count f, v1l_checksum f]"

definition mem_V1ValueSetCommandFrame :: "V1ValueSetCommandFrame \<Rightarrow> u8 list" where
  "mem_V1ValueSetCommandFrame f =
     [v1v_set_neutral f, v1v_reserved0 f, v1v_reserved1 f, v1v_reserved2 f, v1v_reserved3 f,
      v1v_reserved4 f, v1v_count f, v1v_checksum f]"

definition cast_V1LightStateFrame :: "u8 list \<Rightarrow> V1LightCommandFrame" where
  "cast_V1LightStateFrame d =
     \<lparr>v1l_enable_cmd_ctrl = d ! 0, v1l_front_mode = d ! 1, v1l_front_custom = d ! 2,
      v1l_rear_mode = d ! 3, v1l_rear_custom = d ! 4, v1l_reserved0 = d ! 5,
      v1l_count = d ! 6, v1l_checksum = d ! 7\<rparr>"

section \<open>Checksum\<close>

definition CalcCanFrameChecksumV1 :: "u16 \<Rightarrow> u8 list \<Rightarrow> u8 \<Rightarrow> ub + u8" where
  "CalcCanFrameChecksumV1 i data dlc =
     sum_bytes (unat dlc - 1) (lo8 i + hi8 i + dlc) data"

section \<open>Decoding\<close>

text \<open>\<open>(uint16_t) / 10.0f\<close>, \<open>(int16_t) / 1000.0f\<close>: float division of exactly converted
  operands; \<open>(int16_t) * 0.1\<close> is \<^const>\<open>deci\<close>.\<close>

definition tenth_u :: "u16 \<Rightarrow> flt" where
  "tenth_u w = fdiv b32 (Num (of_int (uint w))) (Num 10)"

definition milli_f :: "u16 \<Rightarrow> flt" where
  "milli_f w = fdiv b32 (Num (of_int (sint w))) (Num 1000)"

definition float_of_u8 :: "u8 \<Rightarrow> flt" where
  "float_of_u8 b = Num (of_int (uint b))"

text \<open>The motion state has no steering angle in this protocol: the field keeps the previous
  contents of the union (\<open>u\<close> when the member was not the one last written).\<close>

fun old_motion_state :: "MotionStateMessage \<Rightarrow> AgxBody \<Rightarrow> MotionStateMessage" where
  "old_motion_state u (U_motion_state r) = r"
| "old_motion_state u _ = u"

definition v1_decode_system_state :: "u8 list \<Rightarrow> SystemStateMessage" where
  "v1_decode_system_state d =
     \<lparr>vehicle_state = ucast (d ! 0), control_mode = ucast (d ! 1),
      battery_voltage = tenth_u (join16 (d ! 2) (d ! 3)),
      error_code = join16 (d ! 4) (d ! 5)\<rparr>"

definition v1_decode_motion_state :: "MotionStateMessage \<Rightarrow> u8 list \<Rightarrow> MotionStateMessage" where
  "v1_decode_motion_state old d = old
     \<lparr>linear_velocity := milli_f (join16 (d ! 0) (d ! 1)),
      angular_velocity := milli_f (join16 (d ! 2) (d ! 3)),
      lateral_velocity := milli_f (join16 (d ! 4) (d ! 5))\<rparr>"

definition v1_decode_light_state :: "u8 list \<Rightarrow> LightCommandMessage" where
  "v1_decode_light_state d = (let frame = cast_V1LightStateFrame d in
     \<lparr>enable_cmd_ctrl = (v1l_enable_cmd_ctrl frame \<noteq> 0),
      front_light = \<lparr>mode = ucast (v1l_front_mode frame), custom_value = v1l_front_custom frame\<rparr>,
      rear_light = \<lparr>mode = ucast (v1l_rear_mode frame), custom_value = v1l_rear_custom frame\<rparr>\<rparr>)"

definition v1_decode_actuator_state :: "u32 \<Rightarrow> u8 list \<Rightarrow> ActuatorStateMessageV1" where
  "v1_decode_actuator_state cid d =
     \<lparr>a1_motor_id = ucast (cid - V1_ACTUATOR1_STATE_ID),
      a1_current = deci (join16 (d ! 0) (d ! 1)),
      a1_rpm = join16 (d ! 2) (d ! 3),
      a1_driver_temp = float_of_u8 (d ! 4),
      a1_motor_temp = float_of_u8 (d ! 5)\<rparr>"

definition v1_decode_switch ::
  "MotionStateMessage \<Rightarrow> u32 \<Rightarrow> u8 list \<Rightarrow> AgxMessage \<Rightarrow> bool \<times> AgxMessage" where
  "v1_decode_switch u cid d msg =
     (if cid = V1_SYSTEM_STATE_ID then
        (True, \<lparr>msg_type = AgxMsgSystemState, msg_body = U_system_state (v1_decode_system_state d)\<rparr>)
      else if cid = V1_MOTION_STATE_ID then
        (True, \<lparr>msg_type = AgxMsgMotionState, msg_body =
           U_motion_state (v1_decode_motion_state (old_motion_state u (msg_body msg)) d)\<rparr>)
      else if cid = V1_LIGHT_STATE_ID then
        (True, \<lparr>msg_type = AgxMsgLightState, msg_body = U_light_command (v1_decode_light_state d)\<rparr>)
      else if cid = V1_VALUE_SET_STATE_ID then
        (True, \<lparr>msg_type = AgxMsgValueSetStateV1,
                msg_body = U_v1_value_set \<lparr>set_neutral = (d ! 0 = 0xaa)\<rparr>\<rparr>)
      else if cid \<in> {V1_ACTUATOR1_STATE_ID, V1_ACTUATOR2_STATE_ID,
                     V1_ACTUATOR3_STATE_ID, V1_ACTUATOR4_STATE_ID} then
        (True, \<lparr>msg_type = AgxMsgActuatorStateV1,
                msg_body = U_v1_actuator_state (v1_decode_actuator_state cid d)\<rparr>)
      else (False, msg))"

definition DecodeCanFrameV1 ::
  "MotionStateMessage \<Rightarrow> can_frame \<Rightarrow> AgxMessage \<Rightarrow> ub + bool \<times> AgxMessage" where
  "DecodeCanFrameV1 u rx_frame msg =
     bind_ub (CalcCanFrameChecksumV1 (ucast (can_id rx_frame)) (can_data rx_frame) (can_dlc rx_frame))
       (\<lambda>checksum. if checksum = 0 then Inr (False, msg)
          else Inr (v1_decode_switch u (can_id rx_frame) (can_data rx_frame) msg))"

section \<open>Encoding\<close>

text \<open>The three \<open>static\<close> counters, one per command.\<close>

record enc_v1 =
  motion_count :: u8
  value_set_count :: u8
  light_count :: u8

text \<open>\<open>memcpy\<close> of the frame struct, then \<open>data[7] = CalcCanFrameChecksumV1(...)\<close>.\<close>

definition v1_send :: "u32 \<Rightarrow> u8 list \<Rightarrow> can_frame \<Rightarrow> ub + can_frame" where
  "v1_send i bs f =
     (let f = put_data bs (f\<lparr>can_id := i, can_dlc := 8\<rparr>) in
      bind_ub (CalcCanFrameChecksumV1 (ucast (can_id f)) (can_data f) (can_dlc f))
        (\<lambda>c. Inr (f\<lparr>can_data := (can_data f)[7 := c]\<rparr>)))"

text \<open>The byte of the struct that stays indeterminate is its checksum, \<open>junk\<close>.\<close>

definition v1_encode_motion_command ::
  "u8 \<Rightarrow> AgxBody \<Rightarrow> enc_v1 \<Rightarrow> can_frame \<Rightarrow> ub + bool \<times> enc_v1 \<times> can_frame" where
  "v1_encode_motion_command junk body s f =
     bind_ub (v1_motion_command_msg body) (\<lambda>m.
     bind_ub (cast_i8 (mc1_linear m)) (\<lambda>linear.
     bind_ub (cast_i8 (mc1_angular m)) (\<lambda>angular.
     bind_ub (cast_i8 (mc1_lateral m)) (\<lambda>lateral.
     bind_ub (v1_send V1_MOTION_COMMAND_ID (mem_V1MotionCommandFrame
       \<lparr>v1m_control_mode = CTRL_MODE_CMD_CAN, v1m_error_clear_byte = ERROR_CLR_NONE,
        v1m_linear_percentage = linear, v1m_angular_percentage = angular,
        v1m_lateral_percentage = lateral, v1m_reserved0 = 0, v1m_count = motion_count s,
        v1m_checksum = junk\<rparr>) f) (\<lambda>f.
       Inr (True, s\<lparr>motion_count := motion_count s + 1\<rparr>, f))))))"

definition v1_encode_value_set ::
  "u8 \<Rightarrow> AgxBody \<Rightarrow> enc_v1 \<Rightarrow> can_frame \<Rightarrow> ub + bool \<times> enc_v1 \<times> can_frame" where
  "v1_encode_value_set junk body s f =
     bind_ub (v1_value_set_msg body) (\<lambda>m.
     bind_ub (v1_send V1_VALUE_SET_COMMAND_ID (mem_V1ValueSetCommandFrame
       \<lparr>v1v_set_neutral = (if set_neutral m then 0xaa else 0x00), v1v_reserved0 = 0,
        v1v_reserved1 = 0, v1v_reserved2 = 0, v1v_reserved3 = 0, v1v_reserved4 = 0,
        v1v_count = value_set_count s, v1v_checksum = junk\<rparr>) f) (\<lambda>f.
       Inr (True, s\<lparr>value_set_count := value_set_count s + 1\<rparr>, f)))"

definition v1_encode_light_command ::
  "u8 \<Rightarrow> AgxBody \<Rightarrow> enc_v1 \<Rightarrow> can_frame \<Rightarrow> ub + bool \<times> enc_v1 \<times> can_frame" where
  "v1_encode_light_command junk body s f =
     bind_ub (light_command_msg body) (\<lambda>m.
     bind_ub (v1_send V1_LIGHT_COMMAND_ID (mem_V1LightCommandFrame
       (if enable_cmd_ctrl m then
          \<lparr>v1l_enable_cmd_ctrl = LIGHT_ENABLE_CMD_CTRL,
           v1l_front_mode = ucast (mode (front_light m)),
           v1l_front_custom = custom_value (front_light m),
           v1l_rear_mode = ucast (mode (rear_light m)),
           v1l_rear_custom = custom_value (rear_light m),
           v1l_reserved0 = 0, v1l_count = light_count s, v1l_checksum = junk\<rparr>
        else
          \<lparr>v1l_enable_cmd_ctrl = LIGHT_DISABLE_CMD_CTRL, v1l_front_mode = 0,
           v1l_front_custom = 0, v1l_rear_mode = 0, v1l_rear_custom = 0,
           v1l_reserved0 = 0, v1l_count = light_count s, v1l_checksum = junk\<rparr>)) f) (\<lambda>f.
       Inr (True, s\<lparr>light_count := light_count s + 1\<rparr>, f)))"

definition EncodeCanFrameV1 ::
  "u8 list \<Rightarrow> AgxMessage \<Rightarrow> enc_v1 \<Rightarrow> can_frame \<Rightarrow> ub + bool \<times> enc_v1 \<times> can_frame" where
  "EncodeCanFrameV1 junk msg s f = (let b = msg_body msg in case msg_type msg of
     AgxMsgMotionCommandV1 \<Rightarrow> v1_encode_motion_command (junk ! 7) b s f
   | AgxMsgValueSetCommandV1 \<Rightarrow> v1_encode_value_set (junk ! 7) b s f
   | AgxMsgLightCommand \<Rightarrow> v1_encode_light_command (junk ! 7) b s f
   | _ \<Rightarrow> Inr (False, s, f))"

section \<open>Limits and the parser class\<close>

text \<open>The limits are decimal literals of type \<open>double\<close>.\<close>

record robot_limits =
  max_linear :: rat
  min_linear :: rat
  max_angular :: rat
  min_angular :: rat
  max_lateral :: rat
  min_lateral :: rat

definition lit :: "rat \<Rightarrow> rat" where "lit x = rounded b64 x"

definition ScoutV2Limits :: robot_limits where
  "ScoutV2Limits = \<lparr>max_linear = lit 1.5, min_linear = - lit 1.5,
     max_angular = lit 0.5235, min_angular = - lit 0.5235, max_lateral = 0, min_lateral = 0\<rparr>"

definition ScoutMiniLimits :: robot_limits where
  "ScoutMiniLimits = \<lparr>max_linear = lit 3.0, min_linear = - lit 3.0,
     max_angular = lit 2.5235, min_angular = - lit 2.5235,
     max_lateral = lit 2.0, min_lateral = - lit 2.0\<rparr>"

definition BunkerLimits :: robot_limits where
  "BunkerLimits = \<lparr>max_linear = lit 3.0, min_linear = - lit 3.0,
     max_angular = lit 2.5235, min_angular = - lit 2.5235, max_lateral = 0, min_lateral = 0\<rparr>"

definition HunterV1Limits :: robot_limits where
  "HunterV1Limits = \<lparr>max_linear = lit 1.5, min_linear = - lit 1.5,
     max_angular = lit 0.444, min_angular = - lit 0.444, max_lateral = 0, min_lateral = 0\<rparr>"

text \<open>\<open>if (x > hi) x = hi; else if (x < lo) x = lo;\<close> for a float \<open>x\<close> and double limits.\<close>

definition clamp :: "rat \<Rightarrow> rat \<Rightarrow> flt \<Rightarrow> flt" where
  "clamp lo hi x =
     (if fless (Num hi) x then fround b32 hi else if fless x (Num lo) then fround b32 lo else x)"

text \<open>\<open>x / hi * 100.0\<close> in double, stored as float.\<close>

definition percent :: "rat \<Rightarrow> flt \<Rightarrow> flt" where
  "percent hi x = fconv b32 (fmul b64 (fdiv b64 x (Num hi)) (Num 100))"

definition scale_command :: "robot_limits \<Rightarrow> MotionCommandMessageV1 \<Rightarrow> MotionCommandMessageV1" where
  "scale_command l m =
     (let linear = clamp (min_linear l) (max_linear l) (mc1_linear m);
          angular = clamp (min_angular l) (max_angular l) (mc1_angular m);
          lateral = clamp (min_lateral l) (max_lateral l) (mc1_lateral m)
      in m\<lparr>mc1_linear := percent (max_linear l) linear,
           mc1_angular := percent (max_angular l) angular,
           mc1_lateral := percent (max_lateral l) lateral\<rparr>)"

definition V1EncodeMessage :: "robot_limits \<Rightarrow>
  u8 list \<Rightarrow> AgxMessage \<Rightarrow> enc_v1 \<Rightarrow> can_frame \<Rightarrow> ub + bool \<times> enc_v1 \<times> can_frame" where
  "V1EncodeMessage l junk msg s f =
     (if msg_type msg = AgxMsgMotionCommandV1 then
        bind_ub (v1_motion_command_msg (msg_body msg)) (\<lambda>m.
          EncodeCanFrameV1 junk (msg\<lparr>msg_body := U_v1_motion_command (scale_command l m)\<rparr>) s f)
      else EncodeCanFrameV1 junk msg s f)"

definition ProtocolV1Parser :: "robot_limits \<Rightarrow> MotionStateMessage \<Rightarrow> enc_v1 parser_ops" where
  "ProtocolV1Parser l u =
     \<lparr>DecodeMessage = DecodeCanFrameV1 u,
      EncodeMessage = V1EncodeMessage l,
      CalculateChecksum = CalcCanFrameChecksumV1,
      GetParserProtocolVersion = AGX_V1\<rparr>"

section \<open>What the checksum protects\<close>

text \<open>The checksum the protocol defines: identifier, length and the first seven bytes.\<close>

definition v1_checksum :: "can_frame \<Rightarrow> u8" where
  "v1_checksum f = lo8 (ucast (can_id f)) + hi8 (ucast (can_id f)) + can_dlc f
     + sum_list (take 7 (can_data f))"

lemma calc_checksum:
  assumes "wf_frame f" "can_dlc f = 8"
  shows "CalcCanFrameChecksumV1 (ucast (can_id f)) (can_data f) (can_dlc f) = Inr (v1_checksum f)"
  using assms by (simp add: CalcCanFrameChecksumV1_def sum_bytes_eq wf_frame_def v1_checksum_def)

lemma calc_checksum_total:
  assumes "valid_rx f"
  shows "\<exists>c. CalcCanFrameChecksumV1 (ucast (can_id f)) (can_data f) (can_dlc f) = Inr c"
proof -
  have "unat (can_dlc f) \<le> 8" using assms by (simp add: valid_rx_def word_le_nat_alt)
  then show ?thesis
    using assms by (simp add: CalcCanFrameChecksumV1_def sum_bytes_eq wf_frame_def valid_rx_def)
qed

text \<open>The decoder computes the checksum and tests it against zero: the checksum byte of the frame
  has no influence on the outcome, and the frames it refuses are those whose checksum is zero.\<close>

lemma decode_full_frame:
  assumes "wf_frame f" "can_dlc f = 8"
  shows "DecodeCanFrameV1 u f m =
    (if v1_checksum f = 0 then Inr (False, m)
     else Inr (v1_decode_switch u (can_id f) (can_data f) m))"
  by (simp only: DecodeCanFrameV1_def calc_checksum [OF assms] bind_ub.simps)

lemma decode_switch_byte7: "v1_decode_switch u i (d[7 := x]) m = v1_decode_switch u i d m"
  by (simp add: v1_decode_switch_def v1_decode_system_state_def v1_decode_motion_state_def
      v1_decode_light_state_def v1_decode_actuator_state_def cast_V1LightStateFrame_def Let_def)

lemma checksum_byte_ignored:
  assumes "wf_frame f" "can_dlc f = 8"
  shows "DecodeCanFrameV1 u (f\<lparr>can_data := (can_data f)[7 := x]\<rparr>) m = DecodeCanFrameV1 u f m"
proof -
  let ?f = "f\<lparr>can_data := (can_data f)[7 := x]\<rparr>"
  have "wf_frame ?f" "can_dlc ?f = 8" "v1_checksum ?f = v1_checksum f"
    using assms by (simp_all add: wf_frame_def v1_checksum_def)
  then show ?thesis using assms by (simp add: decode_full_frame decode_switch_byte7)
qed

section \<open>The contract of the parser\<close>

lemma v1_decode_readable: "DecodeCanFrameV1 u f m = Inr (True, m') \<Longrightarrow> readable m'"
  by (auto simp: DecodeCanFrameV1_def v1_decode_switch_def bind_ub_Inr_iff readable_def Let_def
      v1_decode_actuator_state_def split: if_splits)

lemma v1_send_eq:
  fixes i :: u32
  assumes "length bs = 8" "wf_frame f"
  defines "f' \<equiv> f\<lparr>can_id := i, can_dlc := 8, can_data := bs\<rparr>"
  shows "v1_send i bs f = Inr (f'\<lparr>can_data := bs[7 := v1_checksum f']\<rparr>)"
proof -
  have "put_data bs (f\<lparr>can_id := i, can_dlc := 8\<rparr>) = f'"
    using assms by (simp add: put_data_def wf_frame_def)
  moreover have "wf_frame f'" "can_dlc f' = 8" using assms by (simp_all add: wf_frame_def)
  ultimately show ?thesis using assms calc_checksum [of f'] by (simp add: v1_send_def Let_def)
qed

text \<open>What goes out is a full frame that ends with its checksum.\<close>

definition v1_checked :: "can_frame \<Rightarrow> bool" where
  "v1_checked f \<longleftrightarrow> wf_frame f \<and> can_dlc f = 8 \<and> can_data f ! 7 = v1_checksum f"

lemma v1_send_checked:
  "v1_send i bs f = Inr f' \<Longrightarrow> length bs = 8 \<Longrightarrow> wf_frame f \<Longrightarrow>
   v1_checked f' \<and> can_id f' = i \<and> take 7 (can_data f') = take 7 bs"
  by (auto simp: v1_send_eq v1_checked_def wf_frame_def v1_checksum_def)

lemmas v1_mem_defs = mem_V1MotionCommandFrame_def mem_V1LightCommandFrame_def
  mem_V1ValueSetCommandFrame_def

lemma v1_mem_length [simp]:
  "length (mem_V1MotionCommandFrame a) = 8" "length (mem_V1LightCommandFrame b) = 8"
  "length (mem_V1ValueSetCommandFrame c) = 8"
  by (simp_all add: v1_mem_defs)

lemma EncodeCanFrameV1_checked:
  assumes "EncodeCanFrameV1 junk m s f = Inr (True, s', f')" "wf_frame f"
  shows "v1_checked f' \<and>
    can_id f' \<in> {V1_MOTION_COMMAND_ID, V1_VALUE_SET_COMMAND_ID, V1_LIGHT_COMMAND_ID}"
  using assms
  by (cases "msg_type m")
    (auto simp: EncodeCanFrameV1_def Let_def bind_ub_Inr_iff v1_encode_motion_command_def
      v1_encode_value_set_def v1_encode_light_command_def dest!: v1_send_checked)

lemma V1EncodeMessage_checked:
  assumes "V1EncodeMessage l junk m s f = Inr (True, s', f')" "wf_frame f"
  shows "v1_checked f' \<and>
    can_id f' \<in> {V1_MOTION_COMMAND_ID, V1_VALUE_SET_COMMAND_ID, V1_LIGHT_COMMAND_ID}"
  using assms
  by (auto simp: V1EncodeMessage_def bind_ub_Inr_iff split: if_splits
      dest!: EncodeCanFrameV1_checked)

interpretation v1: can_parser "ProtocolV1Parser l u" for l u
proof unfold_locales
  show "valid_rx f \<Longrightarrow> \<exists>r. DecodeMessage (ProtocolV1Parser l u) f m = Inr r" for f m
    using calc_checksum_total [of f] by (auto simp: ProtocolV1Parser_def DecodeCanFrameV1_def)
  show "DecodeMessage (ProtocolV1Parser l u) f m = Inr (True, m') \<Longrightarrow> readable m'" for f m m'
    by (auto simp: ProtocolV1Parser_def dest: v1_decode_readable)
  show "EncodeMessage (ProtocolV1Parser l u) junk m s f = Inr (True, s', f') \<Longrightarrow>
    length junk = 8 \<Longrightarrow> wf_frame f \<Longrightarrow> valid_tx f'" for junk m s f s' f'
    by (auto simp: ProtocolV1Parser_def valid_tx_def v1_checked_def dest!: V1EncodeMessage_checked)
qed

section \<open>Scaling of motion commands\<close>

text \<open>With a zero limit the quotient is \<open>0 / 0\<close> and the cast of a NaN is undefined.\<close>

lemma percent_zero: "cast_i8 (percent 0 (clamp 0 0 x)) = Inl BadCast"
  by (cases x) (auto simp: percent_def clamp_def cast_i8_def fround_def)

text \<open>Every \<open>V1EncodeMessage\<close> of a motion command is undefined behaviour for a robot with
  \<open>max_lateral = 0\<close>.\<close>

lemma bind_ub_Inl_cases: "(\<And>x. f x = Inl e) \<Longrightarrow> m = Inl e \<or> (\<exists>x. m = Inr x) \<Longrightarrow> bind_ub m f = Inl e"
  by auto

lemma cast_i8_cases: "cast_i8 x = Inl BadCast \<or> (\<exists>w. cast_i8 x = Inr w)"
  by (cases x) (auto simp: cast_i8_def Let_def)

lemma no_lateral_undefined:
  assumes "max_lateral l = 0" "min_lateral l = 0"
  shows "V1EncodeMessage l junk \<lparr>msg_type = AgxMsgMotionCommandV1, msg_body = U_v1_motion_command m\<rparr> s f
    = Inl BadCast"
  using assms
  by (auto simp: V1EncodeMessage_def EncodeCanFrameV1_def v1_encode_motion_command_def
      scale_command_def Let_def percent_zero intro!: bind_ub_Inl_cases cast_i8_cases)

text \<open>With positive limits the percentages fit a signed byte, and their magnitude is at most
  100. The bound is found at the largest value that \<^const>\<open>clamp\<close> lets through, by monotonicity
  of rounding.\<close>

definition pct :: "rat \<Rightarrow> rat \<Rightarrow> rat" where
  "pct hi x = rounded b32 (rounded b64 (rounded b64 (x / hi) * 100))"

lemma pct_mono: "0 < hi \<Longrightarrow> x \<le> y \<Longrightarrow> pct hi x \<le> pct hi y"
  unfolding pct_def by (intro rounded_mono mult_right_mono divide_right_mono) auto

lemma pct_minus: "pct hi (- x) = - pct hi x"
  by (simp add: pct_def rounded_minus)

lemma rounded_b64_2: "rounded b64 2 = 2" "rounded b64 256 = 256"
  using rounded_of_int [of 2 b64] rounded_of_int [of 256 b64] by simp_all

lemma percent_pct:
  assumes "0 < hi" "\<bar>c\<bar> \<le> 2 * hi"
  shows "percent hi (Num c) = Num (pct hi c)"
proof -
  have 1: "\<bar>c / hi\<bar> \<le> 2" using assms by (simp add: abs_divide divide_simps)
  then have 2: "\<bar>rounded b64 (c / hi)\<bar> \<le> 2" by (simp add: rounded_abs_le rounded_b64_2)
  then have 3: "\<bar>rounded b64 (c / hi) * 100\<bar> \<le> 256" by (simp add: abs_mult)
  then have 4: "\<bar>rounded b64 (rounded b64 (c / hi) * 100)\<bar> \<le> 256"
    by (simp add: rounded_abs_le rounded_b64_2)
  have big: "(256::rat) \<le> 2 ^ 60" by simp
  show ?thesis
    using assms(1) order_trans [OF 1] order_trans [OF 3 big] order_trans [OF 4 big]
    by (simp add: percent_def pct_def fround_b64 fround_b32)
qed

text \<open>A limit for which the scaling works: what is tested at the end points.\<close>

definition good_limit :: "rat \<Rightarrow> bool" where
  "good_limit hi \<longleftrightarrow> 0 < hi \<and> hi \<le> 1000 \<and> rounded b32 hi \<le> 2 * hi
     \<and> pct hi hi < 101 \<and> pct hi (rounded b32 hi) < 101"

lemma clamp_Num:
  assumes "good_limit hi" "x \<noteq> NaN"
  obtains c where "clamp (- hi) hi x = Num c" "\<bar>c\<bar> \<le> max hi (rounded b32 hi)"
proof -
  have hi: "0 < hi" "\<bar>hi\<bar> \<le> 2 ^ 60" "\<bar>- hi\<bar> \<le> 2 ^ 60"
    using assms(1) by (auto simp: good_limit_def)
  then have "0 \<le> rounded b32 hi" by (intro rounded_nonneg) auto
  then have "\<exists>c. clamp (- hi) hi x = Num c \<and> \<bar>c\<bar> \<le> max hi (rounded b32 hi)"
    using assms(2) hi
    by (cases x) (auto simp: clamp_def fround_b32 rounded_minus le_max_iff_disj abs_le_iff)
  then show thesis using that by blast
qed

lemma trunc_less: "x < of_int (n + 1) \<Longrightarrow> trunc x \<le> n" if "0 \<le> n"
  using that by (auto simp: trunc_def floor_le_iff ceiling_le_iff)

lemma cast_i8_Num:
  assumes "\<bar>x\<bar> < 101"
  shows "\<exists>w. cast_i8 (Num x) = Inr w \<and> \<bar>sint w\<bar> \<le> 100"
proof -
  have t: "trunc x \<le> 100" "trunc (- x) \<le> 100" using assms by (auto intro!: trunc_less)
  then have "sint (word_of_int (trunc x) :: i8) = trunc x"
    by (simp add: sint_sbintrunc' signed_take_bit_int_eq_self trunc_minus)
  then show ?thesis using t by (simp add: cast_i8_def fcast_Num trunc_minus)
qed

lemma percent_cast:
  assumes "good_limit hi" "x \<noteq> NaN"
  shows "\<exists>w. cast_i8 (percent hi (clamp (- hi) hi x)) = Inr w \<and> \<bar>sint w\<bar> \<le> 100"
proof -
  obtain c where c: "clamp (- hi) hi x = Num c" "\<bar>c\<bar> \<le> max hi (rounded b32 hi)"
    using clamp_Num [OF assms] .
  have hi: "0 < hi" "max hi (rounded b32 hi) \<le> 2 * hi" "pct hi (max hi (rounded b32 hi)) < 101"
    using assms(1) by (auto simp: good_limit_def max_def)
  have "pct hi c < 101" "pct hi (- c) < 101"
    using c(2) hi pct_mono [of hi c "max hi (rounded b32 hi)"]
      pct_mono [of hi "- c" "max hi (rounded b32 hi)"] by (auto simp: abs_le_iff)
  then have "\<bar>pct hi c\<bar> < 101" by (simp add: pct_minus abs_less_iff)
  moreover have "percent hi (Num c) = Num (pct hi c)" using c(2) hi by (intro percent_pct) auto
  ultimately show ?thesis using c(1) cast_i8_Num by simp
qed

lemma lit_values: "lit 3.0 = 3" "lit 2.0 = 2" "lit 2.5235 = 5682416829834723 / 2251799813685248"
proof -
  show "lit 3.0 = 3" "lit 2.0 = 2"
    using rounded_of_int [of 3 b64] rounded_of_int [of 2 b64] by (simp_all add: lit_def)
  show "lit 2.5235 = 5682416829834723 / 2251799813685248" by code_simp
qed

lemma good_limits_mini: "good_limit (lit 3.0)" "good_limit (lit 2.5235)" "good_limit (lit 2.0)"
  unfolding lit_values good_limit_def by code_simp+

lemma mini_motion_command:
  assumes "mc1_linear m \<noteq> NaN" "mc1_angular m \<noteq> NaN" "mc1_lateral m \<noteq> NaN" "wf_frame f"
  shows "\<exists>s' f'. V1EncodeMessage ScoutMiniLimits junk
      \<lparr>msg_type = AgxMsgMotionCommandV1, msg_body = U_v1_motion_command m\<rparr> s f = Inr (True, s', f')
    \<and> v1_checked f' \<and> can_id f' = 0x130
    \<and> (\<forall>i \<in> {2, 3, 4}. \<bar>sint (can_data f' ! i)\<bar> \<le> 100)"
proof -
  note good = good_limits_mini
  obtain a b c where abc:
    "cast_i8 (percent (lit 3.0) (clamp (- lit 3.0) (lit 3.0) (mc1_linear m))) = Inr a" "\<bar>sint a\<bar> \<le> 100"
    "cast_i8 (percent (lit 2.5235) (clamp (- lit 2.5235) (lit 2.5235) (mc1_angular m))) = Inr b"
    "\<bar>sint b\<bar> \<le> 100"
    "cast_i8 (percent (lit 2.0) (clamp (- lit 2.0) (lit 2.0) (mc1_lateral m))) = Inr c" "\<bar>sint c\<bar> \<le> 100"
    using percent_cast [OF good(1) assms(1)] percent_cast [OF good(2) assms(2)]
      percent_cast [OF good(3) assms(3)] by blast
  let ?msg = "\<lparr>msg_type = AgxMsgMotionCommandV1, msg_body = U_v1_motion_command m\<rparr>"
  obtain s' f' where r: "V1EncodeMessage ScoutMiniLimits junk ?msg s f = Inr (True, s', f')"
    and d: "can_id f' = 0x130" "take 7 (can_data f') =
      [CTRL_MODE_CMD_CAN, ERROR_CLR_NONE, a, b, c, 0, motion_count s]"
    using assms(4) abc
    by (simp add: V1EncodeMessage_def EncodeCanFrameV1_def v1_encode_motion_command_def Let_def
        scale_command_def ScoutMiniLimits_def v1_send_eq mem_V1MotionCommandFrame_def)
  have n: "can_data f' ! i = take 7 (can_data f') ! i" if "i < 7" for i
    using that by simp
  have "\<forall>i \<in> {2, 3, 4}. \<bar>sint (can_data f' ! i)\<bar> \<le> 100"
    using abc by (simp add: n d(2))
  moreover have "v1_checked f'" using V1EncodeMessage_checked [OF r assms(4)] by simp
  ultimately show ?thesis using r d(1) by blast
qed

end
