(* ===== verification/Frames_V2.thy ===== *)
theory Frames_V2
  imports Agx_Types
begin

text \<open>
  The wire format of the version 2 CAN protocol: the identifiers and frame layouts of
  \<open>protocol_v2/agilex_protocol_v2.h\<close>. A packed frame struct is a record; the
  cast of the data bytes to it is \<open>cast_<struct>\<close> and its memory image \<open>mem_<struct>\<close>.
\<close>

section \<open>Identifiers\<close>

abbreviation (input) CAN_MSG_MOTION_COMMAND_ID :: u32 where "CAN_MSG_MOTION_COMMAND_ID \<equiv> 0x111"
abbreviation (input) CAN_MSG_LIGHT_COMMAND_ID :: u32 where "CAN_MSG_LIGHT_COMMAND_ID \<equiv> 0x121"
abbreviation (input) CAN_MSG_BRAKING_COMMAND_ID :: u32 where "CAN_MSG_BRAKING_COMMAND_ID \<equiv> 0x131"
abbreviation (input) CAN_MSG_SET_MOTION_MODE_ID :: u32 where "CAN_MSG_SET_MOTION_MODE_ID \<equiv> 0x141"
abbreviation (input) CAN_MSG_SYSTEM_STATE_ID :: u32 where "CAN_MSG_SYSTEM_STATE_ID \<equiv> 0x211"
abbreviation (input) CAN_MSG_MOTION_STATE_ID :: u32 where "CAN_MSG_MOTION_STATE_ID \<equiv> 0x221"
abbreviation (input) CAN_MSG_LIGHT_STATE_ID :: u32 where "CAN_MSG_LIGHT_STATE_ID \<equiv> 0x231"
abbreviation (input) CAN_MSG_RC_STATE_ID :: u32 where "CAN_MSG_RC_STATE_ID \<equiv> 0x241"
abbreviation (input) CAN_MSG_ACTUATOR1_HS_STATE_ID :: u32 where "CAN_MSG_ACTUATOR1_HS_STATE_ID \<equiv> 0x251"
abbreviation (input) CAN_MSG_ACTUATOR2_HS_STATE_ID :: u32 where "CAN_MSG_ACTUATOR2_HS_STATE_ID \<equiv> 0x252"
abbreviation (input) CAN_MSG_ACTUATOR3_HS_STATE_ID :: u32 where "CAN_MSG_ACTUATOR3_HS_STATE_ID \<equiv> 0x253"
abbreviation (input) CAN_MSG_ACTUATOR4_HS_STATE_ID :: u32 where "CAN_MSG_ACTUATOR4_HS_STATE_ID \<equiv> 0x254"
abbreviation (input) CAN_MSG_ACTUATOR5_HS_STATE_ID :: u32 where "CAN_MSG_ACTUATOR5_HS_STATE_ID \<equiv> 0x255"
abbreviation (input) CAN_MSG_ACTUATOR6_HS_STATE_ID :: u32 where "CAN_MSG_ACTUATOR6_HS_STATE_ID \<equiv> 0x256"
abbreviation (input) CAN_MSG_ACTUATOR7_HS_STATE_ID :: u32 where "CAN_MSG_ACTUATOR7_HS_STATE_ID \<equiv> 0x257"
abbreviation (input) CAN_MSG_ACTUATOR8_HS_STATE_ID :: u32 where "CAN_MSG_ACTUATOR8_HS_STATE_ID \<equiv> 0x258"
abbreviation (input) CAN_MSG_ACTUATOR1_LS_STATE_ID :: u32 where "CAN_MSG_ACTUATOR1_LS_STATE_ID \<equiv> 0x261"
abbreviation (input) CAN_MSG_ACTUATOR2_LS_STATE_ID :: u32 where "CAN_MSG_ACTUATOR2_LS_STATE_ID \<equiv> 0x262"
abbreviation (input) CAN_MSG_ACTUATOR3_LS_STATE_ID :: u32 where "CAN_MSG_ACTUATOR3_LS_STATE_ID \<equiv> 0x263"
abbreviation (input) CAN_MSG_ACTUATOR4_LS_STATE_ID :: u32 where "CAN_MSG_ACTUATOR4_LS_STATE_ID \<equiv> 0x264"
abbreviation (input) CAN_MSG_ACTUATOR5_LS_STATE_ID :: u32 where "CAN_MSG_ACTUATOR5_LS_STATE_ID \<equiv> 0x265"
abbreviation (input) CAN_MSG_ACTUATOR6_LS_STATE_ID :: u32 where "CAN_MSG_ACTUATOR6_LS_STATE_ID \<equiv> 0x266"
abbreviation (input) CAN_MSG_ACTUATOR7_LS_STATE_ID :: u32 where "CAN_MSG_ACTUATOR7_LS_STATE_ID \<equiv> 0x267"
abbreviation (input) CAN_MSG_ACTUATOR8_LS_STATE_ID :: u32 where "CAN_MSG_ACTUATOR8_LS_STATE_ID \<equiv> 0x268"
abbreviation (input) CAN_MSG_MOTOR_ANGLE_INFO :: u32 where "CAN_MSG_MOTOR_ANGLE_INFO \<equiv> 0x271"
abbreviation (input) CAN_MSG_MOTOR_SPEED_INFO :: u32 where "CAN_MSG_MOTOR_SPEED_INFO \<equiv> 0x281"
abbreviation (input) CAN_MSG_CURRENT_CTRL_MODE :: u32 where "CAN_MSG_CURRENT_CTRL_MODE \<equiv> 0x291"
abbreviation (input) CAN_MSG_ODOMETRY_ID :: u32 where "CAN_MSG_ODOMETRY_ID \<equiv> 0x311"
abbreviation (input) CAN_MSG_IMU_ACCEL_ID :: u32 where "CAN_MSG_IMU_ACCEL_ID \<equiv> 0x321"
abbreviation (input) CAN_MSG_IMU_GYRO_ID :: u32 where "CAN_MSG_IMU_GYRO_ID \<equiv> 0x322"
abbreviation (input) CAN_MSG_IMU_EULER_ID :: u32 where "CAN_MSG_IMU_EULER_ID \<equiv> 0x323"
abbreviation (input) CAN_MSG_SAFETY_BUMPER_ID :: u32 where "CAN_MSG_SAFETY_BUMPER_ID \<equiv> 0x331"
abbreviation (input) CAN_MSG_ULTRASONIC_1_ID :: u32 where "CAN_MSG_ULTRASONIC_1_ID \<equiv> 0x341"
abbreviation (input) CAN_MSG_ULTRASONIC_2_ID :: u32 where "CAN_MSG_ULTRASONIC_2_ID \<equiv> 0x342"
abbreviation (input) CAN_MSG_ULTRASONIC_3_ID :: u32 where "CAN_MSG_ULTRASONIC_3_ID \<equiv> 0x343"
abbreviation (input) CAN_MSG_ULTRASONIC_4_ID :: u32 where "CAN_MSG_ULTRASONIC_4_ID \<equiv> 0x344"
abbreviation (input) CAN_MSG_ULTRASONIC_5_ID :: u32 where "CAN_MSG_ULTRASONIC_5_ID \<equiv> 0x345"
abbreviation (input) CAN_MSG_ULTRASONIC_6_ID :: u32 where "CAN_MSG_ULTRASONIC_6_ID \<equiv> 0x346"
abbreviation (input) CAN_MSG_ULTRASONIC_7_ID :: u32 where "CAN_MSG_ULTRASONIC_7_ID \<equiv> 0x347"
abbreviation (input) CAN_MSG_ULTRASONIC_8_ID :: u32 where "CAN_MSG_ULTRASONIC_8_ID \<equiv> 0x348"
abbreviation (input) CAN_MSG_UWB_1_ID :: u32 where "CAN_MSG_UWB_1_ID \<equiv> 0x351"
abbreviation (input) CAN_MSG_UWB_2_ID :: u32 where "CAN_MSG_UWB_2_ID \<equiv> 0x352"
abbreviation (input) CAN_MSG_UWB_3_ID :: u32 where "CAN_MSG_UWB_3_ID \<equiv> 0x353"
abbreviation (input) CAN_MSG_UWB_4_ID :: u32 where "CAN_MSG_UWB_4_ID \<equiv> 0x354"
abbreviation (input) CAN_MSG_BMS_BASIC_ID :: u32 where "CAN_MSG_BMS_BASIC_ID \<equiv> 0x361"
abbreviation (input) CAN_MSG_BMS_EXTENDED_ID :: u32 where "CAN_MSG_BMS_EXTENDED_ID \<equiv> 0x362"
abbreviation (input) CAN_MSG_VERSION_REQUEST_ID :: u32 where "CAN_MSG_VERSION_REQUEST_ID \<equiv> 0x411"
abbreviation (input) CAN_MSG_VERSION_RESPONSE_ID :: u32 where "CAN_MSG_VERSION_RESPONSE_ID \<equiv> 0x4a1"
abbreviation (input) CAN_MSG_CTRL_MODE_CONFIG_ID :: u32 where "CAN_MSG_CTRL_MODE_CONFIG_ID \<equiv> 0x421"
abbreviation (input) CAN_MSG_STEER_NEUTRAL_REQUEST_ID :: u32 where "CAN_MSG_STEER_NEUTRAL_REQUEST_ID \<equiv> 0x431"
abbreviation (input) CAN_MSG_STEER_NEUTRAL_RESPONSE_ID :: u32 where "CAN_MSG_STEER_NEUTRAL_RESPONSE_ID \<equiv> 0x43a"
abbreviation (input) CAN_MSG_STATE_RESET_CONFIG_ID :: u32 where "CAN_MSG_STATE_RESET_CONFIG_ID \<equiv> 0x441"

section \<open>Frame layouts\<close>

record struct16_t =
  high_byte :: u8
  low_byte :: u8

record struct32_t =
  s32_msb :: u8
  s32_high_byte :: u8
  s32_low_byte :: u8
  s32_lsb :: u8

definition s16_at :: "u8 list \<Rightarrow> nat \<Rightarrow> struct16_t" where
  "s16_at d i = \<lparr>high_byte = d ! i, low_byte = d ! (i + 1)\<rparr>"

definition s32_at :: "u8 list \<Rightarrow> nat \<Rightarrow> struct32_t" where
  "s32_at d i = \<lparr>s32_msb = d ! i, s32_high_byte = d ! (i + 1),
     s32_low_byte = d ! (i + 2), s32_lsb = d ! (i + 3)\<rparr>"

definition s16_mem :: "struct16_t \<Rightarrow> u8 list" where
  "s16_mem s = [high_byte s, low_byte s]"

text \<open>\<open>(uint16_t)(s.low_byte) | (uint16_t)(s.high_byte) << 8\<close> and its 32-bit counterpart.\<close>

definition val16 :: "struct16_t \<Rightarrow> u16" where
  "val16 s = join16 (high_byte s) (low_byte s)"

definition val32 :: "struct32_t \<Rightarrow> u32" where
  "val32 s = join32 (s32_msb s) (s32_high_byte s) (s32_low_byte s) (s32_lsb s)"

text \<open>\<open>s.high_byte = (uint8_t)(w >> 8); s.low_byte = (uint8_t)(w & 0x00ff)\<close>.\<close>

definition split16 :: "u16 \<Rightarrow> struct16_t" where
  "split16 w = \<lparr>high_byte = hi8 w, low_byte = lo8 w\<rparr>"

lemma val16_split16 [bytes, simp]: "val16 (split16 w) = w"
  by (simp add: val16_def split16_def)

lemma split16_val16 [bytes, simp]: "split16 (val16 s) = s"
  by (simp add: val16_def split16_def)

lemma s16_at_Cons [bytes, simp]:
  "s16_at (a # b # d) 0 = \<lparr>high_byte = a, low_byte = b\<rparr>"
  "s16_at (a # d) (Suc i) = s16_at d i"
  by (simp_all add: s16_at_def)

record MotionCommandFrame =
  mcf_linear_velocity :: struct16_t
  mcf_angular_velocity :: struct16_t
  mcf_lateral_velocity :: struct16_t
  mcf_steering_angle :: struct16_t

definition cast_MotionCommandFrame :: "u8 list \<Rightarrow> MotionCommandFrame" where
  "cast_MotionCommandFrame d = \<lparr>mcf_linear_velocity = s16_at d 0, mcf_angular_velocity = s16_at d 2,
     mcf_lateral_velocity = s16_at d 4, mcf_steering_angle = s16_at d 6\<rparr>"

definition mem_MotionCommandFrame :: "MotionCommandFrame \<Rightarrow> u8 list" where
  "mem_MotionCommandFrame f =
     s16_mem (mcf_linear_velocity f) @ s16_mem (mcf_angular_velocity f) @
     s16_mem (mcf_lateral_velocity f) @ s16_mem (mcf_steering_angle f)"

record LightCommandFrame =
  lcf_enable_cmd_ctrl :: u8
  lcf_front_mode :: u8
  lcf_front_custom :: u8
  lcf_rear_mode :: u8
  lcf_rear_custom :: u8
  lcf_reserved0 :: u8
  lcf_reserved1 :: u8
  lcf_count :: u8

definition cast_LightCommandFrame :: "u8 list \<Rightarrow> LightCommandFrame" where
  "cast_LightCommandFrame d = \<lparr>lcf_enable_cmd_ctrl = d ! 0, lcf_front_mode = d ! 1, lcf_front_custom = d ! 2,
     lcf_rear_mode = d ! 3, lcf_rear_custom = d ! 4, lcf_reserved0 = d ! 5,
     lcf_reserved1 = d ! 6, lcf_count = d ! 7\<rparr>"

definition mem_LightCommandFrame :: "LightCommandFrame \<Rightarrow> u8 list" where
  "mem_LightCommandFrame f =
     [lcf_enable_cmd_ctrl f, lcf_front_mode f, lcf_front_custom f, lcf_rear_mode f,
     lcf_rear_custom f, lcf_reserved0 f, lcf_reserved1 f, lcf_count f]"

record SetMotionModeFrame =
  smf_motion_mode :: u8
  smf_reserved0 :: u8
  smf_reserved1 :: u8
  smf_reserved2 :: u8
  smf_reserved3 :: u8
  smf_reserved4 :: u8
  smf_reserved5 :: u8
  smf_reserved6 :: u8

definition cast_SetMotionModeFrame :: "u8 list \<Rightarrow> SetMotionModeFrame" where
  "cast_SetMotionModeFrame d = \<lparr>smf_motion_mode = d ! 0, smf_reserved0 = d ! 1, smf_reserved1 = d ! 2,
     smf_reserved2 = d ! 3, smf_reserved3 = d ! 4, smf_reserved4 = d ! 5,
     smf_reserved5 = d ! 6, smf_reserved6 = d ! 7\<rparr>"

definition mem_SetMotionModeFrame :: "SetMotionModeFrame \<Rightarrow> u8 list" where
  "mem_SetMotionModeFrame f =
     [smf_motion_mode f, smf_reserved0 f, smf_reserved1 f, smf_reserved2 f, smf_reserved3 f,
     smf_reserved4 f, smf_reserved5 f, smf_reserved6 f]"

record SystemStateFrame =
  ssf_vehicle_state :: u8
  ssf_control_mode :: u8
  ssf_battery_voltage :: struct16_t
  ssf_error_code :: struct16_t
  ssf_reserved0 :: u8
  ssf_count :: u8

definition cast_SystemStateFrame :: "u8 list \<Rightarrow> SystemStateFrame" where
  "cast_SystemStateFrame d = \<lparr>ssf_vehicle_state = d ! 0, ssf_control_mode = d ! 1, ssf_battery_voltage = s16_at d 2,
     ssf_error_code = s16_at d 4, ssf_reserved0 = d ! 6, ssf_count = d ! 7\<rparr>"

definition mem_SystemStateFrame :: "SystemStateFrame \<Rightarrow> u8 list" where
  "mem_SystemStateFrame f =
     [ssf_vehicle_state f, ssf_control_mode f] @ s16_mem (ssf_battery_voltage f) @
     s16_mem (ssf_error_code f) @ [ssf_reserved0 f, ssf_count f]"

record MotionStateFrame =
  msf_linear_velocity :: struct16_t
  msf_angular_velocity :: struct16_t
  msf_lateral_velocity :: struct16_t
  msf_steering_angle :: struct16_t

definition cast_MotionStateFrame :: "u8 list \<Rightarrow> MotionStateFrame" where
  "cast_MotionStateFrame d = \<lparr>msf_linear_velocity = s16_at d 0, msf_angular_velocity = s16_at d 2,
     msf_lateral_velocity = s16_at d 4, msf_steering_angle = s16_at d 6\<rparr>"

definition mem_MotionStateFrame :: "MotionStateFrame \<Rightarrow> u8 list" where
  "mem_MotionStateFrame f =
     s16_mem (msf_linear_velocity f) @ s16_mem (msf_angular_velocity f) @
     s16_mem (msf_lateral_velocity f) @ s16_mem (msf_steering_angle f)"

record LightStateFrame =
  lsf_enable_cmd_ctrl :: u8
  lsf_front_mode :: u8
  lsf_front_custom :: u8
  lsf_rear_mode :: u8
  lsf_rear_custom :: u8
  lsf_reserved0 :: u8
  lsf_reserved1 :: u8
  lsf_count :: u8

definition cast_LightStateFrame :: "u8 list \<Rightarrow> LightStateFrame" where
  "cast_LightStateFrame d = \<lparr>lsf_enable_cmd_ctrl = d ! 0, lsf_front_mode = d ! 1, lsf_front_custom = d ! 2,
     lsf_rear_mode = d ! 3, lsf_rear_custom = d ! 4, lsf_reserved0 = d ! 5,
     lsf_reserved1 = d ! 6, lsf_count = d ! 7\<rparr>"

record RcStateFrame =
  rcf_sws :: u8
  rcf_stick_right_h :: u8
  rcf_stick_right_v :: u8
  rcf_stick_left_v :: u8
  rcf_stick_left_h :: u8
  rcf_var_a :: u8
  rcf_reserved0 :: u8
  rcf_count :: u8

definition cast_RcStateFrame :: "u8 list \<Rightarrow> RcStateFrame" where
  "cast_RcStateFrame d = \<lparr>rcf_sws = d ! 0, rcf_stick_right_h = d ! 1, rcf_stick_right_v = d ! 2,
     rcf_stick_left_v = d ! 3, rcf_stick_left_h = d ! 4, rcf_var_a = d ! 5,
     rcf_reserved0 = d ! 6, rcf_count = d ! 7\<rparr>"

record ActuatorHSStateFrame =
  ahf_rpm :: struct16_t
  ahf_current :: struct16_t
  ahf_pulse_count :: struct32_t

definition cast_ActuatorHSStateFrame :: "u8 list \<Rightarrow> ActuatorHSStateFrame" where
  "cast_ActuatorHSStateFrame d = \<lparr>ahf_rpm = s16_at d 0, ahf_current = s16_at d 2, ahf_pulse_count = s32_at d 4\<rparr>"

record ActuatorLSStateFrame =
  alf_driver_voltage :: struct16_t
  alf_driver_temp :: struct16_t
  alf_motor_temp :: u8
  alf_driver_state :: u8
  alf_reserved0 :: u8
  alf_reserved1 :: u8

definition cast_ActuatorLSStateFrame :: "u8 list \<Rightarrow> ActuatorLSStateFrame" where
  "cast_ActuatorLSStateFrame d = \<lparr>alf_driver_voltage = s16_at d 0, alf_driver_temp = s16_at d 2, alf_motor_temp = d ! 4,
     alf_driver_state = d ! 5, alf_reserved0 = d ! 6, alf_reserved1 = d ! 7\<rparr>"

record MotionModeStateFrame =
  mmf_motion_mode :: u8
  mmf_mode_changing :: u8

definition cast_MotionModeStateFrame :: "u8 list \<Rightarrow> MotionModeStateFrame" where
  "cast_MotionModeStateFrame d = \<lparr>mmf_motion_mode = d ! 0, mmf_mode_changing = d ! 1\<rparr>"

record OdometryFrame =
  odf_left_wheel :: struct32_t
  odf_right_wheel :: struct32_t

definition cast_OdometryFrame :: "u8 list \<Rightarrow> OdometryFrame" where
  "cast_OdometryFrame d = \<lparr>odf_left_wheel = s32_at d 0, odf_right_wheel = s32_at d 4\<rparr>"

record BmsBasicFrame =
  bbf_battery_soc :: u8
  bbf_battery_soh :: u8
  bbf_voltage :: struct16_t
  bbf_current :: struct16_t
  bbf_temperature :: struct16_t

definition cast_BmsBasicFrame :: "u8 list \<Rightarrow> BmsBasicFrame" where
  "cast_BmsBasicFrame d = \<lparr>bbf_battery_soc = d ! 0, bbf_battery_soh = d ! 1, bbf_voltage = s16_at d 2,
     bbf_current = s16_at d 4, bbf_temperature = s16_at d 6\<rparr>"

record BmsExtendedFrame =
  bef_alarm_status_1 :: u8
  bef_alarm_status_2 :: u8
  bef_warn_status_1 :: u8
  bef_warn_status_2 :: u8
  bef_reserved0 :: u8
  bef_reserved1 :: u8
  bef_reserved2 :: u8
  bef_reserved3 :: u8

definition cast_BmsExtendedFrame :: "u8 list \<Rightarrow> BmsExtendedFrame" where
  "cast_BmsExtendedFrame d = \<lparr>bef_alarm_status_1 = d ! 0, bef_alarm_status_2 = d ! 1, bef_warn_status_1 = d ! 2,
     bef_warn_status_2 = d ! 3, bef_reserved0 = d ! 4, bef_reserved1 = d ! 5,
     bef_reserved2 = d ! 6, bef_reserved3 = d ! 7\<rparr>"

record VersionResponseFrame =
  vrf_res0 :: u8
  vrf_res1 :: u8
  vrf_res2 :: u8
  vrf_res3 :: u8
  vrf_res4 :: u8
  vrf_res5 :: u8
  vrf_res6 :: u8
  vrf_res7 :: u8

definition cast_VersionResponseFrame :: "u8 list \<Rightarrow> VersionResponseFrame" where
  "cast_VersionResponseFrame d = \<lparr>vrf_res0 = d ! 0, vrf_res1 = d ! 1, vrf_res2 = d ! 2, vrf_res3 = d ! 3,
     vrf_res4 = d ! 4, vrf_res5 = d ! 5, vrf_res6 = d ! 6, vrf_res7 = d ! 7\<rparr>"

record ControlModeConfigFrame =
  cmf_mode :: u8
  cmf_reserved0 :: u8
  cmf_reserved1 :: u8
  cmf_reserved2 :: u8
  cmf_reserved3 :: u8
  cmf_reserved4 :: u8
  cmf_reserved5 :: u8
  cmf_reserved6 :: u8

definition cast_ControlModeConfigFrame :: "u8 list \<Rightarrow> ControlModeConfigFrame" where
  "cast_ControlModeConfigFrame d = \<lparr>cmf_mode = d ! 0, cmf_reserved0 = d ! 1, cmf_reserved1 = d ! 2, cmf_reserved2 = d ! 3,
     cmf_reserved3 = d ! 4, cmf_reserved4 = d ! 5, cmf_reserved5 = d ! 6,
     cmf_reserved6 = d ! 7\<rparr>"

definition mem_ControlModeConfigFrame :: "ControlModeConfigFrame \<Rightarrow> u8 list" where
  "mem_ControlModeConfigFrame f =
     [cmf_mode f, cmf_reserved0 f, cmf_reserved1 f, cmf_reserved2 f, cmf_reserved3 f,
     cmf_reserved4 f, cmf_reserved5 f, cmf_reserved6 f]"

record BrakeModeConfigFrame =
  bmf_mode :: u8
  bmf_reserved0 :: u8
  bmf_reserved1 :: u8
  bmf_reserved2 :: u8
  bmf_reserved3 :: u8
  bmf_reserved4 :: u8
  bmf_reserved5 :: u8
  bmf_reserved6 :: u8

definition cast_BrakeModeConfigFrame :: "u8 list \<Rightarrow> BrakeModeConfigFrame" where
  "cast_BrakeModeConfigFrame d = \<lparr>bmf_mode = d ! 0, bmf_reserved0 = d ! 1, bmf_reserved1 = d ! 2, bmf_reserved2 = d ! 3,
     bmf_reserved3 = d ! 4, bmf_reserved4 = d ! 5, bmf_reserved5 = d ! 6,
     bmf_reserved6 = d ! 7\<rparr>"

definition mem_BrakeModeConfigFrame :: "BrakeModeConfigFrame \<Rightarrow> u8 list" where
  "mem_BrakeModeConfigFrame f =
     [bmf_mode f, bmf_reserved0 f, bmf_reserved1 f, bmf_reserved2 f, bmf_reserved3 f,
     bmf_reserved4 f, bmf_reserved5 f, bmf_reserved6 f]"

record StateResetConfigFrame =
  srf_error_clear_byte :: u8
  srf_reserved0 :: u8
  srf_reserved1 :: u8
  srf_reserved2 :: u8
  srf_reserved3 :: u8
  srf_reserved4 :: u8
  srf_reserved5 :: u8
  srf_reserved6 :: u8

definition cast_StateResetConfigFrame :: "u8 list \<Rightarrow> StateResetConfigFrame" where
  "cast_StateResetConfigFrame d = \<lparr>srf_error_clear_byte = d ! 0, srf_reserved0 = d ! 1, srf_reserved1 = d ! 2,
     srf_reserved2 = d ! 3, srf_reserved3 = d ! 4, srf_reserved4 = d ! 5,
     srf_reserved5 = d ! 6, srf_reserved6 = d ! 7\<rparr>"

record MoterAngleFrame =
  maf_angle_5 :: struct16_t
  maf_angle_6 :: struct16_t
  maf_angle_7 :: struct16_t
  maf_angle_8 :: struct16_t

definition cast_MoterAngleFrame :: "u8 list \<Rightarrow> MoterAngleFrame" where
  "cast_MoterAngleFrame d = \<lparr>maf_angle_5 = s16_at d 0, maf_angle_6 = s16_at d 2, maf_angle_7 = s16_at d 4,
     maf_angle_8 = s16_at d 6\<rparr>"

record MoterSpeedFrame =
  mpf_speed_1 :: struct16_t
  mpf_speed_2 :: struct16_t
  mpf_speed_3 :: struct16_t
  mpf_speed_4 :: struct16_t

definition cast_MoterSpeedFrame :: "u8 list \<Rightarrow> MoterSpeedFrame" where
  "cast_MoterSpeedFrame d = \<lparr>mpf_speed_1 = s16_at d 0, mpf_speed_2 = s16_at d 2, mpf_speed_3 = s16_at d 4,
     mpf_speed_4 = s16_at d 6\<rparr>"

lemmas frame_defs = s16_mem_def cast_MotionCommandFrame_def mem_MotionCommandFrame_def
  cast_LightCommandFrame_def mem_LightCommandFrame_def cast_SetMotionModeFrame_def
  mem_SetMotionModeFrame_def cast_SystemStateFrame_def mem_SystemStateFrame_def
  cast_MotionStateFrame_def mem_MotionStateFrame_def cast_LightStateFrame_def
  cast_RcStateFrame_def cast_ActuatorHSStateFrame_def cast_ActuatorLSStateFrame_def
  cast_MotionModeStateFrame_def cast_OdometryFrame_def cast_BmsBasicFrame_def
  cast_BmsExtendedFrame_def cast_VersionResponseFrame_def cast_ControlModeConfigFrame_def
  mem_ControlModeConfigFrame_def cast_BrakeModeConfigFrame_def mem_BrakeModeConfigFrame_def
  cast_StateResetConfigFrame_def cast_MoterAngleFrame_def cast_MoterSpeedFrame_def

text \<open>The cast is a left inverse of the memory image, and a memory image has eight bytes.\<close>

lemma cast_mem_MotionCommandFrame [simp]: "cast_MotionCommandFrame (mem_MotionCommandFrame f) = f" "length (mem_MotionCommandFrame f) = 8"
  by (simp_all add: cast_MotionCommandFrame_def mem_MotionCommandFrame_def s16_mem_def s16_at_def)

lemma cast_mem_LightCommandFrame [simp]: "cast_LightCommandFrame (mem_LightCommandFrame f) = f" "length (mem_LightCommandFrame f) = 8"
  by (simp_all add: cast_LightCommandFrame_def mem_LightCommandFrame_def s16_mem_def s16_at_def)

lemma cast_mem_SetMotionModeFrame [simp]: "cast_SetMotionModeFrame (mem_SetMotionModeFrame f) = f" "length (mem_SetMotionModeFrame f) = 8"
  by (simp_all add: cast_SetMotionModeFrame_def mem_SetMotionModeFrame_def s16_mem_def s16_at_def)

lemma cast_mem_SystemStateFrame [simp]: "cast_SystemStateFrame (mem_SystemStateFrame f) = f" "length (mem_SystemStateFrame f) = 8"
  by (simp_all add: cast_SystemStateFrame_def mem_SystemStateFrame_def s16_mem_def s16_at_def)

lemma cast_mem_MotionStateFrame [simp]: "cast_MotionStateFrame (mem_MotionStateFrame f) = f" "length (mem_MotionStateFrame f) = 8"
  by (simp_all add: cast_MotionStateFrame_def mem_MotionStateFrame_def s16_mem_def s16_at_def)

lemma cast_mem_ControlModeConfigFrame [simp]: "cast_ControlModeConfigFrame (mem_ControlModeConfigFrame f) = f" "length (mem_ControlModeConfigFrame f) = 8"
  by (simp_all add: cast_ControlModeConfigFrame_def mem_ControlModeConfigFrame_def s16_mem_def s16_at_def)

lemma cast_mem_BrakeModeConfigFrame [simp]: "cast_BrakeModeConfigFrame (mem_BrakeModeConfigFrame f) = f" "length (mem_BrakeModeConfigFrame f) = 8"
  by (simp_all add: cast_BrakeModeConfigFrame_def mem_BrakeModeConfigFrame_def s16_mem_def s16_at_def)

end
