(* ===== verification/Codec_V2.thy ===== *)
theory Codec_V2
  imports Frames_V2 Quantise Parser_Interface
begin

text \<open>
  The version 2 message codec, \<open>protocol_v2/agilex_msg_parser_v2.c\<close>: \<open>DecodeCanFrameV2\<close>,
  \<open>EncodeCanFrameV2\<close> and \<open>CalcCanFrameChecksumV2\<close>. The two big switches are split along the
  comment lines of the source (command, feedback, actuator, sensor and query frames), each group
  a definition that returns \<^const>\<open>None\<close> when no label of it matches.
\<close>

section \<open>Decoding\<close>

subsection \<open>Command frames\<close>

definition decode_motion_command :: "u8 list \<Rightarrow> MotionCommandMessage" where
  "decode_motion_command d = (let frame = cast_MotionCommandFrame d in
     \<lparr>mcm_linear_velocity = milli (val16 (mcf_linear_velocity frame)),
      mcm_angular_velocity = milli (val16 (mcf_angular_velocity frame)),
      mcm_lateral_velocity = milli (val16 (mcf_lateral_velocity frame)),
      mcm_steering_angle = milli (val16 (mcf_steering_angle frame))\<rparr>)"

definition decode_light_command :: "u8 list \<Rightarrow> LightCommandMessage" where
  "decode_light_command d = (let frame = cast_LightCommandFrame d in
     \<lparr>enable_cmd_ctrl = (lcf_enable_cmd_ctrl frame \<noteq> 0),
      front_light = \<lparr>mode = ucast (lcf_front_mode frame), custom_value = lcf_front_custom frame\<rparr>,
      rear_light = \<lparr>mode = ucast (lcf_rear_mode frame), custom_value = lcf_rear_custom frame\<rparr>\<rparr>)"

definition decode_command :: "u32 \<Rightarrow> u8 list \<Rightarrow> AgxMessage \<Rightarrow> AgxMessage option" where
  "decode_command cid d msg =
     (if cid = CAN_MSG_MOTION_COMMAND_ID then
        Some \<lparr>msg_type = AgxMsgMotionCommand, msg_body = U_motion_command (decode_motion_command d)\<rparr>
      else if cid = CAN_MSG_LIGHT_COMMAND_ID then
        Some \<lparr>msg_type = AgxMsgLightCommand, msg_body = U_light_command (decode_light_command d)\<rparr>
      else if cid = CAN_MSG_BRAKING_COMMAND_ID then
        Some (msg\<lparr>msg_type := AgxMsgBrakingCommand\<rparr>)
      else None)"

subsection \<open>Feedback frames\<close>

definition decode_system_state :: "u8 list \<Rightarrow> SystemStateMessage" where
  "decode_system_state d = (let frame = cast_SystemStateFrame d in
     \<lparr>vehicle_state = ucast (ssf_vehicle_state frame),
      control_mode = ucast (ssf_control_mode frame),
      battery_voltage = deci (val16 (ssf_battery_voltage frame)),
      error_code = val16 (ssf_error_code frame)\<rparr>)"

definition decode_motion_state :: "u8 list \<Rightarrow> MotionStateMessage" where
  "decode_motion_state d = (let frame = cast_MotionStateFrame d in
     \<lparr>linear_velocity = milli (val16 (msf_linear_velocity frame)),
      angular_velocity = milli (val16 (msf_angular_velocity frame)),
      lateral_velocity = milli (val16 (msf_lateral_velocity frame)),
      steering_angle = milli (val16 (msf_steering_angle frame))\<rparr>)"

definition decode_light_state :: "u8 list \<Rightarrow> LightStateMessage" where
  "decode_light_state d = (let frame = cast_LightStateFrame d in
     \<lparr>enable_cmd_ctrl = (lsf_enable_cmd_ctrl frame \<noteq> 0),
      front_light = \<lparr>mode = ucast (lsf_front_mode frame), custom_value = lsf_front_custom frame\<rparr>,
      rear_light = \<lparr>mode = ucast (lsf_rear_mode frame), custom_value = lsf_rear_custom frame\<rparr>\<rparr>)"

text \<open>
  A two-position switch (a, d) and a three-position switch (b, c), decoded from the bits under
  \<open>bits\<close>. When no position matches the source assigns nothing and the field keeps its previous
  contents \<open>old\<close>.
\<close>

definition switch2 :: "u8 \<Rightarrow> u8 \<Rightarrow> u8 \<Rightarrow> u8 \<Rightarrow> AgxRcSwitchState \<Rightarrow> AgxRcSwitchState" where
  "switch2 sws bits up down old =
     (if sws AND bits = up then RC_SWITCH_UP
      else if sws AND bits = down then RC_SWITCH_DOWN else old)"

definition switch3 :: "u8 \<Rightarrow> u8 \<Rightarrow> u8 \<Rightarrow> u8 \<Rightarrow> u8 \<Rightarrow> AgxRcSwitchState \<Rightarrow> AgxRcSwitchState" where
  "switch3 sws bits up middle down old =
     (if sws AND bits = up then RC_SWITCH_UP
      else if sws AND bits = middle then RC_SWITCH_MIDDLE
      else if sws AND bits = down then RC_SWITCH_DOWN else old)"

definition decode_rc_state :: "RcStateMessage \<Rightarrow> u8 list \<Rightarrow> RcStateMessage" where
  "decode_rc_state old d = (let frame = cast_RcStateFrame d; sws = rcf_sws frame in
     \<lparr>swa = switch2 sws 0x03 0x02 0x03 (swa old),
      swb = switch3 sws 0x0c 0x08 0x04 0x0c (swb old),
      swc = switch3 sws 0x30 0x20 0x10 0x30 (swc old),
      swd = switch2 sws 0xc0 0x80 0xc0 (swd old),
      stick_right_v = rcf_stick_right_v frame, stick_right_h = rcf_stick_right_h frame,
      stick_left_v = rcf_stick_left_v frame, stick_left_h = rcf_stick_left_h frame,
      var_a = rcf_var_a frame\<rparr>)"

text \<open>The previous contents of the union read as an \<open>rc_state_msg\<close>: those of the member when it
  was the last one written, \<open>u\<close> (whatever the bytes happen to hold) otherwise.\<close>

fun old_rc_state :: "RcStateMessage \<Rightarrow> AgxBody \<Rightarrow> RcStateMessage" where
  "old_rc_state u (U_rc_state r) = r"
| "old_rc_state u _ = u"

definition decode_feedback ::
  "RcStateMessage \<Rightarrow> u32 \<Rightarrow> u8 list \<Rightarrow> AgxMessage \<Rightarrow> AgxMessage option" where
  "decode_feedback u cid d msg =
     (if cid = CAN_MSG_SYSTEM_STATE_ID then
        Some \<lparr>msg_type = AgxMsgSystemState, msg_body = U_system_state (decode_system_state d)\<rparr>
      else if cid = CAN_MSG_MOTION_STATE_ID then
        Some \<lparr>msg_type = AgxMsgMotionState, msg_body = U_motion_state (decode_motion_state d)\<rparr>
      else if cid = CAN_MSG_LIGHT_STATE_ID then
        Some \<lparr>msg_type = AgxMsgLightState, msg_body = U_light_command (decode_light_state d)\<rparr>
      else if cid = CAN_MSG_RC_STATE_ID then
        Some \<lparr>msg_type = AgxMsgRcState,
              msg_body = U_rc_state (decode_rc_state (old_rc_state u (msg_body msg)) d)\<rparr>
      else None)"

subsection \<open>Actuator frames\<close>

definition decode_actuator_hs :: "u32 \<Rightarrow> u8 list \<Rightarrow> ActuatorHSStateMessage" where
  "decode_actuator_hs cid d = (let frame = cast_ActuatorHSStateFrame d in
     \<lparr>hs_motor_id = ucast (cid - CAN_MSG_ACTUATOR1_HS_STATE_ID),
      hs_rpm = val16 (ahf_rpm frame),
      hs_current = deci (val16 (ahf_current frame)),
      hs_pulse_count = val32 (ahf_pulse_count frame)\<rparr>)"

definition decode_actuator_ls :: "u32 \<Rightarrow> u8 list \<Rightarrow> ActuatorLSStateMessage" where
  "decode_actuator_ls cid d = (let frame = cast_ActuatorLSStateFrame d in
     \<lparr>ls_motor_id = ucast (cid - CAN_MSG_ACTUATOR1_LS_STATE_ID),
      ls_driver_voltage = deci_u (val16 (alf_driver_voltage frame)),
      ls_driver_temp = float_of_i16 (val16 (alf_driver_temp frame)),
      ls_motor_temp = float_of_i8 (alf_motor_temp frame),
      ls_driver_state = alf_driver_state frame\<rparr>)"

definition decode_motion_mode_state :: "u8 list \<Rightarrow> MotionModeStateMessage" where
  "decode_motion_mode_state d = (let frame = cast_MotionModeStateFrame d in
     \<lparr>motion_mode = mmf_motion_mode frame, mode_changing = mmf_mode_changing frame\<rparr>)"

definition decode_actuator :: "u32 \<Rightarrow> u8 list \<Rightarrow> AgxMessage \<Rightarrow> AgxMessage option" where
  "decode_actuator cid d msg =
     (if cid \<in> {CAN_MSG_ACTUATOR1_HS_STATE_ID, CAN_MSG_ACTUATOR2_HS_STATE_ID,
         CAN_MSG_ACTUATOR3_HS_STATE_ID, CAN_MSG_ACTUATOR4_HS_STATE_ID,
         CAN_MSG_ACTUATOR5_HS_STATE_ID, CAN_MSG_ACTUATOR6_HS_STATE_ID,
         CAN_MSG_ACTUATOR7_HS_STATE_ID, CAN_MSG_ACTUATOR8_HS_STATE_ID} then
        Some \<lparr>msg_type = AgxMsgActuatorHSState,
              msg_body = U_actuator_hs_state (decode_actuator_hs cid d)\<rparr>
      else if cid \<in> {CAN_MSG_ACTUATOR1_LS_STATE_ID, CAN_MSG_ACTUATOR2_LS_STATE_ID,
         CAN_MSG_ACTUATOR3_LS_STATE_ID, CAN_MSG_ACTUATOR4_LS_STATE_ID,
         CAN_MSG_ACTUATOR5_LS_STATE_ID, CAN_MSG_ACTUATOR6_LS_STATE_ID,
         CAN_MSG_ACTUATOR7_LS_STATE_ID, CAN_MSG_ACTUATOR8_LS_STATE_ID} then
        Some \<lparr>msg_type = AgxMsgActuatorLSState,
              msg_body = U_actuator_ls_state (decode_actuator_ls cid d)\<rparr>
      else if cid = CAN_MSG_CURRENT_CTRL_MODE then
        Some \<lparr>msg_type = AgxMsgMotionModeState,
              msg_body = U_motion_mode_state (decode_motion_mode_state d)\<rparr>
      else None)"

subsection \<open>Sensor frames\<close>

definition decode_odometry :: "u8 list \<Rightarrow> OdometryMessage" where
  "decode_odometry d = (let frame = cast_OdometryFrame d in
     \<lparr>left_wheel = float_of_i32 (val32 (odf_left_wheel frame)),
      right_wheel = float_of_i32 (val32 (odf_right_wheel frame))\<rparr>)"

definition decode_bms_basic :: "u8 list \<Rightarrow> BmsBasicMessage" where
  "decode_bms_basic d = (let frame = cast_BmsBasicFrame d in
     \<lparr>battery_soc = bbf_battery_soc frame, battery_soh = bbf_battery_soh frame,
      bms_voltage = deci_f (val16 (bbf_voltage frame)),
      bms_current = deci_f (val16 (bbf_current frame)),
      bms_temperature = deci_f (val16 (bbf_temperature frame))\<rparr>)"

definition decode_bms_extended :: "u8 list \<Rightarrow> BmsExtendedMessage" where
  "decode_bms_extended d = (let frame = cast_BmsExtendedFrame d in
     \<lparr>alarm_status_1 = bef_alarm_status_1 frame, alarm_status_2 = bef_alarm_status_2 frame,
      warn_status_1 = bef_warn_status_1 frame, warn_status_2 = bef_warn_status_2 frame\<rparr>)"

definition decode_sensor :: "u32 \<Rightarrow> u8 list \<Rightarrow> AgxMessage \<Rightarrow> AgxMessage option" where
  "decode_sensor cid d msg =
     (if cid = CAN_MSG_ODOMETRY_ID then
        Some \<lparr>msg_type = AgxMsgOdometry, msg_body = U_odometry (decode_odometry d)\<rparr>
      else if cid = CAN_MSG_IMU_ACCEL_ID then Some (msg\<lparr>msg_type := AgxMsgImuAccel\<rparr>)
      else if cid = CAN_MSG_IMU_GYRO_ID then Some (msg\<lparr>msg_type := AgxMsgImuGyro\<rparr>)
      else if cid = CAN_MSG_IMU_EULER_ID then Some (msg\<lparr>msg_type := AgxMsgImuEuler\<rparr>)
      else if cid = CAN_MSG_SAFETY_BUMPER_ID then Some (msg\<lparr>msg_type := AgxMsgSafetyBumper\<rparr>)
      else if cid \<in> {CAN_MSG_ULTRASONIC_1_ID, CAN_MSG_ULTRASONIC_2_ID,
         CAN_MSG_ULTRASONIC_3_ID, CAN_MSG_ULTRASONIC_4_ID,
         CAN_MSG_ULTRASONIC_5_ID, CAN_MSG_ULTRASONIC_6_ID,
         CAN_MSG_ULTRASONIC_7_ID, CAN_MSG_ULTRASONIC_8_ID} then
        Some (msg\<lparr>msg_type := AgxMsgUltrasonic\<rparr>)
      else if cid \<in> {CAN_MSG_UWB_1_ID, CAN_MSG_UWB_2_ID,
         CAN_MSG_UWB_3_ID, CAN_MSG_UWB_4_ID} then
        Some (msg\<lparr>msg_type := AgxMsgUwb\<rparr>)
      else if cid = CAN_MSG_BMS_BASIC_ID then
        Some \<lparr>msg_type = AgxMsgBmsBasic, msg_body = U_bms_basic (decode_bms_basic d)\<rparr>
      else if cid = CAN_MSG_BMS_EXTENDED_ID then
        Some \<lparr>msg_type = AgxMsgBmsExtended, msg_body = U_bms_extended (decode_bms_extended d)\<rparr>
      else None)"

subsection \<open>Query and configuration frames\<close>

definition decode_version_response :: "u8 list \<Rightarrow> VersionResponseMessage" where
  "decode_version_response d = (let frame = cast_VersionResponseFrame d in
     \<lparr>vr_bytes = [vrf_res0 frame, vrf_res1 frame, vrf_res2 frame, vrf_res3 frame,
                  vrf_res4 frame, vrf_res5 frame, vrf_res6 frame, vrf_res7 frame]\<rparr>)"

definition decode_motor_angle :: "u8 list \<Rightarrow> MotorAngleMessage" where
  "decode_motor_angle d = (let frame = cast_MoterAngleFrame d in
     \<lparr>angle_5 = milli_mul (val16 (maf_angle_5 frame)),
      angle_6 = milli_mul (val16 (maf_angle_6 frame)),
      angle_7 = milli_mul (val16 (maf_angle_7 frame)),
      angle_8 = milli_mul (val16 (maf_angle_8 frame))\<rparr>)"

definition decode_motor_speed :: "u8 list \<Rightarrow> MotorSpeedMessage" where
  "decode_motor_speed d = (let frame = cast_MoterSpeedFrame d in
     \<lparr>speed_1 = milli_mul (val16 (mpf_speed_1 frame)),
      speed_2 = milli_mul (val16 (mpf_speed_2 frame)),
      speed_3 = milli_mul (val16 (mpf_speed_3 frame)),
      speed_4 = milli_mul (val16 (mpf_speed_4 frame))\<rparr>)"

definition decode_query :: "u32 \<Rightarrow> u8 list \<Rightarrow> AgxMessage \<Rightarrow> AgxMessage option" where
  "decode_query cid d msg =
     (if cid = CAN_MSG_VERSION_REQUEST_ID then Some (msg\<lparr>msg_type := AgxMsgVersionRequest\<rparr>)
      else if cid = CAN_MSG_VERSION_RESPONSE_ID then
        Some \<lparr>msg_type = AgxMsgVersionResponse,
              msg_body = U_version_response (decode_version_response d)\<rparr>
      else if cid = CAN_MSG_CTRL_MODE_CONFIG_ID then
        Some \<lparr>msg_type = AgxMsgControlModeConfig,
              msg_body = U_control_mode_config
                \<lparr>cmc_mode = ucast (cmf_mode (cast_ControlModeConfigFrame d))\<rparr>\<rparr>
      else if cid = CAN_MSG_STEER_NEUTRAL_REQUEST_ID then
        Some (msg\<lparr>msg_type := AgxMsgSteerNeutralRequest\<rparr>)
      else if cid = CAN_MSG_STEER_NEUTRAL_RESPONSE_ID then
        Some (msg\<lparr>msg_type := AgxMsgSteerNeutralResponse\<rparr>)
      else if cid = CAN_MSG_STATE_RESET_CONFIG_ID then
        Some \<lparr>msg_type = AgxMsgStateResetConfig,
              msg_body = U_state_reset_config
                \<lparr>error_clear_byte = srf_error_clear_byte (cast_StateResetConfigFrame d)\<rparr>\<rparr>
      else if cid = CAN_MSG_MOTOR_ANGLE_INFO then
        Some \<lparr>msg_type = AgxMsgMotorAngle, msg_body = U_motor_angle (decode_motor_angle d)\<rparr>
      else if cid = CAN_MSG_MOTOR_SPEED_INFO then
        Some \<lparr>msg_type = AgxMsgMotorSpeed, msg_body = U_motor_speed (decode_motor_speed d)\<rparr>
      else None)"

subsection \<open>The decoder\<close>

text \<open>\<open>msg\<close> is the caller's message, updated in place; the result pairs the return value with
  it. \<open>u\<close> stands for the indeterminate bytes of its union, see \<^const>\<open>old_rc_state\<close>.\<close>

definition DecodeCanFrameV2 ::
  "RcStateMessage \<Rightarrow> can_frame \<Rightarrow> AgxMessage \<Rightarrow> bool \<times> AgxMessage" where
  "DecodeCanFrameV2 u rx_frame msg =
     (let msg = msg\<lparr>msg_type := AgxMsgUnkonwn\<rparr>; cid = can_id rx_frame; d = can_data rx_frame in
      case decode_command cid d msg of Some m \<Rightarrow> (True, m) | None \<Rightarrow>
      case decode_feedback u cid d msg of Some m \<Rightarrow> (True, m) | None \<Rightarrow>
      case decode_actuator cid d msg of Some m \<Rightarrow> (True, m) | None \<Rightarrow>
      case decode_sensor cid d msg of Some m \<Rightarrow> (True, m) | None \<Rightarrow>
      case decode_query cid d msg of Some m \<Rightarrow> (True, m) | None \<Rightarrow> (False, msg))"

section \<open>Encoding\<close>

text \<open>
  \<open>tx_frame\<close> is the caller's frame, updated in place. A local frame struct starts with
  indeterminate bytes \<open>junk\<close> (eight of them), and what the source leaves unassigned (the
  \<open>TODO\<close> cases entirely, \<open>reserved0\<close> and \<open>count\<close> of the system state) goes out as they are.
  The \<open>static\<close> counter of the light command is the state \<open>count\<close>.
\<close>

definition header :: "u32 \<Rightarrow> u8 \<Rightarrow> can_frame \<Rightarrow> can_frame" where
  "header i dlc f = f\<lparr>can_id := i, can_dlc := dlc\<rparr>"

definition todo_frame :: "u8 list \<Rightarrow> u32 \<Rightarrow> u8 \<Rightarrow> can_frame \<Rightarrow> can_frame" where
  "todo_frame junk i dlc f = put_data (take (unat dlc) junk) (header i dlc f)"

subsection \<open>Command messages\<close>

definition encode_motion_command :: "u8 list \<Rightarrow> AgxBody \<Rightarrow> can_frame \<Rightarrow> ub + can_frame" where
  "encode_motion_command junk body f =
     bind_ub (motion_command_msg body) (\<lambda>m.
     bind_ub (to_milli (mcm_linear_velocity m)) (\<lambda>linear_cmd.
     bind_ub (to_milli (mcm_angular_velocity m)) (\<lambda>angular_cmd.
     bind_ub (to_milli (mcm_lateral_velocity m)) (\<lambda>lateral_cmd.
     bind_ub (to_milli (mcm_steering_angle m)) (\<lambda>steering_cmd.
       let frame = (cast_MotionCommandFrame junk)
         \<lparr>mcf_linear_velocity := split16 linear_cmd, mcf_angular_velocity := split16 angular_cmd,
          mcf_lateral_velocity := split16 lateral_cmd, mcf_steering_angle := split16 steering_cmd\<rparr>
       in Inr (put_data (mem_MotionCommandFrame frame) (header CAN_MSG_MOTION_COMMAND_ID 8 f)))))))"

definition encode_light_command ::
  "u8 list \<Rightarrow> AgxBody \<Rightarrow> u8 \<Rightarrow> can_frame \<Rightarrow> ub + u8 \<times> can_frame" where
  "encode_light_command junk body count f =
     bind_ub (light_command_msg body) (\<lambda>m.
       let frame = cast_LightCommandFrame junk;
         frame = (if enable_cmd_ctrl m then
             frame\<lparr>lcf_enable_cmd_ctrl := 0x01,
               lcf_front_mode := ucast (mode (front_light m)),
               lcf_front_custom := custom_value (front_light m),
               lcf_rear_mode := ucast (mode (rear_light m)),
               lcf_rear_custom := custom_value (rear_light m)\<rparr>
           else
             frame\<lparr>lcf_enable_cmd_ctrl := 0x00, lcf_front_mode := 0, lcf_front_custom := 0,
               lcf_rear_mode := 0, lcf_rear_custom := 0\<rparr>);
         frame = frame\<lparr>lcf_reserved0 := 0, lcf_reserved1 := 0, lcf_count := count\<rparr>
       in Inr (count + 1,
           put_data (mem_LightCommandFrame frame) (header CAN_MSG_LIGHT_COMMAND_ID 8 f)))"

definition encode_set_motion_mode :: "u8 list \<Rightarrow> AgxBody \<Rightarrow> can_frame \<Rightarrow> ub + can_frame" where
  "encode_set_motion_mode junk body f =
     bind_ub (motion_mode_msg body) (\<lambda>m.
       let frame = (cast_SetMotionModeFrame junk)
         \<lparr>smf_motion_mode := mmc_motion_mode m, smf_reserved0 := 0, smf_reserved1 := 0,
          smf_reserved2 := 0, smf_reserved3 := 0, smf_reserved4 := 0, smf_reserved5 := 0,
          smf_reserved6 := 0\<rparr>
       in Inr (put_data (mem_SetMotionModeFrame frame) (header CAN_MSG_SET_MOTION_MODE_ID 8 f)))"

subsection \<open>Feedback messages\<close>

definition encode_system_state :: "u8 list \<Rightarrow> AgxBody \<Rightarrow> can_frame \<Rightarrow> ub + can_frame" where
  "encode_system_state junk body f =
     bind_ub (system_state_msg body) (\<lambda>m.
     bind_ub (cast_u16 (fmul b32 (battery_voltage m) (Num 10))) (\<lambda>battery.
       let frame = (cast_SystemStateFrame junk)
         \<lparr>ssf_vehicle_state := ucast (vehicle_state m),
          ssf_control_mode := ucast (control_mode m),
          ssf_battery_voltage := split16 battery,
          ssf_error_code := split16 (error_code m)\<rparr>
       in Inr (put_data (mem_SystemStateFrame frame) (header CAN_MSG_SYSTEM_STATE_ID 8 f))))"

definition encode_motion_state :: "u8 list \<Rightarrow> AgxBody \<Rightarrow> can_frame \<Rightarrow> ub + can_frame" where
  "encode_motion_state junk body f =
     bind_ub (motion_state_msg body) (\<lambda>m.
     bind_ub (to_milli (linear_velocity m)) (\<lambda>linear.
     bind_ub (to_milli (angular_velocity m)) (\<lambda>angular.
     bind_ub (to_milli (lateral_velocity m)) (\<lambda>lateral.
     bind_ub (to_milli (steering_angle m)) (\<lambda>steering.
       let frame = (cast_MotionStateFrame junk)
         \<lparr>msf_linear_velocity := split16 linear, msf_angular_velocity := split16 angular,
          msf_lateral_velocity := split16 lateral, msf_steering_angle := split16 steering\<rparr>
       in Inr (put_data (mem_MotionStateFrame frame) (header CAN_MSG_MOTION_STATE_ID 8 f)))))))"

subsection \<open>Configuration messages\<close>

definition encode_control_mode_config :: "u8 list \<Rightarrow> AgxBody \<Rightarrow> can_frame \<Rightarrow> ub + can_frame" where
  "encode_control_mode_config junk body f =
     bind_ub (control_mode_config_msg body) (\<lambda>m.
       let frame = (cast_ControlModeConfigFrame junk)
         \<lparr>cmf_mode := ucast (cmc_mode m), cmf_reserved0 := 0, cmf_reserved1 := 0,
          cmf_reserved2 := 0, cmf_reserved3 := 0, cmf_reserved4 := 0, cmf_reserved5 := 0,
          cmf_reserved6 := 0\<rparr>
       in Inr (put_data (mem_ControlModeConfigFrame frame)
            (header CAN_MSG_CTRL_MODE_CONFIG_ID 8 f)))"

definition encode_brake_mode_config :: "u8 list \<Rightarrow> AgxBody \<Rightarrow> can_frame \<Rightarrow> ub + can_frame" where
  "encode_brake_mode_config junk body f =
     bind_ub (control_mode_config_msg body) (\<lambda>m.
       let frame = (cast_BrakeModeConfigFrame junk)
         \<lparr>bmf_mode := ucast (cmc_mode m), bmf_reserved0 := 0, bmf_reserved1 := 0,
          bmf_reserved2 := 0, bmf_reserved3 := 0, bmf_reserved4 := 0, bmf_reserved5 := 0,
          bmf_reserved6 := 0\<rparr>
       in Inr (put_data (mem_BrakeModeConfigFrame frame)
            (header CAN_MSG_BRAKING_COMMAND_ID 8 f)))"

subsection \<open>The encoder\<close>

text \<open>A case that only fills the frame: the return value is \<open>true\<close>, the counter is kept.\<close>

definition sends :: "u8 \<Rightarrow> ub + can_frame \<Rightarrow> ub + (bool \<times> u8 \<times> can_frame)" where
  "sends count r = bind_ub r (\<lambda>f. Inr (True, count, f))"

definition EncodeCanFrameV2 ::
  "u8 list \<Rightarrow> AgxMessage \<Rightarrow> u8 \<Rightarrow> can_frame \<Rightarrow> ub + (bool \<times> u8 \<times> can_frame)" where
  "EncodeCanFrameV2 junk msg count f = (let b = msg_body msg in case msg_type msg of
     AgxMsgMotionCommand \<Rightarrow> sends count (encode_motion_command junk b f)
   | AgxMsgLightCommand \<Rightarrow>
       bind_ub (encode_light_command junk b count f) (\<lambda>(count, f). Inr (True, count, f))
   | AgxMsgBrakingCommand \<Rightarrow> sends count (Inr (todo_frame junk CAN_MSG_BRAKING_COMMAND_ID 2 f))
   | AgxMsgSetMotionModeCommand \<Rightarrow> sends count (encode_set_motion_mode junk b f)
   | AgxMsgSystemState \<Rightarrow> sends count (encode_system_state junk b f)
   | AgxMsgMotionState \<Rightarrow> sends count (encode_motion_state junk b f)
   | AgxMsgLightState \<Rightarrow> sends count (Inr (todo_frame junk CAN_MSG_LIGHT_STATE_ID 8 f))
   | AgxMsgRcState \<Rightarrow> sends count (Inr (todo_frame junk CAN_MSG_RC_STATE_ID 8 f))
   | AgxMsgActuatorHSState \<Rightarrow> sends count (bind_ub (actuator_hs_state_msg b) (\<lambda>m.
       Inr (todo_frame junk (ucast (hs_motor_id m) + CAN_MSG_ACTUATOR1_HS_STATE_ID) 8 f)))
   | AgxMsgActuatorLSState \<Rightarrow> sends count (bind_ub (actuator_ls_state_msg b) (\<lambda>m.
       Inr (todo_frame junk (ucast (ls_motor_id m) + CAN_MSG_ACTUATOR1_LS_STATE_ID) 8 f)))
   | AgxMsgOdometry \<Rightarrow> sends count (Inr (todo_frame junk CAN_MSG_ODOMETRY_ID 8 f))
   | AgxMsgImuAccel \<Rightarrow> sends count (Inr (todo_frame junk CAN_MSG_IMU_ACCEL_ID 8 f))
   | AgxMsgImuGyro \<Rightarrow> sends count (Inr (todo_frame junk CAN_MSG_IMU_GYRO_ID 8 f))
   | AgxMsgImuEuler \<Rightarrow> sends count (Inr (todo_frame junk CAN_MSG_IMU_EULER_ID 8 f))
   | AgxMsgSafetyBumper \<Rightarrow> sends count (Inr (todo_frame junk CAN_MSG_SAFETY_BUMPER_ID 8 f))
   | AgxMsgUltrasonic \<Rightarrow> sends count (bind_ub (ultrasonic_msg b) (\<lambda>m.
       Inr (todo_frame junk (ucast (us_sensor_id m) + CAN_MSG_ULTRASONIC_1_ID) 8 f)))
   | AgxMsgUwb \<Rightarrow> sends count (bind_ub (uwb_msg b) (\<lambda>m.
       Inr (todo_frame junk (ucast (uwb_sensor_id m) + CAN_MSG_UWB_1_ID) 8 f)))
   | AgxMsgBmsBasic \<Rightarrow> sends count (Inr (todo_frame junk CAN_MSG_BMS_BASIC_ID 8 f))
   | AgxMsgBmsExtended \<Rightarrow> sends count (Inr (todo_frame junk CAN_MSG_BMS_EXTENDED_ID 8 f))
   | AgxMsgVersionRequest \<Rightarrow> sends count (Inr (todo_frame junk CAN_MSG_VERSION_REQUEST_ID 8 f))
   | AgxMsgVersionResponse \<Rightarrow> sends count (Inr (todo_frame junk CAN_MSG_VERSION_RESPONSE_ID 8 f))
   | AgxMsgControlModeConfig \<Rightarrow> sends count (encode_control_mode_config junk b f)
   | AgxMsgBrakeModeConfig \<Rightarrow> sends count (encode_brake_mode_config junk b f)
   | AgxMsgSteerNeutralRequest \<Rightarrow>
       sends count (Inr (todo_frame junk CAN_MSG_STEER_NEUTRAL_REQUEST_ID 8 f))
   | AgxMsgSteerNeutralResponse \<Rightarrow>
       sends count (Inr (todo_frame junk CAN_MSG_STEER_NEUTRAL_RESPONSE_ID 8 f))
   | AgxMsgStateResetConfig \<Rightarrow> sends count (Inr (todo_frame junk CAN_MSG_STATE_RESET_CONFIG_ID 8 f))
   | _ \<Rightarrow> Inr (False, count, f))"

section \<open>Checksum\<close>

definition CalcCanFrameChecksumV2 :: "u16 \<Rightarrow> u8 list \<Rightarrow> u8 \<Rightarrow> ub + u8" where
  "CalcCanFrameChecksumV2 i data dlc =
     sum_bytes (unat dlc - 1) (lo8 i + hi8 i + dlc) data"

section \<open>The decoder and the protocol\<close>

lemmas decode_groups =
  decode_command_def decode_feedback_def decode_actuator_def decode_sensor_def decode_query_def

text \<open>The identifiers that have a label.\<close>

definition v2_ids :: "u32 list" where
  "v2_ids = [0x111, 0x121, 0x131, 0x211, 0x221, 0x231, 0x241,
     0x251, 0x252, 0x253, 0x254, 0x255, 0x256, 0x257, 0x258,
     0x261, 0x262, 0x263, 0x264, 0x265, 0x266, 0x267, 0x268, 0x271, 0x281, 0x291,
     0x311, 0x321, 0x322, 0x323, 0x331, 0x341, 0x342, 0x343, 0x344, 0x345, 0x346, 0x347, 0x348,
     0x351, 0x352, 0x353, 0x354, 0x361, 0x362, 0x411, 0x4a1, 0x421, 0x431, 0x43a, 0x441]"

lemma decode_accepts_iff: "fst (DecodeCanFrameV2 u f msg) \<longleftrightarrow> can_id f \<in> set v2_ids"
  by (simp add: DecodeCanFrameV2_def Let_def v2_ids_def decode_groups)

lemma decode_readable_command: "decode_command c d m = Some m' \<Longrightarrow> readable m'"
  by (auto simp: decode_command_def readable_def split: if_splits)

lemma decode_readable_feedback: "decode_feedback u c d m = Some m' \<Longrightarrow> readable m'"
  by (auto simp: decode_feedback_def readable_def split: if_splits)

lemma decode_readable_actuator: "decode_actuator c d m = Some m' \<Longrightarrow> readable m'"
  by (auto simp: decode_actuator_def readable_def decode_actuator_hs_def decode_actuator_ls_def
      Let_def split: if_splits)

lemma decode_readable_sensor: "decode_sensor c d m = Some m' \<Longrightarrow> readable m'"
  by (auto simp: decode_sensor_def readable_def split: if_splits)

lemma decode_readable_query: "decode_query c d m = Some m' \<Longrightarrow> readable m'"
  by (auto simp: decode_query_def readable_def decode_version_response_def Let_def
      split: if_splits)

lemmas decode_readable_groups = decode_readable_command decode_readable_feedback
  decode_readable_actuator decode_readable_sensor decode_readable_query

lemma DecodeCanFrameV2_readable: "DecodeCanFrameV2 u f m = (True, m') \<Longrightarrow> readable m'"
  by (auto simp: DecodeCanFrameV2_def Let_def split: option.splits dest: decode_readable_groups)

section \<open>The encoder and the bus\<close>

lemma valid_tx_put_data:
  "wf_frame f \<Longrightarrow> length bs \<le> 8 \<Longrightarrow> dlc \<le> 8 \<Longrightarrow> i \<le> 0x7ff \<Longrightarrow>
   valid_tx (put_data bs (header i dlc f))"
  by (simp add: valid_tx_def header_def wf_frame_def put_data_def)

lemma valid_tx_todo_frame:
  "wf_frame f \<Longrightarrow> length junk = 8 \<Longrightarrow> dlc \<le> 8 \<Longrightarrow> i \<le> 0x7ff \<Longrightarrow>
   valid_tx (todo_frame junk i dlc f)"
  unfolding todo_frame_def by (rule valid_tx_put_data) auto

lemma sensor_id_le: "i \<le> 0x700 \<Longrightarrow> ucast (b :: u8) + i \<le> (0x7ff :: u32)"
proof -
  assume i: "i \<le> 0x700"
  have "unat b < 256" using unsigned_less [of b] by simp
  then have "unat (ucast b :: u32) \<le> 255" by (simp add: unsigned_ucast_eq take_bit_nat_eq_self)
  then show ?thesis using i by (simp add: word_le_nat_alt unat_word_ariths)
qed

lemmas encoder_defs = encode_motion_command_def encode_light_command_def
  encode_set_motion_mode_def encode_system_state_def encode_motion_state_def
  encode_control_mode_config_def encode_brake_mode_config_def

lemma sends_Inr: "sends c r = Inr (b, s, f') \<longleftrightarrow> r = Inr f' \<and> b \<and> s = c"
  by (auto simp: sends_def bind_ub_Inr_iff)

lemma EncodeCanFrameV2_valid:
  assumes "EncodeCanFrameV2 junk m s f = Inr (True, s', f')" "length junk = 8" "wf_frame f"
  shows "valid_tx f'"
  using assms
  by (cases "msg_type m")
    (auto simp: EncodeCanFrameV2_def Let_def sends_Inr bind_ub_Inr_iff encoder_defs
      intro!: valid_tx_put_data valid_tx_todo_frame sensor_id_le)

section \<open>Round trips\<close>

text \<open>The record \<open>ProtocolV2Parser\<close> implements \<open>ParserBase\<close> with.\<close>

definition ProtocolV2Parser :: "RcStateMessage \<Rightarrow> u8 parser_ops" where
  "ProtocolV2Parser u =
     \<lparr>DecodeMessage = (\<lambda>f m. Inr (DecodeCanFrameV2 u f m)),
      EncodeMessage = EncodeCanFrameV2,
      CalculateChecksum = CalcCanFrameChecksumV2,
      GetParserProtocolVersion = AGX_V2\<rparr>"

interpretation v2: can_parser "ProtocolV2Parser u" for u
  by unfold_locales
    (auto simp: ProtocolV2Parser_def dest: DecodeCanFrameV2_readable EncodeCanFrameV2_valid)

text \<open>Where a frame that was just encoded is decoded.\<close>

lemma can_data_header [simp]:
  "can_data (header i dlc f) = can_data f" "can_id (header i dlc f) = i" "can_dlc (header i dlc f) = dlc"
  by (simp_all add: header_def)

lemma wf_frame_header [simp]: "wf_frame (header i dlc f) = wf_frame f"
  by (simp add: wf_frame_def)

lemma can_data_put [simp]:
  "wf_frame f \<Longrightarrow> length bs = 8 \<Longrightarrow> can_data (put_data bs f) = bs"
  by (simp add: wf_frame_def)

lemma decode_simps:
  "can_id f = CAN_MSG_MOTION_COMMAND_ID \<Longrightarrow> DecodeCanFrameV2 u f m =
     (True, \<lparr>msg_type = AgxMsgMotionCommand,
       msg_body = U_motion_command (decode_motion_command (can_data f))\<rparr>)"
  "can_id f = CAN_MSG_LIGHT_COMMAND_ID \<Longrightarrow> DecodeCanFrameV2 u f m =
     (True, \<lparr>msg_type = AgxMsgLightCommand,
       msg_body = U_light_command (decode_light_command (can_data f))\<rparr>)"
  "can_id f = CAN_MSG_MOTION_STATE_ID \<Longrightarrow> DecodeCanFrameV2 u f m =
     (True, \<lparr>msg_type = AgxMsgMotionState,
       msg_body = U_motion_state (decode_motion_state (can_data f))\<rparr>)"
  by (simp_all add: DecodeCanFrameV2_def decode_command_def decode_feedback_def)

text \<open>A command is quantised: each component that went out comes back as a float that differs
  by little more than a thousandth.\<close>

fun near :: "flt \<Rightarrow> flt \<Rightarrow> bool" where
  "near (Num x) (Num y) = (\<bar>x - y\<bar> < 1.02 / 1000)"
| "near _ _ = False"

text \<open>The range in which the encoder is defined whatever the rounding: 32.767 in magnitude.\<close>

fun speed_ok :: "flt \<Rightarrow> bool" where
  "speed_ok (Num x) = (\<bar>x\<bar> \<le> 32.767)"
| "speed_ok _ = False"

lemma to_milli_ok: "speed_ok v \<Longrightarrow> \<exists>w. to_milli v = Inr w \<and> near (milli w) v"
proof (cases v)
  case (Num x)
  moreover assume "speed_ok v"
  ultimately have x: "\<bar>x\<bar> \<le> 32.767" by simp
  from to_milli_defined [OF this] obtain w where w: "to_milli (Num x) = Inr w" by blast
  from milli_to_milli [OF this x] show ?thesis using w Num by auto
qed simp_all

definition command_ok :: "MotionCommandMessage \<Rightarrow> bool" where
  "command_ok m \<longleftrightarrow> speed_ok (mcm_linear_velocity m) \<and> speed_ok (mcm_angular_velocity m)
     \<and> speed_ok (mcm_lateral_velocity m) \<and> speed_ok (mcm_steering_angle m)"

definition command_near :: "MotionCommandMessage \<Rightarrow> MotionCommandMessage \<Rightarrow> bool" where
  "command_near m m' \<longleftrightarrow>
     near (mcm_linear_velocity m) (mcm_linear_velocity m')
     \<and> near (mcm_angular_velocity m) (mcm_angular_velocity m')
     \<and> near (mcm_lateral_velocity m) (mcm_lateral_velocity m')
     \<and> near (mcm_steering_angle m) (mcm_steering_angle m')"

lemma motion_command_roundtrip:
  assumes "command_ok m" "wf_frame f"
  shows "\<exists>f' m'. EncodeCanFrameV2 junk \<lparr>msg_type = AgxMsgMotionCommand, msg_body = U_motion_command m\<rparr>
      count f = Inr (True, count, f') \<and>
    DecodeCanFrameV2 u f' msg =
      (True, \<lparr>msg_type = AgxMsgMotionCommand, msg_body = U_motion_command m'\<rparr>) \<and>
    command_near m' m"
proof -
  from assms(1) obtain a b c d where
    w: "to_milli (mcm_linear_velocity m) = Inr a" "to_milli (mcm_angular_velocity m) = Inr b"
      "to_milli (mcm_lateral_velocity m) = Inr c" "to_milli (mcm_steering_angle m) = Inr d" and
    n: "near (milli a) (mcm_linear_velocity m)" "near (milli b) (mcm_angular_velocity m)"
      "near (milli c) (mcm_lateral_velocity m)" "near (milli d) (mcm_steering_angle m)"
    unfolding command_ok_def by (metis to_milli_ok)
  show ?thesis using assms(2) w n
    by (simp add: EncodeCanFrameV2_def sends_def encode_motion_command_def Let_def decode_simps
        decode_motion_command_def command_near_def)
qed

text \<open>Going the other way, a decoded frame encodes to the same counts or to the next ones
  towards zero.\<close>

definition towards_zero :: "u16 \<Rightarrow> u16 \<Rightarrow> bool" where
  "towards_zero w w' \<longleftrightarrow> sint w' = sint w \<or> sint w' = sint w - sgn (sint w)"

lemma motion_command_reencode:
  "\<exists>f'. EncodeCanFrameV2 junk \<lparr>msg_type = AgxMsgMotionCommand,
        msg_body = U_motion_command (decode_motion_command d)\<rparr> count f = Inr (True, count, f') \<and>
     (wf_frame f \<longrightarrow> (\<forall>g \<in> {mcf_linear_velocity, mcf_angular_velocity, mcf_lateral_velocity,
        mcf_steering_angle}.
        towards_zero (val16 (g (cast_MotionCommandFrame d)))
          (val16 (g (cast_MotionCommandFrame (can_data f'))))))"
proof -
  obtain g where "\<And>w. to_milli (milli w) = Inr (g w)" "\<And>w. towards_zero w (g w)"
    unfolding towards_zero_def using to_milli_milli by metis
  then show ?thesis
    by (simp add: EncodeCanFrameV2_def sends_def encode_motion_command_def Let_def
        decode_motion_command_def)
qed

text \<open>The light command loses the high bits of a mode, and everything when control is off.\<close>

definition light_on_wire :: "LightCommandMessage \<Rightarrow> LightCommandMessage" where
  "light_on_wire m = (if enable_cmd_ctrl m
     then m\<lparr>front_light := (front_light m)\<lparr>mode := mode (front_light m) AND 0xff\<rparr>,
            rear_light := (rear_light m)\<lparr>mode := mode (rear_light m) AND 0xff\<rparr>\<rparr>
     else \<lparr>enable_cmd_ctrl = False, front_light = \<lparr>mode = 0, custom_value = 0\<rparr>,
           rear_light = \<lparr>mode = 0, custom_value = 0\<rparr>\<rparr>)"

lemma ucast_ucast_mode: "ucast (ucast (x :: u32) :: u8) = x AND 0xff"
proof -
  have ff: "(0xff :: u32) = mask 8" by (simp add: mask_eq_exp_minus_1)
  show ?thesis unfolding ff by (rule bit_word_eqI) (auto simp: bit_simps)
qed

lemma light_command_roundtrip:
  assumes "wf_frame f"
  shows "\<exists>f'. EncodeCanFrameV2 junk \<lparr>msg_type = AgxMsgLightCommand, msg_body = U_light_command m\<rparr>
      count f = Inr (True, count + 1, f') \<and>
    DecodeCanFrameV2 u f' msg =
      (True, \<lparr>msg_type = AgxMsgLightCommand, msg_body = U_light_command (light_on_wire m)\<rparr>) \<and>
    can_data f' ! 7 = count"
  using assms
  by (simp add: EncodeCanFrameV2_def encode_light_command_def Let_def decode_simps
      decode_light_command_def light_on_wire_def ucast_ucast_mode)
    (simp add: mem_LightCommandFrame_def)

end
