(* ===== verification/Agilex_Base.thy ===== *)
theory Agilex_Base
  imports Parser_Interface
begin

text \<open>
  The class template \<open>AgilexBase\<close> (\<open>robot_base/agilex_base.hpp\<close>) over an arbitrary parser: the
  three feedback groups, the commands it sends and the update functions that distribute a decoded
  frame. The lemmas of the last section hold for every parser that keeps the contract
  \<open>can_parser\<close>.
\<close>

section \<open>State\<close>

text \<open>\<open>std::chrono\<close> time points, in ticks.\<close>

type_synonym SdkTimePoint = int

record CoreStateMsgGroup =
  cs_time_stamp :: SdkTimePoint
  cs_system_state :: SystemStateMessage
  cs_motion_state :: MotionStateMessage
  cs_light_state :: LightStateMessage
  cs_motion_mode_state :: MotionModeStateMessage
  cs_rc_state :: RcStateMessage

record ActuatorStateMsgGroup =
  as_time_stamp :: SdkTimePoint
  as_actuator_hs_state :: "ActuatorHSStateMessage list"
  as_actuator_ls_state :: "ActuatorLSStateMessage list"
  as_actuator_state :: "ActuatorStateMessageV1 list"
  as_motor_angles :: MotorAngleMessage
  as_motor_speeds :: MotorSpeedMessage

record CommonSensorStateMsgGroup =
  ss_time_stamp :: SdkTimePoint
  ss_bms_basic_state :: BmsBasicMessage
  ss_bms_extend_state :: BmsExtendedMessage

text \<open>
  The object. \<open>can\<close> is \<open>None\<close> while \<open>can_\<close> is a null pointer, otherwise whether the port is
  opened; \<open>encoder\<close> is the state of the parser's encoder; \<open>bus\<close> the frames handed to
  \<open>AsyncCAN::SendFrame\<close>, oldest first.
\<close>

record 's agilex =
  can :: "bool option"
  encoder :: 's
  core_state_msgs :: CoreStateMsgGroup
  actuator_state_msgs :: ActuatorStateMsgGroup
  common_sensor_state_msgs :: CommonSensorStateMsgGroup
  version_string_buffer :: "u8 list"
  bus :: "can_frame list"

text \<open>The indeterminate contents of a function's locals: the bytes of the encoder's frame struct, the
  \<open>can_frame\<close>, the message and the light command in its union.\<close>

record locals =
  local_bytes :: "u8 list"
  local_frame :: can_frame
  local_msg :: AgxMessage
  local_light :: LightCommandMessage

definition wf_locals :: "locals \<Rightarrow> bool" where
  "wf_locals k \<longleftrightarrow> length (local_bytes k) = 8 \<and> wf_frame (local_frame k)"

section \<open>The port\<close>

definition ConnectPort :: "bool \<Rightarrow> 's agilex \<Rightarrow> bool \<times> 's agilex" where
  "ConnectPort opens r = (opens, r\<lparr>can := Some opens\<rparr>)"

definition DisconnectPort :: "'s agilex \<Rightarrow> 's agilex" where
  "DisconnectPort r = (if can r = Some True then r\<lparr>can := Some False\<rparr> else r)"

text \<open>\<open>can_->SendFrame(frame)\<close>. A frame written to a closed descriptor is reported and lost.\<close>

definition SendFrame :: "can_frame \<Rightarrow> 's agilex \<Rightarrow> ub + 's agilex" where
  "SendFrame f r = (case can r of None \<Rightarrow> Inl NullDeref
     | Some opened \<Rightarrow> Inr (if opened then r\<lparr>bus := bus r @ [f]\<rparr> else r))"

text \<open>\<open>can_frame frame; if (parser_.EncodeMessage(&msg, &frame)) can_->SendFrame(frame);\<close>\<close>

definition encode_and_send ::
  "'s parser_ops \<Rightarrow> locals \<Rightarrow> AgxMessage \<Rightarrow> 's agilex \<Rightarrow> ub + 's agilex" where
  "encode_and_send P k msg r =
     bind_ub (EncodeMessage P (local_bytes k) msg (encoder r) (local_frame k)) (\<lambda>(ok, enc, frame).
       let r = r\<lparr>encoder := enc\<rparr> in if ok then SendFrame frame r else Inr r)"

section \<open>Commands\<close>

text \<open>\<open>can_ != nullptr && can_->IsOpened()\<close>\<close>

definition connected :: "'s agilex \<Rightarrow> bool" where
  "connected r \<longleftrightarrow> can r = Some True"

definition EnableCommandedMode ::
  "'s parser_ops \<Rightarrow> locals \<Rightarrow> 's agilex \<Rightarrow> ub + 's agilex" where
  "EnableCommandedMode P k r =
     (let msg = \<lparr>msg_type = AgxMsgControlModeConfig,
                 msg_body = U_control_mode_config \<lparr>cmc_mode = CONTROL_MODE_CAN\<rparr>\<rparr>
      in if connected r then encode_and_send P k msg r else Inr r)"

text \<open>The arguments are \<open>double\<close>s, the fields \<open>float\<close>s.\<close>

definition motion_message ::
  "ProtocolVersion \<Rightarrow> locals \<Rightarrow> flt \<Rightarrow> flt \<Rightarrow> flt \<Rightarrow> flt \<Rightarrow> AgxMessage" where
  "motion_message ver k linear_vel angular_vel lateral_vel steer =
     (if ver = AGX_V1 then
        \<lparr>msg_type = AgxMsgMotionCommandV1, msg_body = U_v1_motion_command
          \<lparr>mc1_control_mode = CONTROL_MODE_CAN, mc1_clear_all_error = False,
           mc1_linear = fconv b32 linear_vel,
           mc1_angular = fconv b32 (if fless (fabs steer) (fabs angular_vel)
             then angular_vel else steer),
           mc1_lateral = fconv b32 lateral_vel\<rparr>\<rparr>
      else if ver = AGX_V2 then
        \<lparr>msg_type = AgxMsgMotionCommand, msg_body = U_motion_command
          \<lparr>mcm_linear_velocity = fconv b32 linear_vel,
           mcm_angular_velocity = fconv b32 angular_vel,
           mcm_lateral_velocity = fconv b32 lateral_vel,
           mcm_steering_angle = fconv b32 steer\<rparr>\<rparr>
      else local_msg k)"

definition SendMotionCommand ::
  "'s parser_ops \<Rightarrow> locals \<Rightarrow> flt \<Rightarrow> flt \<Rightarrow> flt \<Rightarrow> flt \<Rightarrow> 's agilex \<Rightarrow> ub + 's agilex" where
  "SendMotionCommand P k linear_vel angular_vel lateral_vel steer r =
     (if connected r then
        encode_and_send P k (motion_message (GetParserProtocolVersion P) k
          linear_vel angular_vel lateral_vel steer) r
      else Inr r)"

definition SendLightCommand :: "'s parser_ops \<Rightarrow> locals \<Rightarrow>
  AgxLightMode \<Rightarrow> u8 \<Rightarrow> AgxLightMode \<Rightarrow> u8 \<Rightarrow> 's agilex \<Rightarrow> ub + 's agilex" where
  "SendLightCommand P k front_mode front_custom_value rear_mode rear_custom_value r =
     (if connected r then
        encode_and_send P k \<lparr>msg_type = AgxMsgLightCommand, msg_body = U_light_command
          \<lparr>enable_cmd_ctrl = True,
           front_light = \<lparr>mode = front_mode, custom_value = front_custom_value\<rparr>,
           rear_light = \<lparr>mode = rear_mode, custom_value = rear_custom_value\<rparr>\<rparr>\<rparr> r
      else Inr r)"

definition DisableLightControl ::
  "'s parser_ops \<Rightarrow> locals \<Rightarrow> 's agilex \<Rightarrow> ub + 's agilex" where
  "DisableLightControl P k r =
     (if connected r then
        encode_and_send P k \<lparr>msg_type = AgxMsgLightCommand,
          msg_body = U_light_command ((local_light k)\<lparr>enable_cmd_ctrl := False\<rparr>)\<rparr> r
      else Inr r)"

definition SetMotionMode :: "'s parser_ops \<Rightarrow> locals \<Rightarrow> u8 \<Rightarrow> 's agilex \<Rightarrow> ub + 's agilex" where
  "SetMotionMode P k md r =
     (if connected r then
        encode_and_send P k \<lparr>msg_type = AgxMsgSetMotionModeCommand,
          msg_body = U_motion_mode \<lparr>mmc_motion_mode = md\<rparr>\<rparr> r
      else Inr r)"

definition SetBrakeMode ::
  "'s parser_ops \<Rightarrow> locals \<Rightarrow> AgxBrakeMode \<Rightarrow> 's agilex \<Rightarrow> ub + 's agilex" where
  "SetBrakeMode P k md r =
     (let msg = \<lparr>msg_type = AgxMsgBrakeModeConfig,
                 msg_body = U_brake_mode_config \<lparr>bmc_mode = md\<rparr>\<rparr>
      in if connected r then encode_and_send P k msg r else Inr r)"

section \<open>The firmware version\<close>

definition send_version_request :: "locals \<Rightarrow> 's agilex \<Rightarrow> ub + 's agilex" where
  "send_version_request k r =
     SendFrame \<lparr>can_id = 0x4a1, can_dlc = 1, can_data = (can_data (local_frame k))[0 := 0x01]\<rparr>
       (r\<lparr>version_string_buffer := []\<rparr>)"

text \<open>
  The polling loop. Each element of the list is one evaluation of the loop condition: the seconds
  elapsed and the buffer that the io thread has filled by then. \<open>None\<close>: the list ends first.
\<close>

fun wait_version :: "int \<Rightarrow> (int \<times> u8 list) list \<Rightarrow> u8 list \<Rightarrow> u8 list option" where
  "wait_version timeout_sec [] version_string = None"
| "wait_version timeout_sec ((elapsed, buf) # obs) version_string =
     (if elapsed < timeout_sec then
        if 80 \<le> length buf then Some buf else wait_version timeout_sec obs buf
      else Some version_string)"

definition RequestVersion ::
  "locals \<Rightarrow> int \<Rightarrow> (int \<times> u8 list) list \<Rightarrow> 's agilex \<Rightarrow> ub + (u8 list option \<times> 's agilex)" where
  "RequestVersion k timeout_sec obs r =
     bind_ub (send_version_request k r) (\<lambda>r.
       Inr (map_option (\<lambda>v. if length v < 80 then [] else v) (wait_version timeout_sec obs []), r))"

section \<open>Feedback\<close>

text \<open>\<open>now\<close> is the value of \<open>SdkClock::now()\<close> in the function.\<close>

definition UpdateRobotCoreState ::
  "SdkTimePoint \<Rightarrow> AgxMessage \<Rightarrow> CoreStateMsgGroup \<Rightarrow> ub + CoreStateMsgGroup" where
  "UpdateRobotCoreState now m g = (let b = msg_body m; stamped = g\<lparr>cs_time_stamp := now\<rparr> in
     case msg_type m of
       AgxMsgSystemState \<Rightarrow>
         bind_ub (system_state_msg b) (\<lambda>x. Inr (stamped\<lparr>cs_system_state := x\<rparr>))
     | AgxMsgMotionState \<Rightarrow>
         bind_ub (motion_state_msg b) (\<lambda>x. Inr (stamped\<lparr>cs_motion_state := x\<rparr>))
     | AgxMsgLightState \<Rightarrow>
         bind_ub (light_command_msg b) (\<lambda>x. Inr (stamped\<lparr>cs_light_state := x\<rparr>))
     | AgxMsgMotionModeState \<Rightarrow>
         bind_ub (motion_mode_state_msg b) (\<lambda>x. Inr (stamped\<lparr>cs_motion_mode_state := x\<rparr>))
     | AgxMsgRcState \<Rightarrow>
         bind_ub (rc_state_msg b) (\<lambda>x. Inr (stamped\<lparr>cs_rc_state := x\<rparr>))
     | _ \<Rightarrow> Inr g)"

text \<open>\<open>array[i] = x\<close> on a built-in array.\<close>

definition store :: "'a list \<Rightarrow> u8 \<Rightarrow> 'a \<Rightarrow> ub + 'a list" where
  "store xs i x = (if unat i < length xs then Inr (xs[unat i := x]) else Inl OutOfRange)"

definition UpdateActuatorState ::
  "SdkTimePoint \<Rightarrow> AgxMessage \<Rightarrow> ActuatorStateMsgGroup \<Rightarrow> ub + ActuatorStateMsgGroup" where
  "UpdateActuatorState now m g = (let b = msg_body m; g = g\<lparr>as_time_stamp := now\<rparr> in
     case msg_type m of
       AgxMsgMotorAngle \<Rightarrow> bind_ub (motor_angle_msg b) (\<lambda>x. Inr (g\<lparr>as_motor_angles :=
         \<lparr>angle_5 = angle_5 x, angle_6 = angle_6 x, angle_7 = angle_7 x, angle_8 = angle_8 x\<rparr>\<rparr>))
     | AgxMsgMotorSpeed \<Rightarrow> bind_ub (motor_speed_msg b) (\<lambda>x. Inr (g\<lparr>as_motor_speeds :=
         \<lparr>speed_1 = speed_1 x, speed_2 = speed_2 x, speed_3 = speed_3 x, speed_4 = speed_4 x\<rparr>\<rparr>))
     | AgxMsgActuatorHSState \<Rightarrow> bind_ub (actuator_hs_state_msg b) (\<lambda>x.
         bind_ub (store (as_actuator_hs_state g) (hs_motor_id x) x) (\<lambda>a.
           Inr (g\<lparr>as_actuator_hs_state := a\<rparr>)))
     | AgxMsgActuatorLSState \<Rightarrow> bind_ub (actuator_ls_state_msg b) (\<lambda>x.
         bind_ub (store (as_actuator_ls_state g) (ls_motor_id x) x) (\<lambda>a.
           Inr (g\<lparr>as_actuator_ls_state := a\<rparr>)))
     | AgxMsgActuatorStateV1 \<Rightarrow> bind_ub (v1_actuator_state_msg b) (\<lambda>x.
         bind_ub (store (as_actuator_state g) (a1_motor_id x) x) (\<lambda>a.
           Inr (g\<lparr>as_actuator_state := a\<rparr>)))
     | _ \<Rightarrow> Inr g)"

text \<open>The case of the extended battery state falls through to the empty default.\<close>

definition UpdateCommonSensorState ::
  "SdkTimePoint \<Rightarrow> AgxMessage \<Rightarrow> CommonSensorStateMsgGroup \<Rightarrow> ub + CommonSensorStateMsgGroup" where
  "UpdateCommonSensorState now m g = (let b = msg_body m in
     case msg_type m of
       AgxMsgBmsBasic \<Rightarrow> bind_ub (bms_basic_msg b) (\<lambda>x.
         Inr (g\<lparr>ss_time_stamp := now, ss_bms_basic_state := x\<rparr>))
     | AgxMsgBmsExtended \<Rightarrow> bind_ub (bms_extended_msg b) (\<lambda>x. Inr (g\<lparr>ss_bms_extend_state := x\<rparr>))
     | _ \<Rightarrow> Inr g)"

definition printable :: "u8 \<Rightarrow> u8" where
  "printable data = (if data < 32 \<or> data > 126 then 32 else data)"

text \<open>The loop reads the bytes 0 to 7.\<close>

definition UpdateResponseVersion :: "AgxMessage \<Rightarrow> u8 list \<Rightarrow> ub + u8 list" where
  "UpdateResponseVersion m buf = (case msg_type m of
       AgxMsgVersionResponse \<Rightarrow> bind_ub (version_response_msg (msg_body m)) (\<lambda>x.
         if 8 \<le> length (vr_bytes x) then Inr (buf @ map printable (take 8 (vr_bytes x)))
         else Inl OutOfRange)
     | _ \<Rightarrow> Inr buf)"

text \<open>The clock is read once in each of the update functions.\<close>

record clock =
  now_core :: SdkTimePoint
  now_actuator :: SdkTimePoint
  now_sensor :: SdkTimePoint

definition ParseCANFrame ::
  "'s parser_ops \<Rightarrow> clock \<Rightarrow> locals \<Rightarrow> can_frame \<Rightarrow> 's agilex \<Rightarrow> ub + 's agilex" where
  "ParseCANFrame P t k rx_frame r =
     bind_ub (DecodeMessage P rx_frame (local_msg k)) (\<lambda>(ok, m).
       if ok then
         bind_ub (UpdateRobotCoreState (now_core t) m (core_state_msgs r)) (\<lambda>c.
         bind_ub (UpdateActuatorState (now_actuator t) m (actuator_state_msgs r)) (\<lambda>a.
         bind_ub (UpdateCommonSensorState (now_sensor t) m (common_sensor_state_msgs r)) (\<lambda>s.
         bind_ub (UpdateResponseVersion m (version_string_buffer r)) (\<lambda>v.
           Inr (r\<lparr>core_state_msgs := c, actuator_state_msgs := a, common_sensor_state_msgs := s,
                  version_string_buffer := v\<rparr>)))))
       else Inr r)"

section \<open>Invariant\<close>

text \<open>The arrays keep their size, only frames the bus accepts were sent, and the version buffer holds
  whole responses of printable characters.\<close>

definition is_printable :: "u8 \<Rightarrow> bool" where
  "is_printable c \<longleftrightarrow> 32 \<le> c \<and> c \<le> 126"

definition wf_actuators :: "ActuatorStateMsgGroup \<Rightarrow> bool" where
  "wf_actuators g \<longleftrightarrow> length (as_actuator_hs_state g) = AGX_MAX_ACTUATOR_NUM \<and>
     length (as_actuator_ls_state g) = AGX_MAX_ACTUATOR_NUM \<and>
     length (as_actuator_state g) = AGX_MAX_ACTUATOR_NUM"

definition wf_version :: "u8 list \<Rightarrow> bool" where
  "wf_version v \<longleftrightarrow> 8 dvd length v \<and> (\<forall>c \<in> set v. is_printable c)"

definition wf_robot :: "'s agilex \<Rightarrow> bool" where
  "wf_robot r \<longleftrightarrow> wf_actuators (actuator_state_msgs r) \<and>
     (\<forall>f \<in> set (bus r). valid_tx f) \<and> wf_version (version_string_buffer r)"

lemma is_printable_printable: "is_printable (printable c)"
  by (auto simp: printable_def is_printable_def not_less)

lemma holdsE:
  assumes "holds P r" obtains x where "r = Inr x" "P x"
  using assms by (cases r) auto

lemma UpdateRobotCoreState_total: "readable m \<Longrightarrow> \<exists>g'. UpdateRobotCoreState now m g = Inr g'"
  by (cases "msg_type m")
    (auto simp: UpdateRobotCoreState_def readable_def Let_def elim!: holdsE)

lemma UpdateActuatorState_total:
  assumes "readable m" "wf_actuators g"
  shows "\<exists>g'. UpdateActuatorState now m g = Inr g' \<and> wf_actuators g'"
  using assms
  by (cases "msg_type m")
    (auto simp: UpdateActuatorState_def readable_def Let_def store_def wf_actuators_def elim!: holdsE)

lemma UpdateCommonSensorState_total: "readable m \<Longrightarrow> \<exists>g'. UpdateCommonSensorState now m g = Inr g'"
  by (cases "msg_type m")
    (auto simp: UpdateCommonSensorState_def readable_def Let_def elim!: holdsE)

lemma UpdateResponseVersion_total:
  assumes "readable m" "wf_version v"
  shows "\<exists>v'. UpdateResponseVersion m v = Inr v' \<and> wf_version v' \<and> (v' = v \<or> length v' = length v + 8)"
  using assms
  by (cases "msg_type m")
    (auto simp: UpdateResponseVersion_def readable_def Let_def wf_version_def is_printable_printable
      elim!: holdsE)

lemmas update_totals = UpdateRobotCoreState_total UpdateActuatorState_total
  UpdateCommonSensorState_total UpdateResponseVersion_total

text \<open>No update function looks at the encoder, the port or the bus.\<close>

lemma ParseCANFrame_frame:
  "ParseCANFrame P t k f r = Inr r' \<Longrightarrow> can r' = can r \<and> encoder r' = encoder r \<and> bus r' = bus r"
  by (auto simp: ParseCANFrame_def bind_ub_Inr_iff split: if_splits)

lemma SendFrame_connected: "connected r \<Longrightarrow> SendFrame f r = Inr (r\<lparr>bus := bus r @ [f]\<rparr>)"
  by (simp add: SendFrame_def connected_def)

lemma connected_encoder [simp]: "connected (r\<lparr>encoder := e\<rparr>) = connected r"
  by (simp add: connected_def)

section \<open>What every parser with the contract gives\<close>

context can_parser
begin

text \<open>A received frame never runs into undefined behaviour, whatever its identifier and bytes.\<close>

lemma parse_total:
  assumes "valid_rx f" "wf_robot r"
  shows "\<exists>r'. ParseCANFrame P t k f r = Inr r' \<and> wf_robot r'"
proof (rule decode_cases [OF assms(1), of "local_msg k"])
  fix m assume "DecodeMessage P f (local_msg k) = Inr (False, m)"
  then show ?thesis using assms by (simp add: ParseCANFrame_def)
next
  fix m assume m: "DecodeMessage P f (local_msg k) = Inr (True, m)" "readable m"
  have wf: "wf_actuators (actuator_state_msgs r)" "wf_version (version_string_buffer r)"
    "\<forall>f \<in> set (bus r). valid_tx f" using assms(2) by (auto simp: wf_robot_def)
  obtain c a s v where
    "UpdateRobotCoreState (now_core t) m (core_state_msgs r) = Inr c"
    "UpdateActuatorState (now_actuator t) m (actuator_state_msgs r) = Inr a" "wf_actuators a"
    "UpdateCommonSensorState (now_sensor t) m (common_sensor_state_msgs r) = Inr s"
    "UpdateResponseVersion m (version_string_buffer r) = Inr v" "wf_version v"
    using m(2) wf update_totals by metis
  then show ?thesis using m(1) wf by (auto simp: ParseCANFrame_def wf_robot_def)
qed

text \<open>A command that is encoded puts at most one frame on the bus, which the bus accepts.\<close>

lemma encode_and_send_wf:
  assumes "encode_and_send P k msg r = Inr r'" "wf_locals k" "wf_robot r" "connected r"
  shows "wf_robot r' \<and> connected r' \<and> (bus r' = bus r \<or> (\<exists>f. bus r' = bus r @ [f] \<and> valid_tx f))"
proof -
  from assms(1) obtain ok enc f where
    e: "EncodeMessage P (local_bytes k) msg (encoder r) (local_frame k) = Inr (ok, enc, f)" and
    r': "(if ok then SendFrame f (r\<lparr>encoder := enc\<rparr>) else Inr (r\<lparr>encoder := enc\<rparr>)) = Inr r'"
    by (auto simp: encode_and_send_def bind_ub_Inr_iff Let_def)
  show ?thesis
  proof (cases ok)
    case True
    then have "valid_tx f" using e assms(2) encode_valid by (auto simp: wf_locals_def)
    then show ?thesis
      using r' True assms by (auto simp: SendFrame_connected wf_robot_def connected_def)
  next
    case False
    then show ?thesis using r' assms by (auto simp: wf_robot_def connected_def)
  qed
qed

end

lemmas command_defs = EnableCommandedMode_def SendMotionCommand_def SendLightCommand_def
  DisableLightControl_def SetMotionMode_def SetBrakeMode_def Let_def

end
