(* ===== verification/Robot_Parsers.thy ===== *)
theory Robot_Parsers
  imports Codec_V1 Codec_V2 Agilex_Base
begin

text \<open>
  The parsers the robot classes are instantiated with, over one encoder state: the counters are
  \<open>static\<close> variables of the C encoders, so all robots of a process share them. Also what a command
  looks like on the bus for each parser.
\<close>

section \<open>The static variables\<close>

record statics =
  v1_counters :: enc_v1
  v2_count :: u8

text \<open>A codec that uses one part of them.\<close>

definition on_statics :: "(statics \<Rightarrow> 's) \<Rightarrow> ('s \<Rightarrow> statics \<Rightarrow> statics) \<Rightarrow> 's parser_ops \<Rightarrow>
  statics parser_ops" where
  "on_statics sel put P = \<lparr>DecodeMessage = DecodeMessage P,
     EncodeMessage = (\<lambda>junk m s f. bind_ub (EncodeMessage P junk m (sel s) f)
       (\<lambda>(ok, c, f). Inr (ok, put c s, f))),
     CalculateChecksum = CalculateChecksum P,
     GetParserProtocolVersion = GetParserProtocolVersion P\<rparr>"

context can_parser
begin

lemma on_statics_parser: "can_parser (on_statics sel put P)"
  by unfold_locales
    (auto simp: on_statics_def bind_ub_Inr_iff simp flip: split_paired_Ex dest: decode_total
      intro: decode_readable encode_valid)

end

text \<open>The indeterminate bytes the two decoders can leave in a message.\<close>

record decoder_junk =
  junk_rc :: RcStateMessage
  junk_motion :: MotionStateMessage

definition V2Parser :: "decoder_junk \<Rightarrow> statics parser_ops" where
  "V2Parser j = on_statics v2_count (\<lambda>c s. s\<lparr>v2_count := c\<rparr>) (ProtocolV2Parser (junk_rc j))"

definition V1Parser :: "robot_limits \<Rightarrow> decoder_junk \<Rightarrow> statics parser_ops" where
  "V1Parser l j = on_statics v1_counters (\<lambda>c s. s\<lparr>v1_counters := c\<rparr>)
     (ProtocolV1Parser l (junk_motion j))"

interpretation v2p: can_parser "V2Parser j" for j
  unfolding V2Parser_def by (rule v2.on_statics_parser)

interpretation v1p: can_parser "V1Parser l j" for l j
  unfolding V1Parser_def by (rule v1.on_statics_parser)

lemma parser_versions [simp]:
  "GetParserProtocolVersion (V2Parser j) = AGX_V2"
  "GetParserProtocolVersion (V1Parser l j) = AGX_V1"
  by (simp_all add: V2Parser_def V1Parser_def on_statics_def ProtocolV2Parser_def
      ProtocolV1Parser_def)

lemma V2Parser_encode:
  "EncodeMessage (V2Parser j) junk m s f = bind_ub (EncodeCanFrameV2 junk m (v2_count s) f)
     (\<lambda>(ok, c, f). Inr (ok, s\<lparr>v2_count := c\<rparr>, f))"
  by (simp add: V2Parser_def on_statics_def ProtocolV2Parser_def)

lemma V1Parser_encode:
  "EncodeMessage (V1Parser l j) junk m s f = bind_ub (V1EncodeMessage l junk m (v1_counters s) f)
     (\<lambda>(ok, c, f). Inr (ok, s\<lparr>v1_counters := c\<rparr>, f))"
  by (simp add: V1Parser_def on_statics_def ProtocolV1Parser_def)

lemma V2Parser_decode: "DecodeMessage (V2Parser j) f m = Inr (DecodeCanFrameV2 (junk_rc j) f m)"
  by (simp add: V2Parser_def on_statics_def ProtocolV2Parser_def)

lemma V1Parser_decode: "DecodeMessage (V1Parser l j) f m = DecodeCanFrameV1 (junk_motion j) f m"
  by (simp add: V1Parser_def on_statics_def ProtocolV1Parser_def)

section \<open>Commands on the bus\<close>

lemma encode_and_send_eq:
  "EncodeMessage P (local_bytes k) msg (encoder r) (local_frame k) = Inr (True, e, f) \<Longrightarrow> connected r \<Longrightarrow>
   encode_and_send P k msg r = Inr (r\<lparr>encoder := e, bus := bus r @ [f]\<rparr>)"
  by (simp add: encode_and_send_def SendFrame_connected Let_def)

text \<open>Brake and motion mode commands of a version 2 robot: the identifier and the data bytes.\<close>

lemma v2_brake_frame:
  assumes "connected r" "wf_locals k"
  shows "\<exists>r' f. SetBrakeMode (V2Parser j) k md r = Inr r' \<and> bus r' = bus r @ [f] \<and>
    can_id f = 0x131 \<and> can_data f = [ucast md, 0, 0, 0, 0, 0, 0, 0]"
  using assms
  by (simp add: SetBrakeMode_def Let_def encode_and_send_def V2Parser_encode EncodeCanFrameV2_def
      sends_def encode_brake_mode_config_def SendFrame_connected wf_locals_def
      mem_BrakeModeConfigFrame_def)

lemma v2_motion_mode_frame:
  assumes "connected r" "wf_locals k"
  shows "\<exists>r' f. SetMotionMode (V2Parser j) k md r = Inr r' \<and> bus r' = bus r @ [f] \<and>
    can_id f = 0x141 \<and> can_data f = [md, 0, 0, 0, 0, 0, 0, 0]"
  using assms
  by (simp add: SetMotionMode_def encode_and_send_def V2Parser_encode EncodeCanFrameV2_def Let_def
      sends_def encode_set_motion_mode_def SendFrame_connected wf_locals_def
      mem_SetMotionModeFrame_def)

text \<open>A motion command of a version 2 robot is one frame, from which a receiver decodes speeds that
  are near the commanded ones.\<close>

fun near_double :: "flt \<Rightarrow> flt \<Rightarrow> bool" where
  "near_double (Num x) (Num y) = (\<bar>x - y\<bar> < 1.03 / 1000)"
| "near_double _ _ = False"

text \<open>The range of a command given as \<open>double\<close>: 32 in magnitude, so that its \<open>float\<close> is within
  the range of the encoder.\<close>

fun double_ok :: "flt \<Rightarrow> bool" where
  "double_ok (Num x) = (\<bar>x\<bar> \<le> 32)"
| "double_ok _ = False"

lemma float_of_double:
  assumes "double_ok v"
  obtains x y where "v = Num x" "fconv b32 v = Num y" "\<bar>y\<bar> \<le> 32" "\<bar>y - x\<bar> \<le> 1 / 10 ^ 5"
proof -
  from assms obtain x where v: "v = Num x" and x: "\<bar>x\<bar> \<le> 32" by (cases v) auto
  have r32: "rounded b32 32 = 32" using rounded_b32_of_int [of 32] by simp
  have le: "\<bar>rounded b32 x\<bar> \<le> 32"
    using rounded_abs_le [of b32 32 x] x r32 by (simp add: b32_def)
  have "\<bar>rounded b32 x - x\<bar> \<le> 1 / 10 ^ 5"
  proof (cases "1 / 2 ^ 60 \<le> \<bar>x\<bar>")
    case True
    then show ?thesis using rounded_rel_b32 [of x] x by simp
  next
    case False
    have "rounded b32 (2 powi - 60) = 2 powi - 60"
      by (rule rounded_pow2) (simp_all add: b32_def)
    then have "rounded b32 (1 / 2 ^ 60) = 1 / 2 ^ 60" by (simp add: power_int_minus field_simps)
    then have "\<bar>rounded b32 x\<bar> \<le> 1 / 2 ^ 60"
      using rounded_abs_le [of b32 "1 / 2 ^ 60" x] False by (simp add: b32_def)
    then show ?thesis using False abs_triangle_ineq4 [of "rounded b32 x" x] by simp
  qed
  moreover have "fconv b32 v = Num (rounded b32 x)" using v x by (simp add: fround_b32)
  ultimately show ?thesis using that v le by blast
qed

lemma near_float_double:
  assumes "double_ok v" shows "speed_ok (fconv b32 v)" and "near a (fconv b32 v) \<Longrightarrow> near_double a v"
proof -
  from assms obtain x y where xy: "v = Num x" "fconv b32 v = Num y" "\<bar>y\<bar> \<le> 32" "\<bar>y - x\<bar> \<le> 1 / 10 ^ 5"
    by (rule float_of_double)
  then show "speed_ok (fconv b32 v)" by simp
  assume a: "near a (fconv b32 v)"
  with xy obtain z where z: "a = Num z" "\<bar>z - y\<bar> < 1.02 / 1000" by (cases a) auto
  have "\<bar>z - x\<bar> \<le> \<bar>z - y\<bar> + \<bar>y - x\<bar>" using abs_triangle_ineq [of "z - y" "y - x"] by simp
  with z(2) xy(4) have "\<bar>z - x\<bar> < 1.03 / 1000" by simp
  with z(1) xy(1) show "near_double a v" by simp
qed

lemma v2_motion_frame:
  assumes "connected r" "wf_locals k" "double_ok a" "double_ok b" "double_ok c" "double_ok d"
  shows "\<exists>r' f m. SendMotionCommand (V2Parser j) k a b c d r = Inr r' \<and> bus r' = bus r @ [f] \<and>
    DecodeMessage (V2Parser j') f msg =
      Inr (True, \<lparr>msg_type = AgxMsgMotionCommand, msg_body = U_motion_command m\<rparr>) \<and>
    near_double (mcm_linear_velocity m) a \<and> near_double (mcm_angular_velocity m) b \<and>
    near_double (mcm_lateral_velocity m) c \<and> near_double (mcm_steering_angle m) d"
proof -
  let ?m = "\<lparr>mcm_linear_velocity = fconv b32 a, mcm_angular_velocity = fconv b32 b,
    mcm_lateral_velocity = fconv b32 c, mcm_steering_angle = fconv b32 d\<rparr>"
  let ?msg = "\<lparr>msg_type = AgxMsgMotionCommand, msg_body = U_motion_command ?m\<rparr>"
  have "command_ok ?m" using assms near_float_double by (simp add: command_ok_def)
  then obtain f m where fm:
    "EncodeCanFrameV2 (local_bytes k) ?msg (v2_count (encoder r)) (local_frame k)
      = Inr (True, v2_count (encoder r), f)"
    "DecodeCanFrameV2 (junk_rc j') f msg =
      (True, \<lparr>msg_type = AgxMsgMotionCommand, msg_body = U_motion_command m\<rparr>)"
    "command_near m ?m"
    using motion_command_roundtrip [of ?m "local_frame k" "local_bytes k" "v2_count (encoder r)"
        "junk_rc j'" msg] assms(2) unfolding wf_locals_def by blast
  from fm(3) assms have "near_double (mcm_linear_velocity m) a" "near_double (mcm_angular_velocity m) b"
    "near_double (mcm_lateral_velocity m) c" "near_double (mcm_steering_angle m) d"
    by (auto simp: command_near_def intro: near_float_double)
  with assms(1) fm(1,2) show ?thesis
    by (simp add: SendMotionCommand_def motion_message_def encode_and_send_def V2Parser_encode
        V2Parser_decode SendFrame_connected Let_def)
qed

text \<open>A version 1 robot without a lateral limit: every motion command casts a NaN.\<close>

lemma v1_motion_undefined:
  assumes "connected r" "max_lateral l = 0" "min_lateral l = 0"
  shows "SendMotionCommand (V1Parser l j) k a b c d r = Inl BadCast"
  using assms
  by (simp add: SendMotionCommand_def motion_message_def encode_and_send_def V1Parser_encode
      no_lateral_undefined)

text \<open>The configuration messages of version 2 are not sent by a version 1 robot.\<close>

lemma v1_sends_nothing:
  assumes "connected r"
  shows "EnableCommandedMode (V1Parser l j) k r = Inr r"
    and "SetBrakeMode (V1Parser l j) k md r = Inr r"
    and "SetMotionMode (V1Parser l j) k md' r = Inr r"
  using assms
  by (simp_all add: EnableCommandedMode_def SetBrakeMode_def SetMotionMode_def Let_def
      encode_and_send_def V1Parser_encode V1EncodeMessage_def EncodeCanFrameV1_def)

end
