(* ===== verification/Robots.thy ===== *)
theory Robots
  imports Robot_Parsers
begin

text \<open>
  The robot classes: \<open>ScoutBase\<close>, \<open>HunterBase\<close>, \<open>BunkerBase\<close>, \<open>TracerBaseV2\<close>, \<open>TitanBase\<close>,
  \<open>RangerBaseV2\<close> and \<open>RangerMiniV1Base\<close> (\<open>robot_base\<close>), the state structs of \<open>interface\<close>, and the
  wrappers of \<open>src/mobile_robot\<close>, which create one of them and forward every call.
\<close>

type_synonym robot = "statics agilex"

section \<open>Scout\<close>

record ScoutCoreState =
  sc_time_stamp :: SdkTimePoint
  sc_system_state :: SystemStateMessage
  sc_motion_state :: MotionStateMessage
  sc_light_state :: LightStateMessage
  sc_rc_state :: RcStateMessage

record ScoutActuatorState =
  sa_time_stamp :: SdkTimePoint
  sa_actuator_hs_state :: "ActuatorHSStateMessage list"
  sa_actuator_ls_state :: "ActuatorLSStateMessage list"
  sa_actuator_state :: "ActuatorStateMessageV1 list"

record ScoutCommonSensorState =
  scs_time_stamp :: SdkTimePoint
  scs_bms_basic_state :: BmsBasicMessage

definition ScoutBase_SetMotionCommand ::
  "statics parser_ops \<Rightarrow> locals \<Rightarrow> flt \<Rightarrow> flt \<Rightarrow> robot \<Rightarrow> ub + robot" where
  "ScoutBase_SetMotionCommand P k linear_vel angular_vel =
     SendMotionCommand P k linear_vel angular_vel (Num 0) (Num 0)"

definition ScoutMiniOmniBase_SetMotionCommand ::
  "statics parser_ops \<Rightarrow> locals \<Rightarrow> flt \<Rightarrow> flt \<Rightarrow> flt \<Rightarrow> robot \<Rightarrow> ub + robot" where
  "ScoutMiniOmniBase_SetMotionCommand P k linear_vel angular_vel lateral_vel =
     SendMotionCommand P k linear_vel angular_vel lateral_vel (Num 0)"

definition ScoutBase_GetRobotState :: "robot \<Rightarrow> ScoutCoreState" where
  "ScoutBase_GetRobotState r = (let state = core_state_msgs r in
     \<lparr>sc_time_stamp = cs_time_stamp state, sc_system_state = cs_system_state state,
      sc_motion_state = cs_motion_state state, sc_light_state = cs_light_state state,
      sc_rc_state = cs_rc_state state\<rparr>)"

text \<open>\<open>for (i = 0; i < n; ++i) dst[i] = src[i];\<close> reads \<open>n\<close> elements of a built-in array.\<close>

definition copy_first :: "nat \<Rightarrow> 'a list \<Rightarrow> ub + 'a list" where
  "copy_first n xs = (if n \<le> length xs then Inr (take n xs) else Inl OutOfRange)"

definition ScoutBase_GetActuatorState :: "robot \<Rightarrow> ub + ScoutActuatorState" where
  "ScoutBase_GetActuatorState r = (let actuator = actuator_state_msgs r in
     bind_ub (copy_first 4 (as_actuator_hs_state actuator)) (\<lambda>hs.
     bind_ub (copy_first 4 (as_actuator_ls_state actuator)) (\<lambda>ls.
     bind_ub (copy_first 4 (as_actuator_state actuator)) (\<lambda>v1.
       Inr \<lparr>sa_time_stamp = as_time_stamp actuator, sa_actuator_hs_state = hs,
            sa_actuator_ls_state = ls, sa_actuator_state = v1\<rparr>))))"

definition ScoutBase_GetCommonSensorState :: "robot \<Rightarrow> ScoutCommonSensorState" where
  "ScoutBase_GetCommonSensorState r = (let common_sensor = common_sensor_state_msgs r in
     \<lparr>scs_time_stamp = ss_time_stamp common_sensor,
      scs_bms_basic_state = ss_bms_basic_state common_sensor\<rparr>)"

section \<open>Hunter\<close>

record HunterCoreState =
  hc_time_stamp :: SdkTimePoint
  hc_system_state :: SystemStateMessage
  hc_motion_state :: MotionStateMessage
  hc_rc_state :: RcStateMessage

record HunterActuatorState =
  ha_time_stamp :: SdkTimePoint
  ha_actuator_hs_state :: "ActuatorHSStateMessage list"
  ha_actuator_ls_state :: "ActuatorLSStateMessage list"
  ha_actuator_state :: "ActuatorStateMessageV1 list"

record HunterCommonSensorState =
  hcs_time_stamp :: SdkTimePoint
  hcs_bms_basic_state :: BmsBasicMessage
  hcs_bms_extend_state :: BmsExtendedMessage

definition HunterBase_SetMotionCommand ::
  "statics parser_ops \<Rightarrow> locals \<Rightarrow> flt \<Rightarrow> flt \<Rightarrow> robot \<Rightarrow> ub + robot" where
  "HunterBase_SetMotionCommand P k linear_vel angular_vel =
     SendMotionCommand P k linear_vel (Num 0) (Num 0) angular_vel"

definition HunterBase_GetRobotState :: "robot \<Rightarrow> HunterCoreState" where
  "HunterBase_GetRobotState r = (let state = core_state_msgs r in
     \<lparr>hc_time_stamp = cs_time_stamp state, hc_system_state = cs_system_state state,
      hc_motion_state = cs_motion_state state, hc_rc_state = cs_rc_state state\<rparr>)"

definition HunterBase_GetActuatorState :: "robot \<Rightarrow> ub + HunterActuatorState" where
  "HunterBase_GetActuatorState r = (let actuator = actuator_state_msgs r in
     bind_ub (copy_first 3 (as_actuator_hs_state actuator)) (\<lambda>hs.
     bind_ub (copy_first 3 (as_actuator_ls_state actuator)) (\<lambda>ls.
     bind_ub (copy_first 3 (as_actuator_state actuator)) (\<lambda>v1.
       Inr \<lparr>ha_time_stamp = as_time_stamp actuator, ha_actuator_hs_state = hs,
            ha_actuator_ls_state = ls, ha_actuator_state = v1\<rparr>))))"

text \<open>\<open>voltage * 0.1f\<close>, shared by the robots with steering.\<close>

definition steering_bms :: "BmsBasicMessage \<Rightarrow> BmsBasicMessage" where
  "steering_bms b = \<lparr>battery_soc = battery_soc b, battery_soh = battery_soh b,
     bms_voltage = fmul b32 (bms_voltage b) c01f, bms_current = bms_current b,
     bms_temperature = bms_temperature b\<rparr>"

definition HunterBase_GetCommonSensorState :: "robot \<Rightarrow> HunterCommonSensorState" where
  "HunterBase_GetCommonSensorState r = (let common_sensor = common_sensor_state_msgs r in
     \<lparr>hcs_time_stamp = ss_time_stamp common_sensor,
      hcs_bms_basic_state = steering_bms (ss_bms_basic_state common_sensor),
      hcs_bms_extend_state = ss_bms_extend_state common_sensor\<rparr>)"

definition HunterBase_ActivateBrake ::
  "statics parser_ops \<Rightarrow> locals \<Rightarrow> robot \<Rightarrow> ub + robot" where
  "HunterBase_ActivateBrake P k = SetBrakeMode P k BRAKE_MODE_LOCK"

definition HunterBase_ReleaseBrake ::
  "statics parser_ops \<Rightarrow> locals \<Rightarrow> robot \<Rightarrow> ub + robot" where
  "HunterBase_ReleaseBrake P k = SetBrakeMode P k BRAKE_MODE_UNLOCK"

section \<open>Bunker\<close>

record BunkerCoreState =
  bc_time_stamp :: SdkTimePoint
  bc_system_state :: SystemStateMessage
  bc_motion_state :: MotionStateMessage
  bc_rc_state :: RcStateMessage

record BunkerActuatorState =
  ba_time_stamp :: SdkTimePoint
  ba_actuator_hs_state :: "ActuatorHSStateMessage list"
  ba_actuator_ls_state :: "ActuatorLSStateMessage list"
  ba_actuator_state :: "ActuatorStateMessageV1 list"

definition BunkerBase_SetMotionCommand ::
  "statics parser_ops \<Rightarrow> locals \<Rightarrow> flt \<Rightarrow> flt \<Rightarrow> robot \<Rightarrow> ub + robot" where
  "BunkerBase_SetMotionCommand P k linear_vel angular_vel =
     SendMotionCommand P k linear_vel angular_vel (Num 0) (Num 0)"

definition BunkerBase_GetRobotState :: "robot \<Rightarrow> BunkerCoreState" where
  "BunkerBase_GetRobotState r = (let state = core_state_msgs r in
     \<lparr>bc_time_stamp = cs_time_stamp state, bc_system_state = cs_system_state state,
      bc_motion_state = cs_motion_state state, bc_rc_state = cs_rc_state state\<rparr>)"

definition BunkerBase_GetActuatorState :: "robot \<Rightarrow> ub + BunkerActuatorState" where
  "BunkerBase_GetActuatorState r = (let actuator = actuator_state_msgs r in
     bind_ub (copy_first 2 (as_actuator_hs_state actuator)) (\<lambda>hs.
     bind_ub (copy_first 2 (as_actuator_ls_state actuator)) (\<lambda>ls.
     bind_ub (copy_first 2 (as_actuator_state actuator)) (\<lambda>v1.
       Inr \<lparr>ba_time_stamp = as_time_stamp actuator, ba_actuator_hs_state = hs,
            ba_actuator_ls_state = ls, ba_actuator_state = v1\<rparr>))))"

section \<open>Tracer\<close>

record TracerActuatorState =
  ta_time_stamp :: SdkTimePoint
  ta_actuator_hs_state :: "ActuatorHSStateMessage list"
  ta_actuator_ls_state :: "ActuatorLSStateMessage list"

text \<open>The core state has the fields of a \<^typ>\<open>ScoutCoreState\<close>.\<close>

type_synonym TracerCoreState = ScoutCoreState

definition TracerBaseV2_SetMotionCommand ::
  "decoder_junk \<Rightarrow> locals \<Rightarrow> flt \<Rightarrow> flt \<Rightarrow> robot \<Rightarrow> ub + robot" where
  "TracerBaseV2_SetMotionCommand j k linear_vel angular_vel =
     SendMotionCommand (V2Parser j) k linear_vel angular_vel (Num 0) (Num 0)"

definition TracerBaseV2_SetLightCommand ::
  "decoder_junk \<Rightarrow> locals \<Rightarrow> AgxLightMode \<Rightarrow> u8 \<Rightarrow> robot \<Rightarrow> ub + robot" where
  "TracerBaseV2_SetLightCommand j k f_mode f_value =
     SendLightCommand (V2Parser j) k f_mode f_value CONST_OFF 0"

definition TracerBaseV2_GetRobotState :: "robot \<Rightarrow> TracerCoreState" where
  "TracerBaseV2_GetRobotState r = (let state = core_state_msgs r in
     \<lparr>sc_time_stamp = cs_time_stamp state, sc_system_state = cs_system_state state,
      sc_motion_state = cs_motion_state state, sc_light_state = cs_light_state state,
      sc_rc_state = cs_rc_state state\<rparr>)"

definition TracerBaseV2_GetActuatorState :: "robot \<Rightarrow> ub + TracerActuatorState" where
  "TracerBaseV2_GetActuatorState r = (let actuator = actuator_state_msgs r in
     bind_ub (copy_first 2 (as_actuator_hs_state actuator)) (\<lambda>hs.
     bind_ub (copy_first 2 (as_actuator_ls_state actuator)) (\<lambda>ls.
       Inr \<lparr>ta_time_stamp = as_time_stamp actuator, ta_actuator_hs_state = hs,
            ta_actuator_ls_state = ls\<rparr>)))"

section \<open>Titan\<close>

text \<open>The \<open>odometry\<close> member is never assigned: it keeps what the local struct \<open>u\<close> holds.\<close>

record TitanCoreState =
  tc_time_stamp :: SdkTimePoint
  tc_system_state :: SystemStateMessage
  tc_motion_state :: MotionStateMessage
  tc_motion_mode_state :: MotionModeStateMessage
  tc_rc_state :: RcStateMessage
  tc_odometry :: OdometryMessage

record TitanCommonSensorState =
  tcs_time_stamp :: SdkTimePoint
  tcs_bms_basic_state :: BmsBasicMessage

text \<open>Structs with the fields of one above.\<close>

type_synonym TitanActuatorState = TracerActuatorState

type_synonym RangerCommonSensorState = TitanCommonSensorState

definition TitanBase_SetMotionCommand ::
  "decoder_junk \<Rightarrow> locals \<Rightarrow> flt \<Rightarrow> flt \<Rightarrow> robot \<Rightarrow> ub + robot" where
  "TitanBase_SetMotionCommand j k linear_vel steer_angle =
     SendMotionCommand (V2Parser j) k linear_vel (Num 0) (Num 0) steer_angle"

definition TitanBase_GetRobotState :: "TitanCoreState \<Rightarrow> robot \<Rightarrow> TitanCoreState" where
  "TitanBase_GetRobotState u r = (let state = core_state_msgs r in
     u\<lparr>tc_time_stamp := cs_time_stamp state, tc_system_state := cs_system_state state,
       tc_motion_state := cs_motion_state state, tc_rc_state := cs_rc_state state,
       tc_motion_mode_state := cs_motion_mode_state state\<rparr>)"

definition TitanBase_GetActuatorState :: "robot \<Rightarrow> ub + TitanActuatorState" where
  "TitanBase_GetActuatorState r = (let actuator = actuator_state_msgs r in
     bind_ub (copy_first 4 (as_actuator_hs_state actuator)) (\<lambda>hs.
     bind_ub (copy_first 4 (as_actuator_ls_state actuator)) (\<lambda>ls.
       Inr \<lparr>ta_time_stamp = as_time_stamp actuator, ta_actuator_hs_state = hs,
            ta_actuator_ls_state = ls\<rparr>)))"

definition TitanBase_GetCommonSensorState :: "robot \<Rightarrow> TitanCommonSensorState" where
  "TitanBase_GetCommonSensorState r = (let common_sensor = common_sensor_state_msgs r in
     \<lparr>tcs_time_stamp = ss_time_stamp common_sensor,
      tcs_bms_basic_state = steering_bms (ss_bms_basic_state common_sensor)\<rparr>)"

definition TitanBase_ActivateBrake :: "decoder_junk \<Rightarrow> locals \<Rightarrow> robot \<Rightarrow> ub + robot" where
  "TitanBase_ActivateBrake j k = SetBrakeMode (V2Parser j) k BRAKE_MODE_UNLOCK"

definition TitanBase_ReleaseBrake :: "decoder_junk \<Rightarrow> locals \<Rightarrow> robot \<Rightarrow> ub + robot" where
  "TitanBase_ReleaseBrake j k = SetBrakeMode (V2Parser j) k BRAKE_MODE_LOCK"

section \<open>Ranger\<close>

record RangerCoreState =
  rc_time_stamp :: SdkTimePoint
  rc_system_state :: SystemStateMessage
  rc_motion_state :: MotionStateMessage
  rc_light_state :: LightStateMessage
  rc_motion_mode_state :: MotionModeStateMessage
  rc_rc_state :: RcStateMessage
  rc_odometry :: OdometryMessage

record RangerActuatorState =
  ra_time_stamp :: SdkTimePoint
  ra_motor_angles :: MotorAngleMessage
  ra_motor_speeds :: MotorSpeedMessage
  ra_actuator_hs_state :: "ActuatorHSStateMessage list"
  ra_actuator_ls_state :: "ActuatorLSStateMessage list"

abbreviation (input) kDualAckerman :: u8 where "kDualAckerman \<equiv> 0"
abbreviation (input) kParallel :: u8 where "kParallel \<equiv> 1"
abbreviation (input) kSpinning :: u8 where "kSpinning \<equiv> 2"
abbreviation (input) kPark :: u8 where "kPark \<equiv> 3"
abbreviation (input) kSideSlip :: u8 where "kSideSlip \<equiv> 4"

definition RangerBaseV2_SetMotionCommand ::
  "decoder_junk \<Rightarrow> locals \<Rightarrow> flt \<Rightarrow> flt \<Rightarrow> flt \<Rightarrow> robot \<Rightarrow> ub + robot" where
  "RangerBaseV2_SetMotionCommand j k linear_vel steer_angle angular_vel =
     SendMotionCommand (V2Parser j) k linear_vel angular_vel (Num 0) steer_angle"

definition RangerBaseV2_GetRobotState :: "RangerCoreState \<Rightarrow> robot \<Rightarrow> RangerCoreState" where
  "RangerBaseV2_GetRobotState u r = (let state = core_state_msgs r in
     u\<lparr>rc_time_stamp := cs_time_stamp state, rc_system_state := cs_system_state state,
       rc_motion_state := cs_motion_state state, rc_light_state := cs_light_state state,
       rc_rc_state := cs_rc_state state, rc_motion_mode_state := cs_motion_mode_state state\<rparr>)"

definition RangerBaseV2_GetActuatorState :: "robot \<Rightarrow> ub + RangerActuatorState" where
  "RangerBaseV2_GetActuatorState r = (let actuator = actuator_state_msgs r in
     bind_ub (copy_first 8 (as_actuator_hs_state actuator)) (\<lambda>hs.
     bind_ub (copy_first 8 (as_actuator_ls_state actuator)) (\<lambda>ls.
       Inr \<lparr>ra_time_stamp = as_time_stamp actuator,
            ra_motor_angles = as_motor_angles actuator, ra_motor_speeds = as_motor_speeds actuator,
            ra_actuator_hs_state = hs, ra_actuator_ls_state = ls\<rparr>)))"

definition RangerBaseV2_GetCommonSensorState :: "robot \<Rightarrow> RangerCommonSensorState" where
  "RangerBaseV2_GetCommonSensorState r = (let common_sensor = common_sensor_state_msgs r in
     \<lparr>tcs_time_stamp = ss_time_stamp common_sensor,
      tcs_bms_basic_state = steering_bms (ss_bms_basic_state common_sensor)\<rparr>)"

section \<open>Ranger Mini V1\<close>

definition RangerMiniV1_SetMotionMode ::
  "decoder_junk \<Rightarrow> locals \<Rightarrow> u8 \<Rightarrow> robot \<Rightarrow> ub + robot" where
  "RangerMiniV1_SetMotionMode j k md r =
     (if md = kPark then Inr r
      else SetMotionMode (V2Parser j) k (if md = kSideSlip then 3 else md) r)"

definition wheel_radius :: flt where "wheel_radius = Num (lit 0.254558)"

text \<open>\<open>-steer_angle / 10.0 / 3.14 * 180\<close>\<close>

definition mini_steer :: "flt \<Rightarrow> flt" where
  "mini_steer a = fmul b64 (fdiv b64 (fdiv b64 (fneg a) (Num 10)) (Num (lit 3.14))) (Num 180)"

definition RangerMiniV1_SetMotionCommand ::
  "decoder_junk \<Rightarrow> locals \<Rightarrow> flt \<Rightarrow> flt \<Rightarrow> flt \<Rightarrow> robot \<Rightarrow> ub + robot" where
  "RangerMiniV1_SetMotionCommand j k linear_vel steer_angle angular_vel r =
     (let angular_vel =
        (if motion_mode (cs_motion_mode_state (core_state_msgs r)) = kSpinning
         then fmul b64 angular_vel wheel_radius else angular_vel)
      in SendMotionCommand (V2Parser j) k linear_vel (Num 0) (fneg angular_vel)
           (mini_steer steer_angle) r)"

text \<open>\<open>-angle * 10 / 180.0 * 3.14\<close>: the first product is a \<open>float\<close>, the rest \<open>double\<close>.\<close>

definition mini_steer_feedback :: "flt \<Rightarrow> flt" where
  "mini_steer_feedback a = fconv b32
     (fmul b64 (fdiv b64 (fmul b32 (fneg a) (Num 10)) (Num 180)) (Num (lit 3.14)))"

text \<open>In side slip mode the angular velocity is not assigned: it is that of the local struct \<open>u\<close>.\<close>

definition mini_motion :: "MotionStateMessage \<Rightarrow> u8 \<Rightarrow> MotionStateMessage \<Rightarrow> MotionStateMessage" where
  "mini_motion u md m =
     (if md = kSpinning then
        \<lparr>linear_velocity = Num 0,
         angular_velocity = fconv b32 (fdiv b64 (fneg (linear_velocity m)) wheel_radius),
         lateral_velocity = lateral_velocity m,
         steering_angle = mini_steer_feedback (steering_angle m)\<rparr>
      else if md = kSideSlip then
        \<lparr>linear_velocity = fneg (linear_velocity m),
         angular_velocity = angular_velocity u,
         lateral_velocity = lateral_velocity m,
         steering_angle = mini_steer_feedback (steering_angle m)\<rparr>
      else
        \<lparr>linear_velocity = linear_velocity m,
         angular_velocity = fneg (angular_velocity m),
         lateral_velocity = lateral_velocity m,
         steering_angle = mini_steer_feedback (steering_angle m)\<rparr>)"

definition RangerMiniV1_GetRobotState :: "RangerCoreState \<Rightarrow> robot \<Rightarrow> RangerCoreState" where
  "RangerMiniV1_GetRobotState u r = (let state = core_state_msgs r in
     u\<lparr>rc_time_stamp := cs_time_stamp state, rc_system_state := cs_system_state state,
       rc_light_state := cs_light_state state, rc_rc_state := cs_rc_state state,
       rc_motion_mode_state := cs_motion_mode_state state,
       rc_motion_state := mini_motion (rc_motion_state u)
         (motion_mode (cs_motion_mode_state state)) (cs_motion_state state)\<rparr>)"

text \<open>\<open>-angle / 18.0 * M_PI\<close>\<close>

definition mini_angle :: "flt \<Rightarrow> flt" where
  "mini_angle a = fconv b32 (fmul b64 (fdiv b64 (fneg a) (Num 18))
     (Num (lit 3.14159265358979323846)))"

definition RangerMiniV1_GetActuatorState :: "robot \<Rightarrow> ub + RangerActuatorState" where
  "RangerMiniV1_GetActuatorState r = (let actuator = actuator_state_msgs r;
       a = as_motor_angles actuator in
     bind_ub (copy_first 8 (as_actuator_hs_state actuator)) (\<lambda>hs.
     bind_ub (copy_first 8 (as_actuator_ls_state actuator)) (\<lambda>ls.
       Inr \<lparr>ra_time_stamp = as_time_stamp actuator,
            ra_motor_angles = \<lparr>angle_5 = mini_angle (angle_5 a), angle_6 = mini_angle (angle_6 a),
              angle_7 = mini_angle (angle_7 a), angle_8 = mini_angle (angle_8 a)\<rparr>,
            ra_motor_speeds = as_motor_speeds actuator,
            ra_actuator_hs_state = hs, ra_actuator_ls_state = ls\<rparr>)))"

section \<open>The wrappers\<close>

text \<open>
  A wrapper holds \<open>RobotCommonInterface* robot_\<close>, which the constructors leave uninitialised when
  they create nothing: \<open>None\<close>. Every method follows the pointer without a test.
\<close>

definition call :: "'c option \<Rightarrow> ('c \<Rightarrow> ub + 'b) \<Rightarrow> ub + 'b" where
  "call ptr f = (case ptr of None \<Rightarrow> Inl Uninitialised | Some x \<Rightarrow> f x)"

datatype scout_class = ScoutBaseV1 | ScoutBaseV2 | ScoutMiniBaseV1 | ScoutMiniBaseV2
  | ScoutMiniOmniBaseV1 | ScoutMiniOmniBaseV2

fun scout_parser :: "decoder_junk \<Rightarrow> scout_class \<Rightarrow> statics parser_ops" where
  "scout_parser j ScoutBaseV1 = V1Parser ScoutV2Limits j"
| "scout_parser j ScoutBaseV2 = V2Parser j"
| "scout_parser j ScoutMiniBaseV1 = V1Parser ScoutMiniLimits j"
| "scout_parser j ScoutMiniBaseV2 = V2Parser j"
| "scout_parser j ScoutMiniOmniBaseV1 = V1Parser ScoutMiniLimits j"
| "scout_parser j ScoutMiniOmniBaseV2 = V2Parser j"

definition ScoutRobot :: "ProtocolVersion \<Rightarrow> bool \<Rightarrow> scout_class option" where
  "ScoutRobot protocol is_mini_model =
     (if \<not> is_mini_model then
        if protocol = AGX_V1 then Some ScoutBaseV1
        else if protocol = AGX_V2 then Some ScoutBaseV2 else None
      else
        if protocol = AGX_V1 then Some ScoutMiniBaseV1
        else if protocol = AGX_V2 then Some ScoutMiniBaseV2 else None)"

definition ScoutMiniOmniRobot :: "ProtocolVersion \<Rightarrow> scout_class option" where
  "ScoutMiniOmniRobot protocol =
     (let ptr = ScoutRobot UNKONWN False in
      if protocol = AGX_V1 then Some ScoutMiniOmniBaseV1
      else if protocol = AGX_V2 then Some ScoutMiniOmniBaseV2 else ptr)"

definition ScoutRobot_SetMotionCommand ::
  "decoder_junk \<Rightarrow> locals \<Rightarrow> flt \<Rightarrow> flt \<Rightarrow> scout_class option \<Rightarrow> robot \<Rightarrow> ub + robot" where
  "ScoutRobot_SetMotionCommand j k linear_vel angular_vel ptr r = call ptr (\<lambda>c.
     ScoutBase_SetMotionCommand (scout_parser j c) k linear_vel angular_vel r)"

definition ScoutMiniOmniRobot_SetMotionCommand ::
  "decoder_junk \<Rightarrow> locals \<Rightarrow> flt \<Rightarrow> flt \<Rightarrow> flt \<Rightarrow> scout_class option \<Rightarrow> robot \<Rightarrow> ub + robot" where
  "ScoutMiniOmniRobot_SetMotionCommand j k linear_vel angular_vel lateral_vel ptr r =
     call ptr (\<lambda>c. ScoutMiniOmniBase_SetMotionCommand (scout_parser j c) k
       linear_vel angular_vel lateral_vel r)"

definition ScoutRobot_EnableCommandedMode ::
  "decoder_junk \<Rightarrow> locals \<Rightarrow> scout_class option \<Rightarrow> robot \<Rightarrow> ub + robot" where
  "ScoutRobot_EnableCommandedMode j k ptr r =
     call ptr (\<lambda>c. EnableCommandedMode (scout_parser j c) k r)"

definition ScoutRobot_SetLightCommand :: "decoder_junk \<Rightarrow> locals \<Rightarrow> AgxLightMode \<Rightarrow> u8 \<Rightarrow>
  AgxLightMode \<Rightarrow> u8 \<Rightarrow> scout_class option \<Rightarrow> robot \<Rightarrow> ub + robot" where
  "ScoutRobot_SetLightCommand j k f_mode f_value r_mode r_value ptr r =
     call ptr (\<lambda>c. SendLightCommand (scout_parser j c) k f_mode f_value r_mode r_value r)"

definition ScoutRobot_DisableLightControl ::
  "decoder_junk \<Rightarrow> locals \<Rightarrow> scout_class option \<Rightarrow> robot \<Rightarrow> ub + robot" where
  "ScoutRobot_DisableLightControl j k ptr r =
     call ptr (\<lambda>c. DisableLightControl (scout_parser j c) k r)"

definition ScoutRobot_GetRobotState :: "scout_class option \<Rightarrow> robot \<Rightarrow> ub + ScoutCoreState" where
  "ScoutRobot_GetRobotState ptr r = call ptr (\<lambda>c. Inr (ScoutBase_GetRobotState r))"

definition ScoutRobot_GetActuatorState ::
  "scout_class option \<Rightarrow> robot \<Rightarrow> ub + ScoutActuatorState" where
  "ScoutRobot_GetActuatorState ptr r = call ptr (\<lambda>c. ScoutBase_GetActuatorState r)"

definition ScoutRobot_GetParserProtocolVersion ::
  "decoder_junk \<Rightarrow> scout_class option \<Rightarrow> ub + ProtocolVersion" where
  "ScoutRobot_GetParserProtocolVersion j ptr =
     call ptr (\<lambda>c. Inr (GetParserProtocolVersion (scout_parser j c)))"

datatype hunter_class = HunterBaseV1 | HunterBaseV2

fun hunter_parser :: "decoder_junk \<Rightarrow> hunter_class \<Rightarrow> statics parser_ops" where
  "hunter_parser j HunterBaseV1 = V1Parser HunterV1Limits j"
| "hunter_parser j HunterBaseV2 = V2Parser j"

definition HunterRobot :: "ProtocolVersion \<Rightarrow> hunter_class option" where
  "HunterRobot protocol = (if protocol = AGX_V1 then Some HunterBaseV1
     else if protocol = AGX_V2 then Some HunterBaseV2 else None)"

definition HunterRobot_SetMotionCommand ::
  "decoder_junk \<Rightarrow> locals \<Rightarrow> flt \<Rightarrow> flt \<Rightarrow> hunter_class option \<Rightarrow> robot \<Rightarrow> ub + robot" where
  "HunterRobot_SetMotionCommand j k linear_vel angular_vel ptr r = call ptr (\<lambda>c.
     HunterBase_SetMotionCommand (hunter_parser j c) k linear_vel angular_vel r)"

definition HunterRobot_ActivateBrake ::
  "decoder_junk \<Rightarrow> locals \<Rightarrow> hunter_class option \<Rightarrow> robot \<Rightarrow> ub + robot" where
  "HunterRobot_ActivateBrake j k ptr r =
     call ptr (\<lambda>c. HunterBase_ActivateBrake (hunter_parser j c) k r)"

definition HunterRobot_ReleaseBrake ::
  "decoder_junk \<Rightarrow> locals \<Rightarrow> hunter_class option \<Rightarrow> robot \<Rightarrow> ub + robot" where
  "HunterRobot_ReleaseBrake j k ptr r =
     call ptr (\<lambda>c. HunterBase_ReleaseBrake (hunter_parser j c) k r)"

datatype bunker_class = BunkerBaseV1 | BunkerBaseV2

fun bunker_parser :: "decoder_junk \<Rightarrow> bunker_class \<Rightarrow> statics parser_ops" where
  "bunker_parser j BunkerBaseV1 = V1Parser BunkerLimits j"
| "bunker_parser j BunkerBaseV2 = V2Parser j"

definition BunkerRobot :: "ProtocolVersion \<Rightarrow> bunker_class option" where
  "BunkerRobot protocol = (if protocol = AGX_V1 then Some BunkerBaseV1
     else if protocol = AGX_V2 then Some BunkerBaseV2 else None)"

definition BunkerRobot_SetMotionCommand ::
  "decoder_junk \<Rightarrow> locals \<Rightarrow> flt \<Rightarrow> flt \<Rightarrow> bunker_class option \<Rightarrow> robot \<Rightarrow> ub + robot" where
  "BunkerRobot_SetMotionCommand j k linear_vel angular_vel ptr r = call ptr (\<lambda>c.
     BunkerBase_SetMotionCommand (bunker_parser j c) k linear_vel angular_vel r)"

datatype ranger_class = RangerMiniV1Base | RangerBaseV2

definition RangerRobot :: "bool \<Rightarrow> ranger_class" where
  "RangerRobot is_mini_v1 = (if is_mini_v1 then RangerMiniV1Base else RangerBaseV2)"

text \<open>The virtual methods: \<open>RangerMiniV1Base\<close> overrides those of \<open>RangerBaseV2\<close>.\<close>

fun RangerRobot_SetMotionMode ::
  "decoder_junk \<Rightarrow> locals \<Rightarrow> u8 \<Rightarrow> ranger_class \<Rightarrow> robot \<Rightarrow> ub + robot" where
  "RangerRobot_SetMotionMode j k md RangerMiniV1Base r = RangerMiniV1_SetMotionMode j k md r"
| "RangerRobot_SetMotionMode j k md RangerBaseV2 r = SetMotionMode (V2Parser j) k md r"

fun RangerRobot_SetMotionCommand ::
  "decoder_junk \<Rightarrow> locals \<Rightarrow> flt \<Rightarrow> flt \<Rightarrow> flt \<Rightarrow> ranger_class \<Rightarrow> robot \<Rightarrow> ub + robot" where
  "RangerRobot_SetMotionCommand j k linear_vel steer_angle angular_vel RangerMiniV1Base r =
     RangerMiniV1_SetMotionCommand j k linear_vel steer_angle angular_vel r"
| "RangerRobot_SetMotionCommand j k linear_vel steer_angle angular_vel RangerBaseV2 r =
     RangerBaseV2_SetMotionCommand j k linear_vel steer_angle angular_vel r"

definition RangerRobot_SetLightCommand :: "decoder_junk \<Rightarrow> locals \<Rightarrow> AgxLightMode \<Rightarrow> u8 \<Rightarrow>
  AgxLightMode \<Rightarrow> u8 \<Rightarrow> ranger_class \<Rightarrow> robot \<Rightarrow> ub + robot" where
  "RangerRobot_SetLightCommand j k f_mode f_value r_mode r_value ptr r =
     SendLightCommand (V2Parser j) k f_mode f_value r_mode r_value r"

text \<open>The wrapper's \<open>DisableLightControl\<close> has an empty body.\<close>

definition RangerRobot_DisableLightControl :: "ranger_class \<Rightarrow> robot \<Rightarrow> ub + robot" where
  "RangerRobot_DisableLightControl ptr r = Inr r"

fun RangerRobot_GetRobotState :: "RangerCoreState \<Rightarrow> ranger_class \<Rightarrow> robot \<Rightarrow> RangerCoreState" where
  "RangerRobot_GetRobotState u RangerMiniV1Base r = RangerMiniV1_GetRobotState u r"
| "RangerRobot_GetRobotState u RangerBaseV2 r = RangerBaseV2_GetRobotState u r"

fun RangerRobot_GetActuatorState :: "ranger_class \<Rightarrow> robot \<Rightarrow> ub + RangerActuatorState" where
  "RangerRobot_GetActuatorState RangerMiniV1Base r = RangerMiniV1_GetActuatorState r"
| "RangerRobot_GetActuatorState RangerBaseV2 r = RangerBaseV2_GetActuatorState r"

end
