(* ===== verification/Session.thy ===== *)
theory Session
  imports Robots
begin

text \<open>
  A robot object in use: any sequence of received frames and commands, for any parser with the
  contract. The invariant of \<open>AgilexBase\<close> and the absence of undefined behaviour on the receiving
  side are lifted from the single operations to whole sessions.
\<close>

section \<open>Events\<close>

datatype command =
    Enable_Commanded_Mode
  | Motion flt flt flt flt
  | Light AgxLightMode u8 AgxLightMode u8
  | Light_Off
  | Motion_Mode u8
  | Brake AgxBrakeMode

fun run_command :: "'s parser_ops \<Rightarrow> locals \<Rightarrow> command \<Rightarrow> 's agilex \<Rightarrow> ub + 's agilex" where
  "run_command P k Enable_Commanded_Mode r = EnableCommandedMode P k r"
| "run_command P k (Motion a b c d) r = SendMotionCommand P k a b c d r"
| "run_command P k (Light fm fv rm rv) r = SendLightCommand P k fm fv rm rv r"
| "run_command P k Light_Off r = DisableLightControl P k r"
| "run_command P k (Motion_Mode md) r = SetMotionMode P k md r"
| "run_command P k (Brake md) r = SetBrakeMode P k md r"

datatype robot_event =
    Rx clock can_frame
  | Command command
  | Version_Request
  | Connect bool
  | Disconnect

text \<open>Each event comes with the indeterminate locals of the function it runs.\<close>

fun run_event :: "'s parser_ops \<Rightarrow> locals \<Rightarrow> robot_event \<Rightarrow> 's agilex \<Rightarrow> ub + 's agilex" where
  "run_event P k (Rx t f) r = ParseCANFrame P t k f r"
| "run_event P k (Command c) r = run_command P k c r"
| "run_event P k Version_Request r = send_version_request k r"
| "run_event P k (Connect opens) r = Inr (snd (ConnectPort opens r))"
| "run_event P k Disconnect r = Inr (DisconnectPort r)"

inductive session :: "'s parser_ops \<Rightarrow> (locals \<times> robot_event) list \<Rightarrow> 's agilex \<Rightarrow> 's agilex \<Rightarrow> bool"
  for P where
  session_Nil: "session P [] r r"
| session_Cons: "wf_locals k \<Longrightarrow> (\<And>t f. e = Rx t f \<Longrightarrow> valid_rx f) \<Longrightarrow> run_event P k e r = Inr r' \<Longrightarrow>
    session P es r' r'' \<Longrightarrow> session P ((k, e) # es) r r''"

inductive_cases session_NilE: "session P [] r r'"
inductive_cases session_ConsE: "session P (e # es) r r'"

lemma SendFrame_wf:
  assumes "SendFrame f r = Inr r'" "valid_tx f" "wf_robot r"
  shows "wf_robot r'"
  using assms by (auto simp: SendFrame_def wf_robot_def split: option.splits if_splits)

lemma send_version_request_wf:
  assumes "send_version_request k r = Inr r'" "wf_locals k" "wf_robot r"
  shows "wf_robot r'"
proof (rule SendFrame_wf)
  show "SendFrame \<lparr>can_id = 0x4a1, can_dlc = 1, can_data = (can_data (local_frame k))[0 := 0x01]\<rparr>
      (r\<lparr>version_string_buffer := []\<rparr>) = Inr r'"
    using assms(1) by (simp add: send_version_request_def)
  show "valid_tx \<lparr>can_id = 0x4a1, can_dlc = 1, can_data = (can_data (local_frame k))[0 := 0x01]\<rparr>"
    using assms(2) by (simp add: valid_tx_def wf_locals_def wf_frame_def)
  show "wf_robot (r\<lparr>version_string_buffer := []\<rparr>)"
    using assms(3) by (simp add: wf_robot_def wf_version_def)
qed

context can_parser
begin

lemma run_command_wf:
  assumes "run_command P k c r = Inr r'" "wf_locals k" "wf_robot r"
  shows "wf_robot r' \<and> (bus r' = bus r \<or> (\<exists>f. bus r' = bus r @ [f] \<and> valid_tx f))"
proof (cases "connected r")
  case True
  then obtain msg where "run_command P k c r = encode_and_send P k msg r"
    by (cases c) (auto simp: command_defs)
  then show ?thesis using encode_and_send_wf [of k msg r r'] assms True by auto
next
  case False
  then have "run_command P k c r = Inr r" by (cases c) (auto simp: command_defs)
  then show ?thesis using assms by auto
qed

lemma run_event_wf:
  assumes "run_event P k e r = Inr r'" "wf_locals k" "\<And>t f. e = Rx t f \<Longrightarrow> valid_rx f" "wf_robot r"
  shows "wf_robot r'"
proof (cases e)
  case (Rx t f)
  then show ?thesis using parse_total [of f r t k] assms by auto
next
  case (Command c)
  then show ?thesis using run_command_wf [of k c r r'] assms by simp
next
  case Version_Request
  then show ?thesis using send_version_request_wf assms by auto
next
  case (Connect b)
  then show ?thesis using assms by (auto simp: ConnectPort_def wf_robot_def)
next
  case Disconnect
  then show ?thesis using assms by (auto simp: DisconnectPort_def wf_robot_def split: if_splits)
qed

lemma session_wf: "session P es r r' \<Longrightarrow> wf_robot r \<Longrightarrow> wf_robot r'"
  by (induction rule: session.induct) (auto dest: run_event_wf)

lemma session_valid_bus:
  assumes "session P es r r'" "wf_robot r" "f \<in> set (bus r')"
  shows "valid_tx f"
  using session_wf [OF assms(1,2)] assms(3) by (auto simp: wf_robot_def)

text \<open>After any session the next received frame is processed.\<close>

lemma session_parse:
  assumes "session P es r r'" "wf_robot r" "valid_rx f"
  shows "\<exists>r''. ParseCANFrame P t k f r' = Inr r'' \<and> wf_robot r''"
  using parse_total session_wf assms by blast

end

section \<open>The version string\<close>

text \<open>What \<open>RequestVersion\<close> returns when the buffers it observes are well formed: the empty string or
  at least eighty printable characters.\<close>

lemma wait_version_Some:
  assumes "wait_version n obs v = Some w" "wf_version v" "\<forall>(e, b) \<in> set obs. wf_version b"
  shows "wf_version w"
  using assms by (induction n obs v rule: wait_version.induct) (auto split: if_splits)

lemma wait_version_returns:
  assumes "\<exists>(e, b) \<in> set obs. n \<le> e \<or> 80 \<le> length b"
  shows "\<exists>w. wait_version n obs v = Some w"
  using assms by (induction n obs v rule: wait_version.induct) auto

end
