(* ===== verification/Samples.thy ===== *)
theory Samples
  imports Session
begin

text \<open>
  Concrete objects on which the theorems are instantiated: a connected robot whose state is zero,
  zeroed locals, frames with given identifier and bytes.
\<close>

definition sample_bytes :: "u8 list" where
  "sample_bytes = [0, 0, 0, 0, 0, 0, 0, 0]"

definition sample_frame :: "u32 \<Rightarrow> u8 list \<Rightarrow> can_frame" where
  "sample_frame i bs = \<lparr>can_id = i, can_dlc = 8, can_data = bs\<rparr>"

definition sample_light :: LightCommandMessage where
  "sample_light = \<lparr>enable_cmd_ctrl = False, front_light = \<lparr>mode = 0, custom_value = 0\<rparr>,
     rear_light = \<lparr>mode = 0, custom_value = 0\<rparr>\<rparr>"

definition sample_msg :: AgxMessage where
  "sample_msg = \<lparr>msg_type = AgxMsgUnkonwn, msg_body = Uninit\<rparr>"

definition sample_locals :: locals where
  "sample_locals = \<lparr>local_bytes = sample_bytes, local_frame = sample_frame 0 sample_bytes,
     local_msg = sample_msg, local_light = sample_light\<rparr>"

definition sample_motion :: MotionStateMessage where
  "sample_motion = \<lparr>linear_velocity = Num 0, angular_velocity = Num 0, lateral_velocity = Num 0,
     steering_angle = Num 0\<rparr>"

definition sample_rc :: RcStateMessage where
  "sample_rc = \<lparr>swa = 0, swb = 0, swc = 0, swd = 0, stick_right_v = 0, stick_right_h = 0,
     stick_left_v = 0, stick_left_h = 0, var_a = 0\<rparr>"

definition sample_core :: CoreStateMsgGroup where
  "sample_core = \<lparr>cs_time_stamp = 0,
     cs_system_state = \<lparr>vehicle_state = 0, control_mode = 0, battery_voltage = Num 0, error_code = 0\<rparr>,
     cs_motion_state = sample_motion, cs_light_state = sample_light,
     cs_motion_mode_state = \<lparr>motion_mode = 0, mode_changing = 0\<rparr>, cs_rc_state = sample_rc\<rparr>"

definition sample_actuators :: ActuatorStateMsgGroup where
  "sample_actuators = \<lparr>as_time_stamp = 0,
     as_actuator_hs_state = replicate 8
       \<lparr>hs_motor_id = 0, hs_rpm = 0, hs_current = Num 0, hs_pulse_count = 0\<rparr>,
     as_actuator_ls_state = replicate 8
       \<lparr>ls_motor_id = 0, ls_driver_voltage = Num 0, ls_driver_temp = Num 0, ls_motor_temp = Num 0,
        ls_driver_state = 0\<rparr>,
     as_actuator_state = replicate 8
       \<lparr>a1_motor_id = 0, a1_current = Num 0, a1_rpm = 0, a1_driver_temp = Num 0, a1_motor_temp = Num 0\<rparr>,
     as_motor_angles = \<lparr>angle_5 = Num 0, angle_6 = Num 0, angle_7 = Num 0, angle_8 = Num 0\<rparr>,
     as_motor_speeds = \<lparr>speed_1 = Num 0, speed_2 = Num 0, speed_3 = Num 0, speed_4 = Num 0\<rparr>\<rparr>"

definition sample_sensors :: CommonSensorStateMsgGroup where
  "sample_sensors = \<lparr>ss_time_stamp = 0,
     ss_bms_basic_state = \<lparr>battery_soc = 0, battery_soh = 0, bms_voltage = Num 0,
       bms_current = Num 0, bms_temperature = Num 0\<rparr>,
     ss_bms_extend_state = \<lparr>alarm_status_1 = 0, alarm_status_2 = 0, warn_status_1 = 0,
       warn_status_2 = 0\<rparr>\<rparr>"

definition sample_statics :: statics where
  "sample_statics = \<lparr>v1_counters = \<lparr>motion_count = 0, value_set_count = 0, light_count = 0\<rparr>,
     v2_count = 0\<rparr>"

definition sample_robot :: robot where
  "sample_robot = \<lparr>can = Some True, encoder = sample_statics, core_state_msgs = sample_core,
     actuator_state_msgs = sample_actuators, common_sensor_state_msgs = sample_sensors,
     version_string_buffer = [], bus = []\<rparr>"

definition sample_junk :: decoder_junk where
  "sample_junk = \<lparr>junk_rc = sample_rc, junk_motion = sample_motion\<rparr>"

definition sample_clock :: clock where
  "sample_clock = \<lparr>now_core = 1, now_actuator = 2, now_sensor = 3\<rparr>"

lemma sample_wf [simp]:
  "wf_robot sample_robot" "connected sample_robot" "wf_locals sample_locals"
  "valid_rx (sample_frame i sample_bytes)" "wf_frame (sample_frame i sample_bytes)"
  "bus sample_robot = []"
  by (simp_all add: sample_robot_def wf_robot_def sample_actuators_def wf_actuators_def wf_version_def
      connected_def sample_locals_def wf_locals_def sample_frame_def sample_bytes_def valid_rx_def
      wf_frame_def)

end
