(* ===== verification/Protocol_Detector.thy ===== *)
theory Protocol_Detector
  imports Codec_V1 Codec_V2
begin

text \<open>
  \<open>ProtocolDetector\<close> (\<open>src/utilities/protocol_detector.cpp\<close>): it listens for identifiers that
  only one of the two protocols uses. The lemmas relate its verdict to the frames received and to
  the decoders of the two codecs.
\<close>

record detector =
  msg_v1_detected :: bool
  msg_v2_detected :: bool

definition detector_ParseCANFrame :: "can_frame \<Rightarrow> detector \<Rightarrow> detector" where
  "detector_ParseCANFrame rx_frame d =
     (if can_id rx_frame = 0x151 then d\<lparr>msg_v1_detected := True\<rparr>
      else if can_id rx_frame = 0x221 \<or> can_id rx_frame = 0x241 then d\<lparr>msg_v2_detected := True\<rparr>
      else d)"

text \<open>
  The polling loop. Each element of the list is one evaluation of the loop condition: the seconds
  on the stop watch, and the frames that the io thread processes before the flags are read.
  \<open>None\<close>: the list ends first.
\<close>

fun detect_loop :: "int \<Rightarrow> (int \<times> can_frame list) list \<Rightarrow> detector \<Rightarrow> detector option" where
  "detect_loop timeout_sec [] d = None"
| "detect_loop timeout_sec ((elapsed, rx) # obs) d =
     (if elapsed < timeout_sec then
        let d = fold detector_ParseCANFrame rx d in
        if msg_v1_detected d \<or> msg_v2_detected d then Some d else detect_loop timeout_sec obs d
      else Some d)"

definition verdict :: "detector \<Rightarrow> ProtocolVersion" where
  "verdict d = (if msg_v1_detected d \<and> msg_v2_detected d then UNKONWN
     else if msg_v1_detected d then AGX_V1
     else if msg_v2_detected d then AGX_V2 else UNKONWN)"

definition DetectProtocolVersion :: "u32 \<Rightarrow> (int \<times> can_frame list) list \<Rightarrow> ProtocolVersion option" where
  "DetectProtocolVersion timeout_sec obs =
     map_option verdict (detect_loop (uint timeout_sec) obs
       \<lparr>msg_v1_detected = False, msg_v2_detected = False\<rparr>)"

lemma fold_detected:
  "msg_v1_detected (fold detector_ParseCANFrame fs d) \<longleftrightarrow>
     msg_v1_detected d \<or> (\<exists>f \<in> set fs. can_id f = 0x151)"
  "msg_v2_detected (fold detector_ParseCANFrame fs d) \<longleftrightarrow>
     msg_v2_detected d \<or> (\<exists>f \<in> set fs. can_id f = 0x221 \<or> can_id f = 0x241)"
  by (induction fs arbitrary: d) (auto simp: detector_ParseCANFrame_def)

text \<open>The frames of the polls that the loop went through.\<close>

lemma detect_loop_frames:
  assumes "detect_loop n obs d = Some d'"
  shows "\<exists>k \<le> length obs. d' = fold detector_ParseCANFrame (concat (map snd (take k obs))) d"
  using assms
proof (induction n obs d rule: detect_loop.induct)
  case (2 n elapsed rx obs d)
  show ?case
  proof (cases "elapsed < n")
    case False
    then show ?thesis using 2 by (intro exI [of _ 0]) simp
  next
    case True
    let ?d = "fold detector_ParseCANFrame rx d"
    show ?thesis
    proof (cases "msg_v1_detected ?d \<or> msg_v2_detected ?d")
      case detected: True
      then show ?thesis using 2 True by (intro exI [of _ 1]) auto
    next
      case False
      then obtain k where "k \<le> length obs"
        "d' = fold detector_ParseCANFrame (concat (map snd (take k obs))) ?d"
        using 2 True by (auto simp: Let_def)
      then show ?thesis by (intro exI [of _ "Suc k"]) simp
    qed
  qed
qed simp

lemma detect_loop_returns:
  assumes "\<exists>p \<in> set obs. n \<le> fst p"
  shows "\<exists>d'. detect_loop n obs d = Some d'"
  using assms by (induction n obs d rule: detect_loop.induct) (auto simp: Let_def)

lemma verdict_frames:
  assumes "DetectProtocolVersion t obs = Some v"
  obtains fs where "set fs \<subseteq> (\<Union>p \<in> set obs. set (snd p))"
    "v = AGX_V1 \<longleftrightarrow> (\<exists>f \<in> set fs. can_id f = 0x151) \<and> \<not> (\<exists>f \<in> set fs. can_id f \<in> {0x221, 0x241})"
    "v = AGX_V2 \<longleftrightarrow> \<not> (\<exists>f \<in> set fs. can_id f = 0x151) \<and> (\<exists>f \<in> set fs. can_id f \<in> {0x221, 0x241})"
proof -
  from assms obtain d where
    d: "detect_loop (uint t) obs \<lparr>msg_v1_detected = False, msg_v2_detected = False\<rparr> = Some d"
      "v = verdict d"
    by (auto simp: DetectProtocolVersion_def)
  from detect_loop_frames [OF d(1)] obtain k where
    "d = fold detector_ParseCANFrame (concat (map snd (take k obs)))
       \<lparr>msg_v1_detected = False, msg_v2_detected = False\<rparr>" by blast
  moreover have "set (concat (map snd (take k obs))) \<subseteq> (\<Union>p \<in> set obs. set (snd p))"
    by (auto dest: in_set_takeD)
  ultimately show ?thesis
    using d(2) by (intro that [of "concat (map snd (take k obs))"])
      (auto simp: verdict_def fold_detected simp del: set_concat)
qed

text \<open>The identifiers are indeed unique: a frame with one is refused by the other protocol.\<close>

lemma v1_id_refused_by_v2: "can_id f = 0x151 \<Longrightarrow> \<not> fst (DecodeCanFrameV2 u f m)"
  unfolding decode_accepts_iff by (simp add: v2_ids_def)

lemma v2_id_refused_by_v1:
  "can_id f \<in> {0x221, 0x241} \<Longrightarrow> DecodeCanFrameV1 u f m \<noteq> Inr (True, m')"
  by (auto simp: DecodeCanFrameV1_def v1_decode_switch_def bind_ub_Inr_iff split: if_splits)

end
