(* ===== verification/Bounded_Fifo.thy ===== *)
theory Bounded_Fifo
  imports Prelude
begin

text \<open>
  The contract of a bounded first-in first-out buffer, as the locale \<open>bounded_fifo\<close>: the single
  element operations (\<open>ReadByte\<close> and \<open>WriteByte\<close> of the ring buffer) against the list of stored
  elements, and the block operations that loop over them, proved once from the contract.
\<close>

section \<open>Loops over single element operations\<close>

text \<open>\<open>for (i = 0; i < n; ++i) if (get(&data[i]) == 0) return i; return n;\<close> The elements read are
  returned; their number is the loop's return value.\<close>

fun drain :: "('s \<Rightarrow> ('a \<times> 's) option) \<Rightarrow> nat \<Rightarrow> 's \<Rightarrow> 'a list \<times> 's" where
  "drain get 0 s = ([], s)"
| "drain get (Suc n) s = (case get s of None \<Rightarrow> ([], s)
     | Some (x, s) \<Rightarrow> (case drain get n s of (xs, s) \<Rightarrow> (x # xs, s)))"

text \<open>\<open>for (i = 0; i < n; ++i) if (put(data[i]) == 0) return i; return n;\<close>\<close>

fun fill :: "('a \<Rightarrow> 's \<Rightarrow> 's option) \<Rightarrow> 'a list \<Rightarrow> 's \<Rightarrow> nat \<times> 's" where
  "fill put [] s = (0, s)"
| "fill put (x # xs) s = (case put x s of None \<Rightarrow> (0, s)
     | Some s \<Rightarrow> (case fill put xs s of (n, s) \<Rightarrow> (Suc n, s)))"

section \<open>The contract\<close>

locale bounded_fifo =
  fixes inv :: "'s \<Rightarrow> bool"
    and contents :: "'s \<Rightarrow> 'a list"
    and cap :: "'s \<Rightarrow> nat"
    and get :: "'s \<Rightarrow> ('a \<times> 's) option"
    and put :: "'a \<Rightarrow> 's \<Rightarrow> 's option"
  assumes get_empty: "inv s \<Longrightarrow> contents s = [] \<Longrightarrow> get s = None"
    and get_Cons: "inv s \<Longrightarrow> contents s = x # xs \<Longrightarrow>
      \<exists>s'. get s = Some (x, s') \<and> inv s' \<and> contents s' = xs \<and> cap s' = cap s"
    and put_full: "inv s \<Longrightarrow> length (contents s) = cap s \<Longrightarrow> put x s = None"
    and put_free: "inv s \<Longrightarrow> length (contents s) < cap s \<Longrightarrow>
      \<exists>s'. put x s = Some s' \<and> inv s' \<and> contents s' = contents s @ [x] \<and> cap s' = cap s"
    and bounded: "inv s \<Longrightarrow> length (contents s) \<le> cap s"
begin

lemma drain_spec:
  assumes "inv s"
  shows "\<exists>s'. drain get n s = (take n (contents s), s') \<and> inv s' \<and>
    contents s' = drop n (contents s) \<and> cap s' = cap s"
  using assms
proof (induction n arbitrary: s)
  case (Suc n)
  show ?case
  proof (cases "contents s")
    case Nil
    then show ?thesis using Suc.prems get_empty by simp
  next
    case (Cons x xs)
    from get_Cons [OF Suc.prems Cons] obtain s' where
      s': "get s = Some (x, s')" "inv s'" "contents s' = xs" "cap s' = cap s" by blast
    from Suc.IH [OF s'(2)] show ?thesis using s' Cons by auto
  qed
qed simp

lemma fill_spec:
  assumes "inv s"
  defines "n xs \<equiv> min (length xs) (cap s - length (contents s))"
  shows "\<exists>s'. fill put xs s = (n xs, s') \<and> inv s' \<and>
    contents s' = contents s @ take (n xs) xs \<and> cap s' = cap s"
  using assms(1) unfolding n_def
proof (induction xs arbitrary: s)
  case (Cons x xs)
  show ?case
  proof (cases "length (contents s) < cap s")
    case False
    then show ?thesis using Cons.prems bounded [of s] put_full [of s x] by simp
  next
    case True
    from put_free [OF Cons.prems True] obtain s' where
      s': "put x s = Some s'" "inv s'" "contents s' = contents s @ [x]" "cap s' = cap s" by blast
    from True obtain k where k: "cap s - length (contents s) = Suc k"
      by (metis Suc_diff_Suc)
    then have "cap s - Suc (length (contents s)) = k" by simp
    with Cons.IH [OF s'(2)] s' k show ?thesis by auto
  qed
qed simp

text \<open>What is written to a buffer with room for it comes out again, in order.\<close>

lemma fill_drain:
  assumes "inv s" "contents s = []" "length xs \<le> cap s"
  shows "\<exists>s' s''. fill put xs s = (length xs, s') \<and> drain get (length xs) s' = (xs, s'') \<and>
    inv s'' \<and> contents s'' = []"
proof -
  obtain s' where s': "fill put xs s = (length xs, s')" "inv s'" "contents s' = xs"
    using fill_spec [OF assms(1), of xs] assms by auto
  then show ?thesis using drain_spec [OF s'(2), of "length xs"] by auto
qed

end

end
