(* ===== verification/Ring_Buffer.thy ===== *)
theory Ring_Buffer
  imports Bounded_Fifo
begin

text \<open>
  The ring buffer of \<open>async_port/ring_buffer.hpp\<close>: free running 64-bit read and write indices,
  reduced by a mask when the buffer is accessed. The lemmas show that it implements the bounded
  first-in first-out buffer of \<open>Bounded_Fifo\<close>, with its full capacity usable and across the wrap
  around of the indices.
\<close>

section \<open>The buffer\<close>

record 'a ring =
  rb_buffer :: "'a list"
  rb_size :: u64
  rb_size_mask :: u64
  rb_write_index :: u64
  rb_read_index :: u64

text \<open>The constructor: \<open>junk\<close> is the uninitialised array, its length the template argument \<open>N\<close>.\<close>

definition RingBuffer :: "'a list \<Rightarrow> 'a ring" where
  "RingBuffer junk =
     \<lparr>rb_buffer = junk, rb_size = of_nat (length junk), rb_size_mask = of_nat (length junk) - 1,
      rb_write_index = 0, rb_read_index = 0\<rparr>"

definition Reset :: "'a ring \<Rightarrow> 'a ring" where
  "Reset r = r\<lparr>rb_write_index := 0, rb_read_index := 0\<rparr>"

definition GetOccupiedSize :: "'a ring \<Rightarrow> u64" where
  "GetOccupiedSize r = rb_write_index r - rb_read_index r"

definition GetFreeSize :: "'a ring \<Rightarrow> u64" where
  "GetFreeSize r = rb_size r - GetOccupiedSize r"

definition IsEmpty :: "'a ring \<Rightarrow> bool" where
  "IsEmpty r \<longleftrightarrow> rb_read_index r = rb_write_index r"

definition IsFull :: "'a ring \<Rightarrow> bool" where
  "IsFull r \<longleftrightarrow> rb_size r = GetOccupiedSize r"

definition ReadByte :: "'a ring \<Rightarrow> ('a \<times> 'a ring) option" where
  "ReadByte r = (if IsEmpty r then None
     else Some (rb_buffer r ! unat (rb_read_index r AND rb_size_mask r),
                r\<lparr>rb_read_index := rb_read_index r + 1\<rparr>))"

definition PeekByteAt :: "'a ring \<Rightarrow> u64 \<Rightarrow> 'a option" where
  "PeekByteAt r n = (if GetOccupiedSize r \<le> n then None
     else Some (rb_buffer r ! unat ((rb_read_index r + n) AND rb_size_mask r)))"

definition WriteByte :: "'a \<Rightarrow> 'a ring \<Rightarrow> 'a ring option" where
  "WriteByte x r = (if GetOccupiedSize r = rb_size r then None
     else Some (r\<lparr>rb_buffer := (rb_buffer r)[unat (rb_write_index r AND rb_size_mask r) := x],
                  rb_write_index := rb_write_index r + 1\<rparr>))"

definition Read :: "nat \<Rightarrow> 'a ring \<Rightarrow> 'a list \<times> 'a ring" where
  "Read = drain ReadByte"

definition Write :: "'a list \<Rightarrow> 'a ring \<Rightarrow> nat \<times> 'a ring" where
  "Write = fill WriteByte"

text \<open>\<open>for (i = 0; i < btp; ++i) if (PeekByteAt(&data[i], i) == 0) return i;\<close>\<close>

fun peek_loop :: "'a ring \<Rightarrow> u64 \<Rightarrow> nat \<Rightarrow> 'a list" where
  "peek_loop r i 0 = []"
| "peek_loop r i (Suc n) = (case PeekByteAt r i of None \<Rightarrow> [] | Some x \<Rightarrow> x # peek_loop r (i + 1) n)"

definition Peek :: "nat \<Rightarrow> 'a ring \<Rightarrow> 'a list" where
  "Peek n r = peek_loop r 0 n"

section \<open>Abstraction and invariant\<close>

definition occupied :: "'a ring \<Rightarrow> nat" where
  "occupied r = unat (GetOccupiedSize r)"

definition capacity :: "'a ring \<Rightarrow> nat" where
  "capacity r = length (rb_buffer r)"

text \<open>The stored elements, oldest first.\<close>

definition stored :: "'a ring \<Rightarrow> 'a list" where
  "stored r = map (\<lambda>i. rb_buffer r ! ((unat (rb_read_index r) + i) mod capacity r)) [0..<occupied r]"

text \<open>The size is a power of two, what the constructor asserts, and at most that many elements are
  stored.\<close>

definition ring_inv :: "'a ring \<Rightarrow> bool" where
  "ring_inv r \<longleftrightarrow> (\<exists>k < 64. capacity r = 2 ^ k \<and> rb_size r = 2 ^ k \<and> rb_size_mask r = mask k)
     \<and> occupied r \<le> capacity r"

lemma length_stored [simp]: "length (stored r) = occupied r"
  by (simp add: stored_def)

lemma unat_pow2_64:
  assumes "k < 64"
  shows "unat (2 ^ k :: u64) = 2 ^ k"
proof -
  have "(2 :: nat) ^ k < 2 ^ 64" using assms by (intro power_strict_increasing) simp_all
  then have "unat (of_nat (2 ^ k) :: u64) = 2 ^ k" by (simp only: unat_of_nat) (simp add: take_bit_nat_eq_self)
  then show ?thesis by simp
qed

lemma index_mod:
  assumes "k < 64"
  shows "unat ((x :: u64) AND mask k) = unat x mod 2 ^ k"
  by (simp only: take_bit_eq_mask [symmetric] unsigned_take_bit_eq) (simp only: take_bit_eq_mod)

lemma index_add_mod:
  assumes "k < 64"
  shows "unat (((x :: u64) + n) AND mask k) = (unat x + unat n) mod 2 ^ k"
proof -
  have "(2 :: nat) ^ k dvd 2 ^ 64" using assms by (intro le_imp_power_dvd) simp
  then show ?thesis
    by (simp add: index_mod [OF assms] unat_word_ariths mod_mod_cancel)
qed

lemma RingBuffer_inv:
  "length junk = 2 ^ k \<Longrightarrow> k < 64 \<Longrightarrow> ring_inv (RingBuffer junk) \<and> stored (RingBuffer junk) = []"
  by (auto simp: ring_inv_def RingBuffer_def capacity_def occupied_def GetOccupiedSize_def
      stored_def mask_eq_exp_minus_1)

lemma ring_invE:
  assumes "ring_inv r"
  obtains k where "k < 64" "capacity r = 2 ^ k" "length (rb_buffer r) = 2 ^ k" "rb_size r = 2 ^ k"
    "rb_size_mask r = mask k" "occupied r \<le> 2 ^ k" "unat (rb_size r) = 2 ^ k"
  using assms by (auto simp: ring_inv_def unat_pow2_64 capacity_def)

lemma occupied_next_read:
  assumes "occupied r > 0"
  shows "occupied (r\<lparr>rb_read_index := rb_read_index r + 1\<rparr>) = occupied r - 1"
proof -
  have "rb_write_index r - rb_read_index r \<noteq> 0"
    using assms by (auto simp: occupied_def GetOccupiedSize_def)
  then have "unat (rb_write_index r - rb_read_index r - 1) = unat (rb_write_index r - rb_read_index r) - 1"
    by (rule unat_minus_one)
  then show ?thesis by (simp add: occupied_def GetOccupiedSize_def diff_diff_eq)
qed

lemma occupied_next_write:
  assumes "occupied r < 2 ^ 63 + 2 ^ 63 - 1"
  shows "occupied (r\<lparr>rb_buffer := b, rb_write_index := rb_write_index r + 1\<rparr>) = Suc (occupied r)"
proof -
  let ?d = "rb_write_index r - rb_read_index r"
  have "unat (?d + 1) = Suc (unat ?d)"
    using assms by (simp add: occupied_def GetOccupiedSize_def unat_word_ariths)
  then show ?thesis by (simp add: occupied_def GetOccupiedSize_def algebra_simps)
qed

lemma nth_stored [simp]:
  "i < occupied r \<Longrightarrow> stored r ! i = rb_buffer r ! ((unat (rb_read_index r) + i) mod capacity r)"
  by (simp add: stored_def)

lemma unat_Suc_mod:
  assumes "k < 64"
  shows "(unat ((x :: u64) + 1) + i) mod 2 ^ k = (unat x + Suc i) mod 2 ^ k"
proof -
  have "unat (x + 1) mod 2 ^ k = (unat x + 1) mod 2 ^ k"
    using index_add_mod [OF assms, of x 1] by (simp add: index_mod [OF assms])
  then show ?thesis by (metis add.assoc add_Suc_right mod_add_left_eq plus_1_eq_Suc add.commute)
qed

lemma write_index_mod:
  assumes "k < 64"
  shows "unat (rb_write_index r AND mask k) = (unat (rb_read_index r) + occupied r) mod 2 ^ k"
  using index_add_mod [OF assms, of "rb_read_index r" "GetOccupiedSize r"]
  by (simp add: occupied_def GetOccupiedSize_def)

lemma mod_slot_neq:
  fixes a :: nat
  assumes "i < j" "j < n"
  shows "(a + i) mod n \<noteq> (a + j) mod n"
proof
  assume "(a + i) mod n = (a + j) mod n"
  then have "n dvd j - i" using assms by (metis add_diff_cancel_left mod_eq_dvd_iff_nat
      nat_add_left_cancel_le less_imp_le)
  then show False using assms by (meson dvd_imp_le less_imp_diff_less not_le zero_less_diff)
qed

section \<open>The operations implement the contract\<close>

lemma ReadByte_None: "ReadByte r = None \<longleftrightarrow> occupied r = 0"
  by (auto simp: ReadByte_def IsEmpty_def occupied_def GetOccupiedSize_def unat_gt_0)

lemma ReadByte_Cons:
  assumes inv: "ring_inv r" and st: "stored r = x # xs"
  shows "\<exists>r'. ReadByte r = Some (x, r') \<and> ring_inv r' \<and> stored r' = xs \<and> capacity r' = capacity r"
proof -
  from inv obtain k where k: "k < 64" "capacity r = 2 ^ k" "length (rb_buffer r) = 2 ^ k"
    "rb_size r = 2 ^ k" "rb_size_mask r = mask k" "occupied r \<le> 2 ^ k" by (rule ring_invE)
  let ?r' = "r\<lparr>rb_read_index := rb_read_index r + 1\<rparr>"
  from st have occ: "occupied r = Suc (length xs)" by (metis length_stored length_Cons)
  then have occ': "occupied ?r' = length xs" using occupied_next_read [of r] by simp
  have cap': "capacity ?r' = 2 ^ k" using k by (simp add: capacity_def)
  have "x = stored r ! 0" using st by simp
  also have "\<dots> = rb_buffer r ! unat (rb_read_index r AND rb_size_mask r)"
    using occ k index_mod by simp
  finally have "ReadByte r = Some (x, ?r')"
    using occ ReadByte_None [of r] by (simp add: ReadByte_def split: if_splits)
  moreover have "ring_inv ?r'"
    using k occ occ' cap' by (auto simp: ring_inv_def capacity_def)
  moreover have "stored ?r' = xs"
  proof (rule nth_equalityI)
    fix i assume "i < length (stored ?r')"
    then have i: "i < length xs" using occ' by simp
    then have "stored ?r' ! i = rb_buffer r ! ((unat (rb_read_index r) + Suc i) mod 2 ^ k)"
      using occ' cap' k unat_Suc_mod by simp
    also have "\<dots> = stored r ! Suc i" using i occ k by simp
    finally show "stored ?r' ! i = xs ! i" using st by simp
  qed (simp add: occ')
  ultimately show ?thesis using cap' k by auto
qed

lemma WriteByte_None:
  assumes "ring_inv r"
  shows "WriteByte x r = None \<longleftrightarrow> occupied r = capacity r"
  using assms
proof (rule ring_invE)
  fix k assume "capacity r = 2 ^ k" "unat (rb_size r) = 2 ^ k"
  then have "GetOccupiedSize r = rb_size r \<longleftrightarrow> occupied r = capacity r"
    by (metis occupied_def word_unat_eq_iff)
  then show ?thesis by (simp add: WriteByte_def)
qed

lemma WriteByte_Some:
  assumes inv: "ring_inv r" and free: "occupied r < capacity r"
  shows "\<exists>r'. WriteByte x r = Some r' \<and> ring_inv r' \<and> stored r' = stored r @ [x] \<and>
    capacity r' = capacity r"
proof -
  from inv obtain k where k: "k < 64" "capacity r = 2 ^ k" "length (rb_buffer r) = 2 ^ k"
    "rb_size r = 2 ^ k" "rb_size_mask r = mask k" "occupied r \<le> 2 ^ k" by (rule ring_invE)
  let ?slot = "unat (rb_write_index r AND rb_size_mask r)"
  let ?r' = "r\<lparr>rb_buffer := (rb_buffer r)[?slot := x], rb_write_index := rb_write_index r + 1\<rparr>"
  have slot: "?slot = (unat (rb_read_index r) + occupied r) mod 2 ^ k"
    using k write_index_mod by simp
  have "(2 :: nat) ^ k \<le> 2 ^ 63" using k by (intro power_increasing) simp_all
  then have "occupied r < 2 ^ 63 + 2 ^ 63 - 1" using k free by simp
  then have occ': "occupied ?r' = Suc (occupied r)" by (rule occupied_next_write)
  have cap': "capacity ?r' = 2 ^ k" using k by (simp add: capacity_def)
  have "WriteByte x r = Some ?r'"
    using WriteByte_None [OF inv, of x] free by (auto simp: WriteByte_def split: if_splits)
  moreover have "ring_inv ?r'"
    using k free occ' cap' by (auto simp: ring_inv_def capacity_def)
  moreover have "stored ?r' = stored r @ [x]"
  proof (rule nth_equalityI)
    fix i assume "i < length (stored ?r')"
    then have i: "i < Suc (occupied r)" using occ' by simp
    have "stored ?r' ! i = (rb_buffer r)[?slot := x] ! ((unat (rb_read_index r) + i) mod 2 ^ k)"
      using i occ' cap' by simp
    also have "\<dots> = (stored r @ [x]) ! i"
    proof (cases "i = occupied r")
      case True
      then show ?thesis using k slot by (simp add: nth_append)
    next
      case False
      then have "i < occupied r" using i by simp
      then show ?thesis using k free slot mod_slot_neq [of i "occupied r" "2 ^ k", symmetric]
        by (simp add: nth_append)
    qed
    finally show "stored ?r' ! i = (stored r @ [x]) ! i" .
  qed (simp add: occ')
  ultimately show ?thesis using cap' k by auto
qed

interpretation rb: bounded_fifo ring_inv stored capacity ReadByte WriteByte
proof unfold_locales
  show "ReadByte r = None" if "ring_inv r" "stored r = []" for r :: "'a ring"
    using that ReadByte_None [of r] length_stored [of r] by simp
  show "\<exists>r'. ReadByte r = Some (x, r') \<and> ring_inv r' \<and> stored r' = xs \<and> capacity r' = capacity r"
    if "ring_inv r" "stored r = x # xs" for r :: "'a ring" and x xs
    using that by (rule ReadByte_Cons)
  show "WriteByte x r = None" if "ring_inv r" "length (stored r) = capacity r" for r :: "'a ring" and x
    using WriteByte_None [OF that(1)] that by simp
  show "\<exists>r'. WriteByte x r = Some r' \<and> ring_inv r' \<and> stored r' = stored r @ [x] \<and>
      capacity r' = capacity r"
    if "ring_inv r" "length (stored r) < capacity r" for r :: "'a ring" and x
    using WriteByte_Some [OF that(1)] that by simp
qed (auto simp: ring_inv_def)

lemma Peek_stored:
  assumes "ring_inv r"
  shows "Peek n r = take n (stored r)"
proof -
  from assms obtain k where k: "k < 64" "capacity r = 2 ^ k" "rb_size_mask r = mask k"
    "occupied r \<le> 2 ^ k" by (rule ring_invE)
  have "(2 :: nat) ^ k \<le> 2 ^ 63" using k by (intro power_increasing) simp_all
  then have small: "occupied r < 2 ^ 64 - 1" using k by simp
  have "j \<le> occupied r \<Longrightarrow> peek_loop r (of_nat j) n = take n (drop j (stored r))" for j
  proof (induction n arbitrary: j)
    case (Suc n)
    then have j: "unat (of_nat j :: u64) = j" using small by (simp add: unat_of_nat)
    show ?case
    proof (cases "j < occupied r")
      case True
      then have "PeekByteAt r (of_nat j) = Some (stored r ! j)"
        using k j index_add_mod [OF k(1), of "rb_read_index r" "of_nat j"]
        by (simp add: PeekByteAt_def word_le_nat_alt occupied_def [symmetric])
      moreover have "peek_loop r (of_nat j + 1) n = take n (drop (Suc j) (stored r))"
        using Suc.IH [of "Suc j"] True by (simp add: add.commute)
      moreover have "drop j (stored r) = stored r ! j # drop (Suc j) (stored r)"
        using True Cons_nth_drop_Suc [of j "stored r"] by simp
      ultimately show ?thesis by (simp del: nth_stored)
    next
      case False
      then show ?thesis using Suc.prems j
        by (simp add: PeekByteAt_def word_le_nat_alt occupied_def [symmetric])
    qed
  qed simp
  from this [of 0] show ?thesis by (simp add: Peek_def)
qed

end
