(* ===== verification/Async_Serial.thy ===== *)
theory Async_Serial
  imports Ring_Buffer
begin

text \<open>
  The transmit side of \<open>AsyncSerial\<close> (\<open>src/ugv_sdk/src/async_port/async_serial.cpp\<close>): client threads
  queue bytes with \<open>SendBytes\<close>, the io thread runs \<open>WriteToPort\<close> and the completion handlers. The
  handlers are functions on the state, their interleaving is a step relation; asio is the
  environment, which decides when a posted task runs and how a write completes. The lemmas show the
  at most one write discipline that protects \<open>tx_buf_\<close>, that no queued byte is forgotten, and the
  order of the bytes on the wire.
\<close>

section \<open>State\<close>

text \<open>
  \<open>tx_buf\<close> is the array handed to \<open>async_write_some\<close>; \<open>in_flight\<close> holds the length of each
  outstanding write over it; \<open>posted\<close> counts the queued \<open>WriteToPort(true)\<close> tasks. \<open>wire\<close> and
  \<open>accepted\<close> record what the port has taken and what \<open>SendBytes\<close> has accepted.
\<close>

record serial =
  tx_rbuf :: "u8 ring"
  tx_buf :: "u8 list"
  tx_in_progress :: bool
  is_open :: bool
  posted :: nat
  in_flight :: "nat list"
  wire :: "u8 list"
  accepted :: "u8 list"

definition rxtx_buffer_size :: nat where
  "rxtx_buffer_size = 1024 * 8"

text \<open>A freshly opened port, over the uninitialised arrays.\<close>

definition opened :: "u8 list \<Rightarrow> u8 list \<Rightarrow> serial" where
  "opened junk buf = \<lparr>tx_rbuf = RingBuffer junk, tx_buf = buf, tx_in_progress = False, is_open = True,
     posted = 0, in_flight = [], wire = [], accepted = []\<rparr>"

section \<open>Handlers\<close>

definition WriteToPort :: "bool \<Rightarrow> serial \<Rightarrow> serial" where
  "WriteToPort check_if_busy s =
     (if check_if_busy \<and> tx_in_progress s then s
      else if IsEmpty (tx_rbuf s) then s
      else (case Read (unat (GetOccupiedSize (tx_rbuf s))) (tx_rbuf s) of (data, r) \<Rightarrow>
        s\<lparr>tx_in_progress := True, tx_rbuf := r,
          tx_buf := data @ drop (length data) (tx_buf s),
          in_flight := in_flight s @ [length data]\<rparr>))"

datatype send_result = PortClosed | AssertFailed | LengthError | Accepted

definition SendBytes :: "u8 list \<Rightarrow> serial \<Rightarrow> send_result \<times> serial" where
  "SendBytes bytes s =
     (if \<not> is_open s then (PortClosed, s)
      else if \<not> length bytes < rxtx_buffer_size then (AssertFailed, s)
      else if unat (GetFreeSize (tx_rbuf s)) < length bytes then (LengthError, s)
      else (case Write bytes (tx_rbuf s) of (n, r) \<Rightarrow>
        (Accepted, s\<lparr>tx_rbuf := r, posted := Suc (posted s), accepted := accepted s @ bytes\<rparr>)))"

text \<open>The completion handler of a write without error: \<open>n\<close> bytes were transferred, a number the
  handler does not look at.\<close>

definition write_done :: "nat \<Rightarrow> serial \<Rightarrow> serial" where
  "write_done n s =
     (let s = s\<lparr>in_flight := tl (in_flight s), wire := wire s @ take n (tx_buf s)\<rparr> in
      if IsEmpty (tx_rbuf s) then s\<lparr>tx_in_progress := False\<rparr> else WriteToPort False s)"

text \<open>\<open>Close\<close>: it joins the io thread, and \<open>std::thread::join\<close> called by the thread it joins throws
  \<open>std::system_error\<close>, the value \<open>None\<close>. Nothing catches it on the io thread, whose function it
  leaves: the process terminates.\<close>

datatype caller = Io_Thread | Client_Thread

definition Close :: "caller \<Rightarrow> serial \<Rightarrow> serial option" where
  "Close who s = (if who = Io_Thread then None else Some (s\<lparr>is_open := False\<rparr>))"

text \<open>The completion handler of a write with an error.\<close>

definition write_failed :: "serial \<Rightarrow> serial option" where
  "write_failed s = Close Io_Thread s"

section \<open>Interleaving\<close>

datatype event = Send "u8 list" | Run_Posted | Write_Done nat

inductive serial_step :: "event \<Rightarrow> serial \<Rightarrow> serial \<Rightarrow> bool" where
  send: "SendBytes bytes s = (res, s') \<Longrightarrow> serial_step (Send bytes) s s'"
| run_posted: "posted s = Suc k \<Longrightarrow> is_open s \<Longrightarrow>
    serial_step Run_Posted s (WriteToPort True (s\<lparr>posted := k\<rparr>))"
| write_done: "in_flight s = l # ls \<Longrightarrow> is_open s \<Longrightarrow> 0 < n \<Longrightarrow> n \<le> l \<Longrightarrow>
    serial_step (Write_Done n) s (write_done n s)"

inductive_cases serial_stepE: "serial_step e s s'"

inductive serial_run :: "event list \<Rightarrow> serial \<Rightarrow> serial \<Rightarrow> bool" where
  run_Nil: "serial_run [] s s"
| run_Cons: "serial_step e s s' \<Longrightarrow> serial_run es s' s'' \<Longrightarrow> serial_run (e # es) s s''"

inductive_simps serial_run_Nil [simp]: "serial_run [] s s'"
inductive_simps serial_run_Cons: "serial_run (e # es) s s'"

section \<open>Invariant\<close>

definition serial_inv :: "serial \<Rightarrow> bool" where
  "serial_inv s \<longleftrightarrow> ring_inv (tx_rbuf s) \<and> capacity (tx_rbuf s) = rxtx_buffer_size \<and>
     length (tx_buf s) = rxtx_buffer_size \<and>
     (if tx_in_progress s then \<exists>l. in_flight s = [l] \<and> 0 < l \<and> l \<le> rxtx_buffer_size
      else in_flight s = []) \<and>
     (stored (tx_rbuf s) \<noteq> [] \<longrightarrow> tx_in_progress s \<or> 0 < posted s)"

text \<open>The bytes handed to the outstanding write.\<close>

definition on_the_way :: "serial \<Rightarrow> u8 list" where
  "on_the_way s = concat (map (\<lambda>l. take l (tx_buf s)) (in_flight s))"

text \<open>Every accepted byte is on the wire, in the outstanding write, or in the ring, in that order.\<close>

definition in_order :: "serial \<Rightarrow> bool" where
  "in_order s \<longleftrightarrow> accepted s = wire s @ on_the_way s @ stored (tx_rbuf s)"

lemma stored_Nil_iff: "stored r = [] \<longleftrightarrow> IsEmpty r"
  by (metis ReadByte_None ReadByte_def length_0_conv length_stored option.distinct(1))

lemma opened_inv:
  assumes "length junk = rxtx_buffer_size" "length buf = rxtx_buffer_size"
  shows "serial_inv (opened junk buf)" and "in_order (opened junk buf)"
proof -
  have "length junk = 2 ^ 13" using assms by (simp add: rxtx_buffer_size_def)
  then have r: "ring_inv (RingBuffer junk)" "stored (RingBuffer junk) = []"
    using RingBuffer_inv [of junk 13] by auto
  show "serial_inv (opened junk buf)"
    using assms r by (simp add: serial_inv_def opened_def) (simp add: RingBuffer_def capacity_def)
  show "in_order (opened junk buf)"
    using r by (simp add: in_order_def opened_def on_the_way_def)
qed

lemma WriteToPort_idle:
  assumes "ring_inv (tx_rbuf s)" "capacity (tx_rbuf s) = rxtx_buffer_size"
    "length (tx_buf s) = rxtx_buffer_size" "in_flight s = []" "stored (tx_rbuf s) \<noteq> []"
    "\<not> (b \<and> tx_in_progress s)"
  shows "serial_inv (WriteToPort b s) \<and> tx_in_progress (WriteToPort b s) \<and>
    on_the_way (WriteToPort b s) = stored (tx_rbuf s) \<and> stored (tx_rbuf (WriteToPort b s)) = [] \<and>
    wire (WriteToPort b s) = wire s \<and> accepted (WriteToPort b s) = accepted s"
proof -
  let ?n = "length (stored (tx_rbuf s))"
  have n: "unat (GetOccupiedSize (tx_rbuf s)) = ?n" by (simp add: occupied_def)
  obtain r where r: "Read ?n (tx_rbuf s) = (stored (tx_rbuf s), r)" "ring_inv r" "stored r = []"
    "capacity r = rxtx_buffer_size"
    using rb.drain_spec [OF assms(1), of ?n] assms(2) by (auto simp: Read_def)
  have le: "?n \<le> rxtx_buffer_size" using rb.bounded [OF assms(1)] assms(2) by simp
  have "WriteToPort b s = s\<lparr>tx_in_progress := True, tx_rbuf := r,
     tx_buf := stored (tx_rbuf s) @ drop ?n (tx_buf s), in_flight := [?n]\<rparr>"
    using assms r(1) by (auto simp: WriteToPort_def stored_Nil_iff n simp del: length_stored)
  then show ?thesis
    using assms r le by (simp add: serial_inv_def on_the_way_def del: length_stored)
qed

lemma serial_invD:
  assumes "serial_inv s"
  shows "ring_inv (tx_rbuf s)" "capacity (tx_rbuf s) = rxtx_buffer_size"
    "length (tx_buf s) = rxtx_buffer_size"
    "stored (tx_rbuf s) \<noteq> [] \<Longrightarrow> tx_in_progress s \<or> 0 < posted s"
    "\<not> tx_in_progress s \<Longrightarrow> in_flight s = []"
    "tx_in_progress s \<Longrightarrow> \<exists>l. in_flight s = [l] \<and> 0 < l \<and> l \<le> rxtx_buffer_size"
  using assms by (auto simp: serial_inv_def)

lemma SendBytes_inv:
  assumes "serial_inv s" "SendBytes bytes s = (res, s')"
  shows "serial_inv s' \<and> (in_order s \<longrightarrow> in_order s')"
proof -
  note ring = serial_invD [OF assms(1)]
  let ?r = "tx_rbuf s"
  have free: "unat (GetFreeSize ?r) = capacity ?r - length (stored ?r)"
  proof -
    from ring(1) obtain k where "capacity ?r = 2 ^ k" "unat (rb_size ?r) = 2 ^ k" "occupied ?r \<le> 2 ^ k"
      by (rule ring_invE)
    then show ?thesis
      by (simp add: GetFreeSize_def unat_sub_if_size occupied_def [symmetric] word_le_nat_alt
          unat_sub)
  qed
  show ?thesis
  proof (cases "res = Accepted")
    case False
    then show ?thesis using assms by (auto simp: SendBytes_def split: if_splits prod.splits)
  next
    case True
    then have "length bytes \<le> capacity ?r - length (stored ?r)"
      using assms free by (auto simp: SendBytes_def split: if_splits)
    then obtain r' where r': "Write bytes ?r = (length bytes, r')" "ring_inv r'"
      "stored r' = stored ?r @ bytes" "capacity r' = capacity ?r"
      using rb.fill_spec [OF ring(1), of bytes] by (auto simp: Write_def)
    then have "s' = s\<lparr>tx_rbuf := r', posted := Suc (posted s), accepted := accepted s @ bytes\<rparr>"
      using assms True by (auto simp: SendBytes_def split: if_splits)
    then show ?thesis
      using assms(1) r' ring(2) by (auto simp: serial_inv_def in_order_def on_the_way_def)
  qed
qed

lemma Run_Posted_inv:
  assumes "serial_inv s" "posted s = Suc k"
  shows "serial_inv (WriteToPort True (s\<lparr>posted := k\<rparr>)) \<and>
    (in_order s \<longrightarrow> in_order (WriteToPort True (s\<lparr>posted := k\<rparr>)))"
proof (cases "tx_in_progress s \<or> stored (tx_rbuf s) = []")
  case True
  then have "WriteToPort True (s\<lparr>posted := k\<rparr>) = s\<lparr>posted := k\<rparr>"
    by (auto simp: WriteToPort_def stored_Nil_iff)
  then show ?thesis
    using True assms(1) by (auto simp: serial_inv_def in_order_def on_the_way_def)
next
  case False
  note inv = serial_invD [OF assms(1)]
  from False inv(5) have "in_flight s = []" by simp
  then show ?thesis
    using WriteToPort_idle [of "s\<lparr>posted := k\<rparr>" True] inv(1-3) False
    by (auto simp: in_order_def on_the_way_def)
qed

lemma write_done_inv:
  assumes "serial_inv s" "in_flight s = l # ls"
  shows "serial_inv (write_done n s) \<and> (in_order s \<and> n = l \<longrightarrow> in_order (write_done n s))"
proof -
  note inv = serial_invD [OF assms(1)]
  from inv(5,6) assms(2) have ls: "ls = []" "l \<le> rxtx_buffer_size" by auto
  let ?s = "s\<lparr>in_flight := [], wire := wire s @ take n (tx_buf s)\<rparr>"
  show ?thesis
  proof (cases "IsEmpty (tx_rbuf s)")
    case True
    then have "write_done n s = ?s\<lparr>tx_in_progress := False\<rparr>"
      using assms(2) ls by (simp add: write_done_def Let_def)
    then show ?thesis
      using True assms inv ls by (auto simp: serial_inv_def in_order_def on_the_way_def stored_Nil_iff)
  next
    case False
    then have "write_done n s = WriteToPort False ?s"
      using assms(2) ls by (simp add: write_done_def Let_def)
    then show ?thesis
      using WriteToPort_idle [of ?s False] False assms(2) inv ls
      by (auto simp: in_order_def on_the_way_def stored_Nil_iff)
  qed
qed

lemma serial_step_inv:
  assumes "serial_step e s s'" "serial_inv s"
  shows "serial_inv s'"
  using assms by (auto elim!: serial_stepE dest: SendBytes_inv Run_Posted_inv write_done_inv)

text \<open>A run whose writes all complete in full.\<close>

fun full_step :: "event \<Rightarrow> serial \<Rightarrow> bool" where
  "full_step (Write_Done n) s \<longleftrightarrow> n = hd (in_flight s)"
| "full_step _ s \<longleftrightarrow> True"

inductive full_run :: "event list \<Rightarrow> serial \<Rightarrow> serial \<Rightarrow> bool" where
  full_Nil: "full_run [] s s"
| full_Cons: "serial_step e s s' \<Longrightarrow> full_step e s \<Longrightarrow> full_run es s' s'' \<Longrightarrow> full_run (e # es) s s''"

inductive_simps full_run_Nil [simp]: "full_run [] s s'"
inductive_simps full_run_Cons: "full_run (e # es) s s'"

lemma serial_run_inv: "serial_run es s s' \<Longrightarrow> serial_inv s \<Longrightarrow> serial_inv s'"
  by (induction rule: serial_run.induct) (auto dest: serial_step_inv)

lemma full_step_in_order:
  assumes "serial_step e s s'" "full_step e s" "serial_inv s" "in_order s"
  shows "in_order s'"
  using assms by (auto elim!: serial_stepE dest: SendBytes_inv Run_Posted_inv write_done_inv)

lemma full_run_in_order: "full_run es s s' \<Longrightarrow> serial_inv s \<Longrightarrow> in_order s \<Longrightarrow> serial_inv s' \<and> in_order s'"
  by (induction rule: full_run.induct) (auto dest: serial_step_inv full_step_in_order)

section \<open>Progress\<close>

text \<open>A port with nothing queued, nothing outstanding and no task posted.\<close>

definition idle :: "serial \<Rightarrow> bool" where
  "idle s \<longleftrightarrow> \<not> tx_in_progress s \<and> in_flight s = [] \<and> posted s = 0 \<and> stored (tx_rbuf s) = []"

lemma send_and_start:
  assumes inv: "serial_inv s" and ord: "in_order s" and "is_open s" "idle s"
    and bs: "bs \<noteq> []" "length bs < rxtx_buffer_size"
  obtains s' where "full_run [Send bs, Run_Posted] s s'" "serial_inv s'" "in_order s'" "is_open s'"
    "in_flight s' = [length bs]" "on_the_way s' = bs" "stored (tx_rbuf s') = []" "posted s' = 0"
    "tx_in_progress s'" "wire s' = wire s" "accepted s' = accepted s @ bs"
proof -
  note ring = serial_invD(1-3) [OF inv]
  have idle: "\<not> tx_in_progress s" "in_flight s = []" "posted s = 0" "stored (tx_rbuf s) = []"
    using assms(4) by (auto simp: idle_def)
  have "GetOccupiedSize (tx_rbuf s) = 0"
    using idle(4) length_stored [of "tx_rbuf s"] by (simp add: occupied_def unat_0_iff)
  then have free: "unat (GetFreeSize (tx_rbuf s)) = rxtx_buffer_size"
    using ring(1,2) by (auto elim!: ring_invE simp: GetFreeSize_def)
  obtain r where r: "Write bs (tx_rbuf s) = (length bs, r)" "ring_inv r" "stored r = bs"
    "capacity r = rxtx_buffer_size"
    using rb.fill_spec [OF ring(1), of bs] ring(2) idle(4) bs by (auto simp: Write_def)
  let ?s = "s\<lparr>tx_rbuf := r, posted := 1, accepted := accepted s @ bs\<rparr>"
  let ?t = "WriteToPort True (?s\<lparr>posted := 0\<rparr>)"
  have send: "SendBytes bs s = (Accepted, ?s)"
    using assms(3) bs free r(1) idle(3) by (simp add: SendBytes_def)
  have t: "serial_inv ?t" "tx_in_progress ?t" "on_the_way ?t = bs" "stored (tx_rbuf ?t) = []"
    "wire ?t = wire s" "accepted ?t = accepted s @ bs"
    using WriteToPort_idle [of "?s\<lparr>posted := 0\<rparr>" True] r ring idle bs by auto
  have rest: "is_open ?t" "posted ?t = 0"
    using assms(3) by (auto simp: WriteToPort_def split: prod.splits)
  obtain l where l: "in_flight ?t = [l]" "l \<le> rxtx_buffer_size"
    using serial_invD(6) [OF t(1)] t(2) by blast
  have "take l (tx_buf ?t) = bs" using t(3) l(1) by (simp add: on_the_way_def)
  then have "length (take l (tx_buf ?t)) = length bs" by simp
  then have "l = length bs" using serial_invD(3) [OF t(1)] l(2) by simp
  moreover have "full_run [Send bs, Run_Posted] s ?t"
  proof -
    have "serial_step (Send bs) s ?s" using send by (rule serial_step.send)
    moreover have "serial_step Run_Posted ?s ?t"
      using serial_step.run_posted [of ?s 0] assms(3) by simp
    ultimately show ?thesis by (auto simp: full_run_Cons)
  qed
  moreover have "in_order ?t"
    using t ord idle by (simp add: in_order_def on_the_way_def)
  ultimately show ?thesis using that t rest l by blast
qed

text \<open>When the write completes in full, the bytes are on the wire and the port is idle again.\<close>

lemma send_complete:
  assumes "serial_inv s" "in_order s" "is_open s" "idle s" "bs \<noteq> []" "length bs < rxtx_buffer_size"
  obtains s' where "full_run [Send bs, Run_Posted, Write_Done (length bs)] s s'" "idle s'" "is_open s'"
    "wire s' = wire s @ bs" "accepted s' = accepted s @ bs" "serial_inv s'" "in_order s'"
proof -
  obtain t where t: "full_run [Send bs, Run_Posted] s t" "serial_inv t" "in_order t" "is_open t"
    "in_flight t = [length bs]" "on_the_way t = bs" "stored (tx_rbuf t) = []" "posted t = 0"
    "tx_in_progress t" "wire t = wire s" "accepted t = accepted s @ bs"
    using send_and_start [OF assms] .
  let ?u = "write_done (length bs) t"
  have u: "?u = t\<lparr>in_flight := [], wire := wire t @ bs, tx_in_progress := False\<rparr>"
    using t(5-7) by (simp add: write_done_def Let_def on_the_way_def stored_Nil_iff)
  have step: "serial_step (Write_Done (length bs)) t ?u" "full_step (Write_Done (length bs)) t"
    using serial_step.write_done [OF t(5,4), of "length bs"] t(5) assms(5) by auto
  have "full_run [Send bs, Run_Posted, Write_Done (length bs)] s ?u"
    using t(1) step by (auto simp: full_run_Cons)
  then show ?thesis
    using that [of ?u] t u write_done_inv [OF t(2,5), of "length bs"] by (simp add: idle_def)
qed

text \<open>A write that takes only some of the bytes loses the others: nothing holds them any more.\<close>

lemma partial_write_loses:
  assumes "serial_inv s" "in_order s" "in_flight s = [l]" "stored (tx_rbuf s) = []" "n < l"
  defines "s' \<equiv> write_done n s"
  shows "on_the_way s' = [] \<and> stored (tx_rbuf s') = [] \<and>
    accepted s' = wire s' @ drop n (on_the_way s) \<and> drop n (on_the_way s) \<noteq> []"
proof -
  have l: "l \<le> length (tx_buf s)"
    using serial_invD(3,5,6) [OF assms(1)] assms(3) by auto
  have s': "s' = s\<lparr>in_flight := [], wire := wire s @ take n (tx_buf s), tx_in_progress := False\<rparr>"
    using assms(3,4) by (simp add: s'_def write_done_def Let_def stored_Nil_iff)
  have "take n (tx_buf s) @ drop n (take l (tx_buf s)) = take l (tx_buf s)"
    using assms(5) by (metis append_take_drop_id less_imp_le_nat min_absorb1 take_take)
  then show ?thesis
    using assms(2-5) l by (simp add: s' in_order_def on_the_way_def)
qed

text \<open>While bytes are queued or outstanding, the io thread has something to do.\<close>

lemma io_has_work:
  assumes "serial_inv s" "is_open s" "stored (tx_rbuf s) \<noteq> [] \<or> in_flight s \<noteq> []"
  shows "\<exists>e s'. e \<in> {Run_Posted} \<union> range Write_Done \<and> serial_step e s s'"
proof (cases "tx_in_progress s")
  case True
  then obtain l where "in_flight s = [l]" "0 < l" using serial_invD(6) [OF assms(1)] by blast
  then have "serial_step (Write_Done l) s (write_done l s)"
    using assms(2) by (intro serial_step.write_done) auto
  then show ?thesis by blast
next
  case False
  then obtain k where "posted s = Suc k"
    using assms serial_invD(4,5) [OF assms(1)] by (metis gr0_implies_Suc)
  then show ?thesis using assms(2) serial_step.run_posted by blast
qed

end
