(* ===== verification/Memory.thy ===== *)
theory Memory
  imports Prelude
begin

text \<open>
  Byte buffers as the Livox sources use them: reads and writes through pointers into a buffer of
  known size, out of range ones being undefined behaviour, and the little endian integers that
  a packed structure laid over such a buffer reads and writes.
\<close>

section \<open>Bounded access\<close>

definition mem_read :: "nat \<Rightarrow> nat \<Rightarrow> u8 list \<Rightarrow> ub + u8 list" where
  "mem_read off n buf = (if off + n \<le> length buf then Inr (take n (drop off buf)) else Inl OutOfRange)"

definition mem_write :: "nat \<Rightarrow> u8 list \<Rightarrow> u8 list \<Rightarrow> ub + u8 list" where
  "mem_write off bs buf = (if off + length bs \<le> length buf
     then Inr (take off buf @ bs @ drop (off + length bs) buf) else Inl OutOfRange)"

lemma mem_write_length: "mem_write off bs buf = Inr buf' \<Longrightarrow> length buf' = length buf"
  by (auto simp: mem_write_def split: if_splits)

lemma mem_read_append [simp]:
  "mem_read (length xs) n (xs @ ys) = (if n \<le> length ys then Inr (take n ys) else Inl OutOfRange)"
  by (simp add: mem_read_def)

lemma mem_read_offset:
  "mem_read (length xs + off) n (xs @ ys) = mem_read off n ys"
  by (simp add: mem_read_def)

lemma mem_read_prefix: "off + n \<le> length xs \<Longrightarrow> mem_read off n (xs @ ys) = mem_read off n xs"
  by (simp add: mem_read_def)

lemma mem_read_take:
  assumes "take k m = take k m'" "off + n \<le> k" "k \<le> length m" "k \<le> length m'"
  shows "mem_read off n m = mem_read off n m'"
proof -
  have "take n (drop off m) = take n (drop off (take k m))"
    using assms(2) by (simp add: drop_take)
  also have "\<dots> = take n (drop off m')" using assms(1,2) by (simp add: drop_take)
  finally show ?thesis using assms by (simp add: mem_read_def)
qed

lemma mem_read_error: "mem_read off n buf = Inl e \<longleftrightarrow> e = OutOfRange \<and> length buf < off + n"
  by (auto simp: mem_read_def)

lemma mem_read_ok: "mem_read off n buf = Inr bs \<longleftrightarrow> off + n \<le> length buf \<and> bs = take n (drop off buf)"
  by (auto simp: mem_read_def)

lemma mem_write_ok:
  "mem_write off bs buf = Inr b \<longleftrightarrow>
   off + length bs \<le> length buf \<and> b = take off buf @ bs @ drop (off + length bs) buf"
  by (auto simp: mem_write_def)

section \<open>Little endian integers\<close>

fun le :: "nat \<Rightarrow> 'a::len word \<Rightarrow> u8 list" where
  "le 0 w = []"
| "le (Suc n) w = ucast w # le n (drop_bit 8 w)"

fun from_le :: "u8 list \<Rightarrow> 'a::len word" where
  "from_le [] = 0"
| "from_le (b # bs) = ucast b OR push_bit 8 (from_le bs)"

abbreviation le16 :: "u16 \<Rightarrow> u8 list" where "le16 \<equiv> le 2"
abbreviation le32 :: "u32 \<Rightarrow> u8 list" where "le32 \<equiv> le 4"

lemma length_le [simp]: "length (le n w) = n"
  by (induction n arbitrary: w) auto

lemma from_le_le: "from_le (le n w) = take_bit (8 * n) w"
proof (induction n arbitrary: w)
  case (Suc n)
  have "ucast (ucast w :: u8) OR push_bit 8 (take_bit (8 * n) (drop_bit 8 w)) = take_bit (8 * Suc n) w"
    by (rule bit_word_eqI) (auto simp: bit_simps)
  then show ?case using Suc by simp
qed simp

lemma from_le16 [simp]: "from_le (le16 w) = (w :: u16)" and from_le32 [simp]: "from_le (le32 v) = (v :: u32)"
  by (simp_all add: from_le_le take_bit_word_eq_self)

definition read16 :: "nat \<Rightarrow> u8 list \<Rightarrow> ub + u16" where
  "read16 off buf = bind_ub (mem_read off 2 buf) (\<lambda>bs. Inr (from_le bs))"

definition read32 :: "nat \<Rightarrow> u8 list \<Rightarrow> ub + u32" where
  "read32 off buf = bind_ub (mem_read off 4 buf) (\<lambda>bs. Inr (from_le bs))"

definition read8 :: "nat \<Rightarrow> u8 list \<Rightarrow> ub + u8" where
  "read8 off buf = bind_ub (mem_read off 1 buf) (\<lambda>bs. Inr (hd bs))"

end
