(* ===== verification/Livox_Protocol.thy ===== *)
theory Livox_Protocol
  imports Memory
begin

text \<open>
  The command protocol of the Livox SDK (\<open>sdk_core/comm\<close>): the packed header laid over a byte
  buffer (\<open>sdk_protocol.cpp\<close>), the port that checks a datagram before it parses it
  (\<open>comm_port.cpp\<close>) and the sequence numbers (\<open>generate_seq.cpp\<close>). The two checksums come from the
  FastCRC library and are parameters of the model. Every access through the packet pointer is
  bounded by the memory behind it, which is the list the operations take; \<open>buf_size\<close> is the size
  the caller states.
\<close>

section \<open>Packets\<close>

type_synonym crc16_fn = "u8 list \<Rightarrow> u16"
type_synonym crc32_fn = "u8 list \<Rightarrow> u32"

text \<open>\<open>pk_data\<close> is the memory behind the data pointer.\<close>

record CommPacket =
  pk_protocol :: u8
  pk_version :: u8
  pk_seq_num :: u32
  pk_cmd_id :: u16
  pk_cmd_type :: u8
  pk_sender_type :: u8
  pk_data :: "u8 list"
  pk_data_len :: u16

definition kLidarSdk :: u8 where "kLidarSdk = 0"
definition kSdkProtocolSof :: u8 where "kSdkProtocolSof = 0xAA"
definition kSdkVer :: u8 where "kSdkVer = 0"

definition GetPreambleLen :: u32 where "GetPreambleLen = 24"
definition GetPacketWrapperLen :: u32 where "GetPacketWrapperLen = 24"

definition GetPacketLen :: "u8 list \<Rightarrow> ub + u32" where
  "GetPacketLen buf = bind_ub (read16 2 buf) (\<lambda>l. Inr (ucast l))"

section \<open>Packing\<close>

text \<open>
  \<open>Pack\<close>: the result is the length written to \<open>o_len\<close> when it returns 0 and \<open>None\<close> when it returns -1,
  with the buffer as it is left. The length field is 16 bits wide, so the sum wraps.
\<close>

definition packet_length :: "u16 \<Rightarrow> u16" where
  "packet_length n = ucast (ucast n + GetPacketWrapperLen)"

definition data_crc :: "crc32_fn \<Rightarrow> u8 list \<Rightarrow> u16 \<Rightarrow> ub + u32" where
  "data_crc crc32 d n = (if n = 0 then Inr 0
     else bind_ub (mem_read 0 (unat n) d) (\<lambda>bs. Inr (crc32 bs)))"

definition SdkPack :: "crc16_fn \<Rightarrow> crc32_fn \<Rightarrow> u8 list \<Rightarrow> u32 \<Rightarrow> CommPacket \<Rightarrow> ub + u32 option \<times> u8 list" where
  "SdkPack crc16 crc32 o_buf o_buf_size p =
     (if pk_protocol p \<noteq> kLidarSdk then Inr (None, o_buf)
      else let len = packet_length (pk_data_len p) in
        bind_ub (mem_write 0 [kSdkProtocolSof, kSdkVer] o_buf) (\<lambda>b.
        bind_ub (mem_write 2 (le16 len) b) (\<lambda>b.
        if ucast len > o_buf_size then Inr (None, b)
        else bind_ub (mem_write 4 (le32 (pk_seq_num p AND 0xFFFF)) b) (\<lambda>b.
          bind_ub (mem_write 8 (le16 (pk_cmd_id p)) b) (\<lambda>b.
          bind_ub (mem_write 10 [pk_cmd_type p] b) (\<lambda>b.
          bind_ub (mem_write 11 [pk_sender_type p] b) (\<lambda>b.
          bind_ub (mem_read 0 18 b) (\<lambda>h.
          bind_ub (mem_write 18 (le16 (crc16 h)) b) (\<lambda>b.
          bind_ub (data_crc crc32 (pk_data p) (pk_data_len p)) (\<lambda>c.
          bind_ub (mem_write 20 (le32 c) b) (\<lambda>b.
          bind_ub (mem_read 0 (unat (pk_data_len p)) (pk_data p)) (\<lambda>d.
          bind_ub (mem_write 24 d b) (\<lambda>b.
            Inr (Some (ucast len), b))))))))))))))"

section \<open>Checking and parsing\<close>

definition SdkCheckPreamble :: "crc16_fn \<Rightarrow> crc32_fn \<Rightarrow> u8 list \<Rightarrow> u32 \<Rightarrow> ub + bool" where
  "SdkCheckPreamble crc16 crc32 buf buf_size =
     (if buf_size < GetPreambleLen then Inr False else
      bind_ub (read8 0 buf) (\<lambda>sof. if sof \<noteq> kSdkProtocolSof then Inr False else
      bind_ub (read8 1 buf) (\<lambda>version. if version \<noteq> kSdkVer then Inr False else
      bind_ub (read16 2 buf) (\<lambda>len. if ucast len < GetPreambleLen then Inr False else
      bind_ub (mem_read 0 18 buf) (\<lambda>h. bind_ub (read16 18 buf) (\<lambda>crc.
        if crc \<noteq> crc16 h then Inr False else
      bind_ub (if ucast len - GetPacketWrapperLen = 0 then Inr 0
               else bind_ub (mem_read 24 (unat (ucast len - GetPacketWrapperLen)) buf) (\<lambda>d. Inr (crc32 d)))
        (\<lambda>crc_d. bind_ub (read32 20 buf) (\<lambda>member_stored. Inr (member_stored = crc_d)))))))))"

text \<open>\<open>None\<close>: the buffer is shorter than a header and the packet is not written.\<close>

definition SdkParsePacket :: "u8 list \<Rightarrow> u32 \<Rightarrow> ub + CommPacket option" where
  "SdkParsePacket buf buf_size =
     (if buf_size < GetPacketWrapperLen then Inr None else
      bind_ub (read8 1 buf) (\<lambda>version. bind_ub (read32 4 buf) (\<lambda>seq.
      bind_ub (read16 8 buf) (\<lambda>cmd. bind_ub (read8 10 buf) (\<lambda>ty.
      bind_ub (read8 11 buf) (\<lambda>sender. bind_ub (read16 2 buf) (\<lambda>len.
        Inr (Some \<lparr>pk_protocol = kLidarSdk, pk_version = version, pk_seq_num = seq, pk_cmd_id = cmd,
          pk_cmd_type = ty, pk_sender_type = sender, pk_data = drop 24 buf,
          pk_data_len = ucast (ucast len - GetPacketWrapperLen)\<rparr>))))))))"

section \<open>The port over any protocol\<close>

text \<open>
  \<open>CommPort\<close> uses a protocol through the virtual functions of \<open>comm/protocol.h\<close>. What it needs of
  one: a packet that was packed passes the check wherever its bytes are copied, and parses to the
  packet sent.
\<close>

definition ParseCommStream ::
    "(u8 list \<Rightarrow> u32 \<Rightarrow> ub + bool) \<Rightarrow> (u8 list \<Rightarrow> u32 \<Rightarrow> ub + CommPacket option) \<Rightarrow>
     u8 list \<Rightarrow> u32 \<Rightarrow> ub + CommPacket option" where
  "ParseCommStream check parse buf buf_size =
     bind_ub (check buf buf_size) (\<lambda>ok. if ok then parse buf buf_size else Inr None)"

locale packet_protocol =
  fixes pack :: "u8 list \<Rightarrow> u32 \<Rightarrow> CommPacket \<Rightarrow> ub + u32 option \<times> u8 list"
    and check :: "u8 list \<Rightarrow> u32 \<Rightarrow> ub + bool"
    and parse :: "u8 list \<Rightarrow> u32 \<Rightarrow> ub + CommPacket option"
    and sendable :: "u8 list \<Rightarrow> u32 \<Rightarrow> CommPacket \<Rightarrow> bool"
    and received :: "CommPacket \<Rightarrow> u8 list \<Rightarrow> CommPacket"
  assumes packs: "sendable buf n p \<Longrightarrow> \<exists>k buf'. pack buf n p = Inr (Some k, buf')
      \<and> unat k \<le> length buf' \<and> length buf' = length buf"
    and checks: "\<lbrakk>sendable buf n p; pack buf n p = Inr (Some k, buf'); unat k \<le> length m;
      take (unat k) m = take (unat k) buf'\<rbrakk> \<Longrightarrow> check m k = Inr True"
    and parses: "\<lbrakk>sendable buf n p; pack buf n p = Inr (Some k, buf'); unat k \<le> length m;
      take (unat k) m = take (unat k) buf'\<rbrakk> \<Longrightarrow> parse m k = Inr (Some (received p m))"
begin

lemma stream_roundtrip:
  assumes "sendable buf n p"
  shows "\<exists>k buf'. pack buf n p = Inr (Some k, buf') \<and> unat k \<le> length buf' \<and>
    (\<forall>m. unat k \<le> length m \<and> take (unat k) m = take (unat k) buf' \<longrightarrow>
      ParseCommStream check parse m k = Inr (Some (received p m)))"
  using packs[OF assms] checks[OF assms] parses[OF assms]
  unfolding ParseCommStream_def by fastforce

end

section \<open>The layout of a packed packet\<close>

definition packet_header :: "u16 \<Rightarrow> u32 \<Rightarrow> u16 \<Rightarrow> u8 \<Rightarrow> u8 \<Rightarrow> u8 list \<Rightarrow> u8 list" where
  "packet_header len seq cmd ty sender rsvd =
     [kSdkProtocolSof, kSdkVer] @ le16 len @ le32 seq @ le16 cmd @ [ty, sender] @ rsvd"

text \<open>What is on the wire: the header over its checksum, the checksum of the data, the data.\<close>

definition packet_wire :: "crc16_fn \<Rightarrow> crc32_fn \<Rightarrow> CommPacket \<Rightarrow> u8 list \<Rightarrow> u8 list" where
  "packet_wire crc16 crc32 p rsvd =
     (let n = unat (pk_data_len p); d = take n (pk_data p);
          h = packet_header (packet_length (pk_data_len p)) (pk_seq_num p AND 0xFFFF) (pk_cmd_id p)
                (pk_cmd_type p) (pk_sender_type p) rsvd
      in h @ le16 (crc16 h) @ le32 (if n = 0 then 0 else crc32 d) @ d)"

lemma length_packet_header [simp]: "length (packet_header len seq cmd ty sender rsvd) = 12 + length rsvd"
  by (simp add: packet_header_def)

lemma unat_ucast_16_32 [simp]: "unat (ucast (n :: u16) :: u32) = unat n"
proof -
  have "unat n < 2 ^ 16" using unsigned_less[of n] by simp
  then show ?thesis by (simp add: unsigned_ucast_eq take_bit_nat_eq_self)
qed

lemma packet_length_unat: "unat n \<le> 65511 \<Longrightarrow> unat (packet_length n) = 24 + unat n"
  by (simp add: packet_length_def GetPacketWrapperLen_def unsigned_ucast_eq take_bit_nat_eq_self
      unat_word_ariths)

lemma split_prefix: "n \<le> length (xs :: 'a list) \<Longrightarrow> \<exists>a b. xs = a @ b \<and> length a = n"
  by (rule exI[of _ "take n xs"], rule exI[of _ "drop n xs"]) simp

lemma mem_write_at:
  "\<lbrakk>length a = off; length c = length bs\<rbrakk> \<Longrightarrow> mem_write off bs (a @ c @ d) = Inr (a @ bs @ d)"
  by (simp add: mem_write_def)

text \<open>A buffer cut at the fields of the header.\<close>

lemma buffer_fields:
  assumes "24 + n \<le> length (buf :: u8 list)"
  obtains a l s c t u r h d p z where
    "buf = a @ l @ s @ c @ t @ u @ r @ h @ d @ p @ z" "length a = 2" "length l = 2" "length s = 4"
    "length c = 2" "length t = 1" "length u = 1" "length r = 6" "length h = 2" "length d = 4"
    "length p = n"
proof -
  obtain a b1 where 1: "buf = a @ b1" "length a = 2" using split_prefix[of 2 buf] assms by auto
  obtain l b2 where 2: "b1 = l @ b2" "length l = 2" using split_prefix[of 2 b1] assms 1 by auto
  obtain s b3 where 3: "b2 = s @ b3" "length s = 4" using split_prefix[of 4 b2] assms 1 2 by auto
  obtain c b4 where 4: "b3 = c @ b4" "length c = 2" using split_prefix[of 2 b3] assms 1 2 3 by auto
  obtain t b5 where 5: "b4 = t @ b5" "length t = 1" using split_prefix[of 1 b4] assms 1 2 3 4 by auto
  obtain u b6 where 6: "b5 = u @ b6" "length u = 1"
    using split_prefix[of 1 b5] assms 1 2 3 4 5 by auto
  obtain r b7 where 7: "b6 = r @ b7" "length r = 6"
    using split_prefix[of 6 b6] assms 1 2 3 4 5 6 by auto
  obtain h b8 where 8: "b7 = h @ b8" "length h = 2"
    using split_prefix[of 2 b7] assms 1 2 3 4 5 6 7 by auto
  obtain d b9 where 9: "b8 = d @ b9" "length d = 4"
    using split_prefix[of 4 b8] assms 1 2 3 4 5 6 7 8 by auto
  obtain p z where 10: "b9 = p @ z" "length p = n"
    using split_prefix[of n b9] assms 1 2 3 4 5 6 7 8 9 by auto
  show thesis using that 1 2 3 4 5 6 7 8 9 10 by blast
qed

definition fits :: "u8 list \<Rightarrow> u32 \<Rightarrow> CommPacket \<Rightarrow> bool" where
  "fits buf sz p \<longleftrightarrow> pk_protocol p = kLidarSdk \<and> unat (pk_data_len p) \<le> length (pk_data p) \<and>
     unat (pk_data_len p) \<le> 65511 \<and> 24 + unat (pk_data_len p) \<le> unat sz \<and> unat sz \<le> length buf"

lemma SdkPack_wire:
  assumes "fits buf sz p"
  shows "\<exists>rest. SdkPack crc16 crc32 buf sz p
      = Inr (Some (ucast (packet_length (pk_data_len p))),
             packet_wire crc16 crc32 p (take 6 (drop 12 buf)) @ rest) \<and>
    length (packet_wire crc16 crc32 p (take 6 (drop 12 buf)) @ rest) = length buf"
proof -
  define n where "n = unat (pk_data_len p)"
  have fit: "pk_protocol p = kLidarSdk" "n \<le> length (pk_data p)" "n \<le> 65511" "24 + n \<le> unat sz"
      "24 + n \<le> length buf"
    using assms by (auto simp: fits_def n_def)
  obtain a l s c t u r h d q z where buf: "buf = a @ l @ s @ c @ t @ u @ r @ h @ d @ q @ z"
      and len: "length a = 2" "length l = 2" "length s = 4" "length c = 2" "length t = 1"
        "length u = 1" "length r = 6" "length h = 2" "length d = 4" "length q = n"
    using buffer_fields[OF fit(5)] by metis
  have small: "\<not> sz < ucast (packet_length (pk_data_len p))"
    using fit packet_length_unat[of "pk_data_len p"] by (simp add: word_less_nat_alt n_def)
  have zero: "pk_data_len p = 0 \<longleftrightarrow> n = 0" by (simp add: n_def unat_eq_zero)
  have r: "take 6 (drop 12 buf) = r" using len by (simp add: buf)
  show ?thesis
    using fit small len
    by (intro exI[of _ z])
      (simp add: r buf SdkPack_def Let_def mem_write_def mem_read_def data_crc_def zero packet_wire_def packet_header_def
        n_def[symmetric] kSdkProtocolSof_def kSdkVer_def take_Cons' drop_Cons')
qed

section \<open>Every protocol packet comes back\<close>

definition delivered :: "CommPacket \<Rightarrow> u8 list \<Rightarrow> CommPacket" where
  "delivered p m = p\<lparr>pk_version := kSdkVer, pk_seq_num := pk_seq_num p AND 0xFFFF, pk_data := drop 24 m\<rparr>"

lemma length_wire:
  "\<lbrakk>unat (pk_data_len p) \<le> length (pk_data p); length r = 6\<rbrakk> \<Longrightarrow>
   length (packet_wire crc16 crc32 p r) = 24 + unat (pk_data_len p)"
  by (simp add: packet_wire_def Let_def)

lemma SdkCheckPreamble_wire:
  assumes "unat (pk_data_len p) \<le> length (pk_data p)" "unat (pk_data_len p) \<le> 65511" "length r = 6"
  shows "SdkCheckPreamble crc16 crc32 (packet_wire crc16 crc32 p r @ z) (ucast (packet_length (pk_data_len p)))
    = Inr True"
proof -
  let ?n = "unat (pk_data_len p)"
  have n: "unat (packet_length (pk_data_len p)) = 24 + ?n" using assms by (simp add: packet_length_unat)
  have long: "\<not> ucast (packet_length (pk_data_len p)) < (24 :: u32)"
    by (simp add: word_less_nat_alt n)
  then have sub: "unat (ucast (packet_length (pk_data_len p)) - (24 :: u32)) = ?n"
    by (subst unat_sub) (simp_all add: n)
  then have zero: "(ucast (packet_length (pk_data_len p)) = (24 :: u32)) = (?n = 0)"
    by (metis eq_iff_diff_eq_0 unat_eq_zero)
  show ?thesis
    using assms long sub
    by (simp add: SdkCheckPreamble_def GetPreambleLen_def GetPacketWrapperLen_def read8_def read16_def
      read32_def mem_read_def packet_wire_def packet_header_def Let_def take_Cons' drop_Cons' zero)
qed

lemma SdkParsePacket_wire:
  assumes "unat (pk_data_len p) \<le> length (pk_data p)" "unat (pk_data_len p) \<le> 65511" "length r = 6"
    "pk_protocol p = kLidarSdk"
  shows "SdkParsePacket (packet_wire crc16 crc32 p r @ z) (ucast (packet_length (pk_data_len p)))
    = Inr (Some (delivered p (packet_wire crc16 crc32 p r @ z)))"
proof -
  let ?n = "unat (pk_data_len p)"
  have n: "unat (packet_length (pk_data_len p)) = 24 + ?n" using assms by (simp add: packet_length_unat)
  have long: "\<not> ucast (packet_length (pk_data_len p)) < (24 :: u32)"
    by (simp add: word_less_nat_alt n)
  then have "unat (ucast (packet_length (pk_data_len p)) - (24 :: u32)) = ?n"
    by (subst unat_sub) (simp_all add: n)
  then have "unat (ucast (ucast (packet_length (pk_data_len p)) - (24 :: u32)) :: u16) = ?n"
    using assms by (simp add: unsigned_ucast_eq take_bit_nat_eq_self)
  then have data_len: "ucast (ucast (packet_length (pk_data_len p)) - (24 :: u32)) = pk_data_len p"
    by (rule word_unat_eq_iff[THEN iffD2])
  show ?thesis
    using assms long data_len
    by (simp add: SdkParsePacket_def delivered_def GetPacketWrapperLen_def read8_def read16_def
      read32_def mem_read_def packet_wire_def packet_header_def Let_def take_Cons' drop_Cons')
qed

lemma fits_reserved: "fits buf sz p \<Longrightarrow> length (take 6 (drop 12 buf)) = 6"
  unfolding fits_def length_take length_drop by linarith

lemma copied_wire:
  assumes "fits buf sz p" "SdkPack crc16 crc32 buf sz p = Inr (Some k, buf')" "unat k \<le> length m"
    "take (unat k) m = take (unat k) buf'"
  shows "k = ucast (packet_length (pk_data_len p))"
    "\<exists>z. m = packet_wire crc16 crc32 p (take 6 (drop 12 buf)) @ z"
proof -
  let ?w = "packet_wire crc16 crc32 p (take 6 (drop 12 buf))"
  obtain rest where p: "SdkPack crc16 crc32 buf sz p
      = Inr (Some (ucast (packet_length (pk_data_len p))), ?w @ rest)"
    using SdkPack_wire[OF assms(1)] by blast
  then show k: "k = ucast (packet_length (pk_data_len p))" using assms(2) by simp
  have "length ?w = unat k"
    using assms(1) fits_reserved[OF assms(1)] by (auto simp: length_wire k packet_length_unat fits_def)
  moreover have "buf' = ?w @ rest" using assms(2) p by simp
  ultimately have "take (unat k) m = ?w" using assms(4) by simp
  then show "\<exists>z. m = ?w @ z" by (metis append_take_drop_id)
qed

interpretation sdk: packet_protocol "SdkPack crc16 crc32" "SdkCheckPreamble crc16 crc32" SdkParsePacket
  fits delivered for crc16 :: crc16_fn and crc32 :: crc32_fn
proof
  fix buf sz p
  assume fit: "fits buf sz p"
  then obtain rest where "SdkPack crc16 crc32 buf sz p = Inr (Some (ucast (packet_length (pk_data_len p))),
      packet_wire crc16 crc32 p (take 6 (drop 12 buf)) @ rest)"
    "length (packet_wire crc16 crc32 p (take 6 (drop 12 buf)) @ rest) = length buf"
    using SdkPack_wire by blast
  then show "\<exists>k buf'. SdkPack crc16 crc32 buf sz p = Inr (Some k, buf') \<and> unat k \<le> length buf'
      \<and> length buf' = length buf"
    using fit by (auto simp: fits_def packet_length_unat length_wire)
next
  fix buf sz p k buf' m
  assume a: "fits buf sz p" "SdkPack crc16 crc32 buf sz p = Inr (Some k, buf')" "unat k \<le> length m"
    "take (unat k) m = take (unat k) buf'"
  then have "length (take 6 (drop 12 buf)) = 6" using fits_reserved by blast
  with copied_wire[OF a] a(1) show "SdkCheckPreamble crc16 crc32 m k = Inr True"
    "SdkParsePacket m k = Inr (Some (delivered p m))"
    by (auto simp: fits_def SdkCheckPreamble_wire SdkParsePacket_wire)
qed

text \<open>The data of the packet that arrives is the data that was sent.\<close>

lemma delivered_data:
  assumes "fits buf sz p" "SdkPack crc16 crc32 buf sz p = Inr (Some k, buf')" "unat k \<le> length m"
    "take (unat k) m = take (unat k) buf'"
  shows "take (unat (pk_data_len p)) (pk_data (delivered p m)) = take (unat (pk_data_len p)) (pk_data p)"
proof -
  obtain z where m: "m = packet_wire crc16 crc32 p (take 6 (drop 12 buf)) @ z" using copied_wire[OF assms] by blast
  have "drop 24 m = take (unat (pk_data_len p)) (pk_data p) @ z"
    using fits_reserved[OF assms(1)] by (simp add: m packet_wire_def Let_def)
  then show ?thesis using assms(1) by (simp add: delivered_def fits_def)
qed

section \<open>What the checks do not cover\<close>

text \<open>
  The check compares the stated size with the size of a header only: the length field of the packet
  decides how far the data checksum reads.
\<close>

definition header_ok :: "crc16_fn \<Rightarrow> u8 list \<Rightarrow> bool" where
  "header_ok crc16 buf \<longleftrightarrow> buf ! 0 = kSdkProtocolSof \<and> buf ! 1 = kSdkVer \<and>
     from_le (take 2 (drop 18 buf)) = crc16 (take 18 buf)"

definition length_field :: "u8 list \<Rightarrow> u16" where "length_field buf = from_le (take 2 (drop 2 buf))"

lemma SdkCheckPreamble_error:
  assumes "24 \<le> unat sz" "unat sz \<le> length buf"
  shows "SdkCheckPreamble crc16 crc32 buf sz = Inl e \<longleftrightarrow>
    e = OutOfRange \<and> header_ok crc16 buf \<and> length buf < unat (length_field buf)"
proof -
  have small: "\<not> sz < 24" using assms by (simp add: word_less_nat_alt)
  have l: "24 \<le> length buf" using assms by linarith
  have bytes: "hd (take (Suc 0) buf) = buf ! 0" "hd (take (Suc 0) (drop (Suc 0) buf)) = buf ! 1"
  proof -
    show "hd (take (Suc 0) buf) = buf ! 0" using l by (cases buf) auto
    show "hd (take (Suc 0) (drop (Suc 0) buf)) = buf ! 1" using l by (simp add: hd_drop_conv_nth)
  qed
  have short: "ucast (length_field buf) < (24 :: u32) \<Longrightarrow> unat (length_field buf) < 24"
    by (simp add: word_less_nat_alt)
  have zero: "ucast (length_field buf) = (24 :: u32) \<Longrightarrow> unat (length_field buf) = 24"
    by (drule arg_cong[of _ _ unat]) simp
  have sub: "\<not> ucast (length_field buf) < (24 :: u32) \<Longrightarrow>
      24 + unat (ucast (length_field buf) - (24 :: u32)) = unat (length_field buf)"
    by (subst unat_sub) (auto simp: word_less_nat_alt not_less word_le_nat_alt)
  show ?thesis
    using assms small bytes short zero sub
    by (auto simp: SdkCheckPreamble_def GetPreambleLen_def GetPacketWrapperLen_def header_ok_def
      read8_def read16_def read32_def mem_read_def length_field_def)
qed

text \<open>A length of data that wraps the length field passes the size test of \<open>Pack\<close>.\<close>

lemma packet_length_wraps: "65512 \<le> unat n \<Longrightarrow> unat (packet_length n) = unat n - 65512"
proof -
  assume a: "65512 \<le> unat n"
  have "unat n < 65536" using unsigned_less[of n] by simp
  then have "(unat n + 24) mod 65536 = unat n - 65512" using a by (simp add: mod_if)
  then show ?thesis using \<open>unat n < 65536\<close>
    by (simp add: packet_length_def GetPacketWrapperLen_def unsigned_ucast_eq take_bit_eq_mod
      unat_word_ariths)
qed

lemma SdkPack_overflow:
  assumes "65512 \<le> unat (pk_data_len p)" "pk_protocol p = kLidarSdk"
    "unat (pk_data_len p) \<le> length (pk_data p)"
    "24 \<le> unat sz" "unat sz \<le> length buf" "length buf < 65536"
  shows "SdkPack crc16 crc32 buf sz p = Inl OutOfRange"
proof -
  have room: "24 + 0 \<le> length buf" using assms by linarith
  have pk: "unat (pk_data_len p) < 65536" using unsigned_less[of "pk_data_len p"] by simp
  obtain a l s c t u r h d q z where buf: "buf = a @ l @ s @ c @ t @ u @ r @ h @ d @ q @ z"
      and len: "length a = 2" "length l = 2" "length s = 4" "length c = 2" "length t = 1"
        "length u = 1" "length r = 6" "length h = 2" "length d = 4" "length q = 0"
    using buffer_fields[OF room] by blast
  have small: "\<not> sz < ucast (packet_length (pk_data_len p))"
    using assms packet_length_wraps[OF assms(1)] pk
    by (simp add: word_less_nat_alt)
  have zero: "pk_data_len p \<noteq> 0" using assms by auto
  show ?thesis
    using assms small len zero
    by (simp add: buf SdkPack_def Let_def mem_write_def mem_read_def data_crc_def
        kSdkProtocolSof_def kSdkVer_def take_Cons' drop_Cons')
qed

section \<open>Sequence numbers\<close>

text \<open>\<open>GetSeq\<close>: one successful compare and exchange; the result is the new value of the counter.\<close>

definition GetSeq :: "u32 \<Rightarrow> u32 \<times> u32" where
  "GetSeq seq = (let desired = (if seq = 0xFFFF then 1 else seq + 1) in (desired, desired))"

definition seq_start :: u32 where "seq_start = 1"

primrec take_seqs :: "nat \<Rightarrow> u32 \<Rightarrow> u32 list" where
  "take_seqs 0 s = []"
| "take_seqs (Suc n) s = (case GetSeq s of (v, s') \<Rightarrow> v # take_seqs n s')"

lemma GetSeq_step:
  assumes "1 \<le> unat s" "unat s \<le> 65535"
  shows "unat (fst (GetSeq s)) = unat s mod 65535 + 1" "snd (GetSeq s) = fst (GetSeq s)"
proof -
  have "s = 0xFFFF \<longleftrightarrow> unat s = 65535" by (simp add: word_unat_eq_iff)
  then show "unat (fst (GetSeq s)) = unat s mod 65535 + 1"
    using assms by (auto simp: GetSeq_def Let_def unat_word_ariths)
qed (simp add: GetSeq_def Let_def)

lemma take_seqs_values:
  assumes "1 \<le> unat s" "unat s \<le> 65535"
  shows "map unat (take_seqs n s) = map (\<lambda>i. (unat s + i) mod 65535 + 1) [0..<n]"
  using assms
proof (induction n arbitrary: s)
  case (Suc n)
  let ?v = "fst (GetSeq s)"
  have v: "unat ?v = unat s mod 65535 + 1" "snd (GetSeq s) = ?v" using GetSeq_step[OF Suc.prems] .
  have shift: "(unat s mod 65535 + 1 + i) mod 65535 + 1 = (unat s + Suc i) mod 65535 + 1" for i
  proof -
    have "(unat s mod 65535 + Suc i) mod 65535 = (unat s + Suc i) mod 65535" by (rule mod_add_left_eq)
    then show ?thesis by simp
  qed
  have "map unat (take_seqs n ?v) = map (\<lambda>i. (unat ?v + i) mod 65535 + 1) [0..<n]"
    using v by (intro Suc.IH) simp_all
  also have "\<dots> = map (\<lambda>i. (unat s + Suc i) mod 65535 + 1) [0..<n]"
    by (simp only: v(1) shift)
  finally show ?case
    using v by (simp add: case_prod_beta map_Suc_upt[symmetric] upt_conv_Cons comp_def del: upt_Suc)
qed simp

end
