(* ===== verification/Livox_Request.thy ===== *)
theory Livox_Request
  imports Livox_Protocol
begin

text \<open>
  Requests of the Livox SDK: the request buffer and the key value parameters written to it, dotted
  addresses (\<open>IpToU8\<close> and the converse text that the state parser builds), and the configuration
  requests of \<open>command_handler/build_request.cpp\<close>. \<open>std::stoi\<close> throws, a builder refuses by returning
  false, and a write outside the request buffer is undefined: three errors of the model.
\<close>

datatype req_error = Refused | StoiThrows | Undefined ub

fun and_then :: "'e + 'a \<Rightarrow> ('a \<Rightarrow> 'e + 'b) \<Rightarrow> 'e + 'b" where
  "and_then (Inl e) f = Inl e"
| "and_then (Inr x) f = f x"

fun or_undefined :: "ub + 'a \<Rightarrow> req_error + 'a" where
  "or_undefined (Inl e) = Inl (Undefined e)"
| "or_undefined (Inr x) = Inr x"

lemma and_then_Inr_iff: "and_then m f = Inr y \<longleftrightarrow> (\<exists>x. m = Inr x \<and> f x = Inr y)"
  by (cases m) auto

section \<open>Text of an address\<close>

definition is_digit :: "char \<Rightarrow> bool" where "is_digit c \<longleftrightarrow> of_char c \<in> {48..57 :: nat}"
definition digit_value :: "char \<Rightarrow> int" where "digit_value c = int (of_char c) - 48"
definition digit_char :: "nat \<Rightarrow> char" where "digit_char d = char_of (48 + d)"

definition is_space :: "char \<Rightarrow> bool" where
  "is_space c \<longleftrightarrow> of_char c \<in> {9..13 :: nat} \<or> c = CHR '' ''"

definition digits_value :: "string \<Rightarrow> int" where
  "digits_value ds = fold (\<lambda>c v. 10 * v + digit_value c) ds 0"

text \<open>\<open>std::stoi\<close>: blanks, a sign, digits; text behind the digits is ignored; \<open>None\<close> when it throws.\<close>

definition stoi :: "string \<Rightarrow> int option" where
  "stoi s = (let s = dropWhile is_space s;
       (neg, s) = (case s of c # r \<Rightarrow> if c = CHR ''-'' then (True, r)
                     else if c = CHR ''+'' then (False, r) else (False, s) | [] \<Rightarrow> (False, s));
       ds = takeWhile is_digit s; v = (if neg then - digits_value ds else digits_value ds)
     in if ds = [] \<or> v < - (2 ^ 31) \<or> 2 ^ 31 - 1 < v then None else Some v)"

text \<open>\<open>std::to_string\<close> of a byte, and the dotted text the SDK concatenates from four of them.\<close>

fun dec :: "nat \<Rightarrow> string" where
  "dec n = (if n < 10 then [digit_char n] else dec (n div 10) @ [digit_char (n mod 10)])"

declare dec.simps [simp del]

abbreviation dot :: char where "dot \<equiv> CHR ''.''"

definition to_string :: "u8 \<Rightarrow> string" where "to_string b = dec (unat b)"

fun dotted :: "u8 list \<Rightarrow> string" where
  "dotted [] = []"
| "dotted [b] = to_string b"
| "dotted (b # bs) = to_string b @ dot # dotted bs"

section \<open>Dotted address to bytes\<close>

text \<open>One part of the address: the range test admits 256, which the byte vector stores as 0.\<close>

definition ip_part :: "string \<Rightarrow> req_error + u8" where
  "ip_part s = (case stoi s of None \<Rightarrow> Inl StoiThrows
     | Some v \<Rightarrow> if v < 0 \<or> v > 256 then Inl Refused else Inr (of_int v))"

text \<open>
  The loop over the separators. Its state is what is left of the text behind \<open>pos1\<close>; a text that ends
  with a separator has nothing left and adds no part.
\<close>

function ip_parts :: "string \<Rightarrow> u8 list \<Rightarrow> req_error + u8 list" where
  "ip_parts s acc = (case dropWhile (\<lambda>c. c \<noteq> dot) s of
     c # rest \<Rightarrow> and_then (ip_part (takeWhile (\<lambda>c. c \<noteq> dot) s)) (\<lambda>b. ip_parts rest (acc @ [b]))
   | [] \<Rightarrow> if s = [] then Inr acc else and_then (ip_part s) (\<lambda>b. Inr (acc @ [b])))"
  by auto
termination
proof (relation "measure (length \<circ> fst)")
  fix s :: string and acc :: "u8 list" and c rest x
  assume "dropWhile (\<lambda>c. c \<noteq> dot) s = c # rest"
  then show "((rest, acc @ [x]), s, acc) \<in> measure (length \<circ> fst)"
    using length_dropWhile_le[of "\<lambda>c. c \<noteq> dot" s] by simp
qed simp

declare ip_parts.simps [simp del]

definition IpToU8 :: "string \<Rightarrow> req_error + u8 list" where
  "IpToU8 src = and_then (ip_parts src []) (\<lambda>r. if length r \<noteq> 4 then Inl Refused else Inr r)"

lemma IpToU8_length: "IpToU8 s = Inr bs \<Longrightarrow> length bs = 4"
  by (auto simp: IpToU8_def and_then_Inr_iff split: if_splits)

lemma ip_parts_dot:
  assumes "dot \<notin> set p"
  shows "ip_parts (p @ dot # s) acc = and_then (ip_part p) (\<lambda>b. ip_parts s (acc @ [b]))"
proof -
  have "dropWhile (\<lambda>c. c \<noteq> dot) (p @ dot # s) = dot # s" "takeWhile (\<lambda>c. c \<noteq> dot) (p @ dot # s) = p"
    using assms by (induction p) auto
  then show ?thesis by (subst ip_parts.simps) simp
qed

lemma ip_parts_last:
  assumes "dot \<notin> set p"
  shows "ip_parts p acc = (if p = [] then Inr acc else and_then (ip_part p) (\<lambda>b. Inr (acc @ [b])))"
proof -
  have "dropWhile (\<lambda>c. c \<noteq> dot) p = []" using assms by (induction p) auto
  then show ?thesis by (subst ip_parts.simps) (simp del: dropWhile_eq_Nil_conv)
qed

section \<open>The text of a byte reads back\<close>

lemma digit_char_digit: "d < 10 \<Longrightarrow> is_digit (digit_char d)"
  by (simp add: is_digit_def digit_char_def of_char_of)

lemma digit_value_char: "d < 10 \<Longrightarrow> digit_value (digit_char d) = int d"
  by (simp add: digit_value_def digit_char_def of_char_of)

lemma dec_digits: "c \<in> set (dec n) \<Longrightarrow> is_digit c"
  by (induction n rule: dec.induct) (subst (asm) (2) dec.simps, auto simp: digit_char_digit split: if_splits)

lemma dec_not_Nil [simp]: "dec n \<noteq> []"
  by (subst dec.simps) simp

lemma digits_value_dec: "digits_value (dec n) = int n"
proof (induction n rule: dec.induct)
  case (1 n)
  then show ?case
    by (subst dec.simps) (auto simp: digits_value_def digit_value_char zdiv_int zmod_int)
qed

lemma digit_not: "is_digit c \<Longrightarrow> c \<noteq> dot \<and> \<not> is_space c \<and> c \<noteq> CHR ''-'' \<and> c \<noteq> CHR ''+''"
  by (auto simp: is_digit_def is_space_def)

lemma stoi_dec: "int n < 2 ^ 31 \<Longrightarrow> stoi (dec n) = Some (int n)"
proof -
  assume n: "int n < 2 ^ 31"
  obtain c r where d: "dec n = c # r" by (cases "dec n") auto
  then have c: "is_digit c" using dec_digits[of c n] by simp
  have "takeWhile is_digit (dec n) = dec n" using dec_digits by simp
  then show ?thesis
    using n digit_not[OF c] digits_value_dec[of n] by (simp add: stoi_def d)
qed

lemma dec_no_dot: "dot \<notin> set (dec n)"
  using dec_digits digit_not by blast

lemma ip_part_to_string: "ip_part (to_string b) = Inr b"
proof -
  have "uint b < 2 ^ LENGTH(8)" by (rule unsigned_less)
  then have b: "uint b < 256" by simp
  then have "stoi (dec (unat b)) = Some (int (unat b))" by (intro stoi_dec) simp
  then show ?thesis using b by (simp add: ip_part_def to_string_def)
qed

lemma IpToU8_dotted: "IpToU8 (dotted [a, b, c, d]) = Inr [a, b, c, d]"
  by (simp add: IpToU8_def ip_parts_dot ip_parts_last dec_no_dot ip_part_to_string to_string_def
      ip_part_to_string[unfolded to_string_def])

text \<open>The part 256 is accepted and stored as 0.\<close>

lemma ip_part_256: "ip_part (dec 256) = Inr 0"
  by (simp add: ip_part_def stoi_dec)

section \<open>The request buffer\<close>

text \<open>
  A zeroed buffer of 1400 bytes and the length written so far. Every builder starts with the number
  of keys and two bytes it skips, and then lays key value parameters (key, length, value) behind it.
\<close>

definition kMaxCommandBufferSize :: nat where "kMaxCommandBufferSize = 1400"

type_synonym request = "u8 list \<times> nat"

definition begin_request :: "u16 \<Rightarrow> req_error + request" where
  "begin_request key_num =
     and_then (or_undefined (mem_write 0 (le16 key_num) (replicate kMaxCommandBufferSize 0)))
       (\<lambda>buf. Inr (buf, 4))"

text \<open>A key of a query: two bytes, no value. A key value parameter is written field by field.\<close>

definition put_key :: "u16 \<Rightarrow> request \<Rightarrow> req_error + request" where
  "put_key key r = (case r of (buf, len) \<Rightarrow>
     and_then (or_undefined (mem_write len (le16 key) buf)) (\<lambda>buf. Inr (buf, len + 2)))"

definition put_kv :: "u16 \<Rightarrow> u8 list \<Rightarrow> request \<Rightarrow> req_error + request" where
  "put_kv key val r = (case r of (buf, len) \<Rightarrow>
     and_then (or_undefined (mem_write len (le16 key) buf)) (\<lambda>buf.
     and_then (or_undefined (mem_write (len + 2) (le16 (of_nat (length val))) buf)) (\<lambda>buf.
     and_then (or_undefined (mem_write (len + 4) val buf)) (\<lambda>buf.
       Inr (buf, len + 4 + length val)))))"

text \<open>The bytes such a request holds.\<close>

definition kv_bytes :: "u16 \<times> u8 list \<Rightarrow> u8 list" where
  "kv_bytes kv = le16 (fst kv) @ le16 (of_nat (length (snd kv))) @ snd kv"

definition request_bytes :: "u16 \<Rightarrow> (u16 \<times> u8 list) list \<Rightarrow> u8 list" where
  "request_bytes key_num kvs = le16 key_num @ [0, 0] @ concat (map kv_bytes kvs)"

definition request_holds :: "request \<Rightarrow> u8 list \<Rightarrow> bool" where
  "request_holds r bs \<longleftrightarrow> length bs \<le> kMaxCommandBufferSize \<and> snd r = length bs \<and>
     fst r = bs @ replicate (kMaxCommandBufferSize - length bs) 0"

lemma length_kv_bytes [simp]: "length (kv_bytes kv) = 4 + length (snd kv)"
  by (simp add: kv_bytes_def)

lemma begin_request_holds: "\<exists>r. begin_request n = Inr r \<and> request_holds r (request_bytes n [])"
proof -
  have "replicate 1400 0 = [0, 0 :: u8] @ [0, 0] @ replicate 1396 0"
    by (simp flip: replicate_add replicate_Suc replicate_0)
  then have "mem_write 0 (le16 n) (replicate 1400 0) = Inr (le16 n @ [0, 0] @ replicate 1396 0)"
    by (simp add: mem_write_def)
  then show ?thesis by (simp add: begin_request_def request_holds_def request_bytes_def kMaxCommandBufferSize_def)
qed

lemma write_zeros:
  assumes "off = length bs" "length bs + length v \<le> N"
  shows "mem_write off v (bs @ replicate (N - length bs) 0)
    = Inr ((bs @ v) @ replicate (N - length (bs @ v)) 0)"
  using assms by (simp add: mem_write_def drop_replicate)

lemma put_kv_holds:
  assumes "request_holds r bs" "length bs + 4 + length val \<le> kMaxCommandBufferSize"
  shows "\<exists>r'. put_kv key val r = Inr r' \<and> request_holds r' (bs @ kv_bytes (key, val))"
proof -
  obtain buf where r: "r = (buf, length bs)" "buf = bs @ replicate (kMaxCommandBufferSize - length bs) 0"
    using assms(1) by (cases r) (simp add: request_holds_def)
  let ?l = "le16 (of_nat (length val))"
  have 1: "mem_write (length bs) (le16 key) buf
      = Inr ((bs @ le16 key) @ replicate (kMaxCommandBufferSize - length (bs @ le16 key)) 0)"
    unfolding r(2) by (rule write_zeros) (use assms(2) in auto)
  have 2: "mem_write (length bs + 2) ?l
        ((bs @ le16 key) @ replicate (kMaxCommandBufferSize - length (bs @ le16 key)) 0)
      = Inr (((bs @ le16 key) @ ?l) @ replicate (kMaxCommandBufferSize - length ((bs @ le16 key) @ ?l)) 0)"
    by (rule write_zeros) (use assms(2) in auto)
  have 3: "mem_write (length bs + 4) val
        (((bs @ le16 key) @ ?l) @ replicate (kMaxCommandBufferSize - length ((bs @ le16 key) @ ?l)) 0)
      = Inr ((((bs @ le16 key) @ ?l) @ val)
          @ replicate (kMaxCommandBufferSize - length (((bs @ le16 key) @ ?l) @ val)) 0)"
    by (rule write_zeros) (use assms(2) in auto)
  show ?thesis
    using assms(2) unfolding put_kv_def r(1) prod.case 1 or_undefined.simps and_then.simps 2 3
    by (auto simp: request_holds_def kv_bytes_def)
qed

lemma put_key_holds:
  assumes "request_holds r bs" "length bs + 2 \<le> kMaxCommandBufferSize"
  shows "\<exists>r'. put_key key r = Inr r' \<and> request_holds r' (bs @ le16 key)"
proof -
  obtain buf where r: "r = (buf, length bs)" "buf = bs @ replicate (kMaxCommandBufferSize - length bs) 0"
    using assms(1) by (cases r) (simp add: request_holds_def)
  have "mem_write (length bs) (le16 key) buf
      = Inr ((bs @ le16 key) @ replicate (kMaxCommandBufferSize - length (bs @ le16 key)) 0)"
    unfolding r(2) by (rule write_zeros) (use assms(2) in auto)
  then show ?thesis using assms(2) by (auto simp: put_key_def r(1) request_holds_def)
qed

section \<open>Keys, devices and configurations\<close>

definition kKeyPclDataType :: u16 where "kKeyPclDataType = 0x0000"
definition kKeyPatternMode :: u16 where "kKeyPatternMode = 0x0001"
definition kKeyDualEmitEn :: u16 where "kKeyDualEmitEn = 0x0002"
definition kKeyPointSendEn :: u16 where "kKeyPointSendEn = 0x0003"
definition kKeyLidarIpCfg :: u16 where "kKeyLidarIpCfg = 0x0004"
definition kKeyStateInfoHostIpCfg :: u16 where "kKeyStateInfoHostIpCfg = 0x0005"
definition kKeyLidarPointDataHostIpCfg :: u16 where "kKeyLidarPointDataHostIpCfg = 0x0006"
definition kKeyLidarImuHostIpCfg :: u16 where "kKeyLidarImuHostIpCfg = 0x0007"
definition kKeyCtlHostIpCfg :: u16 where "kKeyCtlHostIpCfg = 0x0008"
definition kKeyLogHostIpCfg :: u16 where "kKeyLogHostIpCfg = 0x0009"
definition kKeyVehicleSpeed :: u16 where "kKeyVehicleSpeed = 0x0010"
definition kKeyEnvironmentTemp :: u16 where "kKeyEnvironmentTemp = 0x0011"
definition kKeyInstallAttitude :: u16 where "kKeyInstallAttitude = 0x0012"
definition kKeyBlindSpotSet :: u16 where "kKeyBlindSpotSet = 0x0013"
definition kKeyFrameRate :: u16 where "kKeyFrameRate = 0x0014"
definition kKeyFovCfg0 :: u16 where "kKeyFovCfg0 = 0x0015"
definition kKeyFovCfg1 :: u16 where "kKeyFovCfg1 = 0x0016"
definition kKeyFovCfgEn :: u16 where "kKeyFovCfgEn = 0x0017"
definition kKeyDetectMode :: u16 where "kKeyDetectMode = 0x0018"
definition kKeyFuncIoCfg :: u16 where "kKeyFuncIoCfg = 0x0019"
definition kKeyWorkModeAfterBoot :: u16 where "kKeyWorkModeAfterBoot = 0x0020"
definition kKeyWorkMode :: u16 where "kKeyWorkMode = 0x001A"
definition kKeyGlassHeat :: u16 where "kKeyGlassHeat = 0x001B"
definition kKeyImuDataEn :: u16 where "kKeyImuDataEn = 0x001C"
definition kKeyFusaEn :: u16 where "kKeyFusaEn = 0x001D"
definition kKeyForceHeatEn :: u16 where "kKeyForceHeatEn = 0x001E"
definition kKeyLogParamSet :: u16 where "kKeyLogParamSet = 0x7FFF"
definition kKeySn :: u16 where "kKeySn = 0x8000"
definition kKeyProductInfo :: u16 where "kKeyProductInfo = 0x8001"
definition kKeyVersionApp :: u16 where "kKeyVersionApp = 0x8002"
definition kKeyVersionLoader :: u16 where "kKeyVersionLoader = 0x8003"
definition kKeyVersionHardware :: u16 where "kKeyVersionHardware = 0x8004"
definition kKeyMac :: u16 where "kKeyMac = 0x8005"
definition kKeyCurWorkState :: u16 where "kKeyCurWorkState = 0x8006"
definition kKeyCoreTemp :: u16 where "kKeyCoreTemp = 0x8007"
definition kKeyPowerUpCnt :: u16 where "kKeyPowerUpCnt = 0x8008"
definition kKeyLocalTimeNow :: u16 where "kKeyLocalTimeNow = 0x8009"
definition kKeyLastSyncTime :: u16 where "kKeyLastSyncTime = 0x800A"
definition kKeyTimeOffset :: u16 where "kKeyTimeOffset = 0x800B"
definition kKeyTimeSyncType :: u16 where "kKeyTimeSyncType = 0x800C"
definition kKeyStatusCode :: u16 where "kKeyStatusCode = 0x800D"
definition kKeyLidarDiagStatus :: u16 where "kKeyLidarDiagStatus = 0x800E"
definition kKeyLidarFlashStatus :: u16 where "kKeyLidarFlashStatus = 0x800F"
definition kKeyFwType :: u16 where "kKeyFwType = 0x8010"
definition kKeyHmsCode :: u16 where "kKeyHmsCode = 0x8011"
definition kKeyCurGlassHeatState :: u16 where "kKeyCurGlassHeatState = 0x8012"
definition kKeyRoiMode :: u16 where "kKeyRoiMode = 0xFFFE"

lemmas key_values = kKeyPclDataType_def kKeyPatternMode_def kKeyDualEmitEn_def kKeyPointSendEn_def
  kKeyLidarIpCfg_def kKeyStateInfoHostIpCfg_def kKeyLidarPointDataHostIpCfg_def
  kKeyLidarImuHostIpCfg_def kKeyCtlHostIpCfg_def kKeyLogHostIpCfg_def kKeyVehicleSpeed_def
  kKeyEnvironmentTemp_def kKeyInstallAttitude_def kKeyBlindSpotSet_def kKeyFrameRate_def
  kKeyFovCfg0_def kKeyFovCfg1_def kKeyFovCfgEn_def kKeyDetectMode_def kKeyFuncIoCfg_def
  kKeyWorkModeAfterBoot_def kKeyWorkMode_def kKeyGlassHeat_def kKeyImuDataEn_def kKeyFusaEn_def
  kKeyForceHeatEn_def kKeyLogParamSet_def kKeySn_def kKeyProductInfo_def kKeyVersionApp_def
  kKeyVersionLoader_def kKeyVersionHardware_def kKeyMac_def kKeyCurWorkState_def kKeyCoreTemp_def
  kKeyPowerUpCnt_def kKeyLocalTimeNow_def kKeyLastSyncTime_def kKeyTimeOffset_def
  kKeyTimeSyncType_def kKeyStatusCode_def kKeyLidarDiagStatus_def kKeyLidarFlashStatus_def
  kKeyFwType_def kKeyHmsCode_def kKeyCurGlassHeatState_def kKeyRoiMode_def

definition kLivoxLidarTypeMid360 :: u8 where "kLivoxLidarTypeMid360 = 9"
definition kLivoxLidarTypeIndustrialHAP :: u8 where "kLivoxLidarTypeIndustrialHAP = 10"
definition kLivoxLidarTypePA :: u8 where "kLivoxLidarTypePA = 16"

definition kHAPPointDataPort :: u16 where "kHAPPointDataPort = 57000"
definition kHAPIMUPort :: u16 where "kHAPIMUPort = 58000"
definition kMid360LidarPushMsgPort :: u16 where "kMid360LidarPushMsgPort = 56200"
definition kMid360LidarPointCloudPort :: u16 where "kMid360LidarPointCloudPort = 56300"
definition kMid360LidarImuDataPort :: u16 where "kMid360LidarImuDataPort = 56400"
definition kPaLidarPointCloudPort :: u16 where "kPaLidarPointCloudPort = 10000"

text \<open>Addresses are C or C++ strings; the model has their text.\<close>

record HostNetInfo =
  host_ip :: string
  multicast_ip :: string
  host_push_msg_port :: u16
  host_point_data_port :: u16
  host_imu_data_port :: u16

record LivoxLidarCfg =
  cfg_device_type :: u8
  host_net_info :: HostNetInfo

record ViewLidarIpInfo =
  view_dev_type :: u8
  view_host_ip :: string
  view_lidar_point_port :: u16
  view_lidar_imu_data_port :: u16
  view_host_point_port :: u16
  view_host_imu_data_port :: u16

record LivoxLidarIpInfo =
  ip_addr :: string
  net_mask :: string
  gw_addr :: string

text \<open>The three host structures of the interface: an address and two ports.\<close>

record HostIpInfo =
  host_ip_addr :: string
  host_port :: u16
  lidar_port :: u16

section \<open>Configuration requests\<close>

definition InitHostIpAddr :: "string \<Rightarrow> req_error + u8 list" where
  "InitHostIpAddr ip = IpToU8 ip"

definition InitMulticastHostIpAddr :: "string \<Rightarrow> req_error + u8 list" where
  "InitMulticastHostIpAddr ip = IpToU8 ip"

definition InitLidarIpinfoVal :: "LivoxLidarIpInfo \<Rightarrow> req_error + u8 list" where
  "InitLidarIpinfoVal c = and_then (IpToU8 (ip_addr c)) (\<lambda>ip. and_then (IpToU8 (net_mask c)) (\<lambda>mask.
     and_then (IpToU8 (gw_addr c)) (\<lambda>gw. Inr (ip @ mask @ gw))))"

text \<open>\<open>HostIpInfoValue\<close>: four address bytes and the two ports.\<close>

definition host_value :: "u8 list \<Rightarrow> u16 \<Rightarrow> u16 \<Rightarrow> u8 list" where
  "host_value ip hport lport = ip @ le16 hport @ le16 lport"

definition BuildUpdateViewLidarCfgRequest :: "ViewLidarIpInfo \<Rightarrow> req_error + request" where
  "BuildUpdateViewLidarCfgRequest v =
     and_then (begin_request (if view_dev_type v = kLivoxLidarTypePA then 1 else 2)) (\<lambda>r.
     and_then (InitHostIpAddr (view_host_ip v)) (\<lambda>ip.
     and_then (put_kv kKeyLidarPointDataHostIpCfg
                 (host_value ip (view_host_point_port v) (view_lidar_point_port v)) r) (\<lambda>r.
     if view_dev_type v = kLivoxLidarTypePA then Inr r
     else and_then (InitHostIpAddr (view_host_ip v)) (\<lambda>ip.
       put_kv kKeyLidarImuHostIpCfg
         (host_value ip (view_host_imu_data_port v) (view_lidar_imu_data_port v)) r))))"

text \<open>The address a configuration names: the multicast one when there is one.\<close>

definition host_addr :: "HostNetInfo \<Rightarrow> req_error + u8 list" where
  "host_addr h = (if multicast_ip h = [] then InitHostIpAddr (host_ip h)
     else InitMulticastHostIpAddr (multicast_ip h))"

definition BuildUpdateMid360LidarCfgRequest :: "LivoxLidarCfg \<Rightarrow> req_error + request" where
  "BuildUpdateMid360LidarCfgRequest c = (let h = host_net_info c in
     and_then (begin_request 3) (\<lambda>r.
     and_then (InitHostIpAddr (host_ip h)) (\<lambda>_. and_then (host_addr h) (\<lambda>ip.
     and_then (put_kv kKeyStateInfoHostIpCfg
                 (host_value ip (host_push_msg_port h) kMid360LidarPushMsgPort) r) (\<lambda>r.
     and_then (host_addr h) (\<lambda>ip.
     and_then (put_kv kKeyLidarPointDataHostIpCfg
                 (host_value ip (host_point_data_port h) kMid360LidarPointCloudPort) r) (\<lambda>r.
     and_then (host_addr h) (\<lambda>ip.
       put_kv kKeyLidarImuHostIpCfg
         (host_value ip (host_imu_data_port h) kMid360LidarImuDataPort) r))))))))"

definition BuildUpdateLidarCfgRequest :: "LivoxLidarCfg \<Rightarrow> req_error + request" where
  "BuildUpdateLidarCfgRequest c = (let h = host_net_info c; ty = cfg_device_type c in
     and_then (begin_request (if ty = kLivoxLidarTypePA then 1 else 2)) (\<lambda>r.
     and_then (host_addr h) (\<lambda>ip.
     and_then (if ty = kLivoxLidarTypeIndustrialHAP then Inr kHAPPointDataPort
               else if ty = kLivoxLidarTypeMid360 then Inr kMid360LidarPointCloudPort
               else if ty = kLivoxLidarTypePA then Inr kPaLidarPointCloudPort
               else Inl Refused) (\<lambda>port.
     and_then (put_kv kKeyLidarPointDataHostIpCfg (host_value ip (host_point_data_port h) port) r) (\<lambda>r.
     if ty = kLivoxLidarTypePA then Inr r
     else and_then (host_addr h) (\<lambda>ip.
       and_then (if ty = kLivoxLidarTypeIndustrialHAP then Inr kHAPIMUPort
                 else if ty = kLivoxLidarTypeMid360 then Inr kMid360LidarImuDataPort
                 else Inl Refused) (\<lambda>port.
       put_kv kKeyLidarImuHostIpCfg (host_value ip (host_imu_data_port h) port) r)))))))"

definition BuildSetLidarIPInfoRequest :: "LivoxLidarIpInfo \<Rightarrow> req_error + request" where
  "BuildSetLidarIPInfoRequest c = and_then (begin_request 1) (\<lambda>r.
     and_then (InitLidarIpinfoVal c) (\<lambda>val. put_kv kKeyLidarIpCfg val r))"

definition BuildSetHostStateInfoIPCfgRequest :: "HostIpInfo \<Rightarrow> req_error + request" where
  "BuildSetHostStateInfoIPCfgRequest h = and_then (begin_request 1) (\<lambda>r.
     and_then (InitHostIpAddr (host_ip_addr h)) (\<lambda>ip.
       put_kv kKeyStateInfoHostIpCfg (host_value ip (host_port h) (lidar_port h)) r))"

definition BuildSetHostPointDataIPInfoRequest :: "HostIpInfo \<Rightarrow> req_error + request" where
  "BuildSetHostPointDataIPInfoRequest h = and_then (begin_request 1) (\<lambda>r.
     and_then (InitHostIpAddr (host_ip_addr h)) (\<lambda>ip.
       put_kv kKeyLidarPointDataHostIpCfg (host_value ip (host_port h) (lidar_port h)) r))"

definition BuildSetHostImuDataIPInfoRequest :: "HostIpInfo \<Rightarrow> req_error + request" where
  "BuildSetHostImuDataIPInfoRequest h = and_then (begin_request 1) (\<lambda>r.
     and_then (InitHostIpAddr (host_ip_addr h)) (\<lambda>ip.
       put_kv kKeyLidarImuHostIpCfg (host_value ip (host_port h) (lidar_port h)) r))"

section \<open>What the builders put into the buffer\<close>

definition builds :: "req_error + request \<Rightarrow> u8 list \<Rightarrow> bool" where
  "builds m bs \<longleftrightarrow> (\<exists>r. m = Inr r \<and> request_holds r bs)"

lemma builds_begin:
  "(\<And>r. request_holds r (request_bytes n []) \<Longrightarrow> builds (f r) out) \<Longrightarrow> builds (and_then (begin_request n) f) out"
  using begin_request_holds[of n] by fastforce

lemma request_bytes_snoc: "request_bytes n kvs @ kv_bytes kv = request_bytes n (kvs @ [kv])"
  by (simp add: request_bytes_def)

lemma builds_put:
  assumes "request_holds r (request_bytes n kvs)"
    "length (request_bytes n kvs) + 4 + length val \<le> kMaxCommandBufferSize"
    "\<And>r. request_holds r (request_bytes n (kvs @ [(key, val)])) \<Longrightarrow> builds (f r) out"
  shows "builds (and_then (put_kv key val r) f) out"
  using put_kv_holds[OF assms(1,2), of key] assms(3) by (fastforce simp: request_bytes_snoc)

lemma builds_last:
  assumes "request_holds r (request_bytes n kvs)"
    "length (request_bytes n kvs) + 4 + length val \<le> kMaxCommandBufferSize"
  shows "builds (put_kv key val r) (request_bytes n (kvs @ [(key, val)]))"
  using put_kv_holds[OF assms, of key] by (simp add: builds_def request_bytes_snoc)

lemma builds_value: "m = Inr x \<Longrightarrow> builds (f x) out \<Longrightarrow> builds (and_then m f) out"
  by simp

lemma length_request_bytes:
  "length (request_bytes n kvs) = 4 + (\<Sum>kv\<leftarrow>kvs. 4 + length (snd kv))"
  by (simp add: request_bytes_def length_concat comp_def)

lemmas request_room = length_request_bytes host_value_def kMaxCommandBufferSize_def

lemma mid360_request:
  assumes "IpToU8 (host_ip h) = Inr ip" "multicast_ip h = [] \<longrightarrow> mc = ip"
    "multicast_ip h \<noteq> [] \<longrightarrow> IpToU8 (multicast_ip h) = Inr mc" "host_net_info c = h"
  shows "builds (BuildUpdateMid360LidarCfgRequest c) (request_bytes 3
    [(kKeyStateInfoHostIpCfg, host_value mc (host_push_msg_port h) kMid360LidarPushMsgPort),
     (kKeyLidarPointDataHostIpCfg, host_value mc (host_point_data_port h) kMid360LidarPointCloudPort),
     (kKeyLidarImuHostIpCfg, host_value mc (host_imu_data_port h) kMid360LidarImuDataPort)])"
proof -
  have addr: "host_addr h = Inr mc" and host: "InitHostIpAddr (host_ip h) = Inr ip"
    using assms by (auto simp: host_addr_def InitHostIpAddr_def InitMulticastHostIpAddr_def)
  have mc: "length mc = 4" using assms IpToU8_length by blast
  show ?thesis
    unfolding BuildUpdateMid360LidarCfgRequest_def assms(4) Let_def host addr and_then.simps
    using mc by (intro builds_begin) (rule builds_put, assumption, simp add: request_room,
        rule builds_put, assumption, simp add: request_room,
        drule builds_last, simp_all add: request_room)
qed

end
