(* ===== verification/Livox_Commands.thy ===== *)
theory Livox_Commands
  imports Livox_Request
begin

text \<open>
  The command interface of the Livox SDK (\<open>command_handler/command_impl.cpp\<close>): each call builds the
  request that is handed to \<open>GeneralCommandHandler::SendCommand\<close> with its command identifier. A call
  that refuses returns -1 and command_sends nothing. C enumerations are 32-bit values cut to a byte, floats
  are the four bytes the code copies.
\<close>

section \<open>Requests\<close>

text \<open>The command identifier, the memory behind the data pointer and the length passed along.\<close>

type_synonym command_req = "u16 \<times> request"

definition kCommandIDLidarSearch :: u16 where "kCommandIDLidarSearch = 0x0000"
definition kCommandIDLidarWorkModeControl :: u16 where "kCommandIDLidarWorkModeControl = 0x0100"
definition kCommandIDLidarGetInternalInfo :: u16 where "kCommandIDLidarGetInternalInfo = 0x0101"
definition kCommandIDLidarPushMsg :: u16 where "kCommandIDLidarPushMsg = 0x0102"
definition kCommandIDLidarRebootDevice :: u16 where "kCommandIDLidarRebootDevice = 0x0200"
definition kCommandIDLidarResetDevice :: u16 where "kCommandIDLidarResetDevice = 0x0201"
definition kCommandIDLidarSetPPSSync :: u16 where "kCommandIDLidarSetPPSSync = 0x0202"

definition with_command :: "u16 \<Rightarrow> req_error + request \<Rightarrow> req_error + command_req" where
  "with_command cmd m = and_then m (\<lambda>r. Inr (cmd, r))"

record LivoxLidarInstallAttitude =
  roll_deg :: u32
  pitch_deg :: u32
  yaw_deg :: u32
  att_x :: u32
  att_y :: u32
  att_z :: u32

definition attitude_bytes :: "LivoxLidarInstallAttitude \<Rightarrow> u8 list" where
  "attitude_bytes a = le32 (roll_deg a) @ le32 (pitch_deg a) @ le32 (yaw_deg a) @
     le32 (att_x a) @ le32 (att_y a) @ le32 (att_z a)"

record FovCfg =
  yaw_start :: u32
  yaw_stop :: u32
  pitch_start :: u32
  pitch_stop :: u32
  fov_rsvd :: u32

definition fov_bytes :: "FovCfg \<Rightarrow> u8 list" where
  "fov_bytes f = le32 (yaw_start f) @ le32 (yaw_stop f) @ le32 (pitch_start f) @
     le32 (pitch_stop f) @ le32 (fov_rsvd f)"

record FuncIOCfg =
  io_in0 :: u8
  io_in1 :: u8
  io_out0 :: u8
  io_out1 :: u8

record LivoxLidarLogParam =
  log_send_method :: u8
  log_id :: u16
  log_frequency :: u16
  is_save_setting :: u8
  check_code :: u8

definition log_param_bytes :: "LivoxLidarLogParam \<Rightarrow> u8 list" where
  "log_param_bytes p = log_send_method p # le16 (log_id p) @ le16 (log_frequency p) @
     [is_save_setting p, check_code p]"

section \<open>Setting one parameter\<close>

text \<open>The body that every setter repeats: one key value parameter in a work mode command.\<close>

definition set_parameter :: "u16 \<Rightarrow> u8 list \<Rightarrow> req_error + command_req" where
  "set_parameter key val = with_command kCommandIDLidarWorkModeControl
     (and_then (begin_request 1) (put_kv key val))"

definition SetLivoxLidarPclDataType :: "u32 \<Rightarrow> req_error + command_req" where
  "SetLivoxLidarPclDataType data_type = set_parameter kKeyPclDataType [ucast data_type]"

definition SetLivoxLidarScanPattern :: "u32 \<Rightarrow> req_error + command_req" where
  "SetLivoxLidarScanPattern scan_pattern = set_parameter kKeyPatternMode [ucast scan_pattern]"

definition SetLivoxLidarDualEmit :: "bool \<Rightarrow> req_error + command_req" where
  "SetLivoxLidarDualEmit enable = set_parameter kKeyDualEmitEn [if enable then 1 else 0]"

definition EnableLivoxLidarPointSend :: "req_error + command_req" where
  "EnableLivoxLidarPointSend = set_parameter kKeyPointSendEn [0]"

definition DisableLivoxLidarPointSend :: "req_error + command_req" where
  "DisableLivoxLidarPointSend = set_parameter kKeyPointSendEn [1]"

definition SetLivoxLidarInstallAttitude :: "LivoxLidarInstallAttitude \<Rightarrow> req_error + command_req" where
  "SetLivoxLidarInstallAttitude att = set_parameter kKeyInstallAttitude (attitude_bytes att)"

definition SetLivoxLidarFovCfg0 :: "FovCfg \<Rightarrow> req_error + command_req" where
  "SetLivoxLidarFovCfg0 fov = set_parameter kKeyFovCfg0 (fov_bytes fov)"

definition SetLivoxLidarFovCfg1 :: "FovCfg \<Rightarrow> req_error + command_req" where
  "SetLivoxLidarFovCfg1 fov = set_parameter kKeyFovCfg1 (fov_bytes fov)"

definition EnableLivoxLidarFov :: "u8 \<Rightarrow> req_error + command_req" where
  "EnableLivoxLidarFov fov_en = set_parameter kKeyFovCfgEn [fov_en]"

definition DisableLivoxLidarFov :: "req_error + command_req" where
  "DisableLivoxLidarFov = set_parameter kKeyFovCfgEn [0]"

definition SetLivoxLidarDetectMode :: "u32 \<Rightarrow> req_error + command_req" where
  "SetLivoxLidarDetectMode mode = set_parameter kKeyDetectMode [ucast mode]"

definition SetLivoxLidarFuncIOCfg :: "FuncIOCfg \<Rightarrow> req_error + command_req" where
  "SetLivoxLidarFuncIOCfg io = set_parameter kKeyFuncIoCfg [io_in0 io, io_in1 io, io_out0 io, io_out1 io]"

definition SetLivoxLidarBlindSpot :: "u32 \<Rightarrow> req_error + command_req" where
  "SetLivoxLidarBlindSpot blind_spot = set_parameter kKeyBlindSpotSet (le32 blind_spot)"

definition SetLivoxLidarWorkMode :: "u32 \<Rightarrow> req_error + command_req" where
  "SetLivoxLidarWorkMode work_mode = set_parameter kKeyWorkMode [ucast work_mode]"

definition EnableLivoxLidarGlassHeat :: "req_error + command_req" where
  "EnableLivoxLidarGlassHeat = set_parameter kKeyGlassHeat [1]"

definition DisableLivoxLidarGlassHeat :: "req_error + command_req" where
  "DisableLivoxLidarGlassHeat = set_parameter kKeyGlassHeat [0]"

definition SetLivoxLidarGlassHeat :: "u32 \<Rightarrow> req_error + command_req" where
  "SetLivoxLidarGlassHeat glass_heat = set_parameter kKeyGlassHeat [ucast glass_heat]"

definition EnableLivoxLidarImuData :: "req_error + command_req" where
  "EnableLivoxLidarImuData = set_parameter kKeyImuDataEn [1]"

definition DisableLivoxLidarImuData :: "req_error + command_req" where
  "DisableLivoxLidarImuData = set_parameter kKeyImuDataEn [0]"

definition EnableLivoxLidarFusaFunciont :: "req_error + command_req" where
  "EnableLivoxLidarFusaFunciont = set_parameter kKeyFusaEn [1]"

definition DisableLivoxLidarFusaFunciont :: "req_error + command_req" where
  "DisableLivoxLidarFusaFunciont = set_parameter kKeyFusaEn [0]"

definition StartForcedHeating :: "req_error + command_req" where
  "StartForcedHeating = set_parameter kKeyForceHeatEn [1]"

definition StopForcedHeating :: "req_error + command_req" where
  "StopForcedHeating = set_parameter kKeyForceHeatEn [0]"

definition SetLivoxLidarLogParam :: "LivoxLidarLogParam \<Rightarrow> req_error + command_req" where
  "SetLivoxLidarLogParam p = set_parameter kKeyLogParamSet (log_param_bytes p)"

definition SetLivoxLidarWorkModeAfterBoot :: "u32 \<Rightarrow> req_error + command_req" where
  "SetLivoxLidarWorkModeAfterBoot work_mode = set_parameter kKeyWorkModeAfterBoot [ucast work_mode]"

section \<open>Addresses\<close>

definition SetLivoxLidarIp :: "LivoxLidarIpInfo \<Rightarrow> req_error + command_req" where
  "SetLivoxLidarIp c = with_command kCommandIDLidarWorkModeControl (BuildSetLidarIPInfoRequest c)"

definition SetLivoxLidarStateInfoHostIPCfg :: "HostIpInfo \<Rightarrow> req_error + command_req" where
  "SetLivoxLidarStateInfoHostIPCfg h =
     with_command kCommandIDLidarWorkModeControl (BuildSetHostStateInfoIPCfgRequest h)"

definition SetLivoxLidarPointDataHostIPCfg :: "HostIpInfo \<Rightarrow> req_error + command_req" where
  "SetLivoxLidarPointDataHostIPCfg h =
     with_command kCommandIDLidarWorkModeControl (BuildSetHostPointDataIPInfoRequest h)"

definition SetLivoxLidarImuDataHostIPCfg :: "HostIpInfo \<Rightarrow> req_error + command_req" where
  "SetLivoxLidarImuDataHostIPCfg h =
     with_command kCommandIDLidarWorkModeControl (BuildSetHostImuDataIPInfoRequest h)"

section \<open>Queries\<close>

text \<open>The keys asked for, in the order of the set that holds them. An unknown device has none.\<close>

definition hap_query_keys :: "u16 list" where
  "hap_query_keys = [kKeyPclDataType, kKeyPatternMode, kKeyDualEmitEn, kKeyPointSendEn, kKeyLidarIpCfg,
     kKeyLidarPointDataHostIpCfg, kKeyLidarImuHostIpCfg, kKeyLogHostIpCfg, kKeyInstallAttitude,
     kKeyBlindSpotSet, kKeyWorkMode, kKeyGlassHeat, kKeyImuDataEn, kKeyFusaEn, kKeyForceHeatEn, kKeySn,
     kKeyProductInfo, kKeyVersionApp, kKeyVersionLoader, kKeyVersionHardware, kKeyMac, kKeyCurWorkState,
     kKeyStatusCode, kKeyLidarDiagStatus, kKeyLidarFlashStatus, kKeyFwType, kKeyCurGlassHeatState]"

definition mid360_query_keys :: "u16 list" where
  "mid360_query_keys = [kKeyPclDataType, kKeyPatternMode, kKeyLidarIpCfg, kKeyStateInfoHostIpCfg,
     kKeyLidarPointDataHostIpCfg, kKeyLidarImuHostIpCfg, kKeyInstallAttitude, kKeyFovCfg0, kKeyFovCfg1,
     kKeyFovCfgEn, kKeyDetectMode, kKeyFuncIoCfg, kKeyWorkMode, kKeyImuDataEn, kKeySn, kKeyProductInfo,
     kKeyVersionApp, kKeyVersionLoader, kKeyVersionHardware, kKeyMac, kKeyCurWorkState, kKeyCoreTemp,
     kKeyPowerUpCnt, kKeyLocalTimeNow, kKeyLastSyncTime, kKeyTimeOffset, kKeyTimeSyncType,
     kKeyLidarDiagStatus, kKeyFwType, kKeyHmsCode]"

definition GetQueryLidarInternalInfoKeys :: "(u32 \<rightharpoonup> u8) \<Rightarrow> u32 \<Rightarrow> u16 list option" where
  "GetQueryLidarInternalInfoKeys dev_types handle = (case dev_types handle of
     None \<Rightarrow> None
   | Some ty \<Rightarrow> if ty = kLivoxLidarTypeIndustrialHAP then Some hap_query_keys
                else if ty = kLivoxLidarTypeMid360 then Some mid360_query_keys else None)"

fun put_keys :: "u16 list \<Rightarrow> request \<Rightarrow> req_error + request" where
  "put_keys [] r = Inr r"
| "put_keys (k # ks) r = and_then (put_key k r) (put_keys ks)"

definition query_request :: "u16 list \<Rightarrow> req_error + command_req" where
  "query_request keys = with_command kCommandIDLidarGetInternalInfo
     (and_then (begin_request (of_nat (length keys))) (put_keys keys))"

definition QueryLivoxLidarInternalInfo :: "(u32 \<rightharpoonup> u8) \<Rightarrow> u32 \<Rightarrow> req_error + command_req" where
  "QueryLivoxLidarInternalInfo dev_types handle =
     (case GetQueryLidarInternalInfoKeys dev_types handle of
        None \<Rightarrow> Inl Refused | Some keys \<Rightarrow> query_request keys)"

definition QueryLivoxLidarFwType :: "req_error + command_req" where
  "QueryLivoxLidarFwType = query_request [kKeyFwType]"

definition QueryLivoxLidarFirmwareVer :: "req_error + command_req" where
  "QueryLivoxLidarFirmwareVer = query_request [kKeyVersionApp]"

section \<open>Reboot, reset and time\<close>

definition LivoxLidarRequestReboot :: command_req where
  "LivoxLidarRequestReboot = (kCommandIDLidarRebootDevice, (le16 100, 2))"

text \<open>
  The serial number is copied into a request of 16 bytes that is not initialised: \<open>junk\<close> is what the
  stack held. \<open>None\<close>: no such device, or a serial number longer than the request.
\<close>

definition LivoxLidarRequestReset :: "(u32 \<rightharpoonup> u8 list) \<Rightarrow> u8 list \<Rightarrow> u32 \<Rightarrow> command_req option" where
  "LivoxLidarRequestReset serials junk handle = (case serials handle of None \<Rightarrow> None
     | Some sn \<Rightarrow> if 16 < length sn then None
         else Some (kCommandIDLidarResetDevice, (sn @ drop (length sn) junk, 16)))"

text \<open>\<open>Split\<close>: reading a stream line by line drops an empty piece at the end.\<close>

function Split :: "string \<Rightarrow> char \<Rightarrow> string list" where
  "Split s p = (if s = [] then [] else case dropWhile (\<lambda>c. c \<noteq> p) s of
     [] \<Rightarrow> [s] | _ # rest \<Rightarrow> takeWhile (\<lambda>c. c \<noteq> p) s # Split rest p)"
  by auto
termination
proof (relation "measure (length \<circ> fst)")
  fix s :: string and p c rest
  assume "dropWhile (\<lambda>c. c \<noteq> p) s = c # rest"
  then show "((rest, p), s, p) \<in> measure (length \<circ> fst)"
    using length_dropWhile_le[of "\<lambda>c. c \<noteq> p" s] by simp
qed simp

declare Split.simps [simp del]

text \<open>
  The time stamp itself depends on the time zone of the host and is a parameter. The size test
  admits nine fields, and the tenth is read.
\<close>

definition field_at :: "string list \<Rightarrow> nat \<Rightarrow> ub + string" where
  "field_at fs i = (if i < length fs then Inr (fs ! i) else Inl OutOfRange)"

definition ParseGPRMC :: "(string \<Rightarrow> string \<Rightarrow> u64) \<Rightarrow> string \<Rightarrow> ub + u64" where
  "ParseGPRMC StringToTimestamp gprmc = (let fs = Split gprmc (CHR '','') in
     if length fs < 9 then Inr 0
     else bind_ub (field_at fs 1) (\<lambda>t. if length t < 6 then Inr 0
     else bind_ub (field_at fs 9) (\<lambda>d. if length d < 6 then Inr 0
     else let time = ''20'' @ drop 4 d @ ''-'' @ take 2 (drop 2 d) @ ''-'' @ take 2 d @ '' '' @
                take 2 t @ '':'' @ take 2 (drop 2 t) @ '':'' @ take 2 (drop 4 t)
          in Inr (StringToTimestamp ''%Y-%m-%d %H:%M:%S'' time * 1000 * 1000 * 1000))))"

definition SetLivoxLidarRmcSyncTime :: "(string \<Rightarrow> string \<Rightarrow> u64) \<Rightarrow> string \<Rightarrow> ub + command_req" where
  "SetLivoxLidarRmcSyncTime ts rmc = bind_ub (ParseGPRMC ts rmc) (\<lambda>ns.
     Inr (kCommandIDLidarSetPPSSync, (2 # le 8 ns, 9)))"

section \<open>What is sent\<close>

definition command_sends :: "req_error + command_req \<Rightarrow> u16 \<Rightarrow> u8 list \<Rightarrow> bool" where
  "command_sends m cmd bs \<longleftrightarrow> (\<exists>r. m = Inr (cmd, r) \<and> request_holds r bs)"

lemma sends_with_command: "builds m bs \<Longrightarrow> command_sends (with_command cmd m) cmd bs"
  by (auto simp: command_sends_def builds_def with_command_def)

lemma sends_parameter:
  assumes "length val \<le> 1392"
  shows "command_sends (set_parameter key val) kCommandIDLidarWorkModeControl (request_bytes 1 [(key, val)])"
  unfolding set_parameter_def
proof (rule sends_with_command, rule builds_begin)
  fix r assume "request_holds r (request_bytes 1 [])"
  then show "builds (put_kv key val r) (request_bytes 1 [(key, val)])"
    using builds_last[of r 1 "[]" val key] assms by (simp add: request_room)
qed

lemmas setter_defs = SetLivoxLidarPclDataType_def SetLivoxLidarScanPattern_def SetLivoxLidarDualEmit_def
  EnableLivoxLidarPointSend_def DisableLivoxLidarPointSend_def SetLivoxLidarInstallAttitude_def
  SetLivoxLidarFovCfg0_def SetLivoxLidarFovCfg1_def EnableLivoxLidarFov_def
  DisableLivoxLidarFov_def SetLivoxLidarDetectMode_def SetLivoxLidarFuncIOCfg_def
  SetLivoxLidarBlindSpot_def SetLivoxLidarWorkMode_def EnableLivoxLidarGlassHeat_def
  DisableLivoxLidarGlassHeat_def SetLivoxLidarGlassHeat_def EnableLivoxLidarImuData_def
  DisableLivoxLidarImuData_def EnableLivoxLidarFusaFunciont_def DisableLivoxLidarFusaFunciont_def
  StartForcedHeating_def StopForcedHeating_def SetLivoxLidarLogParam_def
  SetLivoxLidarWorkModeAfterBoot_def

lemmas value_bytes = attitude_bytes_def fov_bytes_def log_param_bytes_def

lemma put_keys_holds:
  assumes "request_holds r bs" "length bs + 2 * length ks \<le> kMaxCommandBufferSize"
  shows "\<exists>r'. put_keys ks r = Inr r' \<and> request_holds r' (bs @ concat (map le16 ks))"
  using assms
proof (induction ks arbitrary: r bs)
  case (Cons k ks)
  obtain r1 where r1: "put_key k r = Inr r1" "request_holds r1 (bs @ le16 k)"
    using put_key_holds[OF Cons.prems(1), of k] Cons.prems(2) by auto
  obtain r2 where "put_keys ks r1 = Inr r2" "request_holds r2 ((bs @ le16 k) @ concat (map le16 ks))"
    using Cons.IH[OF r1(2)] Cons.prems(2) by auto
  then show ?case using r1 by simp
qed simp

lemma query_sends:
  assumes "length keys \<le> 698"
  shows "command_sends (query_request keys) kCommandIDLidarGetInternalInfo
    (le16 (of_nat (length keys)) @ [0, 0] @ concat (map le16 keys))"
  unfolding query_request_def
proof (rule sends_with_command, rule builds_begin)
  fix r :: request assume "request_holds r (request_bytes (of_nat (length keys)) [])"
  then show "builds (put_keys keys r) (le16 (of_nat (length keys)) @ [0, 0] @ concat (map le16 keys))"
    using put_keys_holds[of r "request_bytes (of_nat (length keys)) []" keys] assms
    by (simp add: builds_def request_bytes_def kMaxCommandBufferSize_def)
qed

lemma host_request_sends:
  assumes "IpToU8 (host_ip_addr h) = Inr ip"
  shows "builds (and_then (begin_request 1) (\<lambda>r. and_then (InitHostIpAddr (host_ip_addr h)) (\<lambda>ip.
       put_kv key (host_value ip (host_port h) (lidar_port h)) r)))
     (request_bytes 1 [(key, host_value ip (host_port h) (lidar_port h))])"
proof (rule builds_begin)
  fix r :: request assume "request_holds r (request_bytes 1 [])"
  then show "builds (and_then (InitHostIpAddr (host_ip_addr h)) (\<lambda>ip.
       put_kv key (host_value ip (host_port h) (lidar_port h)) r))
     (request_bytes 1 [(key, host_value ip (host_port h) (lidar_port h))])"
    using builds_last[of r 1 "[]" "host_value ip (host_port h) (lidar_port h)" key]
      IpToU8_length[OF assms] assms by (simp add: InitHostIpAddr_def request_room)
qed

lemma lidar_ip_sends:
  assumes "IpToU8 (ip_addr c) = Inr ip" "IpToU8 (net_mask c) = Inr nm" "IpToU8 (gw_addr c) = Inr gw"
  shows "command_sends (SetLivoxLidarIp c) kCommandIDLidarWorkModeControl
    (request_bytes 1 [(kKeyLidarIpCfg, ip @ nm @ gw)])"
  unfolding SetLivoxLidarIp_def BuildSetLidarIPInfoRequest_def
proof (rule sends_with_command, rule builds_begin)
  fix r :: request assume "request_holds r (request_bytes 1 [])"
  then show "builds (and_then (InitLidarIpinfoVal c) (\<lambda>val. put_kv kKeyLidarIpCfg val r))
      (request_bytes 1 [(kKeyLidarIpCfg, ip @ nm @ gw)])"
    using builds_last[of r 1 "[]" "ip @ nm @ gw" kKeyLidarIpCfg] assms assms[THEN IpToU8_length]
    by (simp add: InitLidarIpinfoVal_def request_room)
qed

text \<open>Nine fields pass the test and the date is read behind them.\<close>

lemma ParseGPRMC_error:
  "ParseGPRMC ts s = Inl e \<longleftrightarrow> e = OutOfRange \<and> length (Split s (CHR '','')) = 9 \<and>
     6 \<le> length (Split s (CHR '','') ! 1)"
  by (auto simp: ParseGPRMC_def Let_def field_at_def)

end
