(* ===== verification/Livox_State.thy ===== *)
theory Livox_State
  imports Livox_Commands
begin

text \<open>
  The state reports of the Livox devices (\<open>command_handler/parse_lidar_state_info.cpp\<close>): the walk over
  the key value parameters of a push message, which copies each value into the member of
  \<open>DirectLidarStateInfo\<close> its key names, and the JSON text made from the members. The JSON writer is
  the RapidJSON library; the model has the sequence of its calls.
\<close>

section \<open>The report\<close>

record LidarIpText =
  txt_ip :: string
  txt_mask :: string
  txt_gateway :: string

record HostIpText =
  txt_host_ip :: string
  txt_dst_port :: u16
  txt_src_port :: u16

text \<open>Members filled by \<open>memcpy\<close> are the bytes of their storage.\<close>

record DirectLidarStateInfo =
  si_pcl_data_type :: "u8 list"
  si_pattern_mode :: "u8 list"
  si_dual_emit_en :: "u8 list"
  si_point_send_en :: "u8 list"
  si_lidar_ipcfg :: LidarIpText
  si_host_state_info :: HostIpText
  si_pointcloud_host_ipcfg :: HostIpText
  si_imu_host_ipcfg :: HostIpText
  si_ctl_host_ipcfg :: HostIpText
  si_log_host_ipcfg :: HostIpText
  si_vehicle_speed :: "u8 list"
  si_environment_temp :: "u8 list"
  si_install_attitude :: "u8 list"
  si_blind_spot_set :: "u8 list"
  si_frame_rate :: "u8 list"
  si_fov_cfg0 :: "u8 list"
  si_fov_cfg1 :: "u8 list"
  si_fov_cfg_en :: "u8 list"
  si_detect_mode :: "u8 list"
  si_func_io_cfg :: "u8 list"
  si_work_tgt_mode :: "u8 list"
  si_glass_heat :: "u8 list"
  si_imu_data_en :: "u8 list"
  si_fusa_en :: "u8 list"
  si_sn :: "u8 list"
  si_product_info :: "u8 list"
  si_version_app :: "u8 list"
  si_version_loader :: "u8 list"
  si_version_hardware :: "u8 list"
  si_mac :: "u8 list"
  si_cur_work_state :: "u8 list"
  si_core_temp :: "u8 list"
  si_powerup_cnt :: "u8 list"
  si_local_time_now :: "u8 list"
  si_last_sync_time :: "u8 list"
  si_time_offset :: "u8 list"
  si_time_sync_type :: "u8 list"
  si_status_code :: "u8 list"
  si_lidar_diag_status :: "u8 list"
  si_lidar_flash_status :: "u8 list"
  si_fw_type :: "u8 list"
  si_hms_code :: "u8 list"
  si_ROI_Mode :: "u8 list"

section \<open>Values\<close>

text \<open>\<open>memcpy\<close> of a value of the report into a member: the length is the one the report states.\<close>

definition copy_value :: "(DirectLidarStateInfo \<Rightarrow> u8 list) \<Rightarrow>
    ((u8 list \<Rightarrow> u8 list) \<Rightarrow> DirectLidarStateInfo \<Rightarrow> DirectLidarStateInfo) \<Rightarrow>
    u16 \<Rightarrow> u16 \<Rightarrow> u8 list \<Rightarrow> DirectLidarStateInfo \<Rightarrow> ub + DirectLidarStateInfo" where
  "copy_value get upd off n data si =
     bind_ub (mem_read (unat off) (unat n) data) (\<lambda>bs.
     bind_ub (mem_write 0 bs (get si)) (\<lambda>storage. Inr (upd (\<lambda>_. storage) si)))"

definition read_ip :: "u16 \<Rightarrow> u8 list \<Rightarrow> ub + string" where
  "read_ip off data = bind_ub (mem_read (unat off) 4 data) (\<lambda>bs. Inr (dotted bs))"

definition ParseLidarIpAddr ::
    "u16 \<Rightarrow> u8 list \<Rightarrow> DirectLidarStateInfo \<Rightarrow> ub + DirectLidarStateInfo" where
  "ParseLidarIpAddr off data si = bind_ub (read_ip off data) (\<lambda>ip.
     bind_ub (read_ip (off + 4) data) (\<lambda>submask. bind_ub (read_ip (off + 8) data) (\<lambda>gw.
       Inr (si\<lparr>si_lidar_ipcfg := \<lparr>txt_ip = ip, txt_mask = submask, txt_gateway = gw\<rparr>\<rparr>))))"

definition ParseIpCfg :: "u16 \<Rightarrow> u8 list \<Rightarrow> ub + HostIpText" where
  "ParseIpCfg off data = bind_ub (read_ip off data) (\<lambda>ip.
     bind_ub (read16 (unat (off + 4)) data) (\<lambda>dst. bind_ub (read16 (unat (off + 6)) data) (\<lambda>src.
       Inr \<lparr>txt_host_ip = ip, txt_dst_port = dst, txt_src_port = src\<rparr>)))"

definition ParseStateInfoHostIPCfg ::
    "u16 \<Rightarrow> u8 list \<Rightarrow> DirectLidarStateInfo \<Rightarrow> ub + DirectLidarStateInfo" where
  "ParseStateInfoHostIPCfg off data si = bind_ub (read_ip off data) (\<lambda>ip.
     bind_ub (read16 (unat (off + 4)) data) (\<lambda>hport. bind_ub (read16 (unat (off + 6)) data) (\<lambda>lport.
       Inr (si\<lparr>si_host_state_info :=
         \<lparr>txt_host_ip = ip, txt_dst_port = hport, txt_src_port = lport\<rparr>\<rparr>))))"

definition ParsePointCloudHostIpCfg ::
    "u16 \<Rightarrow> u8 list \<Rightarrow> DirectLidarStateInfo \<Rightarrow> ub + DirectLidarStateInfo" where
  "ParsePointCloudHostIpCfg off data si = bind_ub (read_ip off data) (\<lambda>ip.
     bind_ub (read16 (unat (off + 4)) data) (\<lambda>hport. bind_ub (read16 (unat (off + 6)) data) (\<lambda>lport.
       Inr (si\<lparr>si_pointcloud_host_ipcfg :=
         \<lparr>txt_host_ip = ip, txt_dst_port = hport, txt_src_port = lport\<rparr>\<rparr>))))"

definition ParseImuDataHostIpCfg ::
    "u16 \<Rightarrow> u8 list \<Rightarrow> DirectLidarStateInfo \<Rightarrow> ub + DirectLidarStateInfo" where
  "ParseImuDataHostIpCfg off data si = bind_ub (read_ip off data) (\<lambda>ip.
     bind_ub (read16 (unat (off + 4)) data) (\<lambda>hport. bind_ub (read16 (unat (off + 6)) data) (\<lambda>lport.
       Inr (si\<lparr>si_imu_host_ipcfg :=
         \<lparr>txt_host_ip = ip, txt_dst_port = hport, txt_src_port = lport\<rparr>\<rparr>))))"

section \<open>The walk over the report\<close>

text \<open>The switch over the key, in two halves: the settings and the read only values.\<close>

definition parse_setting ::
    "u16 \<Rightarrow> u16 \<Rightarrow> u16 \<Rightarrow> u8 list \<Rightarrow> DirectLidarStateInfo \<Rightarrow> ub + DirectLidarStateInfo" where
  "parse_setting key off n data si =
    (if key = kKeyPclDataType then copy_value si_pcl_data_type si_pcl_data_type_update off n data si
     else if key = kKeyPatternMode then copy_value si_pattern_mode si_pattern_mode_update off n data si
     else if key = kKeyDualEmitEn then copy_value si_dual_emit_en si_dual_emit_en_update off n data si
     else if key = kKeyPointSendEn then copy_value si_point_send_en si_point_send_en_update off n data si
     else if key = kKeyLidarIpCfg then ParseLidarIpAddr off data si
     else if key = kKeyStateInfoHostIpCfg then ParseStateInfoHostIPCfg off data si
     else if key = kKeyLidarPointDataHostIpCfg then ParsePointCloudHostIpCfg off data si
     else if key = kKeyLidarImuHostIpCfg then ParseImuDataHostIpCfg off data si
     else if key = kKeyCtlHostIpCfg then bind_ub (ParseIpCfg off data) (\<lambda>c. Inr (si\<lparr>si_ctl_host_ipcfg := c\<rparr>))
     else if key = kKeyLogHostIpCfg then bind_ub (ParseIpCfg off data) (\<lambda>c. Inr (si\<lparr>si_log_host_ipcfg := c\<rparr>))
     else if key = kKeyVehicleSpeed then copy_value si_vehicle_speed si_vehicle_speed_update off n data si
     else if key = kKeyEnvironmentTemp then copy_value si_environment_temp si_environment_temp_update off n data si
     else if key = kKeyInstallAttitude then copy_value si_install_attitude si_install_attitude_update off n data si
     else if key = kKeyBlindSpotSet then copy_value si_blind_spot_set si_blind_spot_set_update off n data si
     else if key = kKeyFrameRate then copy_value si_frame_rate si_frame_rate_update off n data si
     else if key = kKeyFovCfg0 then copy_value si_fov_cfg0 si_fov_cfg0_update off n data si
     else if key = kKeyFovCfg1 then copy_value si_fov_cfg1 si_fov_cfg1_update off n data si
     else if key = kKeyFovCfgEn then copy_value si_fov_cfg_en si_fov_cfg_en_update off n data si
     else if key = kKeyDetectMode then copy_value si_detect_mode si_detect_mode_update off n data si
     else if key = kKeyFuncIoCfg then copy_value si_func_io_cfg si_func_io_cfg_update off n data si
     else if key = kKeyWorkMode then copy_value si_work_tgt_mode si_work_tgt_mode_update off n data si
     else if key = kKeyGlassHeat then copy_value si_glass_heat si_glass_heat_update off n data si
     else if key = kKeyImuDataEn then copy_value si_imu_data_en si_imu_data_en_update off n data si
     else if key = kKeyFusaEn then copy_value si_fusa_en si_fusa_en_update off n data si
     else Inr si)"

definition parse_status ::
    "u16 \<Rightarrow> u16 \<Rightarrow> u16 \<Rightarrow> u8 list \<Rightarrow> DirectLidarStateInfo \<Rightarrow> ub + DirectLidarStateInfo" where
  "parse_status key off n data si =
    (if key = kKeySn then copy_value si_sn si_sn_update off n data si
     else if key = kKeyProductInfo then copy_value si_product_info si_product_info_update off n data si
     else if key = kKeyVersionApp then copy_value si_version_app si_version_app_update off n data si
     else if key = kKeyVersionLoader then copy_value si_version_loader si_version_loader_update off n data si
     else if key = kKeyVersionHardware then copy_value si_version_hardware si_version_hardware_update off n data si
     else if key = kKeyMac then copy_value si_mac si_mac_update off n data si
     else if key = kKeyCurWorkState then copy_value si_cur_work_state si_cur_work_state_update off n data si
     else if key = kKeyCoreTemp then copy_value si_core_temp si_core_temp_update off n data si
     else if key = kKeyPowerUpCnt then copy_value si_powerup_cnt si_powerup_cnt_update off n data si
     else if key = kKeyLocalTimeNow then copy_value si_local_time_now si_local_time_now_update off n data si
     else if key = kKeyLastSyncTime then copy_value si_last_sync_time si_last_sync_time_update off n data si
     else if key = kKeyTimeOffset then copy_value si_time_offset si_time_offset_update off n data si
     else if key = kKeyTimeSyncType then copy_value si_time_sync_type si_time_sync_type_update off n data si
     else if key = kKeyStatusCode then copy_value si_status_code si_status_code_update off n data si
     else if key = kKeyLidarDiagStatus then copy_value si_lidar_diag_status si_lidar_diag_status_update off n data si
     else if key = kKeyLidarFlashStatus then copy_value si_lidar_flash_status si_lidar_flash_status_update off n data si
     else if key = kKeyFwType then copy_value si_fw_type si_fw_type_update off n data si
     else if key = kKeyHmsCode then copy_value si_hms_code si_hms_code_update off n data si
     else if key = kKeyRoiMode then copy_value si_ROI_Mode si_ROI_Mode_update off n data si
     else Inr si)"

definition setting_keys :: "u16 list" where
  "setting_keys = [kKeyPclDataType, kKeyPatternMode, kKeyDualEmitEn, kKeyPointSendEn, kKeyLidarIpCfg,
     kKeyStateInfoHostIpCfg, kKeyLidarPointDataHostIpCfg, kKeyLidarImuHostIpCfg,
     kKeyCtlHostIpCfg, kKeyLogHostIpCfg, kKeyVehicleSpeed, kKeyEnvironmentTemp,
     kKeyInstallAttitude, kKeyBlindSpotSet, kKeyFrameRate, kKeyFovCfg0, kKeyFovCfg1,
     kKeyFovCfgEn, kKeyDetectMode, kKeyFuncIoCfg, kKeyWorkMode, kKeyGlassHeat, kKeyImuDataEn,
     kKeyFusaEn]"

definition status_keys :: "u16 list" where
  "status_keys = [kKeySn, kKeyProductInfo, kKeyVersionApp, kKeyVersionLoader, kKeyVersionHardware, kKeyMac,
     kKeyCurWorkState, kKeyCoreTemp, kKeyPowerUpCnt, kKeyLocalTimeNow, kKeyLastSyncTime,
     kKeyTimeOffset, kKeyTimeSyncType, kKeyStatusCode, kKeyLidarDiagStatus, kKeyLidarFlashStatus,
     kKeyFwType, kKeyHmsCode, kKeyRoiMode]"

definition parse_value ::
    "u16 \<Rightarrow> u16 \<Rightarrow> u16 \<Rightarrow> u8 list \<Rightarrow> DirectLidarStateInfo \<Rightarrow> ub + DirectLidarStateInfo" where
  "parse_value key off n data si = (if key \<in> set setting_keys then parse_setting key off n data si
     else parse_status key off n data si)"

text \<open>
  One round of the loop per key the report announces; the offset is a 16-bit integer. \<open>False\<close>: the
  report ends too early, with what was parsed before.
\<close>

primrec parse_rounds :: "nat \<Rightarrow> u16 \<Rightarrow> u8 list \<Rightarrow> u16 \<Rightarrow> DirectLidarStateInfo \<times> u16 set \<Rightarrow>
    ub + bool \<times> DirectLidarStateInfo \<times> u16 set" where
  "parse_rounds 0 off data len st = Inr (True, st)"
| "parse_rounds (Suc i) off data len st =
     (if unat len < unat off + 5 then Inr (False, st) else
      bind_ub (read16 (unat off) data) (\<lambda>key.
      bind_ub (read16 (unat (off + 2)) data) (\<lambda>n.
      bind_ub (parse_value key (off + 4) n data (fst st)) (\<lambda>si.
        parse_rounds i (off + 4 + n) data len
          (si, if key \<in> set setting_keys \<union> set status_keys then insert key (snd st) else snd st)))))"

definition ParseStateInfo :: "CommPacket \<Rightarrow> DirectLidarStateInfo \<Rightarrow> u16 set \<Rightarrow>
    ub + bool \<times> DirectLidarStateInfo \<times> u16 set" where
  "ParseStateInfo p si keys = bind_ub (read16 0 (pk_data p)) (\<lambda>key_num.
     parse_rounds (unat key_num) 4 (pk_data p) (pk_data_len p) (si, keys))"

section \<open>What a report says\<close>

text \<open>The value of a key, as text and ports for the addresses and as bytes for the rest.\<close>

datatype state_value = Raw "u8 list" | LidarIp LidarIpText | HostIp HostIpText

definition state_of :: "DirectLidarStateInfo \<Rightarrow> u16 \<Rightarrow> state_value option" where
  "state_of si key =
    (if key = kKeyLidarIpCfg then Some (LidarIp (si_lidar_ipcfg si))
     else if key = kKeyStateInfoHostIpCfg then Some (HostIp (si_host_state_info si))
     else if key = kKeyLidarPointDataHostIpCfg then Some (HostIp (si_pointcloud_host_ipcfg si))
     else if key = kKeyLidarImuHostIpCfg then Some (HostIp (si_imu_host_ipcfg si))
     else if key = kKeyCtlHostIpCfg then Some (HostIp (si_ctl_host_ipcfg si))
     else if key = kKeyLogHostIpCfg then Some (HostIp (si_log_host_ipcfg si))
     else if key = kKeyPclDataType then Some (Raw (si_pcl_data_type si))
     else if key = kKeyPatternMode then Some (Raw (si_pattern_mode si))
     else if key = kKeyDualEmitEn then Some (Raw (si_dual_emit_en si))
     else if key = kKeyPointSendEn then Some (Raw (si_point_send_en si))
     else if key = kKeyVehicleSpeed then Some (Raw (si_vehicle_speed si))
     else if key = kKeyEnvironmentTemp then Some (Raw (si_environment_temp si))
     else if key = kKeyInstallAttitude then Some (Raw (si_install_attitude si))
     else if key = kKeyBlindSpotSet then Some (Raw (si_blind_spot_set si))
     else if key = kKeyFrameRate then Some (Raw (si_frame_rate si))
     else if key = kKeyFovCfg0 then Some (Raw (si_fov_cfg0 si))
     else if key = kKeyFovCfg1 then Some (Raw (si_fov_cfg1 si))
     else if key = kKeyFovCfgEn then Some (Raw (si_fov_cfg_en si))
     else if key = kKeyDetectMode then Some (Raw (si_detect_mode si))
     else if key = kKeyFuncIoCfg then Some (Raw (si_func_io_cfg si))
     else if key = kKeyWorkMode then Some (Raw (si_work_tgt_mode si))
     else if key = kKeyGlassHeat then Some (Raw (si_glass_heat si))
     else if key = kKeyImuDataEn then Some (Raw (si_imu_data_en si))
     else if key = kKeyFusaEn then Some (Raw (si_fusa_en si))
     else if key = kKeySn then Some (Raw (si_sn si))
     else if key = kKeyProductInfo then Some (Raw (si_product_info si))
     else if key = kKeyVersionApp then Some (Raw (si_version_app si))
     else if key = kKeyVersionLoader then Some (Raw (si_version_loader si))
     else if key = kKeyVersionHardware then Some (Raw (si_version_hardware si))
     else if key = kKeyMac then Some (Raw (si_mac si))
     else if key = kKeyCurWorkState then Some (Raw (si_cur_work_state si))
     else if key = kKeyCoreTemp then Some (Raw (si_core_temp si))
     else if key = kKeyPowerUpCnt then Some (Raw (si_powerup_cnt si))
     else if key = kKeyLocalTimeNow then Some (Raw (si_local_time_now si))
     else if key = kKeyLastSyncTime then Some (Raw (si_last_sync_time si))
     else if key = kKeyTimeOffset then Some (Raw (si_time_offset si))
     else if key = kKeyTimeSyncType then Some (Raw (si_time_sync_type si))
     else if key = kKeyStatusCode then Some (Raw (si_status_code si))
     else if key = kKeyLidarDiagStatus then Some (Raw (si_lidar_diag_status si))
     else if key = kKeyLidarFlashStatus then Some (Raw (si_lidar_flash_status si))
     else if key = kKeyFwType then Some (Raw (si_fw_type si))
     else if key = kKeyHmsCode then Some (Raw (si_hms_code si))
     else if key = kKeyRoiMode then Some (Raw (si_ROI_Mode si))
     else None)"

definition value_size :: "u16 \<Rightarrow> nat option" where
  "value_size key =
    (if key = kKeyLidarIpCfg then Some 12
     else if key = kKeyStateInfoHostIpCfg then Some 8
     else if key = kKeyLidarPointDataHostIpCfg then Some 8
     else if key = kKeyLidarImuHostIpCfg then Some 8
     else if key = kKeyCtlHostIpCfg then Some 8
     else if key = kKeyLogHostIpCfg then Some 8
     else if key = kKeyPclDataType then Some 1
     else if key = kKeyPatternMode then Some 1
     else if key = kKeyDualEmitEn then Some 1
     else if key = kKeyPointSendEn then Some 1
     else if key = kKeyVehicleSpeed then Some 4
     else if key = kKeyEnvironmentTemp then Some 4
     else if key = kKeyInstallAttitude then Some 24
     else if key = kKeyBlindSpotSet then Some 4
     else if key = kKeyFrameRate then Some 1
     else if key = kKeyFovCfg0 then Some 20
     else if key = kKeyFovCfg1 then Some 20
     else if key = kKeyFovCfgEn then Some 1
     else if key = kKeyDetectMode then Some 1
     else if key = kKeyFuncIoCfg then Some 4
     else if key = kKeyWorkMode then Some 1
     else if key = kKeyGlassHeat then Some 1
     else if key = kKeyImuDataEn then Some 1
     else if key = kKeyFusaEn then Some 1
     else if key = kKeySn then Some 16
     else if key = kKeyProductInfo then Some 64
     else if key = kKeyVersionApp then Some 4
     else if key = kKeyVersionLoader then Some 4
     else if key = kKeyVersionHardware then Some 4
     else if key = kKeyMac then Some 6
     else if key = kKeyCurWorkState then Some 1
     else if key = kKeyCoreTemp then Some 4
     else if key = kKeyPowerUpCnt then Some 4
     else if key = kKeyLocalTimeNow then Some 8
     else if key = kKeyLastSyncTime then Some 8
     else if key = kKeyTimeOffset then Some 8
     else if key = kKeyTimeSyncType then Some 1
     else if key = kKeyStatusCode then Some 32
     else if key = kKeyLidarDiagStatus then Some 2
     else if key = kKeyLidarFlashStatus then Some 1
     else if key = kKeyFwType then Some 1
     else if key = kKeyHmsCode then Some 32
     else if key = kKeyRoiMode then Some 1
     else None)"

definition address_keys :: "u16 list" where
  "address_keys = [kKeyLidarIpCfg, kKeyStateInfoHostIpCfg, kKeyLidarPointDataHostIpCfg, kKeyLidarImuHostIpCfg,
     kKeyCtlHostIpCfg, kKeyLogHostIpCfg]"

definition value_of :: "u16 \<Rightarrow> u8 list \<Rightarrow> state_value" where
  "value_of key v =
    (if key = kKeyLidarIpCfg then LidarIp \<lparr>txt_ip = dotted (take 4 v),
       txt_mask = dotted (take 4 (drop 4 v)), txt_gateway = dotted (take 4 (drop 8 v))\<rparr>
     else if key \<in> {kKeyStateInfoHostIpCfg, kKeyLidarPointDataHostIpCfg, kKeyLidarImuHostIpCfg,
       kKeyCtlHostIpCfg, kKeyLogHostIpCfg}
     then HostIp \<lparr>txt_host_ip = dotted (take 4 v), txt_dst_port = from_le (take 2 (drop 4 v)),
       txt_src_port = from_le (take 2 (drop 6 v))\<rparr>
     else Raw v)"

text \<open>The storage of every member has the size the header file gives it.\<close>

definition wf_state :: "DirectLidarStateInfo \<Rightarrow> bool" where
  "wf_state si \<longleftrightarrow>
    length (si_pcl_data_type si) = 1 \<and>
    length (si_pattern_mode si) = 1 \<and>
    length (si_dual_emit_en si) = 1 \<and>
    length (si_point_send_en si) = 1 \<and>
    length (si_vehicle_speed si) = 4 \<and>
    length (si_environment_temp si) = 4 \<and>
    length (si_install_attitude si) = 24 \<and>
    length (si_blind_spot_set si) = 4 \<and>
    length (si_frame_rate si) = 1 \<and>
    length (si_fov_cfg0 si) = 20 \<and>
    length (si_fov_cfg1 si) = 20 \<and>
    length (si_fov_cfg_en si) = 1 \<and>
    length (si_detect_mode si) = 1 \<and>
    length (si_func_io_cfg si) = 4 \<and>
    length (si_work_tgt_mode si) = 1 \<and>
    length (si_glass_heat si) = 1 \<and>
    length (si_imu_data_en si) = 1 \<and>
    length (si_fusa_en si) = 1 \<and>
    length (si_sn si) = 16 \<and>
    length (si_product_info si) = 64 \<and>
    length (si_version_app si) = 4 \<and>
    length (si_version_loader si) = 4 \<and>
    length (si_version_hardware si) = 4 \<and>
    length (si_mac si) = 6 \<and>
    length (si_cur_work_state si) = 1 \<and>
    length (si_core_temp si) = 4 \<and>
    length (si_powerup_cnt si) = 4 \<and>
    length (si_local_time_now si) = 8 \<and>
    length (si_last_sync_time si) = 8 \<and>
    length (si_time_offset si) = 8 \<and>
    length (si_time_sync_type si) = 1 \<and>
    length (si_status_code si) = 32 \<and>
    length (si_lidar_diag_status si) = 2 \<and>
    length (si_lidar_flash_status si) = 1 \<and>
    length (si_fw_type si) = 1 \<and>
    length (si_hms_code si) = 32 \<and>
    length (si_ROI_Mode si) = 1"

section \<open>One value\<close>

definition member_stored :: "DirectLidarStateInfo \<Rightarrow> u16 \<Rightarrow> u8 list \<Rightarrow> DirectLidarStateInfo \<Rightarrow> bool" where
  "member_stored si key v si' \<longleftrightarrow> wf_state si' \<and> state_of si' key = Some (value_of key v) \<and>
     (\<forall>k. k \<noteq> key \<longrightarrow> state_of si' k = state_of si k)"

text \<open>A key that is not an address has a member: the value is copied to it and to nothing else.\<close>

definition has_member :: "DirectLidarStateInfo \<Rightarrow> u16 \<Rightarrow> nat \<Rightarrow> bool" where
  "has_member si key m \<longleftrightarrow> (\<exists>get upd.
     (\<forall>off n data. parse_value key off n data si = copy_value get upd off n data si) \<and>
     length (get si) = m \<and> (\<forall>v. length v = m \<longrightarrow> member_stored si key v (upd (\<lambda>_. v) si)))"

lemma has_memberI:
  assumes "\<And>off n data. parse_value key off n data si = copy_value get upd off n data si"
    "length (get si) = m" "\<And>v. length v = m \<Longrightarrow> wf_state (upd (\<lambda>_. v) si)"
    "\<And>v. state_of (upd (\<lambda>_. v) si) key = Some (value_of key v)"
    "\<And>v k. k \<noteq> key \<Longrightarrow> state_of (upd (\<lambda>_. v) si) k = state_of si k"
  shows "has_member si key m"
  using assms unfolding has_member_def member_stored_def by metis

lemmas parse_defs = parse_value_def parse_setting_def parse_status_def setting_keys_def key_values

lemma setting_member:
  assumes "value_size key = Some m" "key \<notin> set status_keys"
    "key \<notin> set address_keys"
    "wf_state si"
  shows "has_member si key m"
proof -
  note sizes = assms(4)[unfolded wf_state_def]
  have "key = kKeyPclDataType \<and> m = 1 \<or>
      key = kKeyPatternMode \<and> m = 1 \<or>
      key = kKeyDualEmitEn \<and> m = 1 \<or>
      key = kKeyPointSendEn \<and> m = 1 \<or>
      key = kKeyVehicleSpeed \<and> m = 4 \<or>
      key = kKeyEnvironmentTemp \<and> m = 4 \<or>
      key = kKeyInstallAttitude \<and> m = 24 \<or>
      key = kKeyBlindSpotSet \<and> m = 4 \<or>
      key = kKeyFrameRate \<and> m = 1 \<or>
      key = kKeyFovCfg0 \<and> m = 20 \<or>
      key = kKeyFovCfg1 \<and> m = 20 \<or>
      key = kKeyFovCfgEn \<and> m = 1 \<or>
      key = kKeyDetectMode \<and> m = 1 \<or>
      key = kKeyFuncIoCfg \<and> m = 4 \<or>
      key = kKeyWorkMode \<and> m = 1 \<or>
      key = kKeyGlassHeat \<and> m = 1 \<or>
      key = kKeyImuDataEn \<and> m = 1 \<or>
      key = kKeyFusaEn \<and> m = 1"
    using assms(1-3)
    by (auto simp: value_size_def status_keys_def address_keys_def split: if_splits)
  then show ?thesis
    by (elim disjE conjE) (hypsubst, rule has_memberI, simp add: parse_defs, simp add: sizes,
        simp add: wf_state_def sizes, simp add: state_of_def value_of_def key_values,
        simp add: state_of_def)+
qed

lemma status_member:
  assumes "value_size key = Some m" "key \<notin> set setting_keys"
    "wf_state si"
  shows "has_member si key m"
proof -
  note sizes = assms(3)[unfolded wf_state_def]
  have "key = kKeySn \<and> m = 16 \<or>
      key = kKeyProductInfo \<and> m = 64 \<or>
      key = kKeyVersionApp \<and> m = 4 \<or>
      key = kKeyVersionLoader \<and> m = 4 \<or>
      key = kKeyVersionHardware \<and> m = 4 \<or>
      key = kKeyMac \<and> m = 6 \<or>
      key = kKeyCurWorkState \<and> m = 1 \<or>
      key = kKeyCoreTemp \<and> m = 4 \<or>
      key = kKeyPowerUpCnt \<and> m = 4 \<or>
      key = kKeyLocalTimeNow \<and> m = 8 \<or>
      key = kKeyLastSyncTime \<and> m = 8 \<or>
      key = kKeyTimeOffset \<and> m = 8 \<or>
      key = kKeyTimeSyncType \<and> m = 1 \<or>
      key = kKeyStatusCode \<and> m = 32 \<or>
      key = kKeyLidarDiagStatus \<and> m = 2 \<or>
      key = kKeyLidarFlashStatus \<and> m = 1 \<or>
      key = kKeyFwType \<and> m = 1 \<or>
      key = kKeyHmsCode \<and> m = 32 \<or>
      key = kKeyRoiMode \<and> m = 1"
    using assms(1,2)
    by (auto simp: value_size_def setting_keys_def split: if_splits)
  then show ?thesis
    by (elim disjE conjE) (hypsubst, rule has_memberI, simp add: parse_defs, simp add: sizes,
        simp add: wf_state_def sizes, simp add: state_of_def value_of_def key_values,
        simp add: state_of_def)+
qed


text \<open>The values of the address keys are read at fixed distances from their start.\<close>

lemma mem_read_part:
  assumes "mem_read (unat (off :: u16)) k data = Inr v" "unat off + k \<le> 65535" "d + m \<le> k"
  shows "mem_read (unat (off + of_nat d)) m data = Inr (take m (drop d v))"
proof -
  have "unat (off + of_nat d) = unat off + d"
    using assms(2,3) by (subst unat_add_lem[THEN iffD1]) (auto simp: unat_of_nat take_bit_nat_eq_self)
  then show ?thesis
    using assms(1,3) by (auto simp: mem_read_ok add_ac drop_take min_def)
qed

lemma address_value:
  assumes "mem_read (unat (off :: u16)) k data = Inr v" "unat off + k \<le> 65535" "8 \<le> k"
  shows "read_ip off data = Inr (dotted (take 4 v))"
    "read_ip (off + 4) data = Inr (dotted (take 4 (drop 4 v)))"
    "read16 (unat (off + 4)) data = Inr (from_le (take 2 (drop 4 v)))"
    "read16 (unat (off + 6)) data = Inr (from_le (take 2 (drop 6 v)))"
  using mem_read_part[OF assms(1,2), of 0 4] mem_read_part[OF assms(1,2), of 4 4]
    mem_read_part[OF assms(1,2), of 4 2] mem_read_part[OF assms(1,2), of 6 2] assms(3)
  by (simp_all add: read_ip_def read16_def)

lemma parse_value_address:
  assumes "value_size key = Some (length v)" "key \<in> set address_keys" "wf_state si"
    "mem_read (unat off) (length v) data = Inr v" "unat off + length v \<le> 65535"
  shows "\<exists>si'. parse_value key off n data si = Inr si' \<and> member_stored si key v si'"
proof (cases "key = kKeyLidarIpCfg")
  case True
  then have v: "length v = 12" using assms(1) by (simp add: value_size_def)
  have "read_ip (off + 8) data = Inr (dotted (take 4 (drop 8 v)))"
    using mem_read_part[OF assms(4,5), of 8 4] v by (simp add: read_ip_def)
  then have "parse_value key off n data si = Inr (si\<lparr>si_lidar_ipcfg := \<lparr>txt_ip = dotted (take 4 v),
      txt_mask = dotted (take 4 (drop 4 v)), txt_gateway = dotted (take 4 (drop 8 v))\<rparr>\<rparr>)"
    using address_value[OF assms(4,5)] v True by (simp add: parse_defs ParseLidarIpAddr_def)
  moreover have "wf_state (si\<lparr>si_lidar_ipcfg := t\<rparr>)" for t using assms(3) by (simp add: wf_state_def)
  ultimately show ?thesis by (simp add: member_stored_def True state_of_def value_of_def)
next
  case False
  note sizes = assms(3)[unfolded wf_state_def]
  have "key = kKeyStateInfoHostIpCfg \<or> key = kKeyLidarPointDataHostIpCfg \<or> key = kKeyLidarImuHostIpCfg \<or>
      key = kKeyCtlHostIpCfg \<or> key = kKeyLogHostIpCfg" (is ?host)
    using assms(2) False by (simp add: address_keys_def)
  moreover from this have "length v = 8" using assms(1) by (elim disjE) (simp_all add: value_size_def key_values)
  ultimately show ?thesis
    using address_value[OF assms(4,5)]
    by (elim disjE) (simp_all add: parse_defs ParseStateInfoHostIPCfg_def ParsePointCloudHostIpCfg_def
        ParseImuDataHostIpCfg_def ParseIpCfg_def member_stored_def wf_state_def sizes state_of_def value_of_def)
qed


lemma value_size_None: "value_size k = None \<longleftrightarrow> k \<notin> set setting_keys \<union> set status_keys"
  by (auto simp: value_size_def setting_keys_def status_keys_def)

lemma address_settings: "set address_keys \<subseteq> set setting_keys"
  by (simp add: address_keys_def setting_keys_def)

lemma setting_not_status: "k \<in> set setting_keys \<Longrightarrow> k \<notin> set status_keys"
  by (auto simp: setting_keys_def status_keys_def key_values)

lemma parse_value_unknown: "value_size k = None \<Longrightarrow> parse_value k off n data si = Inr si"
  by (simp add: value_size_None parse_value_def parse_status_def status_keys_def)

lemma value_member:
  assumes "value_size key = Some m" "key \<notin> set address_keys" "wf_state si"
  shows "has_member si key m"
  using setting_member[OF assms(1) _ assms(2,3)] status_member[OF assms(1) _ assms(3)]
    setting_not_status by blast

lemma parse_value_stored:
  assumes "value_size key = Some (length v)" "wf_state si" "mem_read (unat off) (length v) data = Inr v"
    "unat off + length v \<le> 65535" "unat n = length v"
  shows "\<exists>si'. parse_value key off n data si = Inr si' \<and> member_stored si key v si'"
proof (cases "key \<in> set address_keys")
  case True
  then show ?thesis using parse_value_address assms by blast
next
  case False
  have "mem_read (unat off) (unat n) data = Inr v" using assms by simp
  then show ?thesis
    using value_member[OF assms(1) False assms(2)]
    by (auto simp: has_member_def copy_value_def mem_write_def)
qed

text \<open>A stated length beyond the report reads outside it, one beyond the member writes outside that.\<close>

lemma parse_value_error:
  assumes "value_size key = Some m" "key \<notin> set address_keys" "wf_state si"
  shows "parse_value key off n data si = Inl e \<longleftrightarrow>
    e = OutOfRange \<and> (length data < unat off + unat n \<or> m < unat n)"
proof -
  obtain get and upd :: "(u8 list \<Rightarrow> u8 list) \<Rightarrow> DirectLidarStateInfo \<Rightarrow> DirectLidarStateInfo"
    where 1: "parse_value key off n data si = copy_value get upd off n data si" and 2: "length (get si) = m"
    using value_member[OF assms] unfolding has_member_def by blast
  show ?thesis
    unfolding 1 copy_value_def by (auto simp: 2 mem_write_def mem_read_def)
qed

section \<open>A whole report\<close>

definition good_value :: "u16 \<times> u8 list \<Rightarrow> bool" where
  "good_value kv \<longleftrightarrow> snd kv \<noteq> [] \<and>
     (case value_size (fst kv) of Some m \<Rightarrow> length (snd kv) = m | None \<Rightarrow> True)"

definition report_bytes :: "u8 list \<Rightarrow> (u16 \<times> u8 list) list \<Rightarrow> u8 list" where
  "report_bytes rsvd kvs = le16 (of_nat (length kvs)) @ rsvd @ concat (map kv_bytes kvs)"

text \<open>What the members say after a report: the last value of each key, the rest as before.\<close>

definition says :: "(u16 \<times> u8 list) list \<Rightarrow> DirectLidarStateInfo \<Rightarrow> DirectLidarStateInfo \<Rightarrow> bool" where
  "says kvs si si' \<longleftrightarrow> wf_state si' \<and> (\<forall>k. state_of si' k =
     (case map_of (rev kvs) k of Some v \<Rightarrow> if value_size k = None then None else Some (value_of k v)
      | None \<Rightarrow> state_of si k))"

definition known_keys :: "(u16 \<times> u8 list) list \<Rightarrow> u16 set" where
  "known_keys kvs = {k \<in> fst ` set kvs. value_size k \<noteq> None}"

lemma state_of_unknown: "value_size k = None \<Longrightarrow> state_of si k = None"
  by (simp add: state_of_def value_size_def split: if_splits)

lemma says_Cons:
  assumes "says kvs si1 si2" "if value_size k = None then si1 = si else member_stored si k v si1"
  shows "says ((k, v) # kvs) si si2"
  using assms state_of_unknown
  by (auto simp: says_def member_stored_def map_add_def split: option.splits if_splits)

lemma unat_u16: "unat (w :: u16) \<le> 65535"
proof -
  have "unat w < 2 ^ LENGTH(16)" by (rule unsigned_less)
  then show ?thesis by simp
qed

lemma kv_reads:
  assumes "data = pre @ kv_bytes (k, v) @ post" "unat (off :: u16) = length pre"
    "length pre + 4 + length v \<le> 65535"
  shows "read16 (unat off) data = Inr k" "read16 (unat (off + 2)) data = Inr (of_nat (length v))"
    "mem_read (unat (off + 4)) (length v) data = Inr v" "unat (off + 4) = length pre + 4"
    "unat (off + 4 + of_nat (length v)) = length pre + 4 + length v"
proof -
  have plus: "unat (off + of_nat d) = length pre + d" if "d \<le> 4 + length v" for d
    using assms(2,3) that by (subst unat_add_lem[THEN iffD1]) (auto simp: unat_of_nat take_bit_nat_eq_self)
  show "read16 (unat off) data = Inr k"
    by (simp add: read16_def assms(1,2) kv_bytes_def)
  show "read16 (unat (off + 2)) data = Inr (of_nat (length v))"
    using plus[of 2] by (simp add: read16_def assms(1) kv_bytes_def mem_read_def)
  show "mem_read (unat (off + 4)) (length v) data = Inr v"
    using plus[of 4] by (simp add: assms(1) kv_bytes_def mem_read_def)
  show "unat (off + 4) = length pre + 4" using plus[of 4] by simp
  show "unat (off + 4 + of_nat (length v)) = length pre + 4 + length v"
    using plus[of "4 + length v"] by (simp add: add.assoc)
qed

lemma parse_rounds_report:
  assumes "data = pre @ concat (map kv_bytes kvs) @ post" "unat off = length pre"
    "unat len = length pre + length (concat (map kv_bytes kvs))" "\<forall>kv \<in> set kvs. good_value kv"
    "wf_state si"
  shows "\<exists>si'. parse_rounds (length kvs) off data len (si, keys)
      = Inr (True, si', keys \<union> known_keys kvs) \<and> says kvs si si'"
  using assms
proof (induction kvs arbitrary: pre off si keys)
  case Nil
  then show ?case by (simp add: says_def known_keys_def)
next
  case (Cons kv kvs)
  obtain k v where kv: "kv = (k, v)" by (cases kv)
  have good: "v \<noteq> []" "value_size k = None \<or> value_size k = Some (length v)"
    using Cons.prems(4) kv by (auto simp: good_value_def split: option.splits)
  have bound: "length pre + 4 + length v \<le> unat len" using Cons.prems(3) kv by simp
  note top = unat_u16[of len]
  have data: "data = pre @ kv_bytes (k, v) @ (concat (map kv_bytes kvs) @ post)"
    using Cons.prems(1) kv by simp
  note reads = kv_reads[OF data Cons.prems(2) order_trans[OF bound top]]
  have enough: "\<not> unat len < unat off + 5"
    using bound good(1) Cons.prems(2) by (cases v) auto
  have n: "unat (of_nat (length v) :: u16) = length v"
    using bound top by (simp add: unat_of_nat take_bit_nat_eq_self)
  have "\<exists>si1. parse_value k (off + 4) (of_nat (length v)) data si = Inr si1 \<and>
      (if value_size k = None then si1 = si else member_stored si k v si1)"
  proof (cases "value_size k")
    case None
    then show ?thesis by (simp add: parse_value_unknown)
  next
    case (Some m)
    then have size: "value_size k = Some (length v)" using good(2) by simp
    have room: "unat (off + 4) + length v \<le> 65535" using reads(4) bound top by linarith
    show ?thesis using parse_value_stored[OF size Cons.prems(5) reads(3) room n] size by simp
  qed
  then obtain si1 where si1: "parse_value k (off + 4) (of_nat (length v)) data si = Inr si1"
      "if value_size k = None then si1 = si else member_stored si k v si1" by blast
  have wf1: "wf_state si1" using si1(2) Cons.prems(5) by (auto simp: member_stored_def split: if_splits)
  let ?keys = "if k \<in> set setting_keys \<union> set status_keys then insert k keys else keys"
  obtain si2 where si2: "parse_rounds (length kvs) (off + 4 + of_nat (length v)) data len (si1, ?keys)
      = Inr (True, si2, ?keys \<union> known_keys kvs)" "says kvs si1 si2"
    using Cons.IH[of "pre @ kv_bytes (k, v)" "off + 4 + of_nat (length v)" si1 ?keys] Cons.prems kv
      data reads(5) wf1 by auto
  have "?keys \<union> known_keys kvs = keys \<union> known_keys (kv # kvs)"
    using value_size_None[of k] by (auto simp: known_keys_def kv)
  moreover have "parse_rounds (length (kv # kvs)) off data len (si, keys)
      = parse_rounds (length kvs) (off + 4 + of_nat (length v)) data len (si1, ?keys)"
    using enough reads(1,2) si1(1) by simp
  ultimately show ?case using si2 says_Cons[OF si2(2) si1(2)] kv by metis
qed

lemma ParseStateInfo_report:
  assumes "length rsvd = 2" "take (unat (pk_data_len p)) (pk_data p) = report_bytes rsvd kvs"
    "unat (pk_data_len p) = length (report_bytes rsvd kvs)" "\<forall>kv \<in> set kvs. good_value kv" "wf_state si"
  shows "\<exists>si'. ParseStateInfo p si keys = Inr (True, si', keys \<union> known_keys kvs) \<and> says kvs si si'"
proof -
  have "length (concat (map kv_bytes kvs)) \<ge> 4 * length kvs"
    by (induction kvs) auto
  then have "length kvs < 65536"
    using assms(1,3) unat_u16[of "pk_data_len p"] by (simp add: report_bytes_def)
  then have few: "unat (of_nat (length kvs) :: u16) = length kvs"
    by (simp add: unat_of_nat take_bit_nat_eq_self)
  let ?pre = "le16 (of_nat (length kvs)) @ rsvd"
  let ?post = "drop (unat (pk_data_len p)) (pk_data p)"
  have data: "pk_data p = ?pre @ concat (map kv_bytes kvs) @ ?post"
    using append_take_drop_id[of "unat (pk_data_len p)" "pk_data p"] assms(2)
    by (simp add: report_bytes_def)
  have "read16 0 (pk_data p) = Inr (of_nat (length kvs))"
    by (subst data) (simp add: read16_def mem_read_def)
  moreover have "\<exists>si'. parse_rounds (length kvs) 4 (pk_data p) (pk_data_len p) (si, keys)
      = Inr (True, si', keys \<union> known_keys kvs) \<and> says kvs si si'"
    by (rule parse_rounds_report[OF data]) (use assms in \<open>simp_all add: report_bytes_def\<close>)
  ultimately show ?thesis by (simp add: ParseStateInfo_def few)
qed


section \<open>A configuration that is sent and reported back\<close>

text \<open>Requests and reports share their layout.\<close>

lemma request_report: "length kvs < 65536 \<Longrightarrow> request_bytes (of_nat (length kvs)) kvs = report_bytes [0, 0] kvs"
  by (simp add: request_bytes_def report_bytes_def)

text \<open>The packet a command handler makes of a request.\<close>

definition command_packet :: "u32 \<Rightarrow> u16 \<Rightarrow> request \<Rightarrow> CommPacket" where
  "command_packet seq cmd r = \<lparr>pk_protocol = kLidarSdk, pk_version = kSdkVer, pk_seq_num = seq,
     pk_cmd_id = cmd, pk_cmd_type = 0, pk_sender_type = 0, pk_data = fst r, pk_data_len = of_nat (snd r)\<rparr>"

lemma request_read_back:
  assumes r: "request_holds r (report_bytes [0, 0] kvs)" and good: "\<forall>kv \<in> set kvs. good_value kv" and wf: "wf_state si"
    and room: "length (report_bytes [0, 0] kvs) \<le> 1376" "unat sz = 1400" "1400 \<le> length buf"
  shows "\<exists>k buf'. SdkPack crc16 crc32 buf sz (command_packet seq cmd r) = Inr (Some k, buf') \<and>
    unat k \<le> length buf' \<and>
    (\<forall>m. unat k \<le> length m \<and> take (unat k) m = take (unat k) buf' \<longrightarrow>
      (\<exists>p si'. ParseCommStream (SdkCheckPreamble crc16 crc32) SdkParsePacket m k = Inr (Some p) \<and>
        ParseStateInfo p si {} = Inr (True, si', known_keys kvs) \<and> says kvs si si'))"
proof -
  let ?p = "command_packet seq cmd r" and ?bs = "report_bytes [0, 0] kvs"
  have len: "unat (pk_data_len ?p) = length ?bs"
    using r room(1) by (simp add: command_packet_def request_holds_def unat_of_nat take_bit_nat_eq_self)
  have data: "take (length ?bs) (pk_data ?p) = ?bs" "length (pk_data ?p) = 1400"
    using r by (simp_all add: command_packet_def request_holds_def kMaxCommandBufferSize_def)
  have fit: "fits buf sz ?p"
    using room len data(2) by (simp add: fits_def command_packet_def)
  obtain k buf' where pack: "SdkPack crc16 crc32 buf sz ?p = Inr (Some k, buf')" "unat k \<le> length buf'"
    and returns: "\<forall>m. unat k \<le> length m \<and> take (unat k) m = take (unat k) buf' \<longrightarrow>
      ParseCommStream (SdkCheckPreamble crc16 crc32) SdkParsePacket m k = Inr (Some (delivered ?p m))"
    using sdk.stream_roundtrip[OF fit, of crc16 crc32] by blast
  have "\<exists>si'. ParseStateInfo (delivered ?p m) si {} = Inr (True, si', known_keys kvs) \<and> says kvs si si'"
    if m: "unat k \<le> length m" "take (unat k) m = take (unat k) buf'" for m
  proof -
    have "take (length ?bs) (pk_data (delivered ?p m)) = ?bs"
      using delivered_data[OF fit pack(1) m] len data(1) by simp
    moreover have "pk_data_len (delivered ?p m) = pk_data_len ?p" by (simp add: delivered_def)
    ultimately show ?thesis
      using ParseStateInfo_report[of "[0, 0]" "delivered ?p m" kvs si "{}"] len good wf by simp
  qed
  then show ?thesis using pack returns by blast
qed


lemma mid360_config_read_back:
  assumes "host_ip h = dotted [a, b, c, d]" "multicast_ip h = []" "host_net_info cfg = h" "wf_state si"
  shows "\<exists>r k buf'. BuildUpdateMid360LidarCfgRequest cfg = Inr r \<and>
    SdkPack crc16 crc32 (replicate 1401 0) 1400 (command_packet seq cmd r) = Inr (Some k, buf') \<and>
    (\<exists>p si'. ParseCommStream (SdkCheckPreamble crc16 crc32) SdkParsePacket buf' k = Inr (Some p) \<and>
      ParseStateInfo p si {} =
        Inr (True, si', {kKeyStateInfoHostIpCfg, kKeyLidarPointDataHostIpCfg, kKeyLidarImuHostIpCfg}) \<and>
      si_host_state_info si' = \<lparr>txt_host_ip = dotted [a, b, c, d], txt_dst_port = host_push_msg_port h,
        txt_src_port = kMid360LidarPushMsgPort\<rparr> \<and>
      si_pointcloud_host_ipcfg si' = \<lparr>txt_host_ip = dotted [a, b, c, d],
        txt_dst_port = host_point_data_port h, txt_src_port = kMid360LidarPointCloudPort\<rparr> \<and>
      si_imu_host_ipcfg si' = \<lparr>txt_host_ip = dotted [a, b, c, d], txt_dst_port = host_imu_data_port h,
        txt_src_port = kMid360LidarImuDataPort\<rparr>)"
proof -
  let ?ip = "[a, b, c, d]"
  define kvs where "kvs =
    [(kKeyStateInfoHostIpCfg, host_value ?ip (host_push_msg_port h) kMid360LidarPushMsgPort),
     (kKeyLidarPointDataHostIpCfg, host_value ?ip (host_point_data_port h) kMid360LidarPointCloudPort),
     (kKeyLidarImuHostIpCfg, host_value ?ip (host_imu_data_port h) kMid360LidarImuDataPort)]"
  have "builds (BuildUpdateMid360LidarCfgRequest cfg) (request_bytes 3 kvs)"
    unfolding kvs_def by (rule mid360_request) (use assms IpToU8_dotted in simp_all)
  then obtain r where r: "BuildUpdateMid360LidarCfgRequest cfg = Inr r" "request_holds r (report_bytes [0, 0] kvs)"
    using request_report[of kvs] by (auto simp: builds_def kvs_def)
  have good: "\<forall>kv \<in> set kvs. good_value kv"
    by (simp add: kvs_def good_value_def value_size_def host_value_def key_values)
  have room: "length (report_bytes [0, 0] kvs) \<le> 1376" "unat (1400 :: u32) = 1400"
      "1400 \<le> length (replicate 1401 (0 :: u8))"
    by (simp_all add: report_bytes_def kvs_def host_value_def)
  obtain k buf' p si' where k: "SdkPack crc16 crc32 (replicate 1401 0) 1400 (command_packet seq cmd r)
        = Inr (Some k, buf')"
      "ParseCommStream (SdkCheckPreamble crc16 crc32) SdkParsePacket buf' k = Inr (Some p)"
      "ParseStateInfo p si {} = Inr (True, si', known_keys kvs)" "says kvs si si'"
    using request_read_back[OF r(2) good assms(4) room, of crc16 crc32 seq cmd] by blast
  have known: "known_keys kvs = {kKeyStateInfoHostIpCfg, kKeyLidarPointDataHostIpCfg, kKeyLidarImuHostIpCfg}"
    by (auto simp: known_keys_def kvs_def value_size_def key_values)
  have said: "state_of si' key = (case map_of (rev kvs) key of Some v \<Rightarrow>
      if value_size key = None then None else Some (value_of key v) | None \<Rightarrow> state_of si key)" for key
    using k(4) by (simp add: says_def)
  have "si_host_state_info si' = \<lparr>txt_host_ip = dotted ?ip, txt_dst_port = host_push_msg_port h,
      txt_src_port = kMid360LidarPushMsgPort\<rparr>"
    using said[of kKeyStateInfoHostIpCfg]
    by (simp add: kvs_def state_of_def value_of_def value_size_def host_value_def key_values)
  moreover have "si_pointcloud_host_ipcfg si' = \<lparr>txt_host_ip = dotted ?ip,
      txt_dst_port = host_point_data_port h, txt_src_port = kMid360LidarPointCloudPort\<rparr>"
    using said[of kKeyLidarPointDataHostIpCfg]
    by (simp add: kvs_def state_of_def value_of_def value_size_def host_value_def key_values)
  moreover have "si_imu_host_ipcfg si' = \<lparr>txt_host_ip = dotted ?ip, txt_dst_port = host_imu_data_port h,
      txt_src_port = kMid360LidarImuDataPort\<rparr>"
    using said[of kKeyLidarImuHostIpCfg]
    by (simp add: kvs_def state_of_def value_of_def value_size_def host_value_def key_values)
  ultimately show ?thesis using r(1) k known by fastforce
qed


end
