(* ===== verification/Livox_Json.thy ===== *)
theory Livox_Json
  imports Livox_State
begin

text \<open>
  The JSON text of a state report (\<open>LivoxLidarStateInfoToJson\<close>): for every key that was in the report,
  in a fixed order, the calls on the JSON writer with the values of the members. Numbers are the
  integers the calls pass; a float member is passed as the four bytes it was copied from.
\<close>

section \<open>Calls on the writer\<close>

datatype json_call = StartObject | EndObject | StartArray | EndArray | JKey string | JString string
  | JUint int | JInt int | JUint64 int | JInt64 int | JDouble u32

section \<open>Reading members\<close>

definition byte_at :: "nat \<Rightarrow> u8 list \<Rightarrow> int" where "byte_at i bs = uint (bs ! i)"
definition u16_at :: "u8 list \<Rightarrow> int" where "u16_at bs = uint (from_le (take 2 bs) :: u16)"
definition word_at :: "nat \<Rightarrow> u8 list \<Rightarrow> u32" where "word_at i bs = from_le (take 4 (drop i bs))"
definition u32_at :: "nat \<Rightarrow> u8 list \<Rightarrow> int" where "u32_at i bs = uint (word_at i bs)"
definition i32_at :: "nat \<Rightarrow> u8 list \<Rightarrow> int" where "i32_at i bs = sint (word_at i bs)"
definition u64_at :: "u8 list \<Rightarrow> int" where "u64_at bs = uint (from_le bs :: u64)"
definition i64_at :: "u8 list \<Rightarrow> int" where "i64_at bs = sint (from_le bs :: u64)"

text \<open>A character array passed as a C string: without a zero the read goes past the array.\<close>

definition c_string :: "u8 list \<Rightarrow> ub + string" where
  "c_string bs = (if 0 \<in> set bs
     then Inr (map (\<lambda>b. char_of (unat b)) (takeWhile (\<lambda>b. b \<noteq> 0) bs)) else Inl OutOfRange)"

definition host_calls :: "HostIpText \<Rightarrow> json_call list" where
  "host_calls c = [StartObject, JKey ''ip'', JString (txt_host_ip c), JKey ''dst_port'',
     JUint (uint (txt_dst_port c)), JKey ''src_port'', JUint (uint (txt_src_port c)), EndObject]"

text \<open>The three positions are signed members that are written with \<open>Uint\<close>.\<close>

definition attitude_calls :: "u8 list \<Rightarrow> json_call list" where
  "attitude_calls a = [StartObject, JKey ''roll_deg'', JDouble (word_at 0 a), JKey ''pitch_deg'',
     JDouble (word_at 4 a), JKey ''yaw_deg'', JDouble (word_at 8 a), JKey ''x_mm'', JUint (u32_at 12 a),
     JKey ''y_mm'', JUint (u32_at 16 a), JKey ''z_mm'', JUint (u32_at 20 a), EndObject]"

definition fov_calls :: "u8 list \<Rightarrow> json_call list" where
  "fov_calls f = [StartObject, JKey ''yaw_start'', JInt (i32_at 0 f), JKey ''yaw_stop'', JInt (i32_at 4 f),
     JKey ''pitch_start'', JInt (i32_at 8 f), JKey ''pitch_stop'', JInt (i32_at 12 f), EndObject]"

definition byte_array :: "u8 list \<Rightarrow> json_call list" where
  "byte_array bs = StartArray # map (\<lambda>b. JUint (uint b)) bs @ [EndArray]"

definition word_array :: "u8 list \<Rightarrow> json_call list" where
  "word_array bs = StartArray # map (\<lambda>i. JUint (u32_at (4 * i) bs)) [0..<8] @ [EndArray]"

text \<open>A byte in lower case hexadecimal without padding, the bytes of the status separated by blanks.\<close>

definition hex_digit :: "nat \<Rightarrow> char" where
  "hex_digit d = (if d < 10 then char_of (48 + d) else char_of (87 + d))"

definition hex :: "u8 \<Rightarrow> string" where
  "hex b = (let n = unat b in if n < 16 then [hex_digit n] else [hex_digit (n div 16), hex_digit (n mod 16)])"

fun status_text :: "u8 list \<Rightarrow> string" where
  "status_text [] = []"
| "status_text [b] = hex b"
| "status_text (b # bs) = hex b @ '' '' @ status_text bs"

section \<open>The object\<close>

text \<open>The blocks of the function in order: the key tested, the name written, the calls for the value.\<close>

type_synonym json_block = "u16 \<times> string \<times> (ub + json_call list)"

definition setting_blocks :: "DirectLidarStateInfo \<Rightarrow> json_block list" where
  "setting_blocks si =
    [(kKeyPclDataType, ''pcl_data_type'', Inr [JUint (byte_at 0 (si_pcl_data_type si))]),
     (kKeyPatternMode, ''pattern_mode'', Inr [JUint (byte_at 0 (si_pattern_mode si))]),
     (kKeyDualEmitEn, ''dual_emit_en'', Inr [JUint (byte_at 0 (si_dual_emit_en si))]),
     (kKeyPointSendEn, ''point_send_en'', Inr [JUint (byte_at 0 (si_point_send_en si))]),
     (kKeyLidarIpCfg, ''lidar_ipcfg'', Inr ((let c = si_lidar_ipcfg si in [StartObject, JKey ''lidar_ip'', JString (txt_ip c),
         JKey ''lidar_subnet_mask'', JString (txt_mask c), JKey ''lidar_gateway'', JString (txt_gateway c), EndObject]))),
     (kKeyStateInfoHostIpCfg, ''state_info_host_ipcfg'', Inr (host_calls (si_host_state_info si))),
     (kKeyLidarPointDataHostIpCfg, ''ponitcloud_host_ipcfg'', Inr (host_calls (si_pointcloud_host_ipcfg si))),
     (kKeyLidarImuHostIpCfg, ''imu_host_ipcfg'', Inr (host_calls (si_imu_host_ipcfg si))),
     (kKeyCtlHostIpCfg, ''ctl_host_ipcfg'', Inr (host_calls (si_ctl_host_ipcfg si))),
     (kKeyLogHostIpCfg, ''log_host_ipcfg'', Inr (host_calls (si_log_host_ipcfg si))),
     (kKeyVehicleSpeed, ''vehicle_speed'', Inr [JInt (i32_at 0 (si_vehicle_speed si))]),
     (kKeyEnvironmentTemp, ''environment_temp'', Inr [JInt (i32_at 0 (si_environment_temp si))]),
     (kKeyInstallAttitude, ''install_attitude'', Inr (attitude_calls (si_install_attitude si))),
     (kKeyBlindSpotSet, ''blind_spot_set'', Inr [JUint (u32_at 0 (si_blind_spot_set si))]),
     (kKeyFrameRate, ''frame_rate'', Inr [JUint (byte_at 0 (si_frame_rate si))]),
     (kKeyFovCfg0, ''fov_cfg0'', Inr (fov_calls (si_fov_cfg0 si))),
     (kKeyFovCfg1, ''fov_cfg1'', Inr (fov_calls (si_fov_cfg1 si))),
     (kKeyFovCfgEn, ''fov_cfg_en'', Inr [JUint (byte_at 0 (si_fov_cfg_en si))]),
     (kKeyDetectMode, ''detect_mode'', Inr [JUint (byte_at 0 (si_detect_mode si))]),
     (kKeyFuncIoCfg, ''func_io_cfg'', Inr ((let c = si_func_io_cfg si in [StartObject, JKey ''IN0'', JUint (byte_at 0 c), JKey ''IN1'', JUint (byte_at 1 c),
         JKey ''OUT0'', JUint (byte_at 2 c), JKey ''OUT1'', JUint (byte_at 3 c), EndObject]))),
     (kKeyWorkMode, ''work_tgt_mode'', Inr [JUint (byte_at 0 (si_work_tgt_mode si))]),
     (kKeyGlassHeat, ''glass_heat'', Inr [JUint (byte_at 0 (si_glass_heat si))]),
     (kKeyImuDataEn, ''imu_data_en'', Inr [JUint (byte_at 0 (si_imu_data_en si))]),
     (kKeyFusaEn, ''fusa_en'', Inr [JUint (byte_at 0 (si_fusa_en si))])]"

definition status_blocks :: "DirectLidarStateInfo \<Rightarrow> json_block list" where
  "status_blocks si =
    [(kKeySn, ''sn'', bind_ub (c_string (si_sn si)) (\<lambda>s. Inr [JString s])),
     (kKeyProductInfo, ''product_info'', bind_ub (c_string (si_product_info si)) (\<lambda>s. Inr [JString s])),
     (kKeyVersionApp, ''version_app'', Inr (byte_array (si_version_app si))),
     (kKeyVersionLoader, ''version_loader'', Inr (byte_array (si_version_loader si))),
     (kKeyVersionHardware, ''version_hardware'', Inr (byte_array (si_version_hardware si))),
     (kKeyMac, ''mac'', Inr (byte_array (si_mac si))),
     (kKeyCurWorkState, ''cur_work_state'', Inr [JUint (byte_at 0 (si_cur_work_state si))]),
     (kKeyCoreTemp, ''core_temp'', Inr [JInt (i32_at 0 (si_core_temp si))]),
     (kKeyPowerUpCnt, ''powerup_cnt'', Inr [JUint (u32_at 0 (si_powerup_cnt si))]),
     (kKeyLocalTimeNow, ''local_time_now'', Inr [JUint64 (u64_at (si_local_time_now si))]),
     (kKeyLastSyncTime, ''last_sync_time'', Inr [JUint64 (u64_at (si_last_sync_time si))]),
     (kKeyTimeOffset, ''time_offset'', Inr [JInt64 (i64_at (si_time_offset si))]),
     (kKeyTimeSyncType, ''time_sync_type'', Inr [JUint (byte_at 0 (si_time_sync_type si))]),
     (kKeyStatusCode, ''status_code'', Inr [JString (status_text (rev (si_status_code si)))]),
     (kKeyLidarDiagStatus, ''lidar_diag_status'', Inr [JUint (u16_at (si_lidar_diag_status si))]),
     (kKeyLidarFlashStatus, ''lidar_flash_status'', Inr [JUint (byte_at 0 (si_lidar_flash_status si))]),
     (kKeyFwType, ''FW_TYPE'', Inr [JUint (byte_at 0 (si_fw_type si))]),
     (kKeyHmsCode, ''hms_code'', Inr (word_array (si_hms_code si))),
     (kKeyRoiMode, ''ROI_Mode'', Inr [JUint (byte_at 0 (si_ROI_Mode si))])]"

fun write_blocks :: "u16 set \<Rightarrow> json_block list \<Rightarrow> ub + json_call list" where
  "write_blocks key_mask [] = Inr []"
| "write_blocks key_mask ((k, name, val) # bs) =
     (if k \<in> key_mask
      then bind_ub val (\<lambda>calls. bind_ub (write_blocks key_mask bs) (\<lambda>rest. Inr (JKey name # calls @ rest)))
      else write_blocks key_mask bs)"

definition LivoxLidarStateInfoToJson :: "DirectLidarStateInfo \<Rightarrow> u16 set \<Rightarrow> ub + json_call list" where
  "LivoxLidarStateInfoToJson si key_mask =
     bind_ub (write_blocks key_mask (setting_blocks si @ status_blocks si)) (\<lambda>calls.
       Inr (StartObject # calls @ [EndObject]))"

text \<open>\<open>Parse\<close>: \<open>None\<close> when it returns false. The members are not initialised: \<open>si\<close> is what they hold.\<close>

definition ParseReport :: "CommPacket \<Rightarrow> DirectLidarStateInfo \<Rightarrow> ub + json_call list option" where
  "ParseReport p si = bind_ub (ParseStateInfo p si {}) (\<lambda>(ok, si, keys).
     if ok then bind_ub (LivoxLidarStateInfoToJson si keys) (\<lambda>js. Inr (Some js)) else Inr None)"

section \<open>Well formed JSON\<close>

text \<open>
  A recogniser of the call sequences the writer accepts, with the open containers as its stack:
  \<open>Members\<close> expects a key or the end of an object, \<open>Value\<close> the value of a key, \<open>Elements\<close> the next value
  or the end of an array.
\<close>

datatype json_state = Members | Value | Elements

fun after_value :: "json_state list \<Rightarrow> json_state list" where
  "after_value (Value # st) = Members # st"
| "after_value st = st"

fun json_step :: "json_call \<Rightarrow> json_state list \<Rightarrow> json_state list option" where
  "json_step (JKey s) (Members # st) = Some (Value # st)"
| "json_step EndObject (Members # st) = Some (after_value st)"
| "json_step EndArray (Elements # st) = Some (after_value st)"
| "json_step StartObject (Value # st) = Some (Members # Value # st)"
| "json_step StartObject (Elements # st) = Some (Members # Elements # st)"
| "json_step StartArray (Value # st) = Some (Elements # Value # st)"
| "json_step StartArray (Elements # st) = Some (Elements # Elements # st)"
| "json_step (JString s) (Value # st) = Some (Members # st)"
| "json_step (JUint n) (Value # st) = Some (Members # st)"
| "json_step (JInt n) (Value # st) = Some (Members # st)"
| "json_step (JUint64 n) (Value # st) = Some (Members # st)"
| "json_step (JInt64 n) (Value # st) = Some (Members # st)"
| "json_step (JDouble w) (Value # st) = Some (Members # st)"
| "json_step (JUint n) (Elements # st) = Some (Elements # st)"
| "json_step _ _ = None"

fun json_run :: "json_call list \<Rightarrow> json_state list \<Rightarrow> json_state list option" where
  "json_run [] st = Some st"
| "json_run (c # cs) st = Option.bind (json_step c st) (json_run cs)"

text \<open>A document: one object from the first call to the last.\<close>

definition json_document :: "json_call list \<Rightarrow> bool" where
  "json_document cs \<longleftrightarrow> (\<exists>body. cs = StartObject # body @ [EndObject] \<and> json_run body [Members] = Some [Members])"

text \<open>The names of the members of that object, skipping nested containers.\<close>

fun top_names :: "nat \<Rightarrow> json_call list \<Rightarrow> string list" where
  "top_names d [] = []"
| "top_names d (c # cs) = (case c of
     StartObject \<Rightarrow> top_names (Suc d) cs | StartArray \<Rightarrow> top_names (Suc d) cs
   | EndObject \<Rightarrow> top_names (d - 1) cs | EndArray \<Rightarrow> top_names (d - 1) cs
   | JKey s \<Rightarrow> if d = 0 then s # top_names d cs else top_names d cs
   | _ \<Rightarrow> top_names d cs)"

lemma json_run_append: "json_run (xs @ ys) st = Option.bind (json_run xs st) (json_run ys)"
  by (induction xs arbitrary: st) (auto split: Option.bind_splits)

lemma json_run_numbers: "json_run (map (\<lambda>x. JUint (f x)) xs) (Elements # st) = Some (Elements # st)"
  by (induction xs) auto

definition one_value :: "json_call list \<Rightarrow> bool" where
  "one_value cs \<longleftrightarrow> json_run cs [Value] = Some [Members] \<and> (\<forall>rest. top_names 0 (cs @ rest) = top_names 0 rest)"

lemma top_names_numbers: "top_names d (map (\<lambda>x. JUint (f x)) xs @ cs) = top_names d cs"
  by (induction xs) auto

lemma one_value_array: "one_value (StartArray # map (\<lambda>x. JUint (f x)) xs @ [EndArray])"
  by (simp add: one_value_def json_run_append json_run_numbers top_names_numbers)

lemma block_values:
  assumes "(k, name, Inr calls) \<in> set (setting_blocks si @ status_blocks si)"
  shows "one_value calls"
proof -
  have "list_all (\<lambda>(k, name, val). case val of Inl e \<Rightarrow> True | Inr calls \<Rightarrow> one_value calls)
      (setting_blocks si @ status_blocks si)"
    by (simp add: setting_blocks_def status_blocks_def c_string_def host_calls_def attitude_calls_def
        fov_calls_def byte_array_def word_array_def one_value_array Let_def split: sum.split)
      (simp add: one_value_def)
  then have "\<forall>b \<in> set (setting_blocks si @ status_blocks si).
      case b of (k, name, val) \<Rightarrow> case val of Inl e \<Rightarrow> True | Inr calls \<Rightarrow> one_value calls"
    unfolding list_all_iff .
  from bspec[OF this assms] show ?thesis by simp
qed

lemma write_blocks_run:
  assumes "write_blocks keys bs = Inr cs"
    "\<forall>(k, name, val) \<in> set bs. \<forall>calls. val = Inr calls \<longrightarrow> one_value calls"
  shows "json_run cs [Members] = Some [Members]"
    "top_names 0 cs = map (\<lambda>(k, name, val). name) (filter (\<lambda>(k, name, val). k \<in> keys) bs)"
  using assms
proof (induction keys bs arbitrary: cs rule: write_blocks.induct)
  case (2 keys k name val bs)
  {
    case 1
    then show ?case
      using 2 by (auto simp: bind_ub_Inr_iff json_run_append one_value_def split: if_splits)
  next
    case 2
    then show ?case
      using "2.IH" by (auto simp: bind_ub_Inr_iff one_value_def split: if_splits)
  }
qed simp_all

text \<open>The keys the function tests and the names it writes, in its order.\<close>

definition report_members :: "(u16 \<times> string) list" where
  "report_members =
    [(kKeyPclDataType, ''pcl_data_type''), (kKeyPatternMode, ''pattern_mode''),
     (kKeyDualEmitEn, ''dual_emit_en''), (kKeyPointSendEn, ''point_send_en''),
     (kKeyLidarIpCfg, ''lidar_ipcfg''), (kKeyStateInfoHostIpCfg, ''state_info_host_ipcfg''),
     (kKeyLidarPointDataHostIpCfg, ''ponitcloud_host_ipcfg''),
     (kKeyLidarImuHostIpCfg, ''imu_host_ipcfg''), (kKeyCtlHostIpCfg, ''ctl_host_ipcfg''),
     (kKeyLogHostIpCfg, ''log_host_ipcfg''), (kKeyVehicleSpeed, ''vehicle_speed''),
     (kKeyEnvironmentTemp, ''environment_temp''), (kKeyInstallAttitude, ''install_attitude''),
     (kKeyBlindSpotSet, ''blind_spot_set''), (kKeyFrameRate, ''frame_rate''),
     (kKeyFovCfg0, ''fov_cfg0''), (kKeyFovCfg1, ''fov_cfg1''), (kKeyFovCfgEn, ''fov_cfg_en''),
     (kKeyDetectMode, ''detect_mode''), (kKeyFuncIoCfg, ''func_io_cfg''),
     (kKeyWorkMode, ''work_tgt_mode''), (kKeyGlassHeat, ''glass_heat''),
     (kKeyImuDataEn, ''imu_data_en''), (kKeyFusaEn, ''fusa_en''), (kKeySn, ''sn''),
     (kKeyProductInfo, ''product_info''), (kKeyVersionApp, ''version_app''),
     (kKeyVersionLoader, ''version_loader''), (kKeyVersionHardware, ''version_hardware''),
     (kKeyMac, ''mac''), (kKeyCurWorkState, ''cur_work_state''), (kKeyCoreTemp, ''core_temp''),
     (kKeyPowerUpCnt, ''powerup_cnt''), (kKeyLocalTimeNow, ''local_time_now''),
     (kKeyLastSyncTime, ''last_sync_time''), (kKeyTimeOffset, ''time_offset''),
     (kKeyTimeSyncType, ''time_sync_type''), (kKeyStatusCode, ''status_code''),
     (kKeyLidarDiagStatus, ''lidar_diag_status''), (kKeyLidarFlashStatus, ''lidar_flash_status''),
     (kKeyFwType, ''FW_TYPE''), (kKeyHmsCode, ''hms_code''), (kKeyRoiMode, ''ROI_Mode'')]"

lemma report_members_blocks:
  "map (\<lambda>(k, name, val). (k, name)) (setting_blocks si @ status_blocks si) = report_members"
  by (simp add: setting_blocks_def status_blocks_def report_members_def)

lemma filter_names:
  "map (\<lambda>(k, name, val). name) (filter (\<lambda>(k, name, val). k \<in> keys) bs) =
   map snd (filter (\<lambda>(k, name). k \<in> keys) (map (\<lambda>(k, name, val). (k, name)) bs))"
  by (induction bs) auto

lemma json_object:
  assumes "LivoxLidarStateInfoToJson si keys = Inr js"
  shows "\<exists>body. js = StartObject # body @ [EndObject] \<and> json_run body [Members] = Some [Members] \<and>
    top_names 0 body = map snd (filter (\<lambda>(k, name). k \<in> keys) report_members)"
proof -
  obtain cs where cs: "write_blocks keys (setting_blocks si @ status_blocks si) = Inr cs"
      and js: "js = StartObject # cs @ [EndObject]"
    using assms by (auto simp: LivoxLidarStateInfoToJson_def bind_ub_Inr_iff)
  have vals: "\<forall>(k, name, val) \<in> set (setting_blocks si @ status_blocks si).
      \<forall>calls. val = Inr calls \<longrightarrow> one_value calls"
    using block_values by blast
  show ?thesis
    using write_blocks_run[OF cs vals] js unfolding filter_names report_members_blocks by blast
qed

lemma write_blocks_total:
  assumes "\<forall>(k, name, val) \<in> set bs. k \<in> keys \<longrightarrow> (\<exists>calls. val = Inr calls)"
  shows "\<exists>cs. write_blocks keys bs = Inr cs"
  using assms
proof (induction keys bs rule: write_blocks.induct)
  case (2 keys k name val bs)
  then obtain cs where "write_blocks keys bs = Inr cs" by (cases "k \<in> keys") auto
  then show ?case using "2.prems" by auto
qed simp

text \<open>Only the two character arrays can be read out of bounds.\<close>

lemma json_total:
  assumes "kKeySn \<in> keys \<Longrightarrow> 0 \<in> set (si_sn si)" "kKeyProductInfo \<in> keys \<Longrightarrow> 0 \<in> set (si_product_info si)"
  shows "\<exists>js. LivoxLidarStateInfoToJson si keys = Inr js"
proof -
  have "list_all (\<lambda>(k, name, val). k \<in> keys \<longrightarrow> (\<exists>calls. val = Inr calls))
      (setting_blocks si @ status_blocks si)"
    using assms by (simp add: setting_blocks_def status_blocks_def c_string_def)
  from write_blocks_total[OF this[unfolded list_all_iff]] show ?thesis
    by (auto simp: LivoxLidarStateInfoToJson_def)
qed

lemma ParseReport_good:
  assumes "length rsvd = 2" "take (unat (pk_data_len p)) (pk_data p) = report_bytes rsvd kvs"
    "unat (pk_data_len p) = length (report_bytes rsvd kvs)" "\<forall>kv \<in> set kvs. good_value kv" "wf_state si"
    "\<forall>(k, v) \<in> set kvs. k \<in> {kKeySn, kKeyProductInfo} \<longrightarrow> 0 \<in> set v"
  shows "\<exists>body. ParseReport p si = Inr (Some (StartObject # body @ [EndObject])) \<and>
    json_run body [Members] = Some [Members] \<and>
    top_names 0 body = map snd (filter (\<lambda>(k, name). k \<in> known_keys kvs) report_members)"
proof -
  obtain si' where si': "ParseStateInfo p si {} = Inr (True, si', known_keys kvs)" "says kvs si si'"
    using ParseStateInfo_report[OF assms(1-5), of "{}"] by auto
  have zero: "\<exists>v. state_of si' k = Some (value_of k v) \<and> 0 \<in> set v"
    if "k \<in> known_keys kvs" "k \<in> {kKeySn, kKeyProductInfo}" for k
  proof -
    note known = that(1)
    obtain v where v: "map_of (rev kvs) k = Some v"
      using known by (cases "map_of (rev kvs) k") (auto simp: known_keys_def map_of_eq_None_iff)
    then have "(k, v) \<in> set kvs" using map_of_SomeD by fastforce
    moreover have "state_of si' k = Some (value_of k v)"
      using si'(2) v that(1) by (auto simp: says_def known_keys_def)
    ultimately show ?thesis using assms(6) that(2) by blast
  qed
  have "kKeySn \<in> known_keys kvs \<Longrightarrow> 0 \<in> set (si_sn si')"
    using zero[of kKeySn] by (auto simp: state_of_def value_of_def key_values)
  moreover have "kKeyProductInfo \<in> known_keys kvs \<Longrightarrow> 0 \<in> set (si_product_info si')"
    using zero[of kKeyProductInfo] by (auto simp: state_of_def value_of_def key_values)
  ultimately obtain js where js: "LivoxLidarStateInfoToJson si' (known_keys kvs) = Inr js"
    using json_total by blast
  show ?thesis using json_object[OF js] js si'(1) by (auto simp: ParseReport_def)
qed


end
