(* ===== verification/Livox_Handler.thy ===== *)
theory Livox_Handler
  imports Livox_Json "HOL-Library.Multiset"
begin

text \<open>
  Commands in flight (\<open>general_command_handler.cpp\<close> with the senders of the device handlers,
  \<open>hap_command_handler.cpp\<close> and \<open>mid360_command_handler.cpp\<close>): a command gets a sequence number, is
  sent, and is registered in a table until its acknowledgement or its timeout calls the callback.
  Each block the code runs under its mutex is a step of the model, so the threads of the SDK
  interleave between sending and registering. Whether the socket took a datagram is an argument.
\<close>

section \<open>The command table\<close>

text \<open>\<open>std::map\<close> from sequence numbers: an association list in ascending order.\<close>

fun map_put :: "'k::linorder \<Rightarrow> 'v \<Rightarrow> ('k \<times> 'v) list \<Rightarrow> ('k \<times> 'v) list" where
  "map_put k v [] = [(k, v)]"
| "map_put k v ((k', v') # m) = (if k < k' then (k, v) # (k', v') # m
     else if k = k' then (k, v) # m else (k', v') # map_put k v m)"

definition map_erase :: "'k \<Rightarrow> ('k \<times> 'v) list \<Rightarrow> ('k \<times> 'v) list" where
  "map_erase k m = filter (\<lambda>e. fst e \<noteq> k) m"

lemma map_put_fresh: "k \<notin> fst ` set m \<Longrightarrow> mset (map_put k v m) = add_mset (k, v) (mset m)"
  by (induction m) auto

lemma map_put_of: "sorted_wrt (<) (map fst m) \<Longrightarrow> map_of (map_put k v m) = (map_of m)(k \<mapsto> v)"
  by (induction m) (auto simp: fun_eq_iff)

lemma map_put_keys: "set (map fst (map_put k v m)) = insert k (set (map fst m))"
  by (induction k v m rule: map_put.induct) auto

lemma map_put_sorted:
  "sorted_wrt (<) (map fst m) \<Longrightarrow> sorted_wrt (<) (map fst (map_put k v m))"
proof (induction m)
  case (Cons e m)
  then show ?case using map_put_keys[of k v m] by (cases e) (auto simp del: set_map)
qed simp

lemma map_erase_sorted: "sorted_wrt (<) (map fst m) \<Longrightarrow> sorted_wrt (<) (map fst (map_erase k m))"
  by (simp add: map_erase_def sorted_wrt_map sorted_wrt_filter)

lemma map_erase_mset:
  assumes "distinct (map fst m)" "map_of m k = Some v"
  shows "mset m = add_mset (k, v) (mset (map_erase k m))"
  using assms
proof (induction m)
  case (Cons e m)
  show ?case
  proof (cases "fst e = k")
    case True
    have "filter (\<lambda>e. fst e \<noteq> k) m = m"
      using Cons.prems(1) True by (intro filter_True) (auto simp: image_iff)
    then show ?thesis using True Cons.prems(2) by (cases e) (simp add: map_erase_def)
  next
    case False
    then show ?thesis using Cons by (cases e) (simp add: map_erase_def)
  qed
qed simp

section \<open>Commands and the handler\<close>

datatype livox_status = kLivoxLidarStatusSuccess | kLivoxLidarStatusFailure | kLivoxLidarStatusTimeout
  | kLivoxLidarStatusSendFailed

definition kCommandTypeCmd :: u8 where "kCommandTypeCmd = 0"
definition kCommandTypeAck :: u8 where "kCommandTypeAck = 1"
definition kHostSend :: u8 where "kHostSend = 0"
definition KDefaultTimeOut :: nat where "KDefaultTimeOut = 1000"
definition kDetectionPort :: u16 where "kDetectionPort = 56000"
definition kHAPPushMsgPort :: u16 where "kHAPPushMsgPort = 56000"
definition kHAPCmdPort :: u16 where "kHAPCmdPort = 56000"
definition kMid360LidarCmdPort :: u16 where "kMid360LidarCmdPort = 56100"

text \<open>A callback is a name; \<open>None\<close> is the null pointer.\<close>

record Command =
  c_packet :: CommPacket
  c_handle :: u32
  c_time_out :: nat
  c_cb :: "nat option"

definition make_command :: "u32 \<Rightarrow> u16 \<Rightarrow> u8 list \<Rightarrow> u16 \<Rightarrow> u32 \<Rightarrow> nat option \<Rightarrow> Command" where
  "make_command seq cmd d len handle cb = \<lparr>c_packet = \<lparr>pk_protocol = kLidarSdk, pk_version = kSdkVer,
     pk_seq_num = seq, pk_cmd_id = cmd, pk_cmd_type = kCommandTypeCmd, pk_sender_type = kHostSend,
     pk_data = d, pk_data_len = len\<rparr>, c_handle = handle, c_time_out = KDefaultTimeOut, c_cb = cb\<rparr>"

text \<open>
  The state: the sequence counter, the type of each known device, the device types that have a
  handler, the table with the deadlines, and the commands sent by a thread that has not registered
  them yet.
\<close>

record command_state =
  gh_seq :: u32
  gh_dev_types :: "u32 \<rightharpoonup> u8"
  gh_handlers :: "u8 set"
  gh_commands :: "(u32 \<times> Command \<times> nat) list"
  gh_unregistered :: "Command list"

datatype livox_output = Callback nat livox_status u32 "u8 list option"
  | SendTo u32 u16 "u8 list"
  | Detected u32 u16 CommPacket
  | Report u32 "json_call list option"

definition GetLidarCommandHandler :: "command_state \<Rightarrow> u32 \<Rightarrow> u8 option" where
  "GetLidarCommandHandler s handle = (case gh_dev_types s handle of None \<Rightarrow> None
     | Some ty \<Rightarrow> if ty \<in> gh_handlers s then Some ty else None)"

definition call_back :: "nat option \<Rightarrow> livox_status \<Rightarrow> u32 \<Rightarrow> u8 list option \<Rightarrow> livox_output list" where
  "call_back cb status handle d = (case cb of None \<Rightarrow> [] | Some i \<Rightarrow> [Callback i status handle d])"

section \<open>Sending\<close>

text \<open>
  The sender of a device handler. A packet that does not fit the buffer leaves the length 0 and is
  sent as an empty datagram.
\<close>

definition LidarSendCommand :: "crc16_fn \<Rightarrow> crc32_fn \<Rightarrow> u16 \<Rightarrow> Command \<Rightarrow> bool \<Rightarrow>
    ub + livox_status \<times> livox_output list" where
  "LidarSendCommand crc16 crc32 port c sent =
     (if pk_cmd_type (c_packet c) = kCommandTypeAck then Inr (kLivoxLidarStatusFailure, [])
      else bind_ub (SdkPack crc16 crc32 (replicate (kMaxCommandBufferSize + 1) 0)
                      (of_nat kMaxCommandBufferSize) (c_packet c)) (\<lambda>(len, buf).
        let out = take (case len of Some n \<Rightarrow> unat n | None \<Rightarrow> 0) buf
        in if sent then Inr (kLivoxLidarStatusSuccess, [SendTo (c_handle c) port out])
           else Inr (kLivoxLidarStatusSendFailed,
                     call_back (c_cb c) kLivoxLidarStatusSendFailed (c_handle c) None)))"

definition AddCommand :: "Command \<Rightarrow> nat \<Rightarrow> command_state \<Rightarrow> command_state" where
  "AddCommand c now s =
     (if pk_cmd_type (c_packet c) = kCommandTypeAck then s
      else s\<lparr>gh_commands := map_put (pk_seq_num (c_packet c))
               (c\<lparr>c_packet := (c_packet c)\<lparr>pk_data := [], pk_data_len := 0\<rparr>\<rparr>, now + c_time_out c)
               (gh_commands s)\<rparr>)"

text \<open>
  \<open>SendCommand\<close> up to the registration: the number is taken, the handler looked up, the packet sent.
  The status of the sender is dropped; \<open>SendFailed\<close> is returned for an unknown device only.
\<close>

definition cmd_port :: "u8 \<Rightarrow> u16" where
  "cmd_port ty = (if ty = kLivoxLidarTypeMid360 then kMid360LidarCmdPort else kHAPCmdPort)"

definition transmit :: "crc16_fn \<Rightarrow> crc32_fn \<Rightarrow> u32 \<Rightarrow> u16 \<Rightarrow> u8 list \<Rightarrow> u16 \<Rightarrow> nat option \<Rightarrow> bool \<Rightarrow>
    command_state \<Rightarrow> ub + livox_status \<times> command_state \<times> livox_output list" where
  "transmit crc16 crc32 handle cmd d len cb sent s =
     (let (seq, seq_state) = GetSeq (gh_seq s);
          s = s\<lparr>gh_seq := seq_state\<rparr>;
          c = make_command (ucast (ucast seq :: u16)) cmd d len handle cb
      in case GetLidarCommandHandler s handle of
           None \<Rightarrow> Inr (kLivoxLidarStatusSendFailed, s, [])
         | Some ty \<Rightarrow> bind_ub (LidarSendCommand crc16 crc32 (cmd_port ty) c sent) (\<lambda>(_, out).
             Inr (kLivoxLidarStatusSuccess, s\<lparr>gh_unregistered := gh_unregistered s @ [c]\<rparr>, out)))"

text \<open>A thread registers the command it sent, and \<open>SendCommand\<close> as one thread runs it on its own.\<close>

definition register :: "nat \<Rightarrow> nat \<Rightarrow> command_state \<Rightarrow> command_state" where
  "register i now s = (let cs = gh_unregistered s in
     if i < length cs then AddCommand (cs ! i) now (s\<lparr>gh_unregistered := take i cs @ drop (Suc i) cs\<rparr>)
     else s)"

definition SendCommand :: "crc16_fn \<Rightarrow> crc32_fn \<Rightarrow> u32 \<Rightarrow> u16 \<Rightarrow> u8 list \<Rightarrow> u16 \<Rightarrow> nat option \<Rightarrow> bool \<Rightarrow>
    nat \<Rightarrow> command_state \<Rightarrow> ub + livox_status \<times> command_state \<times> livox_output list" where
  "SendCommand crc16 crc32 handle cmd d len cb sent now s =
     bind_ub (transmit crc16 crc32 handle cmd d len cb sent s) (\<lambda>(status, s, out).
       Inr (status, if status = kLivoxLidarStatusSuccess
                    then register (length (gh_unregistered s) - 1) now s else s, out))"

section \<open>Receiving and timeouts\<close>

definition HandleAck :: "u32 \<Rightarrow> CommPacket \<Rightarrow> command_state \<Rightarrow> command_state \<times> livox_output list" where
  "HandleAck handle p s = (case map_of (gh_commands s) (pk_seq_num p) of
     None \<Rightarrow> (s, [])
   | Some (c, _) \<Rightarrow> (s\<lparr>gh_commands := map_erase (pk_seq_num p) (gh_commands s)\<rparr>,
       call_back (c_cb c) kLivoxLidarStatusSuccess handle (Some (pk_data p))))"

text \<open>
  The handler of a device: a push message on its port is a state report. The result of the parser is
  not looked at: a report that does not parse is passed on as an empty text.
\<close>

definition push_port :: "u8 \<Rightarrow> u16" where
  "push_port ty = (if ty = kLivoxLidarTypeMid360 then kMid360LidarPushMsgPort else kHAPPushMsgPort)"

definition OnCommandCmd :: "DirectLidarStateInfo \<Rightarrow> u8 \<Rightarrow> u32 \<Rightarrow> u16 \<Rightarrow> CommPacket \<Rightarrow>
    ub + livox_output list" where
  "OnCommandCmd junk ty handle port p =
     (if pk_cmd_id p = kCommandIDLidarPushMsg \<and> port = push_port ty
      then bind_ub (ParseReport p junk) (\<lambda>js. Inr [Report handle js]) else Inr [])"

definition HandleDatagram :: "crc16_fn \<Rightarrow> crc32_fn \<Rightarrow> DirectLidarStateInfo \<Rightarrow> u32 \<Rightarrow> u16 \<Rightarrow> u8 list \<Rightarrow> u32 \<Rightarrow>
    command_state \<Rightarrow> ub + command_state \<times> livox_output list" where
  "HandleDatagram crc16 crc32 junk handle port buf buf_size s =
     (if buf_size = 0 then Inr (s, []) else
      bind_ub (ParseCommStream (SdkCheckPreamble crc16 crc32) SdkParsePacket buf buf_size) (\<lambda>r.
        case r of None \<Rightarrow> Inr (s, []) | Some p \<Rightarrow>
          if port = kDetectionPort \<and> pk_cmd_id p = kCommandIDLidarSearch
          then Inr (s, if pk_cmd_type p = kCommandTypeCmd then [] else [Detected handle port p])
          else if pk_cmd_type p = kCommandTypeAck then Inr (HandleAck handle p s)
          else if pk_cmd_id p = kCommandIDLidarPushMsg then
            (case GetLidarCommandHandler s handle of None \<Rightarrow> Inr (s, [])
             | Some ty \<Rightarrow> if pk_cmd_type p = kCommandTypeCmd
                 then bind_ub (OnCommandCmd junk ty handle port p) (\<lambda>out. Inr (s, out))
                 else Inr (s, []))
          else Inr (s, [])))"

text \<open>\<open>CommandsHandle\<close>: the commands whose deadline has passed leave the table and time out.\<close>

definition CommandsHandle :: "nat \<Rightarrow> command_state \<Rightarrow> command_state \<times> livox_output list" where
  "CommandsHandle now s =
     (s\<lparr>gh_commands := filter (\<lambda>(k, c, deadline). \<not> deadline < now) (gh_commands s)\<rparr>,
      concat (map (\<lambda>(k, c, deadline). call_back (c_cb c) kLivoxLidarStatusTimeout (c_handle c)
                      (if pk_data (c_packet c) = [] then None else Some (pk_data (c_packet c))))
                (filter (\<lambda>(k, c, deadline). deadline < now) (gh_commands s))))"

section \<open>Runs\<close>

datatype handler_event = Call u32 u16 "u8 list" u16 "nat option" bool
  | Registered nat nat
  | Datagram u32 u16 "u8 list" u32
  | Tick nat

fun handler_step :: "crc16_fn \<Rightarrow> crc32_fn \<Rightarrow> DirectLidarStateInfo \<Rightarrow> handler_event \<Rightarrow> command_state \<Rightarrow>
    ub + command_state \<times> livox_output list" where
  "handler_step crc16 crc32 junk (Call handle cmd d len cb sent) s =
     bind_ub (transmit crc16 crc32 handle cmd d len cb sent s) (\<lambda>(_, s, out). Inr (s, out))"
| "handler_step crc16 crc32 junk (Registered i now) s = Inr (register i now s, [])"
| "handler_step crc16 crc32 junk (Datagram handle port buf n) s =
     HandleDatagram crc16 crc32 junk handle port buf n s"
| "handler_step crc16 crc32 junk (Tick now) s = Inr (CommandsHandle now s)"

fun handler_run :: "crc16_fn \<Rightarrow> crc32_fn \<Rightarrow> DirectLidarStateInfo \<Rightarrow> handler_event list \<Rightarrow> command_state \<Rightarrow>
    ub + command_state \<times> livox_output list" where
  "handler_run crc16 crc32 junk [] s = Inr (s, [])"
| "handler_run crc16 crc32 junk (e # es) s =
     bind_ub (handler_step crc16 crc32 junk e s) (\<lambda>(s, out).
     bind_ub (handler_run crc16 crc32 junk es s) (\<lambda>(s, outs). Inr (s, out @ outs)))"

section \<open>Every callback is accounted for\<close>

definition cb_of :: "Command \<Rightarrow> nat multiset" where
  "cb_of c = (case c_cb c of None \<Rightarrow> {#} | Some i \<Rightarrow> {#i#})"

definition waiting :: "command_state \<Rightarrow> nat multiset" where
  "waiting s = (\<Sum>e \<in># mset (gh_commands s). cb_of (fst (snd e))) + (\<Sum>c \<in># mset (gh_unregistered s). cb_of c)"

fun invoked_by :: "livox_output \<Rightarrow> nat multiset" where
  "invoked_by (Callback i status handle d) = {#i#}"
| "invoked_by _ = {#}"

definition invoked :: "livox_output list \<Rightarrow> nat multiset" where
  "invoked out = (\<Sum>e \<in># mset out. invoked_by e)"

text \<open>The callbacks handed to calls for a device with a handler, and the number of calls.\<close>

fun called_by :: "command_state \<Rightarrow> handler_event \<Rightarrow> nat multiset" where
  "called_by s (Call handle cmd d len cb sent) =
     (if GetLidarCommandHandler s handle = None then {#} else case cb of None \<Rightarrow> {#} | Some i \<Rightarrow> {#i#})"
| "called_by s _ = {#}"

definition called :: "command_state \<Rightarrow> handler_event list \<Rightarrow> nat multiset" where
  "called s es = (\<Sum>e \<in># mset es. called_by s e)"

definition is_call :: "handler_event \<Rightarrow> bool" where
  "is_call e \<longleftrightarrow> (case e of Call _ _ _ _ _ _ \<Rightarrow> True | _ \<Rightarrow> False)"

definition not_failed :: "handler_event \<Rightarrow> bool" where
  "not_failed e \<longleftrightarrow> (case e of Call handle cmd d len cb sent \<Rightarrow> sent | _ \<Rightarrow> True)"

lemma invoked_simps [simp]: "invoked [] = {#}" "invoked (e # es) = invoked_by e + invoked es"
  "invoked (es @ fs) = invoked es + invoked fs"
  by (simp_all add: invoked_def)

lemma called_simps [simp]: "called s [] = {#}" "called s (e # es) = called_by s e + called s es"
  by (simp_all add: called_def)

lemma invoked_call_back [simp]: "invoked (call_back (c_cb c) status handle d) = cb_of c"
  by (simp add: call_back_def cb_of_def split: option.split)

text \<open>
  The numbers in use: after \<open>n\<close> calls from the start value every number in the table or on its way
  there is the one of an earlier call, and no two are the same.
\<close>

definition nth_seq :: "u32 \<Rightarrow> nat \<Rightarrow> nat" where "nth_seq s0 i = (unat s0 - 1 + i) mod 65535 + 1"

definition live :: "command_state \<Rightarrow> u32 list" where
  "live s = map fst (gh_commands s) @ map (\<lambda>c. pk_seq_num (c_packet c)) (gh_unregistered s)"

definition handler_inv :: "u32 \<Rightarrow> nat \<Rightarrow> command_state \<Rightarrow> bool" where
  "handler_inv s0 n s \<longleftrightarrow> unat (gh_seq s) = nth_seq s0 n \<and> distinct (live s) \<and>
     (\<forall>k \<in> set (live s). \<exists>i \<in> {1..n}. unat k = nth_seq s0 i) \<and>
     (\<forall>c \<in> set (gh_unregistered s). pk_cmd_type (c_packet c) = kCommandTypeCmd)"

lemma nth_seq_fresh: "i < j \<Longrightarrow> j - i < 65535 \<Longrightarrow> nth_seq s0 i \<noteq> nth_seq s0 j"
proof
  assume ij: "i < j" "j - i < 65535" and "nth_seq s0 i = nth_seq s0 j"
  then have "(unat s0 - 1 + i) mod 65535 = (unat s0 - 1 + j) mod 65535" by (simp add: nth_seq_def)
  then have "(65535 :: nat) dvd j - i" using ij(1) by (metis add_diff_cancel_left less_imp_le mod_eq_dvd_iff_nat nat_add_left_cancel_le)
  then show False using ij nat_dvd_not_less by (metis zero_less_diff)
qed

lemma GetSeq_next:
  assumes "unat s = nth_seq s0 n"
  shows "unat (fst (GetSeq s)) = nth_seq s0 (Suc n)" "snd (GetSeq s) = fst (GetSeq s)"
    "ucast (ucast (fst (GetSeq s)) :: u16) = fst (GetSeq s)"
proof -
  have r: "1 \<le> unat s" "unat s \<le> 65535" by (simp_all add: assms nth_seq_def less_Suc_eq_le[symmetric])
  show 1: "unat (fst (GetSeq s)) = nth_seq s0 (Suc n)"
    using GetSeq_step(1)[OF r] by (simp add: assms nth_seq_def mod_Suc_eq)
  show "snd (GetSeq s) = fst (GetSeq s)" by (rule GetSeq_step(2)[OF r])
  have "unat (fst (GetSeq s)) < 65536" by (simp add: 1 nth_seq_def less_Suc_eq_le[symmetric])
  then have "unat (ucast (ucast (fst (GetSeq s)) :: u16) :: u32) = unat (fst (GetSeq s))"
    by (simp add: unsigned_ucast_eq unsigned_take_bit_eq take_bit_nat_eq_self)
  then show "ucast (ucast (fst (GetSeq s)) :: u16) = fst (GetSeq s)" by (simp only: word_unat_eq_iff)
qed

lemma LidarSendCommand_silent:
  "LidarSendCommand crc16 crc32 port c True = Inr (status, out) \<Longrightarrow> invoked out = {#}"
  by (auto simp: LidarSendCommand_def bind_ub_Inr_iff split: if_splits)

lemma GetLidarCommandHandler_seq [simp]:
  "GetLidarCommandHandler (s\<lparr>gh_seq := v\<rparr>) handle = GetLidarCommandHandler s handle"
  by (simp add: GetLidarCommandHandler_def split: option.split)

lemma transmit_step:
  assumes inv: "handler_inv s0 n s" and n: "n < 65535"
    and t: "transmit crc16 crc32 handle cmd d len cb True s = Inr (status, s', out)"
  shows "handler_inv s0 (Suc n) s' \<and> invoked out = {#} \<and> gh_dev_types s' = gh_dev_types s \<and>
    gh_handlers s' = gh_handlers s \<and> waiting s' = waiting s + called_by s (Call handle cmd d len cb True)"
proof -
  let ?v = "fst (GetSeq (gh_seq s))"
  note next_seq = GetSeq_next[of "gh_seq s" s0 n]
  have seq: "unat (gh_seq s) = nth_seq s0 n" using inv by (simp add: handler_inv_def)
  have used: "\<exists>i \<in> {1..Suc n}. unat k = nth_seq s0 i" if "k \<in> set (live s)" for k
    using inv that by (fastforce simp: handler_inv_def)
  have fresh: "?v \<notin> set (live s)"
  proof
    assume "?v \<in> set (live s)"
    then obtain i where "i \<in> {1..n}" "nth_seq s0 i = nth_seq s0 (Suc n)"
      using inv next_seq(1)[OF seq] by (fastforce simp: handler_inv_def)
    moreover from this have "i < Suc n" "Suc n - i < 65535" using n by auto
    ultimately show False using nth_seq_fresh by blast
  qed
  show ?thesis
  proof (cases "GetLidarCommandHandler s handle")
    case None
    then have "s' = s\<lparr>gh_seq := ?v\<rparr>" "out = []"
      using t next_seq(2)[OF seq] by (auto simp: transmit_def case_prod_beta Let_def)
    then show ?thesis
      using inv used next_seq(1)[OF seq] None
      by (auto simp: handler_inv_def live_def waiting_def)
  next
    case (Some ty)
    let ?c = "make_command ?v cmd d len handle cb"
    have s': "s' = s\<lparr>gh_seq := ?v, gh_unregistered := gh_unregistered s @ [?c]\<rparr>" and "invoked out = {#}"
      using t next_seq(2,3)[OF seq] Some LidarSendCommand_silent
      by (auto simp: transmit_def case_prod_beta Let_def bind_ub_Inr_iff
          split: option.splits)
    moreover have "live s' = live s @ [?v]" by (simp add: live_def s' make_command_def)
    moreover have "waiting s' = waiting s + called_by s (Call handle cmd d len cb True)"
      using Some by (simp add: waiting_def s' cb_of_def make_command_def split: option.split)
    ultimately show ?thesis
      using inv used fresh next_seq(1)[OF seq]
      by (auto simp: handler_inv_def make_command_def)
  qed
qed

lemma register_step:
  assumes "handler_inv s0 n s"
  shows "handler_inv s0 n (register i now s) \<and> waiting (register i now s) = waiting s \<and>
    gh_dev_types (register i now s) = gh_dev_types s \<and> gh_handlers (register i now s) = gh_handlers s"
proof (cases "i < length (gh_unregistered s)")
  case False
  then show ?thesis using assms by (simp add: register_def Let_def)
next
  case True
  let ?cs = "gh_unregistered s" and ?k = "pk_seq_num (c_packet (gh_unregistered s ! i))"
  let ?rest = "take i ?cs @ drop (Suc i) ?cs" and ?key = "\<lambda>c. pk_seq_num (c_packet c)"
  have cs: "?cs = take i ?cs @ ?cs ! i # drop (Suc i) ?cs" using True by (rule id_take_nth_drop)
  have type: "pk_cmd_type (c_packet (?cs ! i)) = kCommandTypeCmd"
    using assms True by (simp add: handler_inv_def)
  define m where "m = map_put ?k ((?cs ! i)\<lparr>c_packet := (c_packet (?cs ! i))\<lparr>pk_data := [], pk_data_len := 0\<rparr>\<rparr>,
      now + c_time_out (?cs ! i)) (gh_commands s)"
  have r: "register i now s = s\<lparr>gh_unregistered := ?rest, gh_commands := m\<rparr>"
    using True type by (simp add: register_def Let_def AddCommand_def m_def kCommandTypeCmd_def kCommandTypeAck_def)
  let ?others = "map fst (gh_commands s) @ map ?key ?rest"
  have keys: "mset (live s) = mset (?k # ?others)"
    unfolding live_def by (subst cs) simp
  then have "distinct (?k # ?others)"
    using assms mset_eq_imp_distinct_iff[OF keys] by (simp only: handler_inv_def)
  then have fresh: "?k \<notin> fst ` set (gh_commands s)" by auto
  have m: "mset m = add_mset (?k, (?cs ! i)\<lparr>c_packet := (c_packet (?cs ! i))\<lparr>pk_data := [], pk_data_len := 0\<rparr>\<rparr>,
      now + c_time_out (?cs ! i)) (mset (gh_commands s))"
    unfolding m_def using fresh by (rule map_put_fresh)
  have "mset (live (register i now s)) = mset (live s)"
    unfolding keys by (simp add: live_def r m)
  then have "distinct (live (register i now s))" "set (live (register i now s)) = set (live s)"
    using assms by (auto simp: handler_inv_def dest: mset_eq_imp_distinct_iff mset_eq_setD)
  moreover have "waiting (register i now s) = waiting s"
    unfolding waiting_def r by (subst (2) cs) (simp add: m cb_of_def)
  moreover have "set ?rest \<subseteq> set ?cs" by (auto dest: in_set_takeD in_set_dropD)
  ultimately show ?thesis using assms by (auto simp: handler_inv_def r)
qed

definition same_devices :: "command_state \<Rightarrow> command_state \<Rightarrow> bool" where
  "same_devices s s' \<longleftrightarrow> gh_dev_types s' = gh_dev_types s \<and> gh_handlers s' = gh_handlers s"

lemma same_devices_handler:
  "same_devices s s' \<Longrightarrow> GetLidarCommandHandler s' handle = GetLidarCommandHandler s handle"
  by (simp add: same_devices_def GetLidarCommandHandler_def split: option.split)

lemma called_same_devices: "same_devices s s' \<Longrightarrow> called s' es = called s es"
proof -
  assume "same_devices s s'"
  then have "called_by s' e = called_by s e" for e
    by (cases e) (simp_all add: same_devices_handler)
  then show ?thesis by (simp add: called_def)
qed

text \<open>Commands that leave the table do not harm the numbers of the others.\<close>

lemma handler_inv_filter:
  assumes "handler_inv s0 n s"
  shows "handler_inv s0 n (s\<lparr>gh_commands := filter P (gh_commands s)\<rparr>)"
proof -
  have "distinct (map fst (filter P (gh_commands s)))"
    using assms by (simp add: handler_inv_def live_def distinct_map_filter)
  then show ?thesis using assms by (auto simp: handler_inv_def live_def)
qed

lemma HandleAck_step:
  assumes "handler_inv s0 n s" "HandleAck handle p s = (s', out)"
  shows "handler_inv s0 n s' \<and> same_devices s s' \<and> invoked out + waiting s' = waiting s"
proof (cases "map_of (gh_commands s) (pk_seq_num p)")
  case None
  then show ?thesis using assms by (simp add: HandleAck_def same_devices_def)
next
  case (Some cd)
  obtain c d where cd: "cd = (c, d)" by (cases cd)
  have "distinct (map fst (gh_commands s))" using assms(1) by (simp add: handler_inv_def live_def)
  from map_erase_mset[OF this Some]
  have m: "mset (gh_commands s) = add_mset (pk_seq_num p, c, d) (mset (map_erase (pk_seq_num p) (gh_commands s)))"
    by (simp add: cd)
  have s': "s' = s\<lparr>gh_commands := map_erase (pk_seq_num p) (gh_commands s)\<rparr>" and out: "invoked out = cb_of c"
    using assms(2) Some cd by (auto simp: HandleAck_def)
  have "invoked out + waiting s' = waiting s"
    unfolding waiting_def m out by (simp add: s' add.assoc)
  then show ?thesis
    using handler_inv_filter[OF assms(1)] by (simp add: s' map_erase_def same_devices_def)
qed

lemma invoked_timeouts:
  "invoked (concat (map (\<lambda>(k, c, deadline). call_back (c_cb c) status (c_handle c) (g c)) es)) =
   (\<Sum>e \<in># mset es. cb_of (fst (snd e)))"
  by (induction es) auto

lemma sum_filter:
  "(\<Sum>e \<in># mset xs. f e :: nat multiset) =
   (\<Sum>e \<in># mset (filter P xs). f e) + (\<Sum>e \<in># mset (filter (\<lambda>e. \<not> P e) xs). f e)"
  by (induction xs) (auto simp: ac_simps)

lemma CommandsHandle_step:
  assumes "handler_inv s0 n s" "CommandsHandle now s = (s', out)"
  shows "handler_inv s0 n s' \<and> same_devices s s' \<and> invoked out + waiting s' = waiting s"
proof -
  let ?due = "\<lambda>(k, c, deadline). deadline < now"
  have s': "s' = s\<lparr>gh_commands := filter (\<lambda>e. \<not> ?due e) (gh_commands s)\<rparr>"
    using assms(2) by (auto simp: CommandsHandle_def case_prod_unfold)
  have out: "out = concat (map (\<lambda>(k, c, deadline). call_back (c_cb c) kLivoxLidarStatusTimeout (c_handle c)
      (if pk_data (c_packet c) = [] then None else Some (pk_data (c_packet c)))) (filter ?due (gh_commands s)))"
    using assms(2) by (simp add: CommandsHandle_def)
  have "invoked out = (\<Sum>e \<in># mset (filter ?due (gh_commands s)). cb_of (fst (snd e)))"
    unfolding out by (rule invoked_timeouts)
  moreover note sum_filter[of "\<lambda>e. cb_of (fst (snd e))" "gh_commands s" ?due]
  ultimately show ?thesis
    using handler_inv_filter[OF assms(1)] by (simp add: waiting_def s' same_devices_def add.assoc)
qed

lemma HandleDatagram_step:
  assumes "handler_inv s0 n s" "HandleDatagram crc16 crc32 junk handle port buf buf_size s = Inr (s', out)"
  shows "handler_inv s0 n s' \<and> same_devices s s' \<and> invoked out + waiting s' = waiting s"
proof -
  have report: "invoked o1 = {#}" if "OnCommandCmd junk ty handle port p = Inr o1" for ty p o1
    using that by (auto simp: OnCommandCmd_def bind_ub_Inr_iff split: if_splits)
  consider "s' = s" "invoked out = {#}" | p where "HandleAck handle p s = (s', out)"
  proof (cases "buf_size = 0")
    case True
    then show thesis using assms(2) that(1) by (simp add: HandleDatagram_def)
  next
    case False
    then obtain r where r: "(case r of None \<Rightarrow> Inr (s, []) | Some p \<Rightarrow>
          if port = kDetectionPort \<and> pk_cmd_id p = kCommandIDLidarSearch
          then Inr (s, if pk_cmd_type p = kCommandTypeCmd then [] else [Detected handle port p])
          else if pk_cmd_type p = kCommandTypeAck then Inr (HandleAck handle p s)
          else if pk_cmd_id p = kCommandIDLidarPushMsg then
            (case GetLidarCommandHandler s handle of None \<Rightarrow> Inr (s, [])
             | Some ty \<Rightarrow> if pk_cmd_type p = kCommandTypeCmd
                 then bind_ub (OnCommandCmd junk ty handle port p) (\<lambda>out. Inr (s, out))
                 else Inr (s, []))
          else Inr (s, [])) = Inr (s', out)"
      using assms(2) by (auto simp: HandleDatagram_def bind_ub_Inr_iff)
    show thesis
    proof (cases r)
      case None
      then show thesis using r that(1) by simp
    next
      case (Some p)
      have "\<not> (HandleAck handle p s = (s', out)) \<Longrightarrow> s' = s \<and> invoked out = {#}"
        using r Some report by (auto simp: bind_ub_Inr_iff split: if_splits option.splits)
      then show thesis using that by blast
    qed
  qed
  then show ?thesis
  proof cases
    case 1
    then show ?thesis using assms(1) by (simp add: same_devices_def)
  next
    case (2 p)
    then show ?thesis using HandleAck_step assms(1) by blast
  qed
qed

lemma handler_step_accounts:
  assumes "handler_inv s0 n s" "handler_step crc16 crc32 junk e s = Inr (s', out)" "not_failed e"
    "is_call e \<Longrightarrow> n < 65535"
  shows "handler_inv s0 (if is_call e then Suc n else n) s' \<and> same_devices s s' \<and>
    invoked out + waiting s' = waiting s + called_by s e"
proof (cases e)
  case (Call handle cmd d len cb sent)
  then show ?thesis
    using assms transmit_step[OF assms(1), of crc16 crc32 handle cmd d len cb]
    by (fastforce simp: is_call_def not_failed_def same_devices_def bind_ub_Inr_iff)
next
  case (Registered i now)
  then show ?thesis using assms register_step[OF assms(1)] by (auto simp: is_call_def same_devices_def)
next
  case (Datagram handle port buf k)
  then show ?thesis using assms HandleDatagram_step by (simp add: is_call_def)
next
  case (Tick now)
  then show ?thesis using assms CommandsHandle_step by (simp add: is_call_def)
qed

lemma handler_run_accounts:
  assumes "handler_inv s0 n s" "handler_run crc16 crc32 junk es s = Inr (s', out)"
    "\<forall>e \<in> set es. not_failed e" "n + length (filter is_call es) \<le> 65535"
  shows "invoked out + waiting s' = waiting s + called s es"
  using assms
proof (induction es arbitrary: n s out)
  case (Cons e es)
  obtain s1 o1 o2 where 1: "handler_step crc16 crc32 junk e s = Inr (s1, o1)"
      "handler_run crc16 crc32 junk es s1 = Inr (s', o2)" "out = o1 @ o2"
    using Cons.prems(2) by (auto simp: bind_ub_Inr_iff)
  have calls: "n < 65535" if "is_call e" using Cons.prems(4) that by simp
  have step: "handler_inv s0 (if is_call e then Suc n else n) s1" "same_devices s s1"
      "invoked o1 + waiting s1 = waiting s + called_by s e"
    using handler_step_accounts[OF Cons.prems(1) 1(1) _ calls] Cons.prems(3) by auto
  have "invoked o2 + waiting s' = waiting s1 + called s1 es"
    by (rule Cons.IH[OF step(1) 1(2)]) (use Cons.prems(3,4) in auto)
  moreover have "called s1 es = called s es" using called_same_devices[OF step(2)] .
  ultimately show ?case
    unfolding called_simps 1(3) invoked_simps using step(3) by (metis add.assoc add.commute)
qed simp

section \<open>From the start\<close>

definition table_idle :: "command_state \<Rightarrow> bool" where
  "table_idle s \<longleftrightarrow> gh_commands s = [] \<and> gh_unregistered s = [] \<and> 1 \<le> unat (gh_seq s) \<and> unat (gh_seq s) \<le> 65535"

lemma idle_inv: "table_idle s \<Longrightarrow> handler_inv (gh_seq s) 0 s"
  by (auto simp: table_idle_def handler_inv_def live_def nth_seq_def mod_less)

lemma idle_waiting: "table_idle s \<Longrightarrow> waiting s = {#}"
  by (simp add: table_idle_def waiting_def)

lemma run_accounts:
  assumes "table_idle s" "handler_run crc16 crc32 junk es s = Inr (s', out)"
    "\<forall>e \<in> set es. not_failed e" "length (filter is_call es) \<le> 65535"
  shows "invoked out + waiting s' = called s es"
  using handler_run_accounts[OF idle_inv[OF assms(1)] assms(2,3)] assms(1,4) by (simp add: idle_waiting)

text \<open>A look at the clock after the last deadline empties the table.\<close>

lemma late_tick:
  assumes "\<forall>(k, c, deadline) \<in> set (gh_commands s). deadline < now" "gh_unregistered s = []"
    "CommandsHandle now s = (s', out)"
  shows "gh_commands s' = [] \<and> invoked out = waiting s"
proof -
  have due: "filter (\<lambda>(k, c, deadline). deadline < now) (gh_commands s) = gh_commands s"
    "filter (\<lambda>(k, c, deadline). \<not> deadline < now) (gh_commands s) = []"
    using assms(1) by (auto simp: filter_id_conv filter_empty_conv)
  have "invoked out = (\<Sum>e \<in># mset (gh_commands s). cb_of (fst (snd e)))"
    using assms(3) by (auto simp: CommandsHandle_def due invoked_timeouts)
  then show ?thesis using assms(2,3) by (auto simp: CommandsHandle_def due waiting_def)
qed

section \<open>A failed send and an early acknowledgement\<close>

lemma map_put_mem: "(k, v) \<in> set (map_put k v m)"
  by (induction k v m rule: map_put.induct) auto

lemma AddCommand_times_out:
  assumes "pk_cmd_type (c_packet c) = kCommandTypeCmd" "c_cb c = Some i" "c_time_out c = KDefaultTimeOut"
    "now + 1000 < later"
  shows "Callback i kLivoxLidarStatusTimeout (c_handle c) None \<in> set (snd (CommandsHandle later (AddCommand c now s)))"
proof -
  let ?c = "c\<lparr>c_packet := (c_packet c)\<lparr>pk_data := [], pk_data_len := 0\<rparr>\<rparr>"
  have "gh_commands (AddCommand c now s) = map_put (pk_seq_num (c_packet c)) (?c, now + 1000) (gh_commands s)"
    using assms by (simp add: AddCommand_def KDefaultTimeOut_def kCommandTypeCmd_def kCommandTypeAck_def)
  then have "(pk_seq_num (c_packet c), ?c, now + 1000) \<in> set (gh_commands (AddCommand c now s))"
    using map_put_mem by metis
  then show ?thesis
    using assms by (force simp: CommandsHandle_def call_back_def)
qed

text \<open>A command of at most 1376 bytes fits the buffer of the sender.\<close>

lemma make_command_fits:
  assumes "unat len \<le> length d" "unat len \<le> 1376"
  shows "fits (replicate (kMaxCommandBufferSize + 1) 0) (of_nat kMaxCommandBufferSize)
    (c_packet (make_command seq cmd d len handle cb))"
  using assms by (simp add: fits_def make_command_def kMaxCommandBufferSize_def)

lemma transmit_sends:
  assumes "unat len \<le> length d" "unat len \<le> 1376" "GetLidarCommandHandler s handle = Some ty"
    "unat (gh_seq s) \<le> 65535" "1 \<le> unat (gh_seq s)"
  shows "\<exists>datagram. transmit crc16 crc32 handle cmd d len cb sent s =
    Inr (kLivoxLidarStatusSuccess, s\<lparr>gh_seq := fst (GetSeq (gh_seq s)), gh_unregistered := gh_unregistered s @
         [make_command (fst (GetSeq (gh_seq s))) cmd d len handle cb]\<rparr>,
       if sent then [SendTo handle (cmd_port ty) datagram]
       else call_back cb kLivoxLidarStatusSendFailed handle None)"
proof -
  have "unat (gh_seq s) = nth_seq (gh_seq s) 0" using assms(4,5) by (simp add: nth_seq_def mod_less)
  note next_seq = GetSeq_next(2,3)[OF this]
  let ?c = "make_command (fst (GetSeq (gh_seq s))) cmd d len handle cb"
  obtain k buf where "SdkPack crc16 crc32 (replicate (kMaxCommandBufferSize + 1) 0)
      (of_nat kMaxCommandBufferSize) (c_packet ?c) = Inr (Some k, buf)"
    using SdkPack_wire[OF make_command_fits[OF assms(1,2)]] by blast
  then show ?thesis
    using assms(3) next_seq
    by (auto simp: transmit_def case_prod_beta Let_def LidarSendCommand_def make_command_def
        kCommandTypeCmd_def kCommandTypeAck_def)
qed

lemma failed_send:
  assumes "unat len \<le> length d" "unat len \<le> 1376" "GetLidarCommandHandler s handle = Some ty"
    "unat (gh_seq s) \<le> 65535" "1 \<le> unat (gh_seq s)" "now + 1000 < later"
  shows "\<exists>s'. SendCommand crc16 crc32 handle cmd d len (Some i) False now s
      = Inr (kLivoxLidarStatusSuccess, s', [Callback i kLivoxLidarStatusSendFailed handle None]) \<and>
    Callback i kLivoxLidarStatusTimeout handle None \<in> set (snd (CommandsHandle later s'))"
proof -
  let ?c = "make_command (fst (GetSeq (gh_seq s))) cmd d len handle (Some i)"
  have "SendCommand crc16 crc32 handle cmd d len (Some i) False now s
      = Inr (kLivoxLidarStatusSuccess, AddCommand ?c now (s\<lparr>gh_seq := fst (GetSeq (gh_seq s))\<rparr>),
          [Callback i kLivoxLidarStatusSendFailed handle None])"
    using transmit_sends[OF assms(1-5), of crc16 crc32 cmd "Some i" False]
    by (auto simp: SendCommand_def register_def call_back_def Let_def)
  moreover have "Callback i kLivoxLidarStatusTimeout (c_handle ?c) None
      \<in> set (snd (CommandsHandle later (AddCommand ?c now (s\<lparr>gh_seq := fst (GetSeq (gh_seq s))\<rparr>))))"
    using assms(6) by (intro AddCommand_times_out) (simp_all add: make_command_def)
  ultimately show ?thesis by (simp add: make_command_def)
qed

lemma early_ack:
  assumes "unat len \<le> length d" "unat len \<le> 1376" "GetLidarCommandHandler s handle = Some ty"
    "unat (gh_seq s) \<le> 65535" "1 \<le> unat (gh_seq s)" "now + 1000 < later" "gh_unregistered s = []"
    "map_of (gh_commands s) (fst (GetSeq (gh_seq s))) = None" "pk_seq_num p = fst (GetSeq (gh_seq s))"
  shows "\<exists>s1 out. transmit crc16 crc32 handle cmd d len (Some i) True s = Inr (kLivoxLidarStatusSuccess, s1, out) \<and>
    invoked out = {#} \<and> HandleAck handle p s1 = (s1, []) \<and>
    Callback i kLivoxLidarStatusTimeout handle None \<in> set (snd (CommandsHandle later (register 0 now s1)))"
proof -
  let ?c = "make_command (fst (GetSeq (gh_seq s))) cmd d len handle (Some i)"
  let ?s = "s\<lparr>gh_seq := fst (GetSeq (gh_seq s)), gh_unregistered := [?c]\<rparr>"
  obtain dg where "transmit crc16 crc32 handle cmd d len (Some i) True s
      = Inr (kLivoxLidarStatusSuccess, ?s, [SendTo handle (cmd_port ty) dg])"
    using transmit_sends[OF assms(1-5), of crc16 crc32 cmd "Some i" True] assms(7) by auto
  moreover have "HandleAck handle p ?s = (?s, [])" using assms(8,9) by (simp add: HandleAck_def)
  moreover have "Callback i kLivoxLidarStatusTimeout (c_handle ?c) None
      \<in> set (snd (CommandsHandle later (AddCommand ?c now (s\<lparr>gh_seq := fst (GetSeq (gh_seq s)), gh_unregistered := []\<rparr>))))"
    using assms(6) by (intro AddCommand_times_out) (simp_all add: make_command_def)
  then have "Callback i kLivoxLidarStatusTimeout handle None \<in> set (snd (CommandsHandle later (register 0 now ?s)))"
    by (simp add: register_def Let_def make_command_def)
  ultimately show ?thesis by auto
qed

end
