(* ===== verification/Livox_Samples.thy ===== *)
theory Livox_Samples
  imports Livox_Handler
begin

text \<open>Concrete objects for the properties of the Livox part: checksums, packets, reports and states.\<close>

definition sample_crc16 :: crc16_fn where "sample_crc16 bs = sum_list (map ucast bs)"
definition sample_crc32 :: crc32_fn where "sample_crc32 bs = sum_list (map ucast bs)"

definition sample_packet :: CommPacket where
  "sample_packet = \<lparr>pk_protocol = kLidarSdk, pk_version = kSdkVer, pk_seq_num = 7, pk_cmd_id = 0x101,
     pk_cmd_type = 0, pk_sender_type = 0, pk_data = [1, 2, 3], pk_data_len = 3\<rparr>"

definition sample_host :: HostIpText where
  "sample_host = \<lparr>txt_host_ip = [], txt_dst_port = 0, txt_src_port = 0\<rparr>"

definition sample_info :: DirectLidarStateInfo where
  "sample_info =
    \<lparr>si_pcl_data_type = replicate 1 0,
     si_pattern_mode = replicate 1 0,
     si_dual_emit_en = replicate 1 0,
     si_point_send_en = replicate 1 0,
     si_lidar_ipcfg = \<lparr>txt_ip = [], txt_mask = [], txt_gateway = []\<rparr>,
     si_host_state_info = sample_host,
     si_pointcloud_host_ipcfg = sample_host,
     si_imu_host_ipcfg = sample_host,
     si_ctl_host_ipcfg = sample_host,
     si_log_host_ipcfg = sample_host,
     si_vehicle_speed = replicate 4 0,
     si_environment_temp = replicate 4 0,
     si_install_attitude = replicate 24 0,
     si_blind_spot_set = replicate 4 0,
     si_frame_rate = replicate 1 0,
     si_fov_cfg0 = replicate 20 0,
     si_fov_cfg1 = replicate 20 0,
     si_fov_cfg_en = replicate 1 0,
     si_detect_mode = replicate 1 0,
     si_func_io_cfg = replicate 4 0,
     si_work_tgt_mode = replicate 1 0,
     si_glass_heat = replicate 1 0,
     si_imu_data_en = replicate 1 0,
     si_fusa_en = replicate 1 0,
     si_sn = replicate 16 0,
     si_product_info = replicate 64 0,
     si_version_app = replicate 4 0,
     si_version_loader = replicate 4 0,
     si_version_hardware = replicate 4 0,
     si_mac = replicate 6 0,
     si_cur_work_state = replicate 1 0,
     si_core_temp = replicate 4 0,
     si_powerup_cnt = replicate 4 0,
     si_local_time_now = replicate 8 0,
     si_last_sync_time = replicate 8 0,
     si_time_offset = replicate 8 0,
     si_time_sync_type = replicate 1 0,
     si_status_code = replicate 32 0,
     si_lidar_diag_status = replicate 2 0,
     si_lidar_flash_status = replicate 1 0,
     si_fw_type = replicate 1 0,
     si_hms_code = replicate 32 0,
     si_ROI_Mode = replicate 1 0\<rparr>"

text \<open>A report with a setting, an unknown key, a serial number and the setting again.\<close>

definition sample_report :: "(u16 \<times> u8 list) list" where
  "sample_report = [(kKeyPatternMode, [1]), (0x1234, [9, 9]), (kKeySn, replicate 15 65 @ [0]), (kKeyPatternMode, [2])]"

definition sample_report_packet :: CommPacket where
  "sample_report_packet = sample_packet\<lparr>pk_cmd_id := kCommandIDLidarPushMsg,
     pk_data := report_bytes [0, 0] sample_report,
     pk_data_len := of_nat (length (report_bytes [0, 0] sample_report))\<rparr>"

definition sample_cfg :: LivoxLidarCfg where
  "sample_cfg = \<lparr>cfg_device_type = kLivoxLidarTypeMid360, host_net_info = \<lparr>host_ip = dotted [192, 168, 1, 50],
     multicast_ip = [], host_push_msg_port = 56201, host_point_data_port = 56301, host_imu_data_port = 56401\<rparr>\<rparr>"

definition sample_handler :: command_state where
  "sample_handler = \<lparr>gh_seq = seq_start, gh_dev_types = [5 \<mapsto> kLivoxLidarTypeMid360],
     gh_handlers = {kLivoxLidarTypeMid360}, gh_commands = [], gh_unregistered = []\<rparr>"

lemma sample_info_wf: "wf_state sample_info"
  by (simp add: wf_state_def sample_info_def)

lemma sample_report_good: "\<forall>kv \<in> set sample_report. good_value kv"
  by (simp add: sample_report_def good_value_def value_size_def key_values)

lemma sample_report_length: "length (report_bytes [0, 0] sample_report) = 40"
  by (simp add: report_bytes_def sample_report_def)

lemma sample_handler_idle: "table_idle sample_handler"
  by (simp add: table_idle_def sample_handler_def seq_start_def)

end
