(* ===== verification/Ieee_Order.thy ===== *)
theory Ieee_Order
  imports Ieee
begin

text \<open>
  The order of the floating-point values, and the operations of the kd-tree sources that the
  codecs do not use: addition, subtraction, \<open><=\<close>, \<open>std::min\<close> and \<open>std::max\<close>. The values are
  ordered linearly, a NaN above everything else, so that the facts of \<open>linorder\<close> apply to the
  comparisons of the code wherever no NaN occurs. Every operation rounds monotonically: that is
  what the pruning tests of the search rely on.
\<close>

section \<open>A linear order\<close>

instantiation flt :: linorder
begin

fun less_flt :: "flt \<Rightarrow> flt \<Rightarrow> bool" where
  "less_flt (Num x) (Num y) = (x < y)"
| "less_flt (Num x) (Infty s) = (\<not> s)"
| "less_flt (Infty s) (Num y) = s"
| "less_flt (Infty s) (Infty t) = (s \<and> \<not> t)"
| "less_flt NaN y = False"
| "less_flt x NaN = True"

definition less_eq_flt :: "flt \<Rightarrow> flt \<Rightarrow> bool" where
  "less_eq_flt x y \<longleftrightarrow> x = y \<or> x < y"

instance
proof
  fix x y z :: flt
  show "x \<le> x" by (simp add: less_eq_flt_def)
  show "x \<le> y \<Longrightarrow> y \<le> z \<Longrightarrow> x \<le> z"
    by (cases x; cases y; cases z) (auto simp: less_eq_flt_def)
  show "x \<le> y \<Longrightarrow> y \<le> x \<Longrightarrow> x = y"
    by (cases x; cases y) (auto simp: less_eq_flt_def)
  show "x \<le> y \<or> y \<le> x"
    by (cases x; cases y) (auto simp: less_eq_flt_def)
  show "(x < y) = (x \<le> y \<and> \<not> y \<le> x)"
    by (cases x; cases y) (auto simp: less_eq_flt_def)
qed

end

lemma flt_le_simps [simp]:
  "Num a \<le> Num b \<longleftrightarrow> a \<le> b" "Num a \<le> Infty s \<longleftrightarrow> \<not> s" "Infty s \<le> Num b \<longleftrightarrow> s"
  "Infty s \<le> Infty t \<longleftrightarrow> (t \<longrightarrow> s)" "x \<le> NaN" "NaN \<le> x \<longleftrightarrow> x = NaN"
  by (cases x; auto simp: less_eq_flt_def)+

section \<open>Comparisons, sums and extrema\<close>

text \<open>\<open>x <= y\<close>: false when either side is a NaN.\<close>

definition fle :: "flt \<Rightarrow> flt \<Rightarrow> bool" where
  "fle x y \<longleftrightarrow> x \<noteq> NaN \<and> y \<noteq> NaN \<and> (fless x y \<or> x = y)"

fun fadd :: "fmt \<Rightarrow> flt \<Rightarrow> flt \<Rightarrow> flt" where
  "fadd m (Num x) (Num y) = fround m (x + y)"
| "fadd m NaN y = NaN"
| "fadd m x NaN = NaN"
| "fadd m (Infty s) (Infty t) = (if s = t then Infty s else NaN)"
| "fadd m (Infty s) (Num y) = Infty s"
| "fadd m (Num x) (Infty t) = Infty t"

definition fsub :: "fmt \<Rightarrow> flt \<Rightarrow> flt \<Rightarrow> flt" where
  "fsub m x y = fadd m x (fneg y)"

text \<open>\<open>std::min(a, b)\<close> is \<open>b < a ? b : a\<close>, \<open>std::max(a, b)\<close> is \<open>a < b ? b : a\<close>.\<close>

definition fmin :: "flt \<Rightarrow> flt \<Rightarrow> flt" where
  "fmin a b = (if fless b a then b else a)"

definition fmax :: "flt \<Rightarrow> flt \<Rightarrow> flt" where
  "fmax a b = (if fless a b then b else a)"

text \<open>The conversion of an \<open>int\<close>, and \<open>std::floor\<close> of a finite value.\<close>

definition of_i :: "fmt \<Rightarrow> int \<Rightarrow> flt" where
  "of_i m i = fround m (of_int i)"

fun ffloor :: "flt \<Rightarrow> flt" where
  "ffloor (Num x) = Num (of_int \<lfloor>x\<rfloor>)"
| "ffloor x = x"

section \<open>Values that are not NaN\<close>

definition nonan :: "flt \<Rightarrow> bool" where "nonan x \<longleftrightarrow> x \<noteq> NaN"
definition finite_flt :: "flt \<Rightarrow> bool" where "finite_flt x \<longleftrightarrow> (\<exists>a. x = Num a)"

lemma nonan_simps [simp]: "nonan (Num a)" "nonan (Infty s)" "\<not> nonan NaN"
  by (simp_all add: nonan_def)

lemma finite_flt_simps [simp]: "finite_flt (Num a)" "\<not> finite_flt (Infty s)" "\<not> finite_flt NaN"
  by (simp_all add: finite_flt_def)

lemma finite_nonan [simp]: "finite_flt x \<Longrightarrow> nonan x"
  by (auto simp: finite_flt_def)

lemma le_Infty [simp]: "x \<le> Infty False \<longleftrightarrow> nonan x" "Infty True \<le> x"
  by (cases x; auto)+

lemma fless_iff: "fless x y \<longleftrightarrow> x < y \<and> nonan y"
  by (cases x; cases y) auto

lemma fle_iff: "fle x y \<longleftrightarrow> x \<le> y \<and> nonan y"
  by (cases x; cases y) (auto simp: fle_def)

lemma fless_nonan [simp]: "nonan y \<Longrightarrow> fless x y \<longleftrightarrow> x < y"
  by (simp add: fless_iff)

lemma fle_nonan [simp]: "nonan y \<Longrightarrow> fle x y \<longleftrightarrow> x \<le> y"
  by (simp add: fle_iff)

lemma fmin_nonan [simp]: "nonan a \<Longrightarrow> nonan b \<Longrightarrow> fmin a b = min a b"
  by (auto simp: fmin_def min_def)

lemma fmax_nonan [simp]: "nonan a \<Longrightarrow> nonan b \<Longrightarrow> fmax a b = max a b"
  by (auto simp: fmax_def max_def)

lemma min_max_nonan [simp]:
  "nonan a \<Longrightarrow> nonan b \<Longrightarrow> nonan (min a b)" "nonan a \<Longrightarrow> nonan b \<Longrightarrow> nonan (max a b)"
  by (auto simp: min_def max_def)

lemma min_max_finite [simp]:
  "finite_flt a \<Longrightarrow> finite_flt b \<Longrightarrow> finite_flt (min a b)"
  "finite_flt a \<Longrightarrow> finite_flt b \<Longrightarrow> finite_flt (max a b)"
  by (auto simp: min_def max_def)

section \<open>Rounding is monotone and idempotent\<close>

lemma fround_nonan [simp]: "nonan (fround m x)"
  by (simp add: fround_def Let_def)

lemma fround_minus: "fround m (- x) = fneg (fround m x)" if "x \<noteq> 0"
  using that by (auto simp: fround_def Let_def rounded_minus)

lemma rounded_sign: "1 < prec m \<Longrightarrow> 0 \<le> x \<Longrightarrow> 0 \<le> rounded m x"
  using rounded_mono [of 0 x m] by simp

lemma fround_mono:
  assumes "1 < prec m" "x \<le> y"
  shows "fround m x \<le> fround m y"
proof -
  have r: "rounded m x \<le> rounded m y" using assms by (rule rounded_mono[rotated])
  have s: "0 \<le> x \<Longrightarrow> 0 \<le> rounded m x" "y \<le> 0 \<Longrightarrow> rounded m y \<le> 0"
    using rounded_mono [of 0 x m] rounded_mono [of y 0 m] assms by auto
  have p: "(0::rat) < 2 powi (emax m + 1)" by simp
  consider "0 \<le> x" | "x < 0" "0 \<le> y" | "y < 0" by linarith
  then show ?thesis
  proof cases
    case 1
    then show ?thesis using r s(1) assms by (auto simp: fround_def Let_def)
  next
    case 2
    then have "rounded m x \<le> 0" "0 \<le> rounded m y"
      using rounded_mono [of x 0 m] rounded_mono [of 0 y m] assms by auto
    then show ?thesis using 2 by (auto simp: fround_def Let_def)
  next
    case 3
    then have "rounded m y \<le> 0" using s(2) by simp
    then show ?thesis using 3 r assms by (auto simp: fround_def Let_def abs_of_nonpos)
  qed
qed

lemma rounded_idem:
  assumes "1 < prec m" "1 < emax m"
  shows "rounded m (rounded m x) = rounded m x"
proof (cases "x = 0")
  case False
  define q where "q = qexp m \<bar>x\<bar>"
  define k where "k = rne (x / 2 powi q)"
  have r: "rounded m x = of_int k * 2 powi q"
    using False by (simp add: rounded_def Let_def k_def q_def)
  have q: "ilog2 \<bar>x\<bar> - (prec m - 1) \<le> q" "2 - emax m - prec m \<le> q" by (simp_all add: q_def qexp_def)
  have "\<bar>x\<bar> < 2 powi (ilog2 \<bar>x\<bar> + 1)" using False by (intro ilog2_bounds) simp
  also have "\<dots> \<le> 2 powi (prec m + q)" using q by (intro power_int_increasing) auto
  finally have "\<bar>x\<bar> / 2 powi q < 2 powi prec m" by (simp add: field_simps power_int_add)
  then have b: "\<bar>x / 2 powi q\<bar> \<le> of_int (2 ^ nat (prec m))"
    using assms by (simp add: power_int_nonneg_exp)
  have "\<bar>k\<bar> \<le> 2 ^ nat (prec m)"
    using rne_mono [of "x / 2 powi q" "of_int (2 ^ nat (prec m))"]
      rne_mono [of "of_int (- (2 ^ nat (prec m)))" "x / 2 powi q"] b
    unfolding rne_of_int k_def abs_le_iff by simp
  then consider "\<bar>k\<bar> < 2 ^ nat (prec m)" | "k = 2 ^ nat (prec m)" | "k = - (2 ^ nat (prec m))"
    by linarith
  then show ?thesis
  proof cases
    case 1
    then show ?thesis using r q(2) assms by (intro rounded_exact [of _ k q]) auto
  next
    case 2
    then have e: "rounded m x = 2 powi (prec m + q)"
      using r assms by (simp add: power_int_add power_int_nonneg_exp)
    then show ?thesis using rounded_pow2 [of m "prec m + q"] q assms by simp
  next
    case 3
    then have e: "rounded m x = - (2 powi (prec m + q))"
      using r assms by (simp add: power_int_add power_int_nonneg_exp)
    then show ?thesis using rounded_pow2 [of m "prec m + q"] q assms by (simp add: rounded_minus)
  qed
qed simp

text \<open>The values a computation in the format produces: rounding leaves them as they are.\<close>

definition representable :: "fmt \<Rightarrow> flt \<Rightarrow> bool" where
  "representable m x \<longleftrightarrow> nonan x \<and> (\<forall>a. x = Num a \<longrightarrow> fround m a = Num a)"

lemma representable_fround [simp]:
  assumes "sane m" shows "representable m (fround m x)"
  using assms rounded_idem [of m x] unfolding representable_def sane_def
  by (auto simp: fround_def Let_def split: if_splits)

lemma fadd_mono:
  assumes "1 < prec m" "x \<le> x'" "y \<le> y'" "Num 0 \<le> x" "Num 0 \<le> y" "nonan x'" "nonan y'"
  shows "fadd m x y \<le> fadd m x' y'"
proof (cases "\<exists>a b. x' = Num a \<and> y' = Num b")
  case True
  then obtain a b where "x' = Num a" "y' = Num b" by blast
  with assms show ?thesis by (cases x; cases y) (auto intro!: fround_mono)
next
  case False
  with assms have "fadd m x' y' = Infty False" by (cases x; cases x'; cases y; cases y') auto
  moreover have "nonan (fadd m x y)" using assms by (cases x; cases y) auto
  ultimately show ?thesis by (cases "fadd m x y") auto
qed

lemma fround_0 [simp]: "fround m 0 = Num 0"
  by (simp add: fround_def Let_def not_le)

lemma fadd_ge:
  assumes "1 < prec m" "representable m x" "Num 0 \<le> x" "Num 0 \<le> y" "nonan y"
  shows "x \<le> fadd m x y"
proof (cases x)
  case (Num a)
  then have "x = fadd m x (Num 0)" using assms by (simp add: representable_def)
  also have "\<dots> \<le> fadd m x y" using assms by (intro fadd_mono) (auto simp: representable_def)
  finally show ?thesis .
qed (use assms in \<open>cases y; auto simp: representable_def\<close>)+

lemma fadd_0:
  assumes "representable m x"
  shows "fadd m (Num 0) x = x"
  using assms by (cases x) (auto simp: representable_def)

lemma fadd_nonneg:
  assumes "1 < prec m" "Num 0 \<le> x" "Num 0 \<le> y" "nonan x" "nonan y"
  shows "Num 0 \<le> fadd m x y" "nonan (fadd m x y)"
  using assms fround_mono [of m 0] by (cases x; cases y; auto)+

lemma representable_fadd [simp]:
  assumes "sane m" "nonan (fadd m x y)"
  shows "representable m (fadd m x y)"
  using assms representable_fround [of m]
  by (cases x; cases y) (auto simp: representable_def)

section \<open>Squared differences\<close>

text \<open>\<open>(a - b) * (a - b)\<close>: it grows with the distance of the two values, also after rounding.\<close>

definition sqdiff :: "fmt \<Rightarrow> flt \<Rightarrow> flt \<Rightarrow> flt" where
  "sqdiff m a b = fmul m (fsub m a b) (fsub m a b)"

lemma fmul_neg_neg: "fmul m (fneg z) (fneg z) = fmul m z z"
  by (cases z) auto

lemma sqdiff_abs:
  "sqdiff m (Num a) (Num b) = fmul m (fround m \<bar>a - b\<bar>) (fround m \<bar>a - b\<bar>)"
proof (cases "a - b < 0")
  case True
  then have "fround m (a - b) = fneg (fround m \<bar>a - b\<bar>)"
    using fround_minus [of "\<bar>a - b\<bar>" m] by simp
  then show ?thesis by (simp add: sqdiff_def fsub_def fmul_neg_neg)
qed (simp add: sqdiff_def fsub_def abs_of_nonneg not_less)

lemma square_mono:
  assumes "1 < prec m" "Num 0 \<le> x" "x \<le> y" "nonan y"
  shows "fmul m x x \<le> fmul m y y"
  using assms by (cases x; cases y) (auto intro!: fround_mono mult_mono)

lemma square_nonneg:
  assumes "1 < prec m" "nonan x"
  shows "Num 0 \<le> fmul m x x" "nonan (fmul m x x)"
  using assms fround_mono [of m 0] by (cases x; auto)+

lemma sqdiff_mono:
  assumes "1 < prec m" "\<bar>a - b\<bar> \<le> \<bar>a - c\<bar>"
  shows "sqdiff m (Num a) (Num b) \<le> sqdiff m (Num a) (Num c)"
  unfolding sqdiff_abs using assms fround_mono [of m 0] by (intro square_mono fround_mono) auto

lemma sqdiff_nonneg:
  assumes "1 < prec m" "finite_flt a" "finite_flt b"
  shows "Num 0 \<le> sqdiff m a b" "nonan (sqdiff m a b)"
  using assms square_nonneg by (auto simp: finite_flt_def sqdiff_def fsub_def)

lemma representable_fmul [simp]:
  assumes "sane m" "nonan (fmul m x y)"
  shows "representable m (fmul m x y)"
  using assms representable_fround [of m]
  by (cases x; cases y) (auto simp: representable_def split: if_splits)

lemma representable_sqdiff [simp]:
  assumes "sane m" "finite_flt a" "finite_flt b"
  shows "representable m (sqdiff m a b)"
  using assms sqdiff_nonneg(2) [of m a b] by (auto simp: sqdiff_def sane_def intro!: representable_fmul)

end
