(* ===== verification/Ikd_Tree.thy ===== *)
theory Ikd_Tree
  imports Ieee_Order
begin

text \<open>
  The incremental kd-tree of the LiDAR odometry, \<open>ikd_Tree.h\<close> and \<open>ikd_Tree.cpp\<close>: the nodes,
  the lazy deletion marks and how they are pushed down, the summary each node keeps of its
  subtree, building, flattening, rebuilding, and the recursive insertion and deletion
  routines. The pointers form a tree, so a subtree is a value of the datatype \<open>tree\<close>, a null
  pointer is \<open>Null\<close> and an operation that takes a \<open>KD_TREE_NODE **root\<close> returns the new subtree.
  The background thread is not modelled: the operations are those of a state in which no
  background rebuild is pending (\<open>Rebuild_Ptr == nullptr\<close>), and a subtree that is large enough
  to be handed to the thread is left as it is and noted in \<open>Rebuild_Ptr\<close>.
\<close>

section \<open>Points and boxes\<close>

text \<open>The template parameter: a PCL point has the coordinates and further data.\<close>

record 'p point =
  pt_x :: flt
  pt_y :: flt
  pt_z :: flt
  pt_data :: 'p

type_synonym range = "flt \<times> flt"

text \<open>A box: for each axis \<open>(vertex_min[i], vertex_max[i])\<close>.\<close>

record BoxPointType =
  box_x :: range
  box_y :: range
  box_z :: range

definition EPSS :: flt where "EPSS = fround b64 (1 / 10 ^ 6)"
definition Minimal_Unbalanced_Tree_Size :: int where "Minimal_Unbalanced_Tree_Size = 10"
definition Multi_Thread_Rebuild_Point_Num :: int where "Multi_Thread_Rebuild_Point_Num = 1500"

definition same_point :: "'p point \<Rightarrow> 'p point \<Rightarrow> bool" where
  "same_point a b \<longleftrightarrow> fless (fabs (fsub b32 (pt_x a) (pt_x b))) EPSS \<and>
     fless (fabs (fsub b32 (pt_y a) (pt_y b))) EPSS \<and> fless (fabs (fsub b32 (pt_z a) (pt_z b))) EPSS"

definition calc_dist :: "'p point \<Rightarrow> 'p point \<Rightarrow> flt" where
  "calc_dist a b = fadd b32 (fadd b32 (sqdiff b32 (pt_x a) (pt_x b)) (sqdiff b32 (pt_y a) (pt_y b)))
                            (sqdiff b32 (pt_z a) (pt_z b))"

definition point_cmp_x :: "'p point \<Rightarrow> 'p point \<Rightarrow> bool" where
  "point_cmp_x a b = fless (pt_x a) (pt_x b)"
definition point_cmp_y :: "'p point \<Rightarrow> 'p point \<Rightarrow> bool" where
  "point_cmp_y a b = fless (pt_y a) (pt_y b)"
definition point_cmp_z :: "'p point \<Rightarrow> 'p point \<Rightarrow> bool" where
  "point_cmp_z a b = fless (pt_z a) (pt_z b)"

text \<open>The tests of a box \<open>b\<close> against the range of a node, and against a coordinate.\<close>

definition misses :: "range \<Rightarrow> range \<Rightarrow> bool" where
  "misses b r \<longleftrightarrow> fle (snd b) (fst r) \<or> fless (snd r) (fst b)"
definition covers :: "range \<Rightarrow> range \<Rightarrow> bool" where
  "covers b r \<longleftrightarrow> fle (fst b) (fst r) \<and> fless (snd r) (snd b)"
definition inside :: "range \<Rightarrow> flt \<Rightarrow> bool" where
  "inside b v \<longleftrightarrow> fle (fst b) v \<and> fless v (snd b)"

definition in_box :: "BoxPointType \<Rightarrow> 'p point \<Rightarrow> bool" where
  "in_box b p \<longleftrightarrow> inside (box_x b) (pt_x p) \<and> inside (box_y b) (pt_y p) \<and> inside (box_z b) (pt_z p)"

section \<open>Nodes\<close>

text \<open>\<open>KD_TREE_NODE\<close> without its mutex, \<open>father_ptr\<close> and the two ratios kept for reports.\<close>

record 'p node =
  point :: "'p point"
  division_axis :: nat
  TreeSize :: int
  invalid_point_num :: int
  down_del_num :: int
  point_deleted :: bool
  tree_deleted :: bool
  point_downsample_deleted :: bool
  tree_downsample_deleted :: bool
  need_push_down_to_left :: bool
  need_push_down_to_right :: bool
  working_flag :: bool
  node_range_x :: range
  node_range_y :: range
  node_range_z :: range
  radius_sq :: flt

datatype 'p tree = Null | Node "'p node" "'p tree" "'p tree"

text \<open>A new node after \<open>InitTreeNode\<close>, and the point and axis its creator stores.\<close>

definition new_node :: "'p point \<Rightarrow> nat \<Rightarrow> 'p node" where
  "new_node p axis = \<lparr>point = p, division_axis = axis, TreeSize = 0, invalid_point_num = 0,
     down_del_num = 0, point_deleted = False, tree_deleted = False,
     point_downsample_deleted = False, tree_downsample_deleted = False,
     need_push_down_to_left = False, need_push_down_to_right = False, working_flag = False,
     node_range_x = (Num 0, Num 0), node_range_y = (Num 0, Num 0), node_range_z = (Num 0, Num 0),
     radius_sq = Num 0\<rparr>"

fun nodes :: "'p tree \<Rightarrow> nat" where
  "nodes Null = 0"
| "nodes (Node n l r) = Suc (nodes l + nodes r)"

section \<open>Pushing the marks down\<close>

text \<open>What \<open>Push_Down\<close> of a node \<open>n\<close> writes to its son \<open>m\<close>.\<close>

definition pushed :: "'p node \<Rightarrow> 'p node \<Rightarrow> 'p node" where
  "pushed n m =
     (let tree_ds = tree_downsample_deleted m \<or> tree_downsample_deleted n;
          point_ds = point_downsample_deleted m \<or> tree_downsample_deleted n;
          tree_del = tree_deleted n \<or> tree_ds;
          down = (if tree_downsample_deleted n then TreeSize m else down_del_num m)
      in m\<lparr>tree_downsample_deleted := tree_ds, point_downsample_deleted := point_ds,
           tree_deleted := tree_del, point_deleted := tree_del \<or> point_ds,
           down_del_num := down,
           invalid_point_num := (if tree_deleted n then TreeSize m else down),
           need_push_down_to_left := True, need_push_down_to_right := True\<rparr>)"

fun push_son :: "'p node \<Rightarrow> 'p tree \<Rightarrow> 'p tree" where
  "push_son n Null = Null"
| "push_son n (Node m a b) = Node (pushed n m) a b"

definition Push_Down :: "'p node \<Rightarrow> 'p tree \<Rightarrow> 'p tree \<Rightarrow> 'p node \<times> 'p tree \<times> 'p tree" where
  "Push_Down n l r =
     (let (n, l) = (if need_push_down_to_left n \<and> l \<noteq> Null
                    then (n\<lparr>need_push_down_to_left := False\<rparr>, push_son n l) else (n, l));
          (n, r) = (if need_push_down_to_right n \<and> r \<noteq> Null
                    then (n\<lparr>need_push_down_to_right := False\<rparr>, push_son n r) else (n, r))
      in (n, l, r))"

section \<open>Updating the summary of a node\<close>

definition join :: "range \<Rightarrow> range \<Rightarrow> range" where
  "join a b = (fmin (fst a) (fst b), fmax (snd a) (snd b))"

definition empty_range :: range where "empty_range = (Infty False, Infty True)"

definition at_coord :: "flt \<Rightarrow> range" where "at_coord v = (v, v)"

text \<open>The ranges of an axis: \<open>R\<close> selects the range of a node, \<open>v\<close> is the coordinate of its
  point. The sons that are not deleted, and the point, are joined one after the other.\<close>

definition live_range :: "range list \<Rightarrow> range" where
  "live_range rs = foldl join empty_range rs"

definition half_extent :: "range \<Rightarrow> flt" where
  "half_extent r = fconv b32 (fmul b64 (fsub b32 (snd r) (fst r)) (Num (1 / 2)))"

definition set_radius :: "'p node \<Rightarrow> 'p node" where
  "set_radius n = (let x = half_extent (node_range_x n); y = half_extent (node_range_y n);
                       z = half_extent (node_range_z n)
     in n\<lparr>radius_sq := fadd b32 (fadd b32 (fmul b32 x x) (fmul b32 y y)) (fmul b32 z z)\<rparr>)"

text \<open>The range of one axis in the four cases: with two sons, with one, and without.\<close>

definition range2 :: "'p node \<Rightarrow> 'p node \<Rightarrow> 'p node \<Rightarrow> ('p node \<Rightarrow> range) \<Rightarrow> flt \<Rightarrow> range" where
  "range2 n a b R v =
     (if tree_deleted n \<or> (\<not> tree_deleted a \<and> \<not> tree_deleted b \<and> \<not> point_deleted n)
      then join (join (R a) (R b)) (at_coord v)
      else live_range ((if tree_deleted a then [] else [R a]) @ (if tree_deleted b then [] else [R b]) @
                       (if point_deleted n then [] else [at_coord v])))"

definition range1 :: "'p node \<Rightarrow> 'p node \<Rightarrow> ('p node \<Rightarrow> range) \<Rightarrow> flt \<Rightarrow> range" where
  "range1 n a R v =
     (if tree_deleted n \<or> (\<not> tree_deleted a \<and> \<not> point_deleted n)
      then join (R a) (at_coord v)
      else live_range ((if tree_deleted a then [] else [R a]) @ (if point_deleted n then [] else [at_coord v])))"

definition b2i :: "bool \<Rightarrow> int" where "b2i b = (if b then 1 else 0)"

text \<open>The counts and flags, then the ranges and the radius.\<close>

definition update2 :: "'p node \<Rightarrow> 'p node \<Rightarrow> 'p node \<Rightarrow> 'p node" where
  "update2 n a b =
     (let n = n\<lparr>TreeSize := TreeSize a + TreeSize b + 1,
          invalid_point_num := invalid_point_num a + invalid_point_num b + b2i (point_deleted n),
          down_del_num := down_del_num a + down_del_num b + b2i (point_downsample_deleted n),
          tree_downsample_deleted := tree_downsample_deleted a \<and> tree_downsample_deleted b
                                     \<and> point_downsample_deleted n,
          tree_deleted := tree_deleted a \<and> tree_deleted b \<and> point_deleted n\<rparr>
      in n\<lparr>node_range_x := range2 n a b node_range_x (pt_x (point n)),
           node_range_y := range2 n a b node_range_y (pt_y (point n)),
           node_range_z := range2 n a b node_range_z (pt_z (point n))\<rparr>)"

definition update1 :: "'p node \<Rightarrow> 'p node \<Rightarrow> 'p node" where
  "update1 n a =
     (let n = n\<lparr>TreeSize := TreeSize a + 1,
          invalid_point_num := invalid_point_num a + b2i (point_deleted n),
          down_del_num := down_del_num a + b2i (point_downsample_deleted n),
          tree_downsample_deleted := tree_downsample_deleted a \<and> point_downsample_deleted n,
          tree_deleted := tree_deleted a \<and> point_deleted n\<rparr>
      in n\<lparr>node_range_x := range1 n a node_range_x (pt_x (point n)),
           node_range_y := range1 n a node_range_y (pt_y (point n)),
           node_range_z := range1 n a node_range_z (pt_z (point n))\<rparr>)"

definition update0 :: "'p node \<Rightarrow> 'p node" where
  "update0 n = n\<lparr>TreeSize := 1,
     invalid_point_num := b2i (point_deleted n),
     down_del_num := b2i (point_downsample_deleted n),
     tree_downsample_deleted := point_downsample_deleted n,
     tree_deleted := point_deleted n,
     node_range_x := at_coord (pt_x (point n)), node_range_y := at_coord (pt_y (point n)),
     node_range_z := at_coord (pt_z (point n))\<rparr>"

definition Update :: "'p node \<Rightarrow> 'p tree \<Rightarrow> 'p tree \<Rightarrow> 'p node" where
  "Update n l r = set_radius (case (l, r) of
     (Node a _ _, Node b _ _) \<Rightarrow> update2 n a b
   | (Node a _ _, Null) \<Rightarrow> update1 n a
   | (Null, Node b _ _) \<Rightarrow> update1 n b
   | (Null, Null) \<Rightarrow> update0 n)"

section \<open>Flattening\<close>

lemma nodes_push_son [simp]: "nodes (push_son n t) = nodes t"
  by (cases t) auto

lemma nodes_Push_Down:
  "Push_Down n l r = (n', l', r') \<Longrightarrow> nodes l' = nodes l \<and> nodes r' = nodes r"
  by (auto simp: Push_Down_def Let_def split: if_splits)

text \<open>\<open>flatten t = (t', Storage, recorded)\<close>: the points that are not deleted, and those the
  storage type \<open>DELETE_POINTS_REC\<close> records: deleted, but not by a downsampling.\<close>

function flatten :: "'p tree \<Rightarrow> 'p tree \<times> 'p point list \<times> 'p point list" where
  "flatten Null = (Null, [], [])"
| "flatten (Node n l r) = (case Push_Down n l r of (n, l, r) \<Rightarrow>
     case flatten l of (l, sl, dl) \<Rightarrow> case flatten r of (r, sr, dr) \<Rightarrow>
       (Node n l r, (if point_deleted n then [] else [point n]) @ sl @ sr,
        dl @ dr @ (if point_deleted n \<and> \<not> point_downsample_deleted n then [point n] else [])))"
  by pat_completeness auto
termination
  by (relation "measure nodes") (auto dest: nodes_Push_Down[OF sym])

section \<open>Building\<close>

text \<open>The axis along which the points spread most.\<close>

definition extent :: "('p point \<Rightarrow> flt) \<Rightarrow> 'p point list \<Rightarrow> flt" where
  "extent c xs = fsub b32 (foldl fmax (Infty True) (map c xs)) (foldl fmin (Infty False) (map c xs))"

definition widest_axis :: "'p point list \<Rightarrow> nat" where
  "widest_axis xs =
     (let d0 = extent pt_x xs; d1 = extent pt_y xs; d2 = extent pt_z xs;
          axis = (if fless d0 d1 then 1 else 0)
      in if fless (if axis = 1 then d1 else d0) d2 then 2 else axis)"

text \<open>\<open>std::nth_element\<close> is a parameter: it takes the comparison, the position of the median and
  the points of the slice, and returns the slice rearranged.\<close>

type_synonym 'p nth_fn = "('p point \<Rightarrow> 'p point \<Rightarrow> bool) \<Rightarrow> nat \<Rightarrow> 'p point list \<Rightarrow> 'p point list"

definition point_cmp :: "nat \<Rightarrow> 'p point \<Rightarrow> 'p point \<Rightarrow> bool" where
  "point_cmp axis = (if axis = 0 then point_cmp_x else if axis = 1 then point_cmp_y
                     else if axis = 2 then point_cmp_z else point_cmp_x)"

text \<open>\<open>BuildTree\<close> of the slice \<open>Storage[l..r]\<close>, given as a list.\<close>

function BuildTree :: "'p nth_fn \<Rightarrow> 'p point list \<Rightarrow> 'p tree" where
  "BuildTree nth_element storage =
     (if storage = [] then Null
      else let mid = (length storage - 1) div 2;
               div_axis = widest_axis storage;
               storage = take (length storage) (nth_element (point_cmp div_axis) mid storage);
               left_son = BuildTree nth_element (take mid storage);
               right_son = BuildTree nth_element (drop (mid + 1) storage)
           in Node (Update (new_node (storage ! mid) div_axis) left_son right_son) left_son right_son)"
  by pat_completeness auto
termination
proof (relation "measure (\<lambda>(nth_element, storage). length storage)")
  fix nth_element :: "'a nth_fn" and storage s :: "'a point list" and mid axis
  assume ne: "storage \<noteq> []" and mid: "mid = (length storage - 1) div 2"
    and s: "s = take (length storage) (nth_element (point_cmp axis) mid storage)"
  have less: "mid < length storage" and len: "length s \<le> length storage"
    using ne mid s by (cases storage; simp)+
  show "((nth_element, take mid s), nth_element, storage) \<in>
      measure (\<lambda>(nth_element, storage). length storage)" using less len by simp
  show "((nth_element, drop (mid + 1) s), nth_element, storage) \<in>
      measure (\<lambda>(nth_element, storage). length storage)" using less len ne by (cases storage) auto
qed auto

declare BuildTree.simps [simp del]

section \<open>The tree object\<close>

text \<open>The members of \<open>KD_TREE\<close> the operations use. \<open>Rebuild_Ptr\<close> is \<open>None\<close> for the null pointer
  and otherwise the size of the subtree waiting for the background thread.\<close>

record 'p ikd =
  Root_Node :: "'p tree"
  Points_deleted :: "'p point list"
  Multithread_Points_deleted :: "'p point list"
  Rebuild_Ptr :: "int option"
  delete_criterion_param :: flt
  balance_criterion_param :: flt
  downsample_size :: flt
  inv_downsample_size :: flt

fun tree_size :: "'p tree \<Rightarrow> int" where
  "tree_size Null = 0"
| "tree_size (Node n l r) = TreeSize n"

text \<open>The test reads a son only when \<open>TreeSize\<close> exceeds ten: then one of the two exists.\<close>

definition Criterion_Check :: "'p ikd \<Rightarrow> 'p node \<Rightarrow> 'p tree \<Rightarrow> 'p tree \<Rightarrow> bool" where
  "Criterion_Check k n l r =
     (if TreeSize n \<le> Minimal_Unbalanced_Tree_Size then False
      else let son = (if l = Null then r else l);
               delete_evaluation = fdiv b32 (of_i b32 (invalid_point_num n)) (of_i b32 (TreeSize n));
               balance_evaluation = fdiv b32 (of_i b32 (tree_size son)) (of_i b32 (TreeSize n - 1))
           in fless (delete_criterion_param k) delete_evaluation \<or>
              fless (balance_criterion_param k) balance_evaluation \<or>
              fless balance_evaluation (fsub b32 (Num 1) (balance_criterion_param k)))"

definition Rebuild :: "'p nth_fn \<Rightarrow> 'p tree \<Rightarrow> 'p ikd \<Rightarrow> 'p tree \<times> 'p ikd" where
  "Rebuild nth_element t k =
     (if Multi_Thread_Rebuild_Point_Num \<le> tree_size t
      then (t, (case Rebuild_Ptr k of
                  None \<Rightarrow> k\<lparr>Rebuild_Ptr := Some (tree_size t)\<rparr>
                | Some s \<Rightarrow> if s < tree_size t then k\<lparr>Rebuild_Ptr := Some (tree_size t)\<rparr> else k))
      else case flatten t of (_, storage, recorded) \<Rightarrow>
        (BuildTree nth_element storage, k\<lparr>Points_deleted := Points_deleted k @ recorded\<rparr>))"

text \<open>The common end of the recursive updates: update the node, rebuild if the criterion says so,
  clear the working flag.\<close>

definition clear_working :: "'p tree \<Rightarrow> 'p tree" where
  "clear_working t = (case t of Null \<Rightarrow> Null | Node n l r \<Rightarrow> Node (n\<lparr>working_flag := False\<rparr>) l r)"

definition finish :: "'p nth_fn \<Rightarrow> bool \<Rightarrow> 'p node \<Rightarrow> 'p tree \<Rightarrow> 'p tree \<Rightarrow> 'p ikd \<Rightarrow> 'p tree \<times> 'p ikd" where
  "finish nth_element allow_rebuild n l r k =
     (let n = Update n l r;
          (t, k) = (if allow_rebuild \<and> Criterion_Check k n l r
                    then Rebuild nth_element (Node n l r) k else (Node n l r, k))
      in (clear_working t, k))"

section \<open>Deletion\<close>

definition disjoint_from :: "BoxPointType \<Rightarrow> 'p node \<Rightarrow> bool" where
  "disjoint_from b n \<longleftrightarrow> misses (box_x b) (node_range_x n) \<or> misses (box_y b) (node_range_y n) \<or>
                         misses (box_z b) (node_range_z n)"
definition covering :: "BoxPointType \<Rightarrow> 'p node \<Rightarrow> bool" where
  "covering b n \<longleftrightarrow> covers (box_x b) (node_range_x n) \<and> covers (box_y b) (node_range_y n) \<and>
                    covers (box_z b) (node_range_z n)"

text \<open>Marking a whole subtree, and a single point.\<close>

definition delete_all :: "bool \<Rightarrow> 'p node \<Rightarrow> 'p node" where
  "delete_all is_downsample n =
     (let n = n\<lparr>tree_deleted := True, point_deleted := True, need_push_down_to_left := True,
                need_push_down_to_right := True, invalid_point_num := TreeSize n\<rparr>
      in if is_downsample
         then n\<lparr>tree_downsample_deleted := True, point_downsample_deleted := True, down_del_num := TreeSize n\<rparr>
         else n)"

definition delete_own :: "bool \<Rightarrow> 'p node \<Rightarrow> 'p node" where
  "delete_own is_downsample n =
     (let n = n\<lparr>point_deleted := True\<rparr>
      in if is_downsample then n\<lparr>point_downsample_deleted := True\<rparr> else n)"

function Delete_by_range ::
  "'p nth_fn \<Rightarrow> BoxPointType \<Rightarrow> bool \<Rightarrow> bool \<Rightarrow> 'p tree \<Rightarrow> 'p ikd \<Rightarrow> int \<times> 'p tree \<times> 'p ikd" where
  "Delete_by_range nth_element b allow_rebuild is_downsample Null k = (0, Null, k)"
| "Delete_by_range nth_element b allow_rebuild is_downsample (Node n l r) k =
     (if tree_deleted n then (0, Node n l r, k)
      else case Push_Down (n\<lparr>working_flag := True\<rparr>) l r of (n, l, r) \<Rightarrow>
        if disjoint_from b n then (0, Node n l r, k)
        else if covering b n
        then (TreeSize n - invalid_point_num n, Node (delete_all is_downsample n) l r, k)
        else
          (let own = \<not> point_deleted n \<and> in_box b (point n);
               n = (if own then delete_own is_downsample n else n);
               (cl, l, k) = Delete_by_range nth_element b allow_rebuild is_downsample l k;
               (cr, r, k) = Delete_by_range nth_element b allow_rebuild is_downsample r k;
               (t, k) = finish nth_element allow_rebuild n l r k
           in (b2i own + cl + cr, t, k)))"
  by pat_completeness auto
termination
  by (relation "measure (\<lambda>(nth_element, b, allow_rebuild, is_downsample, t, k). nodes t)")
    (auto dest: nodes_Push_Down[OF sym])

text \<open>The comparison that guides insertion and deletion of a point.\<close>

definition goes_left :: "'p point \<Rightarrow> 'p node \<Rightarrow> bool" where
  "goes_left p n \<longleftrightarrow> division_axis n = 0 \<and> fless (pt_x p) (pt_x (point n)) \<or>
     division_axis n = 1 \<and> fless (pt_y p) (pt_y (point n)) \<or>
     division_axis n = 2 \<and> fless (pt_z p) (pt_z (point n))"

definition delete_found :: "'p node \<Rightarrow> 'p node" where
  "delete_found n =
     (let n = n\<lparr>point_deleted := True, invalid_point_num := invalid_point_num n + 1\<rparr>
      in if invalid_point_num n = TreeSize n then n\<lparr>tree_deleted := True\<rparr> else n)"

function Delete_by_point ::
  "'p nth_fn \<Rightarrow> 'p point \<Rightarrow> bool \<Rightarrow> 'p tree \<Rightarrow> 'p ikd \<Rightarrow> 'p tree \<times> 'p ikd" where
  "Delete_by_point nth_element p allow_rebuild Null k = (Null, k)"
| "Delete_by_point nth_element p allow_rebuild (Node n l r) k =
     (if tree_deleted n then (Node n l r, k)
      else case Push_Down (n\<lparr>working_flag := True\<rparr>) l r of (n, l, r) \<Rightarrow>
        if same_point (point n) p \<and> \<not> point_deleted n then (Node (delete_found n) l r, k)
        else if goes_left p n
        then (let (l, k) = Delete_by_point nth_element p allow_rebuild l k
              in finish nth_element allow_rebuild n l r k)
        else (let (r, k) = Delete_by_point nth_element p allow_rebuild r k
              in finish nth_element allow_rebuild n l r k))"
  by pat_completeness auto
termination
  by (relation "measure (\<lambda>(nth_element, p, allow_rebuild, t, k). nodes t)")
    (auto dest: nodes_Push_Down[OF sym])

section \<open>Insertion\<close>

function Add_by_point ::
  "'p nth_fn \<Rightarrow> 'p point \<Rightarrow> bool \<Rightarrow> nat \<Rightarrow> 'p tree \<Rightarrow> 'p ikd \<Rightarrow> 'p tree \<times> 'p ikd" where
  "Add_by_point nth_element p allow_rebuild father_axis Null k =
     (Node (Update (new_node p ((father_axis + 1) mod 3)) Null Null) Null Null, k)"
| "Add_by_point nth_element p allow_rebuild father_axis (Node n l r) k =
     (case Push_Down (n\<lparr>working_flag := True\<rparr>) l r of (n, l, r) \<Rightarrow>
        if goes_left p n
        then (let (l, k) = Add_by_point nth_element p allow_rebuild (division_axis n) l k
              in finish nth_element allow_rebuild n l r k)
        else (let (r, k) = Add_by_point nth_element p allow_rebuild (division_axis n) r k
              in finish nth_element allow_rebuild n l r k))"
  by pat_completeness auto
termination
  by (relation "measure (\<lambda>(nth_element, p, allow_rebuild, father_axis, t, k). nodes t)")
    (auto dest: nodes_Push_Down[OF sym])

text \<open>Undoing the deletion of the points of a box.\<close>

definition restore_all :: "'p node \<Rightarrow> 'p node" where
  "restore_all n = n\<lparr>tree_deleted := tree_downsample_deleted n,
     point_deleted := point_downsample_deleted n, need_push_down_to_left := True,
     need_push_down_to_right := True, invalid_point_num := down_del_num n\<rparr>"

function Add_by_range ::
  "'p nth_fn \<Rightarrow> BoxPointType \<Rightarrow> bool \<Rightarrow> 'p tree \<Rightarrow> 'p ikd \<Rightarrow> 'p tree \<times> 'p ikd" where
  "Add_by_range nth_element b allow_rebuild Null k = (Null, k)"
| "Add_by_range nth_element b allow_rebuild (Node n l r) k =
     (case Push_Down (n\<lparr>working_flag := True\<rparr>) l r of (n, l, r) \<Rightarrow>
        if disjoint_from b n then (Node n l r, k)
        else if covering b n then (Node (restore_all n) l r, k)
        else
          (let n = (if in_box b (point n) then n\<lparr>point_deleted := point_downsample_deleted n\<rparr> else n);
               (l, k) = Add_by_range nth_element b allow_rebuild l k;
               (r, k) = Add_by_range nth_element b allow_rebuild r k
           in finish nth_element allow_rebuild n l r k))"
  by pat_completeness auto
termination
  by (relation "measure (\<lambda>(nth_element, b, allow_rebuild, t, k). nodes t)")
    (auto dest: nodes_Push_Down[OF sym])

end
