(* ===== verification/Ikd_Invariant.thy ===== *)
theory Ikd_Invariant
  imports Ikd_Tree "HOL-Library.Multiset"
begin

text \<open>
  What a subtree of the kd-tree means, and what its nodes have to say of it. The marks of a node
  reach its sons only when they are pushed down, so the content of a subtree is read through the
  pending marks. The invariant \<open>tree_inv\<close> relates the summary of every node (counts, flags, range) to
  that content; its second half, that the range of a node contains its live points, is switched by
  a parameter because undoing a deletion (\<open>Add_by_range\<close>) does not keep it.
\<close>

section \<open>The content of a subtree\<close>

text \<open>A point with its marks: deleted, deleted by a downsampling.\<close>

type_synonym 'p mark = "'p point \<times> bool \<times> bool"

definition kid :: "bool \<Rightarrow> 'p node \<Rightarrow> 'p tree \<Rightarrow> 'p tree" where
  "kid need n c = (if need then push_son n c else c)"

lemma nodes_kid [simp]: "nodes (kid need n c) = nodes c"
  by (simp add: kid_def)

lemma kid_Null [simp]: "kid need n Null = Null" "kid False n c = c" "kid True n c = push_son n c"
  by (simp_all add: kid_def)

abbreviation left_kid :: "'p node \<Rightarrow> 'p tree \<Rightarrow> 'p tree" where
  "left_kid n l \<equiv> kid (need_push_down_to_left n) n l"
abbreviation right_kid :: "'p node \<Rightarrow> 'p tree \<Rightarrow> 'p tree" where
  "right_kid n r \<equiv> kid (need_push_down_to_right n) n r"

definition own_mark :: "'p node \<Rightarrow> 'p mark" where
  "own_mark n = (point n, point_deleted n, point_downsample_deleted n)"

function content :: "'p tree \<Rightarrow> 'p mark list" where
  "content Null = []"
| "content (Node n l r) = own_mark n # content (left_kid n l) @ content (right_kid n r)"
  by pat_completeness auto
termination by (relation "measure nodes") auto

text \<open>The deleted mark and the downsampling mark of an entry.\<close>

abbreviation dead :: "'p mark \<Rightarrow> bool" where "dead m \<equiv> fst (snd m)"
abbreviation thinned :: "'p mark \<Rightarrow> bool" where "thinned m \<equiv> snd (snd m)"

definition live :: "'p tree \<Rightarrow> 'p point list" where
  "live t = map fst (filter (\<lambda>m. \<not> dead m) (content t))"

definition retired :: "'p tree \<Rightarrow> 'p point list" where
  "retired t = map fst (filter (\<lambda>m. dead m \<and> \<not> thinned m) (content t))"

lemma length_content [simp]: "length (content t) = nodes t"
  by (induction t rule: content.induct) auto

section \<open>The invariant\<close>

definition counts_ok :: "'p node \<Rightarrow> 'p mark list \<Rightarrow> bool" where
  "counts_ok n C \<longleftrightarrow>
     TreeSize n = int (length C) \<and>
     invalid_point_num n = int (length (filter dead C)) \<and>
     down_del_num n = int (length (filter thinned C)) \<and>
     (tree_deleted n \<longleftrightarrow> (\<forall>m \<in> set C. dead m)) \<and>
     (tree_downsample_deleted n \<longleftrightarrow> (\<forall>m \<in> set C. thinned m)) \<and>
     (\<forall>m \<in> set C. thinned m \<longrightarrow> dead m)"

definition finite_point :: "'p point \<Rightarrow> bool" where
  "finite_point p \<longleftrightarrow> finite_flt (pt_x p) \<and> finite_flt (pt_y p) \<and> finite_flt (pt_z p)"

definition range_ok :: "range \<Rightarrow> bool" where
  "range_ok r \<longleftrightarrow> finite_flt (fst r) \<and> finite_flt (snd r)"

definition lies_in :: "flt \<Rightarrow> range \<Rightarrow> bool" where
  "lies_in v r \<longleftrightarrow> fst r \<le> v \<and> v \<le> snd r"

definition in_ranges :: "'p node \<Rightarrow> 'p point \<Rightarrow> bool" where
  "in_ranges n p \<longleftrightarrow> lies_in (pt_x p) (node_range_x n) \<and> lies_in (pt_y p) (node_range_y n) \<and>
                     lies_in (pt_z p) (node_range_z n)"

definition ranges_ok :: "'p node \<Rightarrow> 'p mark list \<Rightarrow> bool" where
  "ranges_ok n C \<longleftrightarrow>
     range_ok (node_range_x n) \<and> range_ok (node_range_y n) \<and> range_ok (node_range_z n) \<and>
     (\<forall>m \<in> set C. finite_point (fst m)) \<and> (\<forall>m \<in> set C. \<not> dead m \<longrightarrow> in_ranges n (fst m))"

definition node_ok :: "bool \<Rightarrow> 'p node \<Rightarrow> 'p mark list \<Rightarrow> bool" where
  "node_ok B n C \<longleftrightarrow> counts_ok n C \<and> (B \<longrightarrow> ranges_ok n C)"

function tree_inv :: "bool \<Rightarrow> 'p tree \<Rightarrow> bool" where
  "tree_inv B Null = True"
| "tree_inv B (Node n l r) \<longleftrightarrow> node_ok B n (content (Node n l r)) \<and> tree_inv B (left_kid n l) \<and> tree_inv B (right_kid n r)"
  by pat_completeness auto
termination by (relation "measure (\<lambda>(B, t). nodes t)") auto

lemma node_ok_flags [simp]:
  "node_ok B (n\<lparr>need_push_down_to_left := a\<rparr>) C = node_ok B n C"
  "node_ok B (n\<lparr>need_push_down_to_right := a\<rparr>) C = node_ok B n C"
  "node_ok B (n\<lparr>working_flag := a\<rparr>) C = node_ok B n C"
  "own_mark (n\<lparr>need_push_down_to_left := a\<rparr>) = own_mark n"
  "own_mark (n\<lparr>need_push_down_to_right := a\<rparr>) = own_mark n"
  "own_mark (n\<lparr>working_flag := a\<rparr>) = own_mark n"
  by (simp_all add: node_ok_def counts_ok_def ranges_ok_def in_ranges_def own_mark_def)

lemma push_son_flags [simp]:
  "push_son (n\<lparr>need_push_down_to_left := a\<rparr>) t = push_son n t"
  "push_son (n\<lparr>need_push_down_to_right := a\<rparr>) t = push_son n t"
  "push_son (n\<lparr>working_flag := a\<rparr>) t = push_son n t"
  by (cases t; simp add: pushed_def Let_def)+

lemma kid_flags [simp]:
  "kid need (n\<lparr>need_push_down_to_left := a\<rparr>) t = kid need n t"
  "kid need (n\<lparr>need_push_down_to_right := a\<rparr>) t = kid need n t"
  "kid need (n\<lparr>working_flag := a\<rparr>) t = kid need n t"
  by (simp_all add: kid_def)

section \<open>Pushing down\<close>

text \<open>What a push does to one entry of the content.\<close>

definition mark_by :: "'p node \<Rightarrow> 'p mark \<Rightarrow> 'p mark" where
  "mark_by n m = (let s = thinned m \<or> tree_downsample_deleted n
                  in (fst m, tree_deleted n \<or> s, s))"

lemma push_twice:
  assumes "tree_downsample_deleted n \<longrightarrow> tree_downsample_deleted n'"
  shows "push_son n' (push_son n t) = push_son n' t"
  using assms by (cases t) (auto simp: pushed_def Let_def)

lemma push_kid:
  assumes "tree_downsample_deleted n \<longrightarrow> tree_downsample_deleted n'"
  shows "push_son n' (kid need n t) = push_son n' t"
  using push_twice [OF assms] by (simp add: kid_def)

lemma counts_pushed:
  assumes "counts_ok m C" "C \<noteq> []"
  shows "counts_ok (pushed n m) (map (mark_by n) C)"
proof -
  have f: "filter dead (map (mark_by n) C) =
      map (mark_by n) (filter (\<lambda>m. tree_deleted n \<or> thinned m \<or> tree_downsample_deleted n) C)"
    "filter thinned (map (mark_by n) C) =
      map (mark_by n) (filter (\<lambda>m. thinned m \<or> tree_downsample_deleted n) C)"
    by (simp_all add: filter_map o_def mark_by_def Let_def)
  show ?thesis
    using assms by (cases "tree_deleted n"; cases "tree_downsample_deleted n")
      (auto simp: counts_ok_def f pushed_def Let_def mark_by_def)
qed

text \<open>A push of the marks of \<open>n\<close> brings no point of \<open>C\<close> back.\<close>

definition restores_none :: "'p node \<Rightarrow> 'p mark list \<Rightarrow> bool" where
  "restores_none n C \<longleftrightarrow> tree_deleted n \<or> tree_downsample_deleted n \<or> (\<forall>m \<in> set C. dead m \<longrightarrow> thinned m)"

lemma ranges_pushed:
  assumes "ranges_ok m C" "restores_none n C"
  shows "ranges_ok (pushed n m) (map (mark_by n) C)"
  using assms by (auto simp: ranges_ok_def in_ranges_def pushed_def Let_def mark_by_def restores_none_def)

lemma push_son_content_inv:
  assumes "tree_inv False t"
  shows "content (push_son n t) = map (mark_by n) (content t) \<and> tree_inv False (push_son n t) \<and>
    (tree_inv True t \<longrightarrow> restores_none n (content t) \<longrightarrow> tree_inv True (push_son n t))"
  using assms
proof (induction "nodes t" arbitrary: t n rule: less_induct)
  case less
  show ?case
  proof (cases t)
    case Null
    then show ?thesis by simp
  next
    case (Node m a b)
    let ?C = "content (Node m a b)" and ?m = "pushed n m"
    have c: "counts_ok m ?C" and ok: "tree_inv False (left_kid m a)" "tree_inv False (right_kid m b)"
      using less.prems Node by (auto simp: node_ok_def)
    have flags: "need_push_down_to_left ?m" "need_push_down_to_right ?m"
      "tree_downsample_deleted m \<longrightarrow> tree_downsample_deleted ?m"
      by (simp_all add: pushed_def Let_def)
    have IH: "content (push_son ?m c) = map (mark_by ?m) (content (kid need m c)) \<and> tree_inv False (push_son ?m c) \<and>
        (tree_inv True (kid need m c) \<longrightarrow> restores_none ?m (content (kid need m c)) \<longrightarrow> tree_inv True (push_son ?m c))"
      if "c \<in> {a, b}" "tree_inv False (kid need m c)" for need c
    proof -
      have "nodes (kid need m c) < nodes t" using that(1) Node by auto
      moreover have e: "push_son ?m (kid need m c) = push_son ?m c" by (rule push_kid [OF flags(3)])
      ultimately show ?thesis using less.hyps [of "kid need m c" ?m] that(2) unfolding e by blast
    qed
    have same: "map (mark_by ?m) xs = map (mark_by n) xs" if "set xs \<subseteq> set ?C" for xs
      using that c by (auto simp: counts_ok_def mark_by_def pushed_def Let_def)
    have own: "own_mark ?m = mark_by n (own_mark m)"
      using c by (auto simp: own_mark_def mark_by_def pushed_def Let_def counts_ok_def)
    have kids: "content (push_son ?m a) = map (mark_by n) (content (left_kid m a))"
      "content (push_son ?m b) = map (mark_by n) (content (right_kid m b))"
      using IH [of a, OF _ ok(1)] IH [of b, OF _ ok(2)] same [of "content (left_kid m a)"]
        same [of "content (right_kid m b)"] by auto
    have cont: "content (Node ?m a b) = map (mark_by n) ?C"
      using flags kids own by simp
    have C: "?C \<noteq> []" by simp
    have "tree_inv False (Node ?m a b)"
      using counts_pushed [OF c C, of n] cont IH [of a, OF _ ok(1)] IH [of b, OF _ ok(2)] flags(1,2)
      by (simp add: node_ok_def del: content.simps)
    then have i: "tree_inv False (push_son n t)" using Node by simp
    have "tree_inv True (push_son n t)" if t: "tree_inv True t"
      and q: "restores_none n (content t)"
    proof -
      have "ranges_ok m ?C" and k: "tree_inv True (left_kid m a)" "tree_inv True (right_kid m b)"
        using t Node by (auto simp: node_ok_def)
      then have r: "ranges_ok ?m (map (mark_by n) ?C)" using q Node by (intro ranges_pushed) auto
      have "restores_none ?m (content (left_kid m a))" "restores_none ?m (content (right_kid m b))"
        using q Node by (auto simp: pushed_def Let_def restores_none_def)
      then have "tree_inv True (Node ?m a b)"
        using r k counts_pushed [OF c C, of n] cont IH [of a, OF _ ok(1)] IH [of b, OF _ ok(2)] flags(1,2)
        by (simp add: node_ok_def del: content.simps)
      then show ?thesis using Node by simp
    qed
    then show ?thesis using cont i Node by simp
  qed
qed

lemma tree_inv_weaken: "tree_inv B t \<Longrightarrow> tree_inv False t"
  by (induction B t rule: tree_inv.induct) (auto simp: node_ok_def)

lemma Push_Down_eq:
  "Push_Down n l r =
     (n\<lparr>need_push_down_to_left := need_push_down_to_left n \<and> l = Null,
        need_push_down_to_right := need_push_down_to_right n \<and> r = Null\<rparr>, left_kid n l, right_kid n r)"
  by (cases "need_push_down_to_left n"; cases "need_push_down_to_right n"; cases "l = Null"; cases "r = Null")
    (simp_all add: Push_Down_def)

lemma kid_eq_Null [simp]: "kid need n c = Null \<longleftrightarrow> c = Null"
  by (cases c) (simp_all add: kid_def)

lemma kid_settled [simp]: "kid (need \<and> c = Null) n (kid need' m c) = kid need' m c"
  by (cases c) (simp_all add: kid_def)

lemma content_Nil [simp]: "content t = [] \<longleftrightarrow> t = Null"
  by (cases t) simp_all

text \<open>After pushing down, the sons are the ones read through the marks.\<close>

lemma after_push:
  assumes "Push_Down n l r = (n', l', r')"
  shows "l' = left_kid n l" "r' = right_kid n r" "left_kid n' l' = l'" "right_kid n' r' = r'"
    "content (Node n' l' r') = content (Node n l r)" "tree_inv B (Node n' l' r') = tree_inv B (Node n l r)"
    "need_push_down_to_left n' \<longrightarrow> l' = Null" "need_push_down_to_right n' \<longrightarrow> r' = Null"
  using assms by (auto simp: Push_Down_eq)

lemma content_working [simp]:
  "content (Node (n\<lparr>working_flag := w\<rparr>) l r) = content (Node n l r)"
  "tree_inv B (Node (n\<lparr>working_flag := w\<rparr>) l r) = tree_inv B (Node n l r)"
  by simp_all

lemma content_clear [simp]:
  "content (clear_working t) = content t" "tree_inv B (clear_working t) = tree_inv B t"
  by (cases t; simp add: clear_working_def)+

section \<open>Flattening\<close>

lemma flatten_spec:
  "flatten t = (t', s, d) \<Longrightarrow>
   content t' = content t \<and> tree_inv B t' = tree_inv B t \<and> s = live t \<and> mset d = mset (retired t)"
proof (induction t arbitrary: t' s d rule: flatten.induct)
  case 1
  then show ?case by (simp add: live_def retired_def)
next
  case (2 n l r)
  obtain n1 l1 r1 where p: "Push_Down n l r = (n1, l1, r1)" by (metis prod_cases3)
  obtain l2 sl dl where l: "flatten l1 = (l2, sl, dl)" by (metis prod_cases3)
  obtain r2 sr dr where r: "flatten r1 = (r2, sr, dr)" by (metis prod_cases3)
  note a = after_push [OF p]
  have IHl: "content l2 = content l1" "tree_inv B l2 = tree_inv B l1" "sl = live l1" "mset dl = mset (retired l1)"
    using 2(1) [OF p [symmetric] refl l] by blast+
  have IHr: "content r2 = content r1" "tree_inv B r2 = tree_inv B r1" "sr = live r1" "mset dr = mset (retired r1)"
    using 2(2) [OF p [symmetric] refl l [symmetric] refl r] by blast+
  have e: "t' = Node n1 l2 r2" and s: "s = (if point_deleted n1 then [] else [point n1]) @ sl @ sr"
    and d: "d = dl @ dr @ (if point_deleted n1 \<and> \<not> point_downsample_deleted n1 then [point n1] else [])"
    using 2(3) by (simp_all add: p l r)
  have nulls: "l2 = Null \<longleftrightarrow> l1 = Null" "r2 = Null \<longleftrightarrow> r1 = Null"
    using IHl(1) IHr(1) by (metis content_Nil)+
  have kids: "left_kid n1 l2 = l2" "right_kid n1 r2 = r2"
    using a(7,8) nulls by (auto simp: kid_def)
  have k1: "left_kid n1 l1 = l1" "right_kid n1 r1 = r1" using a(3,4) by auto
  have c: "content t' = content (Node n1 l1 r1)" using IHl IHr kids k1 e by simp
  have i: "tree_inv B t' = tree_inv B (Node n1 l1 r1)" using IHl IHr kids k1 e c by simp
  have "s = live (Node n1 l1 r1)" "mset d = mset (retired (Node n1 l1 r1))"
    using s d IHl(3,4) IHr(3,4) k1 by (simp_all add: live_def retired_def own_mark_def)
  then show ?case using c i a(5,6) by (simp add: live_def retired_def)
qed

lemma length_live: "length (live t) = length (filter (\<lambda>m. \<not> dead m) (content t))"
  by (simp add: live_def)

text \<open>The counts of a root are those of the content.\<close>

lemma root_counts:
  assumes "tree_inv B (Node n l r)"
  shows "counts_ok n (content (Node n l r))"
  using assms by (simp add: node_ok_def)

lemma valid_count:
  assumes "tree_inv B (Node n l r)"
  shows "TreeSize n - invalid_point_num n = int (length (live (Node n l r)))"
proof -
  let ?C = "content (Node n l r)"
  have "counts_ok n ?C" using assms by (rule root_counts)
  then have "TreeSize n = int (length ?C)" "invalid_point_num n = int (length (filter dead ?C))"
    unfolding counts_ok_def by blast+
  moreover have "int (length (filter dead ?C)) + int (length (live (Node n l r))) = int (length ?C)"
    unfolding length_live of_nat_add [symmetric] by (simp only: sum_length_filter_compl)
  ultimately show ?thesis by linarith
qed

lemma deleted_no_live:
  assumes "tree_inv B (Node n l r)"
  shows "tree_deleted n \<longleftrightarrow> live (Node n l r) = []"
  using root_counts [OF assms] by (auto simp: counts_ok_def live_def filter_empty_conv simp del: content.simps)

section \<open>Updating a node\<close>

lemma range_ok_simps [simp]: "range_ok (at_coord v) \<longleftrightarrow> finite_flt v" "lies_in w (at_coord v) \<longleftrightarrow> w = v"
  by (auto simp: range_ok_def at_coord_def lies_in_def)

lemma join_ok [simp]:
  assumes "range_ok a" "range_ok b"
  shows "range_ok (join a b)" "lies_in v a \<Longrightarrow> lies_in v (join a b)" "lies_in v b \<Longrightarrow> lies_in v (join a b)"
  using assms by (auto simp: range_ok_def join_def lies_in_def min_le_iff_disj le_max_iff_disj)

lemma join_empty [simp]: "range_ok a \<Longrightarrow> join empty_range a = a"
  by (cases a) (auto simp: range_ok_def join_def empty_range_def finite_flt_def min_def max_def)

lemma live_range_simps:
  "range_ok a \<Longrightarrow> live_range [a] = a" "range_ok a \<Longrightarrow> live_range [a, b] = join a b"
  by (simp_all add: live_range_def)

lemma range2_covers:
  assumes "range_ok (R a)" "range_ok (R b)" "finite_flt v"
    and "tree_deleted n \<longleftrightarrow> tree_deleted a \<and> tree_deleted b \<and> point_deleted n"
  shows "range_ok (range2 n a b R v)" "\<not> tree_deleted a \<Longrightarrow> lies_in w (R a) \<Longrightarrow> lies_in w (range2 n a b R v)"
    "\<not> tree_deleted b \<Longrightarrow> lies_in w (R b) \<Longrightarrow> lies_in w (range2 n a b R v)"
    "\<not> point_deleted n \<Longrightarrow> lies_in v (range2 n a b R v)"
  using assms by (auto simp: range2_def live_range_simps)

lemma range1_covers:
  assumes "range_ok (R a)" "finite_flt v" "tree_deleted n \<longleftrightarrow> tree_deleted a \<and> point_deleted n"
  shows "range_ok (range1 n a R v)" "\<not> tree_deleted a \<Longrightarrow> lies_in w (R a) \<Longrightarrow> lies_in w (range1 n a R v)"
    "\<not> point_deleted n \<Longrightarrow> lies_in v (range1 n a R v)"
  using assms by (auto simp: range1_def live_range_simps)

lemma set_radius_simps [simp]:
  "own_mark (set_radius n) = own_mark n" "counts_ok (set_radius n) C = counts_ok n C"
  "ranges_ok (set_radius n) C = ranges_ok n C" "node_ok B (set_radius n) C = node_ok B n C"
  "need_push_down_to_left (set_radius n) = need_push_down_to_left n"
  "need_push_down_to_right (set_radius n) = need_push_down_to_right n"
  "tree_deleted (set_radius n) = tree_deleted n"
  "tree_downsample_deleted (set_radius n) = tree_downsample_deleted n"
  "invalid_point_num (set_radius n) = invalid_point_num n" "down_del_num (set_radius n) = down_del_num n"
  "node_range_x (set_radius n) = node_range_x n" "node_range_y (set_radius n) = node_range_y n"
  "node_range_z (set_radius n) = node_range_z n"
  "TreeSize (set_radius n) = TreeSize n" "division_axis (set_radius n) = division_axis n"
  "point (set_radius n) = point n"
  by (simp_all add: set_radius_def Let_def own_mark_def counts_ok_def ranges_ok_def in_ranges_def node_ok_def)

lemma update0_flags [simp]:
  "own_mark (update0 n) = own_mark n" "point (update0 n) = point n"
  "need_push_down_to_left (update0 n) = need_push_down_to_left n"
  "need_push_down_to_right (update0 n) = need_push_down_to_right n"
  "division_axis (update0 n) = division_axis n"
  by (simp_all add: update0_def own_mark_def Let_def)

lemma update1_flags [simp]:
  "own_mark (update1 n a) = own_mark n" "point (update1 n a) = point n"
  "need_push_down_to_left (update1 n a) = need_push_down_to_left n"
  "need_push_down_to_right (update1 n a) = need_push_down_to_right n"
  "division_axis (update1 n a) = division_axis n"
  by (simp_all add: update1_def own_mark_def Let_def)

lemma update2_flags [simp]:
  "own_mark (update2 n a b) = own_mark n" "point (update2 n a b) = point n"
  "need_push_down_to_left (update2 n a b) = need_push_down_to_left n"
  "need_push_down_to_right (update2 n a b) = need_push_down_to_right n"
  "division_axis (update2 n a b) = division_axis n"
  by (simp_all add: update2_def own_mark_def Let_def)

lemma update2_fields [simp]:
  "TreeSize (update2 n a b) = TreeSize a + TreeSize b + 1"
  "invalid_point_num (update2 n a b) = invalid_point_num a + invalid_point_num b + b2i (point_deleted n)"
  "down_del_num (update2 n a b) = down_del_num a + down_del_num b + b2i (point_downsample_deleted n)"
  "tree_downsample_deleted (update2 n a b) \<longleftrightarrow>
     tree_downsample_deleted a \<and> tree_downsample_deleted b \<and> point_downsample_deleted n"
  "tree_deleted (update2 n a b) \<longleftrightarrow> tree_deleted a \<and> tree_deleted b \<and> point_deleted n"
  by (simp_all add: update2_def Let_def)

lemma update1_fields [simp]:
  "TreeSize (update1 n a) = TreeSize a + 1"
  "invalid_point_num (update1 n a) = invalid_point_num a + b2i (point_deleted n)"
  "down_del_num (update1 n a) = down_del_num a + b2i (point_downsample_deleted n)"
  "tree_downsample_deleted (update1 n a) \<longleftrightarrow> tree_downsample_deleted a \<and> point_downsample_deleted n"
  "tree_deleted (update1 n a) \<longleftrightarrow> tree_deleted a \<and> point_deleted n"
  by (simp_all add: update1_def Let_def)

lemma Update_flags [simp]:
  "own_mark (Update n l r) = own_mark n" "point (Update n l r) = point n"
  "need_push_down_to_left (Update n l r) = need_push_down_to_left n"
  "need_push_down_to_right (Update n l r) = need_push_down_to_right n"
  "division_axis (Update n l r) = division_axis n"
  by (cases l; cases r; simp add: Update_def)+

lemma counts_Cons:
  assumes "thinned m \<longrightarrow> dead m"
    "TreeSize n = int (length C) + 1" "invalid_point_num n = int (length (filter dead C)) + b2i (dead m)"
    "down_del_num n = int (length (filter thinned C)) + b2i (thinned m)"
    "tree_deleted n \<longleftrightarrow> (\<forall>m \<in> set C. dead m) \<and> dead m"
    "tree_downsample_deleted n \<longleftrightarrow> (\<forall>m \<in> set C. thinned m) \<and> thinned m"
    "\<forall>m \<in> set C. thinned m \<longrightarrow> dead m"
  shows "counts_ok n (m # C)"
  using assms by (auto simp: counts_ok_def b2i_def)

lemma counts_sons:
  assumes "counts_ok a A" shows
    "TreeSize a = int (length A)" "invalid_point_num a = int (length (filter dead A))"
    "down_del_num a = int (length (filter thinned A))" "tree_deleted a \<longleftrightarrow> (\<forall>m \<in> set A. dead m)"
    "tree_downsample_deleted a \<longleftrightarrow> (\<forall>m \<in> set A. thinned m)" "\<forall>m \<in> set A. thinned m \<longrightarrow> dead m"
  using assms by (auto simp: counts_ok_def)

lemma own_mark_simps [simp]:
  "fst (own_mark n) = point n" "dead (own_mark n) = point_deleted n"
  "thinned (own_mark n) = point_downsample_deleted n"
  by (simp_all add: own_mark_def)

lemma update_counts:
  assumes l: "tree_inv B l" and r: "tree_inv B r" and own: "point_downsample_deleted n \<longrightarrow> point_deleted n"
  shows "counts_ok (Update n l r) (own_mark n # content l @ content r)"
proof (cases l)
  case Null
  show ?thesis
  proof (cases r)
    case Null
    with \<open>l = Null\<close> own show ?thesis
      by (auto simp: Update_def update0_def counts_ok_def b2i_def)
  next
    case (Node b b1 b2)
    note rc = counts_sons [OF root_counts [OF r [unfolded Node]], folded Node]
    show ?thesis unfolding \<open>l = Null\<close>
      by (rule counts_Cons) (use own rc in \<open>simp_all add: Node Update_def\<close>)
  qed
next
  case (Node a a1 a2)
  note lc = counts_sons [OF root_counts [OF l [unfolded Node]], folded Node]
  show ?thesis
  proof (cases r)
    case Null
    show ?thesis unfolding Null
      by (rule counts_Cons) (use own lc in \<open>simp_all add: \<open>l = Node a a1 a2\<close> Update_def\<close>)
  next
    case (Node b b1 b2)
    note rc = counts_sons [OF root_counts [OF r [unfolded Node]], folded Node]
    have e: "Update n l r = set_radius (update2 n a b)"
      by (simp add: \<open>l = Node a a1 a2\<close> Node Update_def)
    show ?thesis unfolding e
      by (rule counts_Cons) (use own lc rc in \<open>simp_all add: ball_Un conj_ac\<close>)
  qed
qed

lemma update_range_fields:
  "node_range_x (update2 n a b) = range2 (update2 n a b) a b node_range_x (pt_x (point n))"
  "node_range_y (update2 n a b) = range2 (update2 n a b) a b node_range_y (pt_y (point n))"
  "node_range_z (update2 n a b) = range2 (update2 n a b) a b node_range_z (pt_z (point n))"
  "node_range_x (update1 n a) = range1 (update1 n a) a node_range_x (pt_x (point n))"
  "node_range_y (update1 n a) = range1 (update1 n a) a node_range_y (pt_y (point n))"
  "node_range_z (update1 n a) = range1 (update1 n a) a node_range_z (pt_z (point n))"
  by (simp_all add: update2_def update1_def range2_def range1_def Let_def)

lemma update_flag_fields [simp]:
  "point_deleted (update2 n a b) = point_deleted n" "point_deleted (update1 n a) = point_deleted n"
  by (simp_all add: update2_def update1_def Let_def)

lemma root_ranges:
  assumes "tree_inv True (Node n l r)"
  shows "ranges_ok n (content (Node n l r))" "tree_deleted n \<longleftrightarrow> (\<forall>m \<in> set (content (Node n l r)). dead m)"
  using assms root_counts [OF assms] by (simp_all add: node_ok_def counts_ok_def del: content.simps)

lemma ranges_Cons:
  assumes "finite_point (fst m)" "\<not> dead m \<longrightarrow> in_ranges n (fst m)"
    "range_ok (node_range_x n)" "range_ok (node_range_y n)" "range_ok (node_range_z n)"
    "\<And>x. x \<in> set C \<Longrightarrow> finite_point (fst x) \<and> (\<not> dead x \<longrightarrow> in_ranges n (fst x))"
  shows "ranges_ok n (m # C)"
  using assms by (auto simp: ranges_ok_def)

lemma update2_ranges:
  assumes a: "ranges_ok a A" "tree_deleted a \<longleftrightarrow> (\<forall>m \<in> set A. dead m)"
    and b: "ranges_ok b B" "tree_deleted b \<longleftrightarrow> (\<forall>m \<in> set B. dead m)" and p: "finite_point (point n)"
  shows "ranges_ok (update2 n a b) (own_mark n # A @ B)"
proof (rule ranges_Cons)
  let ?n = "update2 n a b"
  have ok: "range_ok (node_range_x a)" "range_ok (node_range_y a)" "range_ok (node_range_z a)"
    "range_ok (node_range_x b)" "range_ok (node_range_y b)" "range_ok (node_range_z b)"
    using a b by (auto simp: ranges_ok_def)
  have v: "finite_flt (pt_x (point n))" "finite_flt (pt_y (point n))" "finite_flt (pt_z (point n))"
    using p by (auto simp: finite_point_def)
  have td: "tree_deleted ?n \<longleftrightarrow> tree_deleted a \<and> tree_deleted b \<and> point_deleted ?n" by simp
  note X = range2_covers [where R=node_range_x, OF ok(1,4) v(1) td]
  note Y = range2_covers [where R=node_range_y, OF ok(2,5) v(2) td]
  note Z = range2_covers [where R=node_range_z, OF ok(3,6) v(3) td]
  show "finite_point (fst (own_mark n))" using p by simp
  show "range_ok (node_range_x ?n)" "range_ok (node_range_y ?n)" "range_ok (node_range_z ?n)"
    using X(1) Y(1) Z(1) by (simp_all add: update_range_fields [of n])
  show "\<not> dead (own_mark n) \<longrightarrow> in_ranges ?n (fst (own_mark n))"
    using X(4) Y(4) Z(4) by (simp add: in_ranges_def update_range_fields [of n])
  show "finite_point (fst x) \<and> (\<not> dead x \<longrightarrow> in_ranges ?n (fst x))" if "x \<in> set (A @ B)" for x
  proof (intro conjI impI)
    show "finite_point (fst x)" using that a b by (auto simp: ranges_ok_def)
    assume d: "\<not> dead x"
    show "in_ranges ?n (fst x)"
    proof (cases "x \<in> set A")
      case True
      then have "in_ranges a (fst x)" "\<not> tree_deleted a" using a d by (auto simp: ranges_ok_def)
      then show ?thesis using X(2) Y(2) Z(2) by (simp add: in_ranges_def update_range_fields [of n])
    next
      case False
      then have "in_ranges b (fst x)" "\<not> tree_deleted b" using b d that by (auto simp: ranges_ok_def)
      then show ?thesis using X(3) Y(3) Z(3) by (simp add: in_ranges_def update_range_fields [of n])
    qed
  qed
qed

lemma update1_ranges:
  assumes a: "ranges_ok a A" "tree_deleted a \<longleftrightarrow> (\<forall>m \<in> set A. dead m)" and p: "finite_point (point n)"
  shows "ranges_ok (update1 n a) (own_mark n # A)"
proof (rule ranges_Cons)
  let ?n = "update1 n a"
  have ok: "range_ok (node_range_x a)" "range_ok (node_range_y a)" "range_ok (node_range_z a)"
    using a by (auto simp: ranges_ok_def)
  have v: "finite_flt (pt_x (point n))" "finite_flt (pt_y (point n))" "finite_flt (pt_z (point n))"
    using p by (auto simp: finite_point_def)
  have td: "tree_deleted ?n \<longleftrightarrow> tree_deleted a \<and> point_deleted ?n" by simp
  note X = range1_covers [where R=node_range_x, OF ok(1) v(1) td]
  note Y = range1_covers [where R=node_range_y, OF ok(2) v(2) td]
  note Z = range1_covers [where R=node_range_z, OF ok(3) v(3) td]
  show "finite_point (fst (own_mark n))" using p by simp
  show "range_ok (node_range_x ?n)" "range_ok (node_range_y ?n)" "range_ok (node_range_z ?n)"
    using X(1) Y(1) Z(1) by (simp_all add: update_range_fields [of n])
  show "\<not> dead (own_mark n) \<longrightarrow> in_ranges ?n (fst (own_mark n))"
    using X(3) Y(3) Z(3) by (simp add: in_ranges_def update_range_fields [of n])
  show "finite_point (fst x) \<and> (\<not> dead x \<longrightarrow> in_ranges ?n (fst x))" if "x \<in> set A" for x
  proof (intro conjI impI)
    show "finite_point (fst x)" using that a by (auto simp: ranges_ok_def)
    assume "\<not> dead x"
    then have "in_ranges a (fst x)" "\<not> tree_deleted a" using a that by (auto simp: ranges_ok_def)
    then show "in_ranges ?n (fst x)" using X(2) Y(2) Z(2) by (simp add: in_ranges_def update_range_fields [of n])
  qed
qed

lemma update_ranges:
  assumes l: "tree_inv True l" and r: "tree_inv True r" and p: "finite_point (point n)"
  shows "ranges_ok (Update n l r) (own_mark n # content l @ content r)"
proof (cases l; cases r)
  assume "l = Null" "r = Null"
  then show ?thesis using p
    by (simp add: Update_def update0_def ranges_ok_def in_ranges_def finite_point_def)
next
  fix a a1 a2 assume "l = Node a a1 a2" "r = Null"
  then show ?thesis using update1_ranges [OF root_ranges [OF l [unfolded \<open>l = _\<close>]] p]
    by (simp add: Update_def)
next
  fix b b1 b2 assume "l = Null" "r = Node b b1 b2"
  then show ?thesis using update1_ranges [OF root_ranges [OF r [unfolded \<open>r = _\<close>]] p]
    by (simp add: Update_def)
next
  fix a a1 a2 b b1 b2 assume "l = Node a a1 a2" "r = Node b b1 b2"
  then show ?thesis
    using update2_ranges [OF root_ranges [OF l [unfolded \<open>l = _\<close>]] root_ranges [OF r [unfolded \<open>r = _\<close>]] p]
    by (simp add: Update_def)
qed

text \<open>A stale mark of a node, left over a null son, does nothing to a live son put there later.\<close>

lemma stale_push:
  assumes l: "tree_inv B l" and live: "need \<longrightarrow> (\<forall>m \<in> set (content l). \<not> dead m)"
    and n: "counts_ok n C" "set (content l) \<subseteq> set C"
  shows "content (kid need n l) = content l" "tree_inv B (kid need n l)"
proof -
  have "content (kid need n l) = content l \<and> tree_inv B (kid need n l)"
  proof (cases "need \<and> l \<noteq> Null")
    case True
    then obtain m a b where e: "l = Node m a b" by (cases l) auto
    have in_l: "own_mark m \<in> set (content l)" by (simp add: e)
    have thin: "\<forall>m \<in> set (content l). thinned m \<longrightarrow> dead m"
      using root_counts [OF l [unfolded e]] by (simp add: e counts_ok_def del: content.simps)
    have "\<not> tree_deleted n" using True live n in_l by (auto simp: counts_ok_def)
    moreover have "\<not> tree_downsample_deleted n" using True live n in_l by (auto simp: counts_ok_def)
    ultimately have "map (mark_by n) (content l) = content l"
      using True live thin by (intro map_idI) (auto simp: mark_by_def)
    moreover have "restores_none n (content l)" using True live by (auto simp: restores_none_def)
    ultimately show ?thesis
      using push_son_content_inv [OF tree_inv_weaken [OF l], of n] l True by (cases B) auto
  next
    case False
    then show ?thesis using l by (auto simp: kid_def)
  qed
  then show "content (kid need n l) = content l" "tree_inv B (kid need n l)" by blast+
qed

text \<open>What every operation establishes before it updates a node: the sons satisfy the invariant,
  and a pending mark of the node lies over live sons only.\<close>

definition updatable :: "bool \<Rightarrow> 'p node \<Rightarrow> 'p tree \<Rightarrow> 'p tree \<Rightarrow> bool" where
  "updatable B n l r \<longleftrightarrow> tree_inv B l \<and> tree_inv B r \<and>
     (point_downsample_deleted n \<longrightarrow> point_deleted n) \<and> (B \<longrightarrow> finite_point (point n)) \<and>
     (need_push_down_to_left n \<longrightarrow> (\<forall>m \<in> set (content l). \<not> dead m)) \<and>
     (need_push_down_to_right n \<longrightarrow> (\<forall>m \<in> set (content r). \<not> dead m))"

lemma Update_inv:
  assumes "updatable B n l r"
  shows "content (Node (Update n l r) l r) = own_mark n # content l @ content r"
    and "tree_inv B (Node (Update n l r) l r)"
proof -
  let ?n = "Update n l r" and ?C = "own_mark n # content l @ content r"
  have l: "tree_inv B l" and r: "tree_inv B r" using assms by (auto simp: updatable_def)
  have c: "counts_ok ?n ?C" using update_counts [OF l r] assms by (auto simp: updatable_def)
  have g: "B \<longrightarrow> ranges_ok ?n ?C" using update_ranges l r assms by (auto simp: updatable_def)
  have kl: "content (left_kid ?n l) = content l" "tree_inv B (left_kid ?n l)"
    using stale_push [OF l _ c] assms by (auto simp: updatable_def)
  have kr: "content (right_kid ?n r) = content r" "tree_inv B (right_kid ?n r)"
    using stale_push [OF r _ c] assms by (auto simp: updatable_def)
  show e: "content (Node ?n l r) = ?C" using kl(1) kr(1) by simp
  show "tree_inv B (Node ?n l r)"
    using kl kr c g by (simp add: node_ok_def)
qed

end
