(* ===== verification/Manual_Heap.thy ===== *)
theory Manual_Heap
  imports Ieee_Order "HOL-Library.Multiset"
begin

text \<open>
  The binary heap \<open>MANUAL_HEAP\<close> of \<open>ikd_Tree.h\<close> that the nearest-neighbour search keeps its
  candidates in: an array of \<open>cap\<close> entries, the first \<open>heap_size\<close> of them in use, the largest
  at the top. The comparison of the entries is an argument of the operations (\<open>operator<\<close> of the
  entry type); the interface \<open>weak_order\<close> says what it has to satisfy for the top to be the
  largest entry, and the heap operations are proved once for every such comparison.
\<close>

section \<open>The operations\<close>

record 'a heap =
  heap :: "'a list"
  heap_size :: nat

text \<open>The constructor: \<open>new PointType_CMP[max_capacity]\<close> holds default entries.\<close>

definition MANUAL_HEAP :: "'a \<Rightarrow> nat \<Rightarrow> 'a heap" where
  "MANUAL_HEAP d max_capacity = \<lparr>heap = replicate max_capacity d, heap_size = 0\<rparr>"

definition heap_top :: "'a heap \<Rightarrow> ub + 'a" where
  "heap_top q = (if heap q = [] then Inl OutOfRange else Inr (heap q ! 0))"

text \<open>\<open>move_down lt n i tmp xs\<close> is the loop of \<open>MoveDown\<close> at index \<open>i\<close>, with \<open>n\<close> entries in use.\<close>

function move_down :: "('a \<Rightarrow> 'a \<Rightarrow> bool) \<Rightarrow> nat \<Rightarrow> nat \<Rightarrow> 'a \<Rightarrow> 'a list \<Rightarrow> 'a list" where
  "move_down lt n i tmp xs =
     (let l = i * 2 + 1 in
      if l < n then
        (let l = (if l + 1 < n \<and> lt (xs ! l) (xs ! (l + 1)) then l + 1 else l) in
         if lt tmp (xs ! l) then move_down lt n l tmp (xs[i := xs ! l]) else xs[i := tmp])
      else xs[i := tmp])"
  by pat_completeness auto
termination by (relation "measure (\<lambda>(lt, n, i, tmp, xs). n - i)") (auto simp: Let_def)

declare move_down.simps [simp del]

definition MoveDown :: "('a \<Rightarrow> 'a \<Rightarrow> bool) \<Rightarrow> nat \<Rightarrow> 'a heap \<Rightarrow> 'a heap" where
  "MoveDown lt heap_index q =
     q\<lparr>heap := move_down lt (heap_size q) heap_index (heap q ! heap_index) (heap q)\<rparr>"

function float_up :: "('a \<Rightarrow> 'a \<Rightarrow> bool) \<Rightarrow> nat \<Rightarrow> 'a \<Rightarrow> 'a list \<Rightarrow> 'a list" where
  "float_up lt i tmp xs =
     (let ancestor = (i - 1) div 2 in
      if 0 < i then
        (if lt (xs ! ancestor) tmp then float_up lt ancestor tmp (xs[i := xs ! ancestor])
         else xs[i := tmp])
      else xs[i := tmp])"
  by pat_completeness auto
termination by (relation "measure (\<lambda>(lt, i, tmp, xs). i)") auto

declare float_up.simps [simp del]

definition FloatUp :: "('a \<Rightarrow> 'a \<Rightarrow> bool) \<Rightarrow> nat \<Rightarrow> 'a heap \<Rightarrow> 'a heap" where
  "FloatUp lt heap_index q = q\<lparr>heap := float_up lt heap_index (heap q ! heap_index) (heap q)\<rparr>"

definition heap_pop :: "('a \<Rightarrow> 'a \<Rightarrow> bool) \<Rightarrow> 'a heap \<Rightarrow> 'a heap" where
  "heap_pop lt q = (if heap_size q = 0 then q
     else MoveDown lt 0 (q\<lparr>heap := (heap q)[0 := heap q ! (heap_size q - 1)],
                           heap_size := heap_size q - 1\<rparr>))"

definition heap_push :: "('a \<Rightarrow> 'a \<Rightarrow> bool) \<Rightarrow> 'a \<Rightarrow> 'a heap \<Rightarrow> 'a heap" where
  "heap_push lt x q = (if heap_size q \<ge> length (heap q) then q
     else (FloatUp lt (heap_size q) (q\<lparr>heap := (heap q)[heap_size q := x]\<rparr>))
            \<lparr>heap_size := heap_size q + 1\<rparr>)"

section \<open>Contents\<close>

definition entries :: "'a heap \<Rightarrow> 'a multiset" where
  "entries q = mset (take (heap_size q) (heap q))"

lemma length_move_down [simp]: "length (move_down lt n i tmp xs) = length xs"
  by (induction lt n i tmp xs rule: move_down.induct) (subst move_down.simps, auto simp: Let_def)

lemma length_float_up [simp]: "length (float_up lt i tmp xs) = length xs"
  by (induction lt i tmp xs rule: float_up.induct) (subst float_up.simps, auto simp: Let_def)

text \<open>One step of either loop exchanges two entries of the array in which \<open>tmp\<close> is already in its
  place, so the moves keep the entries in use.\<close>

lemma shift_exchanges:
  assumes "i < n" "j < n" "n \<le> length xs" "i \<noteq> j"
  shows "mset (take n ((xs[i := xs ! j])[j := x])) = mset (take n (xs[i := x]))"
proof -
  have "(xs[i := xs ! j])[j := x] = (let ys = xs[i := x] in ys[i := ys ! j, j := ys ! i])"
    using assms by (simp add: Let_def list_update_swap)
  then show ?thesis
    using assms mset_swap [of j "take n (xs[i := x])" i] by (simp add: Let_def take_update_swap)
qed

lemma mset_move_down:
  "i < n \<Longrightarrow> n \<le> length xs \<Longrightarrow>
   mset (take n (move_down lt n i tmp xs)) = mset (take n (xs[i := tmp]))"
proof (induction lt n i tmp xs rule: move_down.induct)
  case (1 lt n i tmp xs)
  then show ?case
    by (subst move_down.simps)
      (auto simp: Let_def shift_exchanges simp del: take_update_swap)
qed

lemma mset_float_up:
  "i < n \<Longrightarrow> n \<le> length xs \<Longrightarrow>
   mset (take n (float_up lt i tmp xs)) = mset (take n (xs[i := tmp]))"
proof (induction lt i tmp xs rule: float_up.induct)
  case (1 lt i tmp xs)
  have "0 < i \<Longrightarrow> (i - 1) div 2 \<noteq> i" by auto
  then show ?case using 1
    by (subst float_up.simps)
      (auto simp: Let_def shift_exchanges simp del: take_update_swap)
qed

definition heap_wf :: "'a heap \<Rightarrow> bool" where
  "heap_wf q \<longleftrightarrow> heap_size q \<le> length (heap q)"

lemma size_entries [simp]: "heap_wf q \<Longrightarrow> size (entries q) = heap_size q"
  by (simp add: entries_def heap_wf_def)

lemma pop_wf [simp]:
  assumes "heap_wf q" "0 < heap_size q"
  shows "heap_wf (heap_pop lt q)" "heap_size (heap_pop lt q) = heap_size q - 1"
    "length (heap (heap_pop lt q)) = length (heap q)"
  using assms by (auto simp: heap_wf_def heap_pop_def MoveDown_def)

lemma push_wf [simp]:
  assumes "heap_wf q" "heap_size q < length (heap q)"
  shows "heap_wf (heap_push lt x q)" "heap_size (heap_push lt x q) = heap_size q + 1"
    "length (heap (heap_push lt x q)) = length (heap q)"
  using assms by (auto simp: heap_wf_def heap_push_def FloatUp_def)

lemma entries_push:
  assumes "heap_size q < length (heap q)"
  shows "entries (heap_push lt x q) = add_mset x (entries q)"
proof -
  let ?n = "heap_size q" and ?xs = "(heap q)[heap_size q := x]"
  have "entries (heap_push lt x q) = mset (take (Suc ?n) (?xs[?n := ?xs ! ?n]))"
    using assms mset_float_up [of ?n "Suc ?n" ?xs lt "?xs ! ?n"]
    by (simp add: entries_def heap_push_def FloatUp_def not_le)
  also have "\<dots> = add_mset x (entries q)"
    using assms by (simp add: entries_def take_Suc_conv_app_nth)
  finally show ?thesis .
qed

lemma entries_pop:
  assumes "heap_wf q" "0 < heap_size q"
  shows "entries (heap_pop lt q) = entries q - {#heap q ! 0#}"
proof -
  obtain m where m: "heap_size q = Suc m" using assms by (cases "heap_size q") auto
  let ?xs = "(heap q)[0 := heap q ! m]"
  have e: "entries q = add_mset (heap q ! m) (mset (take m (heap q)))"
    using assms m by (simp add: entries_def heap_wf_def take_Suc_conv_app_nth)
  show ?thesis
  proof (cases m)
    case 0
    then show ?thesis using m e by (simp add: entries_def heap_pop_def MoveDown_def)
  next
    case (Suc k)
    have len: "m < length (heap q)" using assms m by (simp add: heap_wf_def)
    then have ne: "heap q \<noteq> []" by auto
    have "entries (heap_pop lt q) = mset (take m ?xs)"
      using assms m len Suc mset_move_down [of 0 m ?xs lt "?xs ! 0"]
      by (simp add: entries_def heap_pop_def MoveDown_def ne)
    also have "\<dots> = add_mset (heap q ! m) (mset (take m (heap q)) - {#heap q ! 0#})"
      using len Suc by (simp add: take_update_swap mset_update)
    also have "\<dots> = entries q - {#heap q ! 0#}"
    proof -
      have "heap q ! 0 \<in># mset (take m (heap q))"
        using len Suc by (metis in_set_conv_nth length_take min.absorb4 nth_take set_mset_mset zero_less_Suc)
      then show ?thesis by (simp add: e)
    qed
    finally show ?thesis .
  qed
qed

section \<open>The heap order\<close>

text \<open>Each entry in use is not smaller than its two sons.\<close>

definition is_heap :: "('a \<Rightarrow> 'a \<Rightarrow> bool) \<Rightarrow> nat \<Rightarrow> 'a list \<Rightarrow> bool" where
  "is_heap lt n xs \<longleftrightarrow> (\<forall>j. 0 < j \<longrightarrow> j < n \<longrightarrow> \<not> lt (xs ! ((j - 1) div 2)) (xs ! j))"

text \<open>The order holds everywhere but below, respectively above, the index \<open>i\<close>, whose sons are
  bounded by its father.\<close>

definition heap_but_below :: "('a \<Rightarrow> 'a \<Rightarrow> bool) \<Rightarrow> nat \<Rightarrow> nat \<Rightarrow> 'a list \<Rightarrow> bool" where
  "heap_but_below lt n i xs \<longleftrightarrow>
     (\<forall>j. 0 < j \<longrightarrow> j < n \<longrightarrow> (j - 1) div 2 \<noteq> i \<longrightarrow> \<not> lt (xs ! ((j - 1) div 2)) (xs ! j)) \<and>
     (\<forall>j. 0 < j \<longrightarrow> j < n \<longrightarrow> (j - 1) div 2 = i \<longrightarrow> 0 < i \<longrightarrow> \<not> lt (xs ! ((i - 1) div 2)) (xs ! j))"

definition heap_but_above :: "('a \<Rightarrow> 'a \<Rightarrow> bool) \<Rightarrow> nat \<Rightarrow> nat \<Rightarrow> 'a list \<Rightarrow> bool" where
  "heap_but_above lt n i xs \<longleftrightarrow>
     (\<forall>j. 0 < j \<longrightarrow> j < n \<longrightarrow> j \<noteq> i \<longrightarrow> \<not> lt (xs ! ((j - 1) div 2)) (xs ! j)) \<and>
     (\<forall>j. 0 < j \<longrightarrow> j < n \<longrightarrow> (j - 1) div 2 = i \<longrightarrow> 0 < i \<longrightarrow> \<not> lt (xs ! ((i - 1) div 2)) (xs ! j))"

text \<open>What the heap needs of the comparison, on the entries it holds.\<close>

locale weak_order =
  fixes lt :: "'a \<Rightarrow> 'a \<Rightarrow> bool" and S :: "'a set"
  assumes asym: "a \<in> S \<Longrightarrow> b \<in> S \<Longrightarrow> lt a b \<Longrightarrow> \<not> lt b a"
    and negtrans: "a \<in> S \<Longrightarrow> b \<in> S \<Longrightarrow> c \<in> S \<Longrightarrow> \<not> lt a b \<Longrightarrow> \<not> lt b c \<Longrightarrow> \<not> lt a c"
begin

lemma irrefl: "a \<in> S \<Longrightarrow> \<not> lt a a"
  using asym by blast

lemma top_is_largest:
  assumes "is_heap lt n xs" "set (take n xs) \<subseteq> S" "n \<le> length xs" "j < n"
  shows "\<not> lt (xs ! 0) (xs ! j)"
  using assms(4)
proof (induction j rule: less_induct)
  case (less j)
  have S: "k < n \<Longrightarrow> xs ! k \<in> S" for k
    using assms(2,3) nth_mem [of k "take n xs"] by auto
  show ?case
  proof (cases "j = 0")
    case True
    then show ?thesis using irrefl S less by simp
  next
    case False
    define p where "p = (j - 1) div 2"
    have p: "p < j" "p < n" using False less.prems by (auto simp: p_def)
    have "\<not> lt (xs ! 0) (xs ! p)" using less.IH [OF p] .
    moreover have "\<not> lt (xs ! p) (xs ! j)"
      using False less.prems assms(1) by (simp add: is_heap_def p_def)
    ultimately show ?thesis
      using negtrans [of "xs ! 0" "xs ! p" "xs ! j"] S [of 0] S [of p] S [of j] p less.prems by simp
  qed
qed

lemma sift_down_step:
  assumes below: "heap_but_below lt n i ys" and n: "n \<le> length ys" and S: "\<And>k. k < n \<Longrightarrow> ys ! k \<in> S"
    and l: "l \<in> {2 * i + 1, 2 * i + 2}" "l < n"
    and larger: "\<And>j. j \<in> {2 * i + 1, 2 * i + 2} \<Longrightarrow> j < n \<Longrightarrow> \<not> lt (ys ! l) (ys ! j)"
  shows "lt (ys ! i) (ys ! l) \<Longrightarrow> heap_but_below lt n l (ys[i := ys ! l, l := ys ! i])"
    and "\<not> lt (ys ! i) (ys ! l) \<Longrightarrow> is_heap lt n ys"
proof -
  have il: "i < l" "(l - 1) div 2 = i" using l by auto
  have b1: "\<not> lt (ys ! ((j - 1) div 2)) (ys ! j)" if "0 < j" "j < n" "(j - 1) div 2 \<noteq> i" for j
    using below that unfolding heap_but_below_def by blast
  have b2: "\<not> lt (ys ! ((i - 1) div 2)) (ys ! j)" if "0 < j" "j < n" "(j - 1) div 2 = i" "0 < i" for j
    using below that unfolding heap_but_below_def by blast
  have sons: "0 < j \<Longrightarrow> (j - 1) div 2 = i \<longleftrightarrow> j \<in> {2 * i + 1, 2 * i + 2}" for j by auto
  have up: "0 < j \<Longrightarrow> (j - 1) div 2 < j" for j :: nat by auto
  {
    assume lt: "lt (ys ! i) (ys ! l)"
    let ?zs = "ys[i := ys ! l, l := ys ! i]"
    have z: "?zs ! k = (if k = l then ys ! i else if k = i then ys ! l else ys ! k)" if "k < n" for k
      using that n l il by simp
    show "heap_but_below lt n l ?zs"
      unfolding heap_but_below_def
    proof (intro conjI allI impI)
      fix j assume j: "0 < j" "j < n" "(j - 1) div 2 \<noteq> l"
      let ?p = "(j - 1) div 2"
      have p: "?p < n" "?p \<noteq> j" using up [OF j(1)] j(2) by auto
      consider "j = l" | "j \<noteq> l" "?p = i" | "j = i" | "j \<noteq> l" "j \<noteq> i" "?p \<noteq> i" by blast
      then show "\<not> lt (?zs ! ?p) (?zs ! j)"
      proof cases
        case 1
        then show ?thesis using z [OF p(1)] z [OF j(2)] il asym [OF S S lt] l(2) by simp
      next
        case 2
        then have "j \<noteq> i" using p by auto
        then show ?thesis using 2 z [OF p(1)] z [OF j(2)] il larger [of j] sons [OF j(1)] j by simp
      next
        case 3
        then have "?p \<noteq> i" "?p \<noteq> l" "0 < l" using p il up [OF j(1)] by auto
        then show ?thesis using 3 z [OF p(1)] z [OF j(2)] il b2 [of l] l(2) j by simp
      next
        case 4
        then show ?thesis using z [OF p(1)] z [OF j(2)] b1 [OF j(1,2)] j(3) by simp
      qed
    next
      fix j assume j: "0 < j" "j < n" "(j - 1) div 2 = l" "0 < l"
      then have "j \<noteq> l" "j \<noteq> i" using il up [OF j(1)] by auto
      then show "\<not> lt (?zs ! ((l - 1) div 2)) (?zs ! j)"
        using z [OF j(2)] z [of i] il l(2) b1 [OF j(1,2)] j(3) by simp
    qed
  }
  {
    assume le: "\<not> lt (ys ! i) (ys ! l)"
    show "is_heap lt n ys" unfolding is_heap_def
    proof (intro allI impI)
      fix j assume j: "0 < j" "j < n"
      show "\<not> lt (ys ! ((j - 1) div 2)) (ys ! j)"
      proof (cases "(j - 1) div 2 = i")
        case True
        then have "\<not> lt (ys ! l) (ys ! j)" using larger sons j by blast
        then show ?thesis using True le negtrans [of "ys ! i" "ys ! l" "ys ! j"] S [of i] S [of l] S [of j] il l j by simp
      next
        case False
        then show ?thesis using b1 j by blast
      qed
    qed
  }
qed

lemma move_down_heap:
  assumes "heap_but_below lt n i (xs[i := tmp])" "i < n" "n \<le> length xs"
    "\<And>k. k < n \<Longrightarrow> xs[i := tmp] ! k \<in> S"
  shows "is_heap lt n (move_down lt n i tmp xs)"
  using assms
proof (induction "n - i" arbitrary: i xs rule: less_induct)
  case less
  let ?ys = "xs[i := tmp]"
  define l where "l = (if i * 2 + 1 + 1 < n \<and> lt (xs ! (i * 2 + 1)) (xs ! (i * 2 + 1 + 1))
                       then i * 2 + 1 + 1 else i * 2 + 1)"
  show ?case
  proof (cases "i * 2 + 1 < n")
    case False
    have "is_heap lt n ?ys" unfolding is_heap_def
    proof (intro allI impI)
      fix j assume j: "0 < j" "j < n"
      then have "(j - 1) div 2 \<noteq> i" using False by auto
      then show "\<not> lt (?ys ! ((j - 1) div 2)) (?ys ! j)"
        using j less.prems(1) unfolding heap_but_below_def by blast
    qed
    then show ?thesis using False by (subst move_down.simps) (simp add: Let_def)
  next
    case True
    have unfold: "move_down lt n i tmp xs =
        (if lt tmp (xs ! l) then move_down lt n l tmp (xs[i := xs ! l]) else ?ys)"
      using True by (subst move_down.simps) (simp only: Let_def l_def if_True)
    have l: "l \<in> {2 * i + 1, 2 * i + 2}" "l < n" "l \<noteq> i" using True by (auto simp: l_def)
    have S: "\<And>k. k < n \<Longrightarrow> ?ys ! k \<in> S" using less.prems(4) .
    have larger: "\<not> lt (?ys ! l) (?ys ! j)" if "j \<in> {2 * i + 1, 2 * i + 2}" "j < n" for j
      using that irrefl S [of j] asym [of "?ys ! j" "?ys ! l"] S [OF l(2)] True
      by (auto simp: l_def mult.commute split: if_splits)
    have n: "n \<le> length ?ys" using less.prems by simp
    have i: "?ys ! i = tmp" "?ys ! l = xs ! l" using less.prems l by auto
    have step: "lt tmp (xs ! l) \<Longrightarrow> heap_but_below lt n l (?ys[i := xs ! l, l := tmp])"
        "\<not> lt tmp (xs ! l) \<Longrightarrow> is_heap lt n ?ys"
      using sift_down_step [OF less.prems(1) n S l(1,2)] larger i by auto
    have swap: "?ys[i := xs ! l, l := tmp] = (xs[i := xs ! l])[l := tmp]" by simp
    show ?thesis
    proof (cases "lt tmp (xs ! l)")
      case lt: True
      have "is_heap lt n (move_down lt n l tmp (xs[i := xs ! l]))"
      proof (rule less.hyps)
        show "n - l < n - i" using l True by auto
        show "heap_but_below lt n l ((xs[i := xs ! l])[l := tmp])"
          using step(1) [OF lt] unfolding swap .
        show "(xs[i := xs ! l])[l := tmp] ! k \<in> S" if "k < n" for k
          using that S [of k] S [of l] S [of i] i l less.prems(2,3) by (cases "k = l"; cases "k = i"; simp)
      qed (use l less.prems in auto)
      then show ?thesis using lt by (simp add: unfold)
    next
      case False
      then have "is_heap lt n ?ys" using step(2) by blast
      then show ?thesis using False by (simp add: unfold)
    qed
  qed
qed

lemma sift_up_step:
  assumes above: "heap_but_above lt n i ys" and n: "n \<le> length ys" and S: "\<And>k. k < n \<Longrightarrow> ys ! k \<in> S"
    and i: "0 < i" "i < n" and a: "a = (i - 1) div 2"
  shows "lt (ys ! a) (ys ! i) \<Longrightarrow> heap_but_above lt n a (ys[i := ys ! a, a := ys ! i])"
    and "\<not> lt (ys ! a) (ys ! i) \<Longrightarrow> is_heap lt n ys"
proof -
  have ai: "a < i" "a < n" using i a by auto
  have up: "0 < j \<Longrightarrow> (j - 1) div 2 < j" for j :: nat by auto
  have b1: "\<not> lt (ys ! ((j - 1) div 2)) (ys ! j)" if "0 < j" "j < n" "j \<noteq> i" for j
    using above that unfolding heap_but_above_def by blast
  have b2: "\<not> lt (ys ! a) (ys ! j)" if "0 < j" "j < n" "(j - 1) div 2 = i" for j
    using above that i a unfolding heap_but_above_def by blast
  {
    assume lt: "lt (ys ! a) (ys ! i)"
    then have lt': "\<not> lt (ys ! i) (ys ! a)" using asym S ai i by blast
    let ?zs = "ys[i := ys ! a, a := ys ! i]"
    have z: "?zs ! k = (if k = a then ys ! i else if k = i then ys ! a else ys ! k)" if "k < n" for k
      using that n ai by simp
    show "heap_but_above lt n a ?zs"
      unfolding heap_but_above_def
    proof (intro conjI allI impI)
      fix j assume j: "0 < j" "j < n" "j \<noteq> a"
      let ?p = "(j - 1) div 2"
      have p: "?p < n" "?p \<noteq> j" using up [OF j(1)] j(2) by auto
      consider "j = i" | "j \<noteq> i" "?p = a" | "?p = i" | "j \<noteq> i" "?p \<noteq> a" "?p \<noteq> i" by blast
      then show "\<not> lt (?zs ! ?p) (?zs ! j)"
      proof cases
        case 1
        then show ?thesis using z [OF p(1)] z [OF j(2)] a ai lt' by simp
      next
        case 2
        then have "\<not> lt (ys ! i) (ys ! j)"
          using negtrans [OF S [OF i(2)] S [OF ai(2)] S [OF j(2)] lt'] b1 [OF j(1,2)] by simp
        then show ?thesis using 2 z [OF p(1)] z [OF j(2)] j by simp
      next
        case 3
        then have "j \<noteq> i" using p by simp
        then show ?thesis using 3 z [OF p(1)] z [OF j(2)] j ai b2 by simp
      next
        case 4
        then show ?thesis using z [OF p(1)] z [OF j(2)] j b1 by simp
      qed
    next
      fix j assume j: "0 < j" "j < n" "(j - 1) div 2 = a" "0 < a"
      have g: "(a - 1) div 2 < a" "(a - 1) div 2 < n" using up [OF j(4)] ai by auto
      have ga: "\<not> lt (ys ! ((a - 1) div 2)) (ys ! a)" using b1 [of a] j ai by simp
      have "j \<noteq> a" using j up [OF j(1)] by auto
      moreover have "\<not> lt (ys ! ((a - 1) div 2)) (ys ! j)" if "j \<noteq> i"
        using negtrans [OF S [OF g(2)] S [OF ai(2)] S [OF j(2)] ga] b1 [OF j(1,2) that] j(3) by simp
      moreover have "(a - 1) div 2 \<noteq> a" "(a - 1) div 2 \<noteq> i" using g(1) ai(1) by simp_all
      ultimately show "\<not> lt (?zs ! ((a - 1) div 2)) (?zs ! j)"
        using z [OF j(2)] z [OF g(2)] ga by (cases "j = i") simp_all
    qed
  }
  {
    assume "\<not> lt (ys ! a) (ys ! i)"
    then show "is_heap lt n ys" unfolding is_heap_def using b1 a by blast
  }
qed

lemma float_up_heap:
  assumes "heap_but_above lt n i (xs[i := tmp])" "i < n" "n \<le> length xs"
    "\<And>k. k < n \<Longrightarrow> xs[i := tmp] ! k \<in> S"
  shows "is_heap lt n (float_up lt i tmp xs)"
  using assms
proof (induction i arbitrary: xs rule: less_induct)
  case (less i)
  let ?ys = "xs[i := tmp]" and ?a = "(i - 1) div 2"
  show ?case
  proof (cases "0 < i")
    case False
    then have "is_heap lt n ?ys" using less.prems(1) by (auto simp: is_heap_def heap_but_above_def)
    then show ?thesis using False by (subst float_up.simps) (simp add: Let_def)
  next
    case True
    have n: "n \<le> length ?ys" and a: "?a < i" "?a < n" using True less.prems by auto
    have e: "?ys ! i = tmp" "?ys ! ?a = xs ! ?a" using less.prems a by auto
    have step: "lt (xs ! ?a) tmp \<Longrightarrow> heap_but_above lt n ?a (?ys[i := xs ! ?a, ?a := tmp])"
        "\<not> lt (xs ! ?a) tmp \<Longrightarrow> is_heap lt n ?ys"
      using sift_up_step [OF less.prems(1) n less.prems(4) True less.prems(2) refl] e by auto
    have swap: "?ys[i := xs ! ?a, ?a := tmp] = (xs[i := xs ! ?a])[?a := tmp]" by simp
    show ?thesis
    proof (cases "lt (xs ! ?a) tmp")
      case lt: True
      have "is_heap lt n (float_up lt ?a tmp (xs[i := xs ! ?a]))"
      proof (rule less.IH [OF a(1)])
        show "heap_but_above lt n ?a ((xs[i := xs ! ?a])[?a := tmp])"
          using step(1) [OF lt] unfolding swap .
        show "(xs[i := xs ! ?a])[?a := tmp] ! k \<in> S" if "k < n" for k
          using that less.prems(4) [of k] less.prems(4) [of ?a] less.prems(4) [of i] a less.prems(2,3)
          by (cases "k = ?a"; cases "k = i"; simp)
      qed (use a less.prems in auto)
      then show ?thesis using True lt by (subst float_up.simps) (simp add: Let_def)
    next
      case False
      then show ?thesis using True step(2) by (subst float_up.simps) (simp add: Let_def)
    qed
  qed
qed

text \<open>The invariant of the queue: its entries are comparable and in heap order.\<close>

definition ordered_heap :: "'a heap \<Rightarrow> bool" where
  "ordered_heap q \<longleftrightarrow> heap_wf q \<and> set_mset (entries q) \<subseteq> S \<and> is_heap lt (heap_size q) (heap q)"

lemma entry_in_S: "ordered_heap q \<Longrightarrow> k < heap_size q \<Longrightarrow> heap q ! k \<in> S"
  using nth_mem [of k "take (heap_size q) (heap q)"]
  by (auto simp: ordered_heap_def heap_wf_def entries_def)

lemma ordered_push:
  assumes q: "ordered_heap q" and x: "x \<in> S" and room: "heap_size q < length (heap q)"
  shows "ordered_heap (heap_push lt x q)"
proof -
  let ?n = "heap_size q" and ?xs = "(heap q)[heap_size q := x]"
  have h: "is_heap lt ?n (heap q)" using q by (simp add: ordered_heap_def)
  have "heap_but_above lt (Suc ?n) ?n (?xs[?n := ?xs ! ?n])"
    unfolding heap_but_above_def
  proof (intro conjI allI impI)
    fix j assume j: "0 < j" "j < Suc ?n" "j \<noteq> ?n"
    then have "(j - 1) div 2 < ?n" by auto
    then show "\<not> lt (?xs[?n := ?xs ! ?n] ! ((j - 1) div 2)) (?xs[?n := ?xs ! ?n] ! j)"
      using h j by (simp add: is_heap_def)
  next
    fix j assume "0 < j" "j < Suc ?n" "(j - 1) div 2 = ?n"
    then show "\<not> lt (?xs[?n := ?xs ! ?n] ! ((?n - 1) div 2)) (?xs[?n := ?xs ! ?n] ! j)" by auto
  qed
  moreover have "?xs[?n := ?xs ! ?n] ! k \<in> S" if "k < Suc ?n" for k
    using that entry_in_S [OF q] x room by (cases "k = ?n") auto
  ultimately have "is_heap lt (Suc ?n) (float_up lt ?n (?xs ! ?n) ?xs)"
    using room by (intro float_up_heap) auto
  then show ?thesis
    using q x room entries_push [OF room, of lt x]
    by (simp add: ordered_heap_def heap_push_def FloatUp_def heap_wf_def)
qed

lemma ordered_pop:
  assumes q: "ordered_heap q" and ne: "0 < heap_size q"
  shows "ordered_heap (heap_pop lt q)"
proof -
  obtain m where m: "heap_size q = Suc m" using ne by (cases "heap_size q") auto
  let ?xs = "(heap q)[0 := heap q ! m]"
  have wf: "heap_wf q" and h: "is_heap lt (Suc m) (heap q)" using q m by (auto simp: ordered_heap_def)
  then have ne': "heap q \<noteq> []" "Suc m \<le> length (heap q)" using m by (auto simp: heap_wf_def)
  have "is_heap lt m (heap (heap_pop lt q))"
  proof (cases "m = 0")
    case True
    then show ?thesis by (simp add: is_heap_def)
  next
    case False
    have "heap_but_below lt m 0 (?xs[0 := ?xs ! 0])"
      unfolding heap_but_below_def
    proof (intro conjI allI impI)
      fix j assume j: "0 < j" "j < m" "(j - 1) div 2 \<noteq> 0"
      then show "\<not> lt (?xs[0 := ?xs ! 0] ! ((j - 1) div 2)) (?xs[0 := ?xs ! 0] ! j)"
        using h ne' by (simp add: is_heap_def)
    qed simp
    moreover have "?xs[0 := ?xs ! 0] ! k \<in> S" if "k < m" for k
      using that entry_in_S [OF q, of k] entry_in_S [OF q, of m] m ne' by (cases k) auto
    ultimately have "is_heap lt m (move_down lt m 0 (?xs ! 0) ?xs)"
      using False ne' by (intro move_down_heap) auto
    then show ?thesis by (simp add: heap_pop_def MoveDown_def m)
  qed
  moreover have "set_mset (entries (heap_pop lt q)) \<subseteq> S"
    using q entries_pop [OF wf ne] by (auto simp: ordered_heap_def dest: in_diffD)
  ultimately show ?thesis using q wf ne m by (simp add: ordered_heap_def)
qed

lemma top_largest:
  assumes "ordered_heap q" "0 < heap_size q"
  shows "\<exists>c. heap_top q = Inr c \<and> c = heap q ! 0 \<and> c \<in># entries q \<and> (\<forall>x \<in># entries q. \<not> lt c x)"
proof -
  have n: "heap_size q \<le> length (heap q)" using assms by (simp add: ordered_heap_def heap_wf_def)
  then have ne: "heap q \<noteq> []" using assms(2) by auto
  have "heap q ! 0 \<in># entries q"
    using n assms(2) nth_mem [of 0 "take (heap_size q) (heap q)"] by (auto simp: entries_def)
  moreover have "\<not> lt (heap q ! 0) x" if x: "x \<in># entries q" for x
  proof -
    obtain j where "j < heap_size q" "x = heap q ! j"
      using x n by (auto simp: entries_def in_set_conv_nth)
    then show ?thesis using top_is_largest [of "heap_size q" "heap q" j] assms n
      by (auto simp: ordered_heap_def entries_def)
  qed
  ultimately show ?thesis using ne by (simp add: heap_top_def)
qed

end

end
