(* ===== verification/Ikd_Update.thy ===== *)
theory Ikd_Update
  imports Ikd_Invariant Manual_Heap
begin

text \<open>
  The updates of the kd-tree keep its invariant, and what they do to the points: building a
  tree from a list, rebuilding a subtree, deleting the points of a box, deleting one point,
  adding a point, undoing the deletions of a box. \<open>std::nth_element\<close> is the interface
  \<open>selection\<close>; the lemmas hold for every rearrangement that keeps the points.
\<close>

section \<open>The interface to \<open>std::nth_element\<close>\<close>

text \<open>The points are rearranged so that the one at \<open>i\<close> is where sorting would put it and none
  after it is less than one before it.\<close>

locale selection =
  fixes nth_element :: "'p nth_fn"
  assumes rearranges: "mset (nth_element lt i xs) = mset xs"
    and splits: "weak_order lt (set xs) \<Longrightarrow> i < length xs \<Longrightarrow>
      (\<forall>j < i. \<not> lt (nth_element lt i xs ! i) (nth_element lt i xs ! j)) \<and>
      (\<forall>j < length xs. i < j \<longrightarrow> \<not> lt (nth_element lt i xs ! j) (nth_element lt i xs ! i))"

text \<open>Sorting is such a rearrangement.\<close>

fun insert_by :: "('a \<Rightarrow> 'a \<Rightarrow> bool) \<Rightarrow> 'a \<Rightarrow> 'a list \<Rightarrow> 'a list" where
  "insert_by lt x [] = [x]"
| "insert_by lt x (y # ys) = (if lt y x then y # insert_by lt x ys else x # y # ys)"

definition sort_by :: "('a \<Rightarrow> 'a \<Rightarrow> bool) \<Rightarrow> nat \<Rightarrow> 'a list \<Rightarrow> 'a list" where
  "sort_by lt i xs = foldr (insert_by lt) xs []"

lemma mset_insert_by [simp]: "mset (insert_by lt x ys) = add_mset x (mset ys)"
  by (induction ys) auto

lemma mset_sort_by [simp]: "mset (sort_by lt i xs) = mset xs"
  unfolding sort_by_def by (induction xs) auto

lemma weak_order_subset:
  assumes "weak_order lt S" "T \<subseteq> S"
  shows "weak_order lt T"
proof (rule weak_order.intro)
  fix a b assume "a \<in> T" "b \<in> T" "lt a b"
  then show "\<not> lt b a" using weak_order.asym [OF assms(1), of a b] assms(2) by blast
next
  fix a b c assume "a \<in> T" "b \<in> T" "c \<in> T" "\<not> lt a b" "\<not> lt b c"
  then show "\<not> lt a c" using weak_order.negtrans [OF assms(1), of a b c] assms(2) by blast
qed

lemma sorted_insert_by:
  assumes "weak_order lt (insert x (set ys))" "sorted_wrt (\<lambda>a b. \<not> lt b a) ys"
  shows "sorted_wrt (\<lambda>a b. \<not> lt b a) (insert_by lt x ys)"
  using assms
proof (induction ys)
  case (Cons y ys)
  note w = weak_order.asym [OF Cons.prems(1)] weak_order.negtrans [OF Cons.prems(1)]
  have "weak_order lt (insert x (set ys))"
    using Cons.prems(1) by (rule weak_order_subset) auto
  then have IH: "sorted_wrt (\<lambda>a b. \<not> lt b a) (insert_by lt x ys)" using Cons by simp
  have set: "set (insert_by lt x ys) = insert x (set ys)"
    using mset_insert_by [of lt x ys] by (metis set_mset_add_mset_insert set_mset_mset)
  show ?case
  proof (cases "lt y x")
    case True
    then have "\<not> lt x y" using w(1) [of y x] by simp
    then show ?thesis using True IH Cons.prems(2) by (simp add: set)
  next
    case False
    then have "\<not> lt z x" if "z \<in> set ys" for z
      using w(2) [of z y x] that Cons.prems(2) by simp
    then show ?thesis using False Cons.prems(2) by simp
  qed
qed simp

lemma sorted_sort_by:
  assumes "weak_order lt (set xs)"
  shows "sorted_wrt (\<lambda>a b. \<not> lt b a) (sort_by lt i xs)"
  using assms
proof (induction xs)
  case (Cons x xs)
  have set: "set (foldr (insert_by lt) xs []) = set xs"
    using mset_sort_by [of lt i xs] by (metis set_mset_mset sort_by_def)
  have "weak_order lt (set xs)" using Cons.prems by (rule weak_order_subset) auto
  then show ?case using Cons.IH Cons.prems sorted_insert_by [of lt x "foldr (insert_by lt) xs []"]
    by (simp add: sort_by_def set)
qed (simp add: sort_by_def)

interpretation sorting: selection sort_by
proof (rule selection.intro)
  fix lt :: "'a point \<Rightarrow> 'a point \<Rightarrow> bool" and i and xs :: "'a point list"
  show "mset (sort_by lt i xs) = mset xs" by simp
  assume w: "weak_order lt (set xs)" and i: "i < length xs"
  have len: "length (sort_by lt i xs) = length xs"
    using mset_sort_by [of lt i xs] by (metis size_mset)
  show "(\<forall>j < i. \<not> lt (sort_by lt i xs ! i) (sort_by lt i xs ! j)) \<and>
        (\<forall>j < length xs. i < j \<longrightarrow> \<not> lt (sort_by lt i xs ! j) (sort_by lt i xs ! i))"
    using sorted_sort_by [OF w] i by (auto simp: sorted_wrt_iff_nth_less len)
qed

lemma content_finite: "tree_inv True t \<Longrightarrow> m \<in> set (content t) \<Longrightarrow> finite_point (fst m)"
proof (cases t)
  case (Node n l r)
  assume "tree_inv True t" "m \<in> set (content t)"
  then show ?thesis using root_ranges(1) [of n l r] unfolding Node ranges_ok_def by blast
qed simp

section \<open>Live and retired points as multisets\<close>

definition live_of :: "'p mark list \<Rightarrow> 'p point multiset" where
  "live_of C = mset (map fst (filter (\<lambda>m. \<not> dead m) C))"
definition retired_of :: "'p mark list \<Rightarrow> 'p point multiset" where
  "retired_of C = mset (map fst (filter (\<lambda>m. dead m \<and> \<not> thinned m) C))"

lemma live_of_simps [simp]:
  "live_of [] = {#}" "live_of (m # C) = (if dead m then {#} else {#fst m#}) + live_of C"
  "live_of (C @ D) = live_of C + live_of D"
  "retired_of [] = {#}"
  "retired_of (m # C) = (if dead m \<and> \<not> thinned m then {#fst m#} else {#}) + retired_of C"
  "retired_of (C @ D) = retired_of C + retired_of D"
  by (simp_all add: live_of_def retired_of_def)

lemma mset_live: "mset (live t) = live_of (content t)" "mset (retired t) = retired_of (content t)"
  by (simp_all add: live_def retired_def live_of_def retired_of_def)

text \<open>The points that left the tree, and those marked but still in it.\<close>

definition gone :: "'p mark list \<Rightarrow> 'p ikd \<Rightarrow> 'p point multiset" where
  "gone C k = retired_of C + mset (Points_deleted k)"

section \<open>Building and rebuilding\<close>

definition fresh_mark :: "'p point \<Rightarrow> 'p mark" where "fresh_mark p = (p, False, False)"

lemma fresh_lists [simp]:
  "live_of (map fresh_mark xs) = mset xs" "retired_of (map fresh_mark xs) = {#}"
  by (induction xs) (auto simp: fresh_mark_def)

lemma own_mark_new [simp]: "own_mark (new_node p i) = fresh_mark p"
  by (simp add: own_mark_def new_node_def fresh_mark_def)

lemma new_node_simps [simp]:
  "point (new_node p i) = p" "\<not> need_push_down_to_left (new_node p i)"
  "\<not> need_push_down_to_right (new_node p i)" "\<not> point_deleted (new_node p i)"
  "\<not> point_downsample_deleted (new_node p i)" "division_axis (new_node p i) = i"
  by (simp_all add: new_node_def)

lemma updatable_new:
  "tree_inv B l \<Longrightarrow> tree_inv B r \<Longrightarrow> (B \<longrightarrow> finite_point p) \<Longrightarrow> updatable B (new_node p i) l r"
  by (simp add: updatable_def)

lemma new_leaf:
  assumes "B \<longrightarrow> finite_point p"
  shows "content (Node (Update (new_node p i) Null Null) Null Null) = [fresh_mark p]"
    "tree_inv B (Node (Update (new_node p i) Null Null) Null Null)"
  using Update_inv [OF updatable_new [of B Null Null p i]] assms by simp_all

context selection
begin

lemma length_nth_element [simp]: "length (nth_element lt i xs) = length xs"
  using rearranges by (metis size_mset)

lemma build_spec:
  assumes "B \<longrightarrow> (\<forall>p \<in> set xs. finite_point p)"
  shows "\<exists>ys. content (BuildTree nth_element xs) = map fresh_mark ys \<and> mset ys = mset xs \<and>
    tree_inv B (BuildTree nth_element xs)"
  using assms
proof (induction "length xs" arbitrary: xs rule: less_induct)
  case less
  show ?case
  proof (cases "xs = []")
    case True
    then show ?thesis by (simp add: BuildTree.simps)
  next
    case False
    define mid where "mid = (length xs - 1) div 2"
    define axis where "axis = widest_axis xs"
    define ys where "ys = nth_element (point_cmp axis) mid xs"
    define l where "l = BuildTree nth_element (take mid ys)"
    define r where "r = BuildTree nth_element (drop (mid + 1) ys)"
    have len: "mid < length ys" "length ys = length xs"
      using False by (auto simp: mid_def ys_def) (cases xs; simp)
    have short: "length (take mid ys) < length xs" "length (drop (mid + 1) ys) < length xs"
      using len by simp_all
    have m: "mset ys = mset xs" by (simp add: ys_def rearranges)
    have split: "ys = take mid ys @ ys ! mid # drop (mid + 1) ys"
      using len by (simp add: id_take_nth_drop)
    have m': "mset xs = add_mset (ys ! mid) (mset (take mid ys) + mset (drop (mid + 1) ys))"
      unfolding m [symmetric] by (subst split) (simp only: mset_append mset.simps union_mset_add_mset_right)
    have set: "set xs = insert (ys ! mid) (set (take mid ys) \<union> set (drop (mid + 1) ys))"
      using m split by (metis Un_insert_right list.simps(15) set_append set_mset_mset)
    obtain ls where ls: "content l = map fresh_mark ls" "mset ls = mset (take mid ys)" "tree_inv B l"
      using less.hyps [OF short(1)] less.prems set by (auto simp: l_def)
    obtain rs where rs: "content r = map fresh_mark rs" "mset rs = mset (drop (mid + 1) ys)" "tree_inv B r"
      using less.hyps [OF short(2)] less.prems set by (auto simp: r_def)
    have e: "BuildTree nth_element xs = Node (Update (new_node (ys ! mid) axis) l r) l r"
      using False len by (subst BuildTree.simps) (simp add: Let_def mid_def axis_def ys_def l_def r_def)
    have u: "updatable B (new_node (ys ! mid) axis) l r"
      using ls rs less.prems set by (intro updatable_new) auto
    have "content (BuildTree nth_element xs) = map fresh_mark (ys ! mid # ls @ rs)"
      unfolding e Update_inv(1) [OF u] ls(1) rs(1) by simp
    moreover have "mset (ys ! mid # ls @ rs) = mset xs"
      using ls(2) rs(2) m' by simp
    moreover have "tree_inv B (BuildTree nth_element xs)"
      unfolding e by (rule Update_inv(2) [OF u])
    ultimately show ?thesis by blast
  qed
qed

end

text \<open>A subtree below the size of the background rebuild leaves \<open>Rebuild_Ptr\<close> alone; the parameters
  of the criteria never change.\<close>

definition stays :: "nat \<Rightarrow> 'p ikd \<Rightarrow> 'p ikd \<Rightarrow> bool" where
  "stays s k k' \<longleftrightarrow> (int s < Multi_Thread_Rebuild_Point_Num \<longrightarrow> Rebuild_Ptr k' = Rebuild_Ptr k) \<and>
     delete_criterion_param k' = delete_criterion_param k"

lemma stays_refl [simp]: "stays s k k"
  by (simp add: stays_def)

lemma stays_trans: "stays s k k1 \<Longrightarrow> stays s' k1 k2 \<Longrightarrow> s \<le> u \<Longrightarrow> s' \<le> u \<Longrightarrow> stays u k k2"
  by (simp add: stays_def)

lemma nodes_clear [simp]: "nodes (clear_working t) = nodes t"
  by (cases t) (simp_all add: clear_working_def)

lemma tree_size_nodes: "tree_inv B t \<Longrightarrow> tree_size t = int (nodes t)"
  using root_counts by (cases t) (fastforce simp: counts_ok_def)+

context selection
begin

lemma rebuild_spec:
  assumes inv: "tree_inv B t" and R: "Rebuild nth_element t k = (t', k')"
  shows "tree_inv B t'" "live_of (content t') = live_of (content t)"
    "gone (content t') k' = gone (content t) k"
    "Multithread_Points_deleted k' = Multithread_Points_deleted k"
    "nodes t' \<le> nodes t" "stays (nodes t) k k'"
proof -
  obtain t1 s d where f: "flatten t = (t1, s, d)" by (metis prod_cases3)
  note fs = flatten_spec [OF f, of B]
  have fin: "B \<longrightarrow> (\<forall>p \<in> set s. finite_point p)"
  proof (intro impI ballI)
    fix p assume B and "p \<in> set s"
    then obtain m where "m \<in> set (content t)" "p = fst m" using fs by (auto simp: live_def)
    then show "finite_point p" using inv \<open>B\<close> content_finite by fastforce
  qed
  obtain ys where ys: "content (BuildTree nth_element s) = map fresh_mark ys" "mset ys = mset s"
    "tree_inv B (BuildTree nth_element s)" using build_spec [OF fin] by blast
  have "nodes (BuildTree nth_element s) = length ys" using arg_cong [OF ys(1), of length] by simp
  also have "\<dots> = length s" using ys(2) by (rule mset_eq_length)
  also have "\<dots> \<le> nodes t" using fs by (simp add: length_live flip: length_content)
  finally have size: "nodes (BuildTree nth_element s) \<le> nodes t" .
  have "tree_inv B t' \<and> live_of (content t') = live_of (content t) \<and> gone (content t') k' = gone (content t) k
    \<and> Multithread_Points_deleted k' = Multithread_Points_deleted k \<and> nodes t' \<le> nodes t \<and> stays (nodes t) k k'"
  proof (cases "Multi_Thread_Rebuild_Point_Num \<le> tree_size t")
    case True
    then show ?thesis using R inv tree_size_nodes [OF inv]
      by (auto simp: Rebuild_def gone_def stays_def split: option.splits)
  next
    case False
    then have "t' = BuildTree nth_element s" "k' = k\<lparr>Points_deleted := Points_deleted k @ d\<rparr>"
      using R by (auto simp: Rebuild_def f)
    then show ?thesis using ys fs size by (simp add: gone_def mset_live stays_def)
  qed
  then show "tree_inv B t'" "live_of (content t') = live_of (content t)"
    "gone (content t') k' = gone (content t) k"
    "Multithread_Points_deleted k' = Multithread_Points_deleted k"
    "nodes t' \<le> nodes t" "stays (nodes t) k k'" by blast+
qed

lemma finish_spec:
  assumes u: "updatable B n l r" and F: "finish nth_element allow n l r k = (t, k')"
  shows "tree_inv B t" "live_of (content t) = live_of (own_mark n # content l @ content r)"
    "gone (content t) k' = gone (own_mark n # content l @ content r) k"
    "Multithread_Points_deleted k' = Multithread_Points_deleted k"
    "nodes t \<le> Suc (nodes l + nodes r)" "stays (Suc (nodes l + nodes r)) k k'"
proof -
  let ?t = "Node (Update n l r) l r"
  note U = Update_inv [OF u]
  obtain t1 k1 where c: "(if allow \<and> Criterion_Check k (Update n l r) l r then Rebuild nth_element ?t k
      else (?t, k)) = (t1, k1)" by fastforce
  then have t: "t = clear_working t1" "k' = k1" using F by (auto simp: finish_def Let_def)
  have "tree_inv B t1 \<and> live_of (content t1) = live_of (content ?t) \<and> gone (content t1) k1 = gone (content ?t) k
    \<and> Multithread_Points_deleted k1 = Multithread_Points_deleted k \<and> nodes t1 \<le> nodes ?t \<and> stays (nodes ?t) k k1"
    using c rebuild_spec [OF U(2), of k] U by (auto split: if_splits simp del: content.simps)
  then show "tree_inv B t" "live_of (content t) = live_of (own_mark n # content l @ content r)"
    "gone (content t) k' = gone (own_mark n # content l @ content r) k"
    "Multithread_Points_deleted k' = Multithread_Points_deleted k"
    "nodes t \<le> Suc (nodes l + nodes r)" "stays (Suc (nodes l + nodes r)) k k'"
    using t U(1) by simp_all
qed

end

section \<open>Boxes\<close>

lemma misses_out:
  assumes "misses b r" "lies_in v r" "range_ok r" "finite_flt v"
  shows "\<not> inside b v"
  using assms by (auto simp: misses_def lies_in_def range_ok_def inside_def fle_iff fless_iff)

lemma covers_in:
  assumes "covers b r" "lies_in v r" "range_ok r" "finite_flt v"
  shows "inside b v"
  using assms by (auto simp: covers_def lies_in_def range_ok_def inside_def fle_iff fless_iff)

lemma disjoint_out:
  assumes "disjoint_from b n" "in_ranges n p" "ranges_ok n C" "finite_point p"
  shows "\<not> in_box b p"
  using assms misses_out [of "box_x b" "node_range_x n" "pt_x p"]
    misses_out [of "box_y b" "node_range_y n" "pt_y p"] misses_out [of "box_z b" "node_range_z n" "pt_z p"]
  by (auto simp: disjoint_from_def in_ranges_def ranges_ok_def finite_point_def in_box_def)

lemma covering_in:
  assumes "covering b n" "in_ranges n p" "ranges_ok n C" "finite_point p"
  shows "in_box b p"
  using assms covers_in [of "box_x b" "node_range_x n" "pt_x p"]
    covers_in [of "box_y b" "node_range_y n" "pt_y p"] covers_in [of "box_z b" "node_range_z n" "pt_z p"]
  by (auto simp: covering_def in_ranges_def ranges_ok_def finite_point_def in_box_def)

lemma live_in_ranges:
  assumes "tree_inv True (Node n l r)" "p \<in># live_of (content (Node n l r))"
  shows "in_ranges n p" "finite_point p"
  using assms root_ranges(1) [OF assms(1)] unfolding live_of_def ranges_ok_def
  by (auto simp del: content.simps)

lemma filter_mset_all:
  "(\<And>x. x \<in># M \<Longrightarrow> P x) \<Longrightarrow> filter_mset P M = M"
  "(\<And>x. x \<in># M \<Longrightarrow> \<not> P x) \<Longrightarrow> filter_mset P M = {#}"
  by (induction M) auto

lemma disjoint_live:
  assumes "tree_inv True (Node n l r)" "disjoint_from b n"
  shows "filter_mset (in_box b) (live_of (content (Node n l r))) = {#}"
    "filter_mset (\<lambda>p. \<not> in_box b p) (live_of (content (Node n l r))) = live_of (content (Node n l r))"
  using live_in_ranges [OF assms(1)] disjoint_out [OF assms(2) _ root_ranges(1) [OF assms(1)]]
  by (blast intro: filter_mset_all)+

lemma covering_live:
  assumes "tree_inv True (Node n l r)" "covering b n"
  shows "filter_mset (in_box b) (live_of (content (Node n l r))) = live_of (content (Node n l r))"
    "filter_mset (\<lambda>p. \<not> in_box b p) (live_of (content (Node n l r))) = {#}"
  using live_in_ranges [OF assms(1)] covering_in [OF assms(2) _ root_ranges(1) [OF assms(1)]]
  by (blast intro: filter_mset_all)+

section \<open>Deleting a whole subtree\<close>

text \<open>Marking a subtree as a whole is pushing the marks of a father that is deleted.\<close>

lemma delete_all_pushed:
  "delete_all ds n = pushed (n\<lparr>tree_deleted := True, tree_downsample_deleted := ds\<rparr>) n"
  by (cases ds) (simp_all add: delete_all_def pushed_def Let_def)

lemma delete_all_spec:
  assumes "tree_inv B (Node n l r)"
  shows "tree_inv B (Node (delete_all ds n) l r)"
    "live_of (content (Node (delete_all ds n) l r)) = {#}"
    "\<not> ds \<Longrightarrow> retired_of (content (Node (delete_all ds n) l r)) =
       retired_of (content (Node n l r)) + live_of (content (Node n l r))"
proof -
  let ?v = "n\<lparr>tree_deleted := True, tree_downsample_deleted := ds\<rparr>"
  let ?t = "Node n l r" and ?t' = "Node (delete_all ds n) l r"
  have e: "?t' = push_son ?v ?t" by (simp add: delete_all_pushed)
  have r: "restores_none ?v (content ?t)" by (simp add: restores_none_def)
  note P = push_son_content_inv [OF tree_inv_weaken [OF assms], of ?v]
  have c: "content ?t' = map (mark_by ?v) (content ?t)" using P e by simp
  show "tree_inv B ?t'" using P assms r e by (cases B) auto
  have d: "dead (mark_by ?v m)" for m by (simp add: mark_by_def Let_def)
  then show "live_of (content ?t') = {#}" unfolding c by (simp add: live_of_def filter_map o_def)
  assume ds: "\<not> ds"
  have th: "\<forall>m \<in> set (content ?t). thinned m \<longrightarrow> dead m"
    using root_counts [OF assms] unfolding counts_ok_def by blast
  have "retired_of (map (mark_by ?v) C) = retired_of C + live_of C" if "\<forall>m \<in> set C. thinned m \<longrightarrow> dead m"
    for C :: "'a mark list"
    using that ds by (induction C) (auto simp: mark_by_def Let_def)
  then show "retired_of (content ?t') = retired_of (content ?t) + live_of (content ?t)"
    using th unfolding c by blast
qed

lemma own_delete [simp]:
  "own_mark (delete_own ds n) = (point n, True, ds \<or> point_downsample_deleted n)"
  "need_push_down_to_left (delete_own ds n) = need_push_down_to_left n"
  "need_push_down_to_right (delete_own ds n) = need_push_down_to_right n"
  "point (delete_own ds n) = point n" "point_deleted (delete_own ds n)"
  by (auto simp: delete_own_def own_mark_def Let_def)

lemma root_own:
  assumes "tree_inv B (Node n l r)"
  shows "point_downsample_deleted n \<longrightarrow> point_deleted n" "B \<longrightarrow> finite_point (point n)"
proof -
  have "own_mark n \<in> set (content (Node n l r))" by simp
  then show "point_downsample_deleted n \<longrightarrow> point_deleted n"
    using root_counts [OF assms] unfolding counts_ok_def by fastforce
  show "B \<longrightarrow> finite_point (point n)" using assms by (auto simp: node_ok_def ranges_ok_def)
qed

text \<open>Pushing marks down changes no range.\<close>

definition covered :: "BoxPointType \<Rightarrow> 'p tree \<Rightarrow> bool" where
  "covered b t \<longleftrightarrow> (case t of Null \<Rightarrow> True | Node n _ _ \<Rightarrow> covering b n)"

lemma covered_simps [simp]: "covered b Null" "covered b (Node n l r) \<longleftrightarrow> covering b n"
  by (simp_all add: covered_def)

lemma covered_push_son [simp]: "covered b (push_son n t) \<longleftrightarrow> covered b t"
  by (cases t) (simp_all add: pushed_def Let_def covering_def)

lemma covered_Push_Down:
  assumes "Push_Down n l r = (n1, l1, r1)"
  shows "covered b l1 \<longleftrightarrow> covered b l" "covered b r1 \<longleftrightarrow> covered b r"
    "covering b n1 \<longleftrightarrow> covering b n" "disjoint_from b n1 \<longleftrightarrow> disjoint_from b n"
    "tree_deleted n1 \<longleftrightarrow> tree_deleted n"
  using assms by (auto simp: Push_Down_def Let_def covering_def disjoint_from_def split: if_splits)

lemma of_i_small: "10 < i \<Longrightarrow> i < 1500 \<Longrightarrow> of_i b32 i = Num (of_int i)"
proof -
  assume i: "10 < i" "i < 1500"
  have "rounded b32 (of_int i) = of_int i" using i by (intro rounded_of_int) simp_all
  moreover have "\<bar>of_int i\<bar> < (1500::rat)" using i by (metis abs_of_pos of_int_abs of_int_less_iff of_int_numeral order_less_trans zero_less_numeral)
  ultimately show ?thesis by (simp add: of_i_def fround_def Let_def)
qed

context selection
begin

section \<open>Deleting the points of a box\<close>

lemma delete_range_null [simp]:
  "Delete_by_range nth_element b allow ds t k = (c, t', k') \<Longrightarrow> t = Null \<Longrightarrow> t' = Null \<and> c = 0 \<and> k' = k"
  by simp

text \<open>The two sons are processed one after the other.\<close>

lemma gone_both:
  assumes "gone A' k1 = gone A k + X" "gone B' k2 = gone B k1 + Y"
  shows "retired_of A' + retired_of B' + mset (Points_deleted k2) =
    retired_of A + retired_of B + mset (Points_deleted k) + (X + Y)"
proof -
  have "retired_of A' + retired_of B' + mset (Points_deleted k2) = retired_of A' + gone B k1 + Y"
    using assms(2) by (simp add: gone_def ac_simps)
  also have "\<dots> = gone A' k1 + retired_of B + Y" by (simp add: gone_def ac_simps)
  finally show ?thesis using assms(1) by (simp add: gone_def ac_simps)
qed

lemma delete_range_spec:
  assumes "tree_inv True t" "Delete_by_range nth_element b allow ds t k = (c, t', k')"
  shows "tree_inv True t' \<and>
    live_of (content t') = filter_mset (\<lambda>p. \<not> in_box b p) (live_of (content t)) \<and>
    c = int (size (filter_mset (in_box b) (live_of (content t)))) \<and>
    Multithread_Points_deleted k' = Multithread_Points_deleted k \<and>
    (\<not> ds \<longrightarrow> gone (content t') k' = gone (content t) k + filter_mset (in_box b) (live_of (content t))) \<and>
    nodes t' \<le> nodes t \<and> stays (nodes t) k k'"
  using assms
proof (induction "nodes t" arbitrary: t k c t' k' rule: less_induct)
  case less
  show ?case
  proof (cases t)
    case Null
    then show ?thesis using less.prems by (auto simp: gone_def)
  next
    case (Node n l r)
    show ?thesis
    proof (cases "tree_deleted n")
      case True
      then have "live_of (content t) = {#}"
        using deleted_no_live [of True n l r] less.prems(1) Node mset_live(1) [of t] by simp
      moreover have "c = 0" "t' = t" "k' = k" using True less.prems(2) Node by auto
      ultimately show ?thesis using less.prems(1) by (simp add: gone_def)
    next
      case False
      obtain n1 l1 r1 where p: "Push_Down (n\<lparr>working_flag := True\<rparr>) l r = (n1, l1, r1)"
        by (metis prod_cases3)
      note a = after_push [OF p, unfolded content_working]
      have c1: "content (Node n1 l1 r1) = content t" using a(5) Node by simp
      have i1: "tree_inv True (Node n1 l1 r1)" using a(6) less.prems(1) Node by simp
      have small: "nodes l1 < nodes t" "nodes r1 < nodes t" "nodes t = Suc (nodes l1 + nodes r1)"
        using nodes_Push_Down [OF p] Node by simp_all
      have il: "tree_inv True l1" and ir: "tree_inv True r1"
        and c1': "content t = own_mark n1 # content l1 @ content r1"
        using i1 c1 a(3,4) by simp_all
      note D = less.prems(2) [unfolded Node Delete_by_range.simps p prod.case if_not_P [OF False]]
      consider "disjoint_from b n1" | "\<not> disjoint_from b n1" "covering b n1"
        | "\<not> disjoint_from b n1" "\<not> covering b n1" by blast
      then show ?thesis
      proof cases
        case 1
        then have "c = 0" "t' = Node n1 l1 r1" "k' = k" using D by auto
        then show ?thesis using disjoint_live [OF i1 1, unfolded c1] i1
          by (simp add: small(3) gone_def c1 del: content.simps tree_inv.simps)
      next
        case 2
        then have t': "c = TreeSize n1 - invalid_point_num n1" "t' = Node (delete_all ds n1) l1 r1" "k' = k"
          using D by auto
        have "c = int (size (live_of (content t)))"
          using valid_count [OF i1] c1 t'(1) mset_live(1) [of "Node n1 l1 r1"] by (metis size_mset)
        then show ?thesis
          using covering_live [OF i1 2(2), unfolded c1] delete_all_spec [OF i1, of ds, unfolded c1]
          unfolding t'(2,3) by (auto simp: small(3) gone_def simp del: content.simps tree_inv.simps)
      next
        case 3
        define own where "own = (\<not> point_deleted n1 \<and> in_box b (point n1))"
        define n2 where "n2 = (if own then delete_own ds n1 else n1)"
        obtain cl l2 k1 where dl: "Delete_by_range nth_element b allow ds l1 k = (cl, l2, k1)" by (metis prod_cases3)
        obtain cr r2 k2 where dr: "Delete_by_range nth_element b allow ds r1 k1 = (cr, r2, k2)" by (metis prod_cases3)
        obtain t3 k3 where f: "finish nth_element allow n2 l2 r2 k2 = (t3, k3)" by fastforce
        have res: "c = b2i own + cl + cr" "t' = t3" "k' = k3"
          using D 3 by (simp_all add: Let_def own_def [symmetric] n2_def [symmetric] dl dr f)
        note L = less.hyps [OF small(1) il dl] and R = less.hyps [OF small(2) ir dr]
        have "l1 = Null \<Longrightarrow> l2 = Null" "r1 = Null \<Longrightarrow> r2 = Null" using dl dr by auto
        then have u: "updatable True n2 l2 r2"
          using L R a(7,8) root_own [OF i1] unfolding updatable_def n2_def by auto
        note F = finish_spec [OF u f]
        have own1: "point n2 = point n1" "point_deleted n2 = (point_deleted n1 \<or> own)"
          "\<not> ds \<longrightarrow> point_downsample_deleted n2 = point_downsample_deleted n1"
          by (auto simp: n2_def delete_own_def Let_def)
        have g: "\<not> ds \<Longrightarrow> retired_of (content l2) + retired_of (content r2) + mset (Points_deleted k2) =
            retired_of (content l1) + retired_of (content r1) + mset (Points_deleted k) +
            (filter_mset (in_box b) (live_of (content l1)) + filter_mset (in_box b) (live_of (content r1)))"
          using L R by (intro gone_both) auto
        have st: "nodes t3 \<le> nodes t \<and> stays (nodes t) k k3"
          using F(5,6) L R small(3) by (auto simp: stays_def)
        show ?thesis
          unfolding res c1'
          using F(1-4) L R own1 root_own(1) [OF i1] g st [unfolded res]
          by (auto simp: own_def b2i_def gone_def ac_simps)
      qed
    qed
  qed
qed

text \<open>When every live point of a large tree lies in the box but the box does not cover the range of
  the root, which may include deleted points, the root finds all of its points deleted and is rebuilt
  from nothing.\<close>

lemma delete_covered:
  assumes "Delete_by_range nth_element b allow ds t k = (c, t', k')" "covered b t"
  shows "nodes t' = nodes t \<and> k' = k"
proof (cases t)
  case (Node n l r)
  obtain n1 l1 r1 where p: "Push_Down (n\<lparr>working_flag := True\<rparr>) l r = (n1, l1, r1)" by (metis prod_cases3)
  then have "covering b n1" using assms(2) covered_Push_Down(3) [OF p] by (simp add: Node covering_def)
  then show ?thesis using assms(1) nodes_Push_Down [OF p] unfolding Node by (auto simp: p split: if_splits)
qed (use assms in auto)

lemma delete_range_empties:
  assumes t: "tree_inv True (Node n l r)" and p: "Push_Down (n\<lparr>working_flag := True\<rparr>) l r = (n1, l1, r1)"
    and box: "\<not> tree_deleted n" "\<not> disjoint_from b n" "\<not> covering b n"
    and all: "\<forall>x \<in># live_of (content (Node n l r)). in_box b x"
    and sons: "covered b l" "covered b r"
    and size: "10 < nodes (Node n l r)" "nodes (Node n l r) < 1500"
    and param: "fless (delete_criterion_param k) (Num 1)"
    and D: "Delete_by_range nth_element b True ds (Node n l r) k = (c, t', k')"
  shows "t' = Null"
proof -
  note a = after_push [OF p, unfolded content_working]
  have i1: "tree_inv True (Node n1 l1 r1)" using a(6) t by simp
  have c1: "content (Node n l r) = own_mark n1 # content l1 @ content r1" using a(3,4,5) by simp
  have il: "tree_inv True l1" and ir: "tree_inv True r1" using i1 a(3,4) by simp_all
  define own where "own = (\<not> point_deleted n1 \<and> in_box b (point n1))"
  define n2 where "n2 = (if own then delete_own ds n1 else n1)"
  obtain cl l2 k1 where dl: "Delete_by_range nth_element b True ds l1 k = (cl, l2, k1)" by (metis prod_cases3)
  obtain cr r2 k2 where dr: "Delete_by_range nth_element b True ds r1 k1 = (cr, r2, k2)" by (metis prod_cases3)
  note L = delete_range_spec [OF il dl] and R = delete_range_spec [OF ir dr]
  have "l1 = Null \<Longrightarrow> l2 = Null" "r1 = Null \<Longrightarrow> r2 = Null" using dl dr by auto
  then have u: "updatable True n2 l2 r2"
    using L R a(7,8) root_own [OF i1] unfolding updatable_def n2_def by auto
  let ?n = "Update n2 l2 r2"
  note U = Update_inv [OF u]
  have "own_mark n1 \<in> set (content (Node n l r))" by (simp only: c1 list.set_intros)
  have dead: "point_deleted n2"
    using all unfolding c1 n2_def own_def by (auto simp: own_mark_def split: if_splits)
  have "filter_mset (\<lambda>p. \<not> in_box b p) (live_of (content l1)) = {#}"
    "filter_mset (\<lambda>p. \<not> in_box b p) (live_of (content r1)) = {#}"
    using all unfolding c1 by (auto intro!: filter_mset_all(2))
  then have "live_of (content (Node ?n l2 r2)) = {#}" using U(1) L R dead by simp
  then have none: "live (Node ?n l2 r2) = []" using mset_live(1) [of "Node ?n l2 r2"] by simp
  have inv: "invalid_point_num ?n = TreeSize ?n" using valid_count [OF U(2)] none by simp
  have same: "nodes l2 = nodes l1" "k1 = k" "nodes r2 = nodes r1" "k2 = k"
    using delete_covered [OF dl] delete_covered [OF dr] sons
    covered_Push_Down(1,2) [OF p] by blast+
  have "TreeSize ?n = int (nodes (Node ?n l2 r2))" using tree_size_nodes [OF U(2)] by simp
  then have size1: "10 < TreeSize ?n" "TreeSize ?n < 1500"
    using same size nodes_Push_Down [OF p] by simp_all
  have one: "fdiv b32 (of_i b32 (TreeSize ?n)) (of_i b32 (TreeSize ?n)) = Num 1"
  proof -
    have "rounded b32 (2 powi 0) = 2 powi 0" by (rule rounded_pow2) simp_all
    then show ?thesis using size1 by (simp add: of_i_small fround_def Let_def)
  qed
  have crit: "Criterion_Check k ?n l2 r2"
    using size1 param one by (simp add: Criterion_Check_def Minimal_Unbalanced_Tree_Size_def inv)
  obtain t3 d where f: "flatten (Node ?n l2 r2) = (t3, [], d)"
    using flatten_spec [of "Node ?n l2 r2"] none by (metis prod_cases3)
  have "Rebuild nth_element (Node ?n l2 r2) k = (Null, k\<lparr>Points_deleted := Points_deleted k @ d\<rparr>)"
    using size1 by (simp add: Rebuild_def Multi_Thread_Rebuild_Point_Num_def f BuildTree.simps del: flatten.simps)
  then have "fst (finish nth_element True n2 l2 r2 k2) = Null"
    by (simp add: finish_def same(4) crit clear_working_def)
  moreover have "\<not> disjoint_from b n1" "\<not> covering b n1"
    using box(2,3) covered_Push_Down(3,4) [OF p] by (simp_all add: covering_def disjoint_from_def)
  ultimately show ?thesis
    using D box(1) p by (auto simp: Let_def dl dr own_def [symmetric] n2_def [symmetric] split: prod.splits)
qed

section \<open>Adding a point\<close>

lemma add_point_spec:
  assumes "tree_inv B t" "B \<longrightarrow> finite_point p" "Add_by_point nth_element p allow axis t k = (t', k')"
  shows "tree_inv B t' \<and> live_of (content t') = add_mset p (live_of (content t)) \<and>
    gone (content t') k' = gone (content t) k \<and>
    Multithread_Points_deleted k' = Multithread_Points_deleted k \<and> t' \<noteq> Null \<and>
    nodes t' \<le> Suc (nodes t) \<and> stays (Suc (nodes t)) k k'"
  using assms
proof (induction "nodes t" arbitrary: t axis k t' k' rule: less_induct)
  case less
  show ?case
  proof (cases t)
    case Null
    then show ?thesis using less.prems new_leaf [of B p] by (auto simp: gone_def fresh_mark_def)
  next
    case (Node n l r)
    obtain n1 l1 r1 where p: "Push_Down (n\<lparr>working_flag := True\<rparr>) l r = (n1, l1, r1)"
      by (metis prod_cases3)
    note a = after_push [OF p, unfolded content_working]
    have c1: "content (Node n1 l1 r1) = content t" using a(5) Node by simp
    have i1: "tree_inv B (Node n1 l1 r1)" using a(6) less.prems(1) Node by simp
    have small: "nodes l1 < nodes t" "nodes r1 < nodes t" "nodes t = Suc (nodes l1 + nodes r1)"
      using nodes_Push_Down [OF p] Node by simp_all
    have il: "tree_inv B l1" and ir: "tree_inv B r1" and c1': "content t = own_mark n1 # content l1 @ content r1"
      using i1 c1 a(3,4) by simp_all
    note D = less.prems(3) [unfolded Node Add_by_point.simps p prod.case]
    have fresh: "\<forall>m \<in> set (content s). \<not> dead m"
      if "Add_by_point nth_element p allow i s0 k = (s, k1)" "s0 = Null" for i k k1 s s0
      using that new_leaf [of False p] by (auto simp: fresh_mark_def)
    show ?thesis
    proof (cases "goes_left p n1")
      case True
      obtain l2 k1 where d: "Add_by_point nth_element p allow (division_axis n1) l1 k = (l2, k1)" by fastforce
      have f: "finish nth_element allow n1 l2 r1 k1 = (t', k')" using D True by (simp add: d)
      note L = less.hyps [OF small(1) il less.prems(2) d]
      have u: "updatable B n1 l2 r1"
        using L ir a(8) root_own [OF i1] fresh [OF d] a(7) unfolding updatable_def by auto
      note F = finish_spec [OF u f]
      have "t' \<noteq> Null" using F(2) L by (cases t') auto
      moreover have "nodes t' \<le> Suc (nodes t) \<and> stays (Suc (nodes t)) k k'"
        using F(5,6) L small(3) by (auto simp: stays_def)
      ultimately show ?thesis using F(1-4) L unfolding c1' by (auto simp: gone_def ac_simps)
    next
      case False
      obtain r2 k1 where d: "Add_by_point nth_element p allow (division_axis n1) r1 k = (r2, k1)" by fastforce
      have f: "finish nth_element allow n1 l1 r2 k1 = (t', k')" using D False by (simp add: d)
      note R = less.hyps [OF small(2) ir less.prems(2) d]
      have u: "updatable B n1 l1 r2"
        using R il a(7) root_own [OF i1] fresh [OF d] a(8) unfolding updatable_def by auto
      note F = finish_spec [OF u f]
      have "t' \<noteq> Null" using F(2) R by (cases t') auto
      moreover have "nodes t' \<le> Suc (nodes t) \<and> stays (Suc (nodes t)) k k'"
        using F(5,6) R small(3) by (auto simp: stays_def)
      ultimately show ?thesis using F(1-4) R unfolding c1' by (auto simp: gone_def ac_simps)
    qed
  qed
qed

end

section \<open>Deleting a point\<close>

text \<open>At most one point goes, a live one within the tolerance of the point given.\<close>

definition removable :: "'p point \<Rightarrow> 'p mark list \<Rightarrow> 'p point multiset \<Rightarrow> bool" where
  "removable p C X \<longleftrightarrow> X = {#} \<or> (\<exists>q. X = {#q#} \<and> same_point q p \<and> q \<in># live_of C)"

lemma full_filter: "length (filter P xs) = length xs \<longleftrightarrow> (\<forall>x \<in> set xs. P x)"
proof (induction xs)
  case (Cons x xs)
  have "length (filter P xs) \<noteq> Suc (length xs)" using length_filter_le [of P xs] by linarith
  with Cons show ?case by simp
qed simp

lemma delete_found_fields [simp]:
  "own_mark (delete_found n) = (point n, True, point_downsample_deleted n)"
  "need_push_down_to_left (delete_found n) = need_push_down_to_left n"
  "need_push_down_to_right (delete_found n) = need_push_down_to_right n"
  by (simp_all add: delete_found_def own_mark_def Let_def)

lemma delete_found_inv:
  assumes i: "tree_inv B (Node n l r)" and own: "\<not> point_deleted n"
    and settled: "need_push_down_to_left n \<longrightarrow> l = Null" "need_push_down_to_right n \<longrightarrow> r = Null"
  shows "content (Node (delete_found n) l r) = (point n, True, point_downsample_deleted n) # content l @ content r"
    "tree_inv B (Node (delete_found n) l r)"
proof -
  have kids: "left_kid n l = l" "right_kid n r = r"
    "left_kid (delete_found n) l = l" "right_kid (delete_found n) r = r"
    using settled by (auto simp: kid_def)
  show c: "content (Node (delete_found n) l r) = (point n, True, point_downsample_deleted n) # content l @ content r"
    using kids by simp
  let ?C = "content l @ content r"
  have old: "counts_ok n (own_mark n # ?C)" "B \<longrightarrow> ranges_ok n (own_mark n # ?C)"
    and il: "tree_inv B l" and ir: "tree_inv B r"
    using i kids by (auto simp: node_ok_def)
  have th: "\<not> point_downsample_deleted n" using old(1) own by (auto simp: counts_ok_def)
  have inv_count: "invalid_point_num n = int (length (filter dead ?C))" "TreeSize n = int (length ?C) + 1"
    "down_del_num n = int (length (filter thinned ?C))" "\<not> tree_deleted n"
    using old(1) own th by (auto simp: counts_ok_def)
  have full: "int (length (filter dead ?C)) = int (length ?C) \<longleftrightarrow> (\<forall>m \<in> set ?C. dead m)"
    by (simp only: of_nat_eq_iff full_filter)
  have "counts_ok (delete_found n) ((point n, True, point_downsample_deleted n) # ?C)"
    using old(1) inv_count full th
    by (auto simp: counts_ok_def delete_found_def Let_def)
  moreover have "B \<longrightarrow> ranges_ok (delete_found n) ((point n, True, point_downsample_deleted n) # ?C)"
    using old(2) by (auto simp: ranges_ok_def in_ranges_def delete_found_def Let_def)
  ultimately show "tree_inv B (Node (delete_found n) l r)"
    using c kids il ir by (simp add: node_ok_def)
qed

context selection
begin

lemma delete_point_spec:
  assumes "tree_inv B t" "Delete_by_point nth_element p allow t k = (t', k')"
  shows "\<exists>X. removable p (content t) X \<and> tree_inv B t' \<and>
    live_of (content t) = live_of (content t') + X \<and> gone (content t') k' = gone (content t) k + X \<and>
    Multithread_Points_deleted k' = Multithread_Points_deleted k \<and> nodes t' \<le> nodes t \<and> stays (nodes t) k k'"
  using assms
proof (induction "nodes t" arbitrary: t k t' k' rule: less_induct)
  case less
  show ?case
  proof (cases t)
    case Null
    then show ?thesis using less.prems by (auto simp: gone_def removable_def)
  next
    case (Node n l r)
    show ?thesis
    proof (cases "tree_deleted n")
      case True
      then have "t' = t" "k' = k" using less.prems Node by auto
      then show ?thesis using less.prems(1) by (auto simp: removable_def gone_def)
    next
      case False
      obtain n1 l1 r1 where p: "Push_Down (n\<lparr>working_flag := True\<rparr>) l r = (n1, l1, r1)"
        by (metis prod_cases3)
      note a = after_push [OF p, unfolded content_working]
      have c1: "content (Node n1 l1 r1) = content t" using a(5) Node by simp
      have i1: "tree_inv B (Node n1 l1 r1)" using a(6) less.prems(1) Node by simp
      have small: "nodes l1 < nodes t" "nodes r1 < nodes t" "nodes t = Suc (nodes l1 + nodes r1)"
        using nodes_Push_Down [OF p] Node by simp_all
      have il: "tree_inv B l1" and ir: "tree_inv B r1" and c1': "content t = own_mark n1 # content l1 @ content r1"
        using i1 c1 a(3,4) by simp_all
      note D = less.prems(2) [unfolded Node Delete_by_point.simps p prod.case if_not_P [OF False]]
      consider (found) "same_point (point n1) p" "\<not> point_deleted n1"
        | (left) "\<not> (same_point (point n1) p \<and> \<not> point_deleted n1)" "goes_left p n1"
        | (right) "\<not> (same_point (point n1) p \<and> \<not> point_deleted n1)" "\<not> goes_left p n1" by blast
      then show ?thesis
      proof cases
        case found
        then have t': "t' = Node (delete_found n1) l1 r1" "k' = k" using D by auto
        note F = delete_found_inv [OF i1 found(2) a(7,8)]
        have th: "\<not> point_downsample_deleted n1" using root_own(1) [OF i1] found(2) by blast
        have "removable p (content t) {#point n1#}" using found c1' by (simp add: removable_def)
        then show ?thesis using F found(2) th unfolding t' c1' F(1)
          by (intro exI [of _ "{#point n1#}"]) (simp add: gone_def small(3))
      next
        case left
        obtain l2 k1 where d: "Delete_by_point nth_element p allow l1 k = (l2, k1)" by fastforce
        have f: "finish nth_element allow n1 l2 r1 k1 = (t', k')" using D left by (simp add: d)
        obtain X where L: "removable p (content l1) X" "tree_inv B l2" "live_of (content l1) = live_of (content l2) + X"
          "gone (content l2) k1 = gone (content l1) k + X" "Multithread_Points_deleted k1 = Multithread_Points_deleted k"
          "nodes l2 \<le> nodes l1" "stays (nodes l1) k k1"
          using less.hyps [OF small(1) il d] by blast
        have "l1 = Null \<Longrightarrow> l2 = Null" using d by auto
        then have u: "updatable B n1 l2 r1"
          using L(2) ir a(7,8) root_own [OF i1] unfolding updatable_def by auto
        note F = finish_spec [OF u f]
        have "removable p (content t) X" using L(1) unfolding c1' by (auto simp: removable_def)
        moreover have "nodes t' \<le> nodes t \<and> stays (nodes t) k k'"
          using F(5,6) L(6,7) small(3) by (auto simp: stays_def)
        ultimately show ?thesis using F(1-4) L(3-5) unfolding c1'
          by (intro exI [of _ X]) (auto simp: gone_def ac_simps)
      next
        case right
        obtain r2 k1 where d: "Delete_by_point nth_element p allow r1 k = (r2, k1)" by fastforce
        have f: "finish nth_element allow n1 l1 r2 k1 = (t', k')" using D right by (simp add: d)
        obtain X where L: "removable p (content r1) X" "tree_inv B r2" "live_of (content r1) = live_of (content r2) + X"
          "gone (content r2) k1 = gone (content r1) k + X" "Multithread_Points_deleted k1 = Multithread_Points_deleted k"
          "nodes r2 \<le> nodes r1" "stays (nodes r1) k k1"
          using less.hyps [OF small(2) ir d] by blast
        have "r1 = Null \<Longrightarrow> r2 = Null" using d by auto
        then have u: "updatable B n1 l1 r2"
          using L(2) il a(7,8) root_own [OF i1] unfolding updatable_def by auto
        note F = finish_spec [OF u f]
        have "removable p (content t) X" using L(1) unfolding c1' by (auto simp: removable_def)
        moreover have "nodes t' \<le> nodes t \<and> stays (nodes t) k k'"
          using F(5,6) L(6,7) small(3) by (auto simp: stays_def)
        ultimately show ?thesis using F(1-4) L(3-5) unfolding c1'
          by (intro exI [of _ X]) (auto simp: gone_def ac_simps)
      qed
    qed
  qed
qed

end

section \<open>Undoing deletions\<close>

text \<open>The counts and flags survive, no live point is lost, and no point marked by a downsampling
  comes back. Which points come back is another matter: a node that is covered by the box gives all
  of its subtree back, also where its range has shrunk in the meantime.\<close>

lemma restore_all_pushed:
  assumes "tree_downsample_deleted n \<longrightarrow> point_downsample_deleted n"
  shows "restore_all n = pushed (n\<lparr>tree_deleted := False, tree_downsample_deleted := False\<rparr>) n"
  using assms by (auto simp: restore_all_def pushed_def Let_def)

lemma restore_all_spec:
  assumes "tree_inv False (Node n l r)"
  shows "tree_inv False (Node (restore_all n) l r)"
    "content (Node (restore_all n) l r) = map (\<lambda>m. (fst m, thinned m, thinned m)) (content (Node n l r))"
proof -
  let ?v = "n\<lparr>tree_deleted := False, tree_downsample_deleted := False\<rparr>"
  have "tree_downsample_deleted n \<longrightarrow> point_downsample_deleted n"
    using root_counts [OF assms] by (auto simp: counts_ok_def)
  then have e: "Node (restore_all n) l r = push_son ?v (Node n l r)" by (simp add: restore_all_pushed)
  have m: "mark_by ?v = (\<lambda>m. (fst m, thinned m, thinned m))" by (auto simp: mark_by_def)
  note P = push_son_content_inv [OF assms, of ?v, unfolded m]
  show "tree_inv False (Node (restore_all n) l r)" unfolding e using P by blast
  show "content (Node (restore_all n) l r) = map (\<lambda>m. (fst m, thinned m, thinned m)) (content (Node n l r))"
    unfolding e using P by blast
qed

lemma restored_live:
  assumes "\<forall>m \<in> set C. thinned m \<longrightarrow> dead m"
  shows "live_of C \<subseteq># live_of (map (\<lambda>m. (fst m, thinned m, thinned m)) C)"
  using assms
proof (induction C)
  case (Cons m C)
  then have "(if dead m then {#} else {#fst m#}) + live_of C \<subseteq>#
      (if thinned m then {#} else {#fst m#}) + live_of (map (\<lambda>m. (fst m, thinned m, thinned m)) C)"
    by (intro subset_mset.add_mono) auto
  then show ?case by (simp only: live_of_simps list.map fst_conv snd_conv)
qed simp

context selection
begin

lemma add_range_spec:
  assumes "tree_inv False t" "Add_by_range nth_element b allow t k = (t', k')"
  shows "tree_inv False t' \<and> live_of (content t) \<subseteq># live_of (content t')"
  using assms
proof (induction "nodes t" arbitrary: t k t' k' rule: less_induct)
  case less
  show ?case
  proof (cases t)
    case Null
    then show ?thesis using less.prems by auto
  next
    case (Node n l r)
    obtain n1 l1 r1 where p: "Push_Down (n\<lparr>working_flag := True\<rparr>) l r = (n1, l1, r1)"
      by (metis prod_cases3)
    note a = after_push [OF p, unfolded content_working]
    have c1: "content (Node n1 l1 r1) = content t" using a(5) Node by simp
    have i1: "tree_inv False (Node n1 l1 r1)" using a(6) less.prems(1) Node by simp
    have small: "nodes l1 < nodes t" "nodes r1 < nodes t" using nodes_Push_Down [OF p] Node by simp_all
    have il: "tree_inv False l1" and ir: "tree_inv False r1" and c1': "content t = own_mark n1 # content l1 @ content r1"
      using i1 c1 a(3,4) by simp_all
    note D = less.prems(2) [unfolded Node Add_by_range.simps p prod.case]
    consider "disjoint_from b n1" | "\<not> disjoint_from b n1" "covering b n1"
      | "\<not> disjoint_from b n1" "\<not> covering b n1" by blast
    then show ?thesis
    proof cases
      case 1
      then have "t' = Node n1 l1 r1" using D by auto
      then show ?thesis using i1 c1 by (simp del: content.simps tree_inv.simps)
    next
      case 2
      then have "t' = Node (restore_all n1) l1 r1" using D by auto
      moreover have "\<forall>m \<in> set (content t). thinned m \<longrightarrow> dead m"
        using root_counts [OF i1] unfolding c1 counts_ok_def by blast
      ultimately show ?thesis
        using restore_all_spec [OF i1, unfolded c1] restored_live [of "content t"]
        by (simp del: content.simps tree_inv.simps)
    next
      case 3
      define n2 where "n2 = (if in_box b (point n1) then n1\<lparr>point_deleted := point_downsample_deleted n1\<rparr> else n1)"
      obtain l2 k1 where dl: "Add_by_range nth_element b allow l1 k = (l2, k1)" by fastforce
      obtain r2 k2 where dr: "Add_by_range nth_element b allow r1 k1 = (r2, k2)" by fastforce
      have f: "finish nth_element allow n2 l2 r2 k2 = (t', k')"
        using D 3 by (simp add: Let_def n2_def [symmetric] dl dr)
      note L = less.hyps [OF small(1) il dl] and R = less.hyps [OF small(2) ir dr]
      have "l1 = Null \<Longrightarrow> l2 = Null" "r1 = Null \<Longrightarrow> r2 = Null" using dl dr by auto
      then have u: "updatable False n2 l2 r2"
        using L R a(7,8) root_own [OF i1] unfolding updatable_def n2_def by auto
      have "live_of [own_mark n1] \<subseteq># live_of [own_mark n2]"
        using root_own(1) [OF i1] by (auto simp: n2_def)
      then have "live_of [own_mark n1] + (live_of (content l1) + live_of (content r1)) \<subseteq>#
          live_of [own_mark n2] + (live_of (content l2) + live_of (content r2))"
        using L R by (intro subset_mset.add_mono) auto
      then show ?thesis using finish_spec [OF u f] unfolding c1' by simp
    qed
  qed
qed

end

end
