(* ===== verification/Ikd_Search.thy ===== *)
theory Ikd_Search
  imports Ikd_Update
begin

text \<open>
  The queries of the kd-tree: the points of a box (\<open>Search_by_range\<close>), and the nearest neighbours
  of a point (\<open>Search\<close>, \<open>Nearest_Search\<close>) with the heap of candidates and the pruning by the
  distance to the range of a node. A query pushes pending marks down on its way, so it returns the
  tree too. The search reads the top of the heap; with no room for an entry that read is out of
  range, so the search returns a value of the error type.
\<close>

section \<open>Box search\<close>

text \<open>\<open>Search_by_range nth b t = (t', found)\<close>: what is pushed on \<open>Storage\<close>.\<close>

function Search_by_range :: "BoxPointType \<Rightarrow> 'p tree \<Rightarrow> 'p tree \<times> 'p point list" where
  "Search_by_range b Null = (Null, [])"
| "Search_by_range b (Node n l r) =
     (case Push_Down n l r of (n, l, r) \<Rightarrow>
        if disjoint_from b n then (Node n l r, [])
        else if covering b n
        then (case flatten (Node n l r) of (t, storage, _) \<Rightarrow> (t, storage))
        else
          (let own = (if in_box b (point n) \<and> \<not> point_deleted n then [point n] else []);
               (l, sl) = Search_by_range b l;
               (r, sr) = Search_by_range b r
           in (Node n l r, own @ sl @ sr)))"
  by pat_completeness auto
termination
  by (relation "measure (\<lambda>(b, t). nodes t)") (auto dest: nodes_Push_Down [OF sym])

section \<open>Nearest neighbours\<close>

record 'p PointType_CMP =
  cmp_point :: "'p point"
  cmp_dist :: flt

text \<open>\<open>operator<\<close>: distances closer than \<open>1e-10\<close> count as equal, then the \<open>x\<close> coordinate decides.\<close>

definition cmp_less :: "'p PointType_CMP \<Rightarrow> 'p PointType_CMP \<Rightarrow> bool" where
  "cmp_less c a =
     (if fless (fabs (fsub b32 (cmp_dist c) (cmp_dist a))) (fround b64 (1 / 10 ^ 10))
      then fless (pt_x (cmp_point c)) (pt_x (cmp_point a))
      else fless (cmp_dist c) (cmp_dist a))"

text \<open>One axis of \<open>calc_box_dist\<close>: what is added to \<open>min_dist\<close>.\<close>

definition add_axis :: "flt \<Rightarrow> range \<Rightarrow> flt \<Rightarrow> flt" where
  "add_axis v r min_dist =
     (let min_dist = (if fless v (fst r) then fadd b32 min_dist (sqdiff b32 v (fst r)) else min_dist)
      in if fless (snd r) v then fadd b32 min_dist (sqdiff b32 v (snd r)) else min_dist)"

fun calc_box_dist :: "'p tree \<Rightarrow> 'p point \<Rightarrow> flt" where
  "calc_box_dist Null p = Infty False"
| "calc_box_dist (Node n l r) p =
     add_axis (pt_z p) (node_range_z n) (add_axis (pt_y p) (node_range_y n)
       (add_axis (pt_x p) (node_range_x n) (Num 0)))"

text \<open>\<open>q.size() < k_nearest || d < q.top().dist\<close>, and the test of the top alone.\<close>

definition below_top :: "flt \<Rightarrow> 'p PointType_CMP heap \<Rightarrow> ub + bool" where
  "below_top d q = bind_ub (heap_top q) (\<lambda>c. Inr (fless d (cmp_dist c)))"

definition room_or_below :: "nat \<Rightarrow> flt \<Rightarrow> 'p PointType_CMP heap \<Rightarrow> ub + bool" where
  "room_or_below k d q = (if heap_size q < k then Inr True else below_top d q)"

text \<open>The point of the node itself.\<close>

definition offer :: "nat \<Rightarrow> 'p point \<Rightarrow> flt \<Rightarrow> 'p node \<Rightarrow> 'p PointType_CMP heap \<Rightarrow> ub + 'p PointType_CMP heap" where
  "offer k p max_dist_sqr n q =
     (if point_deleted n then Inr q
      else let dist = calc_dist p (point n) in
        if fle dist max_dist_sqr
        then bind_ub (room_or_below k dist q) (\<lambda>enter. Inr
               (if enter
                then (let q = (if k \<le> heap_size q then heap_pop cmp_less q else q)
                      in heap_push cmp_less \<lparr>cmp_point = point n, cmp_dist = dist\<rparr> q)
                else q))
        else Inr q)"

text \<open>The tests before the sons are visited: both sons, the nearer one first, or each by itself.\<close>

definition visit_both :: "nat \<Rightarrow> flt \<Rightarrow> flt \<Rightarrow> 'p PointType_CMP heap \<Rightarrow> ub + bool" where
  "visit_both k dl dr q = (if heap_size q < k then Inr True
     else bind_ub (below_top dl q) (\<lambda>a. if a then below_top dr q else Inr False))"

function Search :: "nat \<Rightarrow> 'p point \<Rightarrow> flt \<Rightarrow> 'p tree \<Rightarrow> 'p PointType_CMP heap \<Rightarrow>
    ub + 'p tree \<times> 'p PointType_CMP heap" where
  "Search k p max_dist Null q = Inr (Null, q)"
| "Search k p max_dist (Node n l r) q =
     (if tree_deleted n then Inr (Node n l r, q)
      else let cur_dist = calc_box_dist (Node n l r) p; max_dist_sqr = fmul b32 max_dist max_dist in
        if fless max_dist_sqr cur_dist then Inr (Node n l r, q)
        else case Push_Down n l r of (n, l, r) \<Rightarrow>
          bind_ub (offer k p max_dist_sqr n q) (\<lambda>q.
          let dist_left_node = calc_box_dist l p; dist_right_node = calc_box_dist r p in
          bind_ub (visit_both k dist_left_node dist_right_node q) (\<lambda>both.
            if both then
              if fle dist_left_node dist_right_node then
                bind_ub (Search k p max_dist l q) (\<lambda>(l, q).
                bind_ub (room_or_below k dist_right_node q) (\<lambda>go.
                  if go then bind_ub (Search k p max_dist r q) (\<lambda>(r, q). Inr (Node n l r, q))
                  else Inr (Node n l r, q)))
              else
                bind_ub (Search k p max_dist r q) (\<lambda>(r, q).
                bind_ub (room_or_below k dist_left_node q) (\<lambda>go.
                  if go then bind_ub (Search k p max_dist l q) (\<lambda>(l, q). Inr (Node n l r, q))
                  else Inr (Node n l r, q)))
            else
              bind_ub (below_top dist_left_node q) (\<lambda>go_left.
              bind_ub (if go_left then Search k p max_dist l q else Inr (l, q)) (\<lambda>(l, q).
              bind_ub (below_top dist_right_node q) (\<lambda>go_right.
                if go_right then bind_ub (Search k p max_dist r q) (\<lambda>(r, q). Inr (Node n l r, q))
                else Inr (Node n l r, q)))))))"
  by pat_completeness auto
termination
  by (relation "measure (\<lambda>(k, p, max_dist, t, q). nodes t)") (auto dest: nodes_Push_Down [OF sym])

text \<open>The loop of \<open>Nearest_Search\<close> that empties the heap: each top goes to the front.\<close>

fun take_out :: "nat \<Rightarrow> 'p PointType_CMP heap \<Rightarrow> 'p PointType_CMP list \<Rightarrow> ub + 'p PointType_CMP list" where
  "take_out 0 q out = Inr out"
| "take_out (Suc i) q out = bind_ub (heap_top q) (\<lambda>c. take_out i (heap_pop cmp_less q) (c # out))"

text \<open>The default entry of the heap array is a parameter: \<open>PointType()\<close> and an infinite distance.\<close>

definition Nearest_Search :: "'p PointType_CMP \<Rightarrow> 'p point \<Rightarrow> nat \<Rightarrow> flt \<Rightarrow> 'p tree \<Rightarrow>
    ub + 'p tree \<times> 'p point list \<times> flt list" where
  "Nearest_Search d p k_nearest max_dist t =
     bind_ub (Search k_nearest p max_dist t (MANUAL_HEAP d (2 * k_nearest))) (\<lambda>(t, q).
     bind_ub (take_out (min k_nearest (heap_size q)) q []) (\<lambda>out.
       Inr (t, map cmp_point out, map cmp_dist out)))"

section \<open>Correctness of the box search\<close>

text \<open>After pushing down, the sons may be replaced by others of the same content.\<close>

lemma settled_sons:
  assumes p: "Push_Down n l r = (n1, l1, r1)" and i: "tree_inv B (Node n l r)"
    and l: "content l2 = content l1" "tree_inv B l2" and r: "content r2 = content r1" "tree_inv B r2"
  shows "content (Node n1 l2 r2) = content (Node n l r)" "tree_inv B (Node n1 l2 r2)"
proof -
  note a = after_push [OF p]
  have "l2 = Null \<longleftrightarrow> l1 = Null" "r2 = Null \<longleftrightarrow> r1 = Null" using l(1) r(1) by (metis content_Nil)+
  then have kids: "left_kid n1 l2 = l2" "right_kid n1 r2 = r2" using a(7,8) by (auto simp: kid_def)
  show c: "content (Node n1 l2 r2) = content (Node n l r)"
    using kids l(1) r(1) a(3,4,5) by simp
  have "tree_inv B (Node n1 l1 r1)" using i a(6) by blast
  then have "node_ok B n1 (content (Node n l r))" unfolding a(5) [symmetric] tree_inv.simps by blast
  then show "tree_inv B (Node n1 l2 r2)" using c kids l(2) r(2) by simp
qed

lemma sons_after_push:
  assumes p: "Push_Down n l r = (n1, l1, r1)" and i: "tree_inv B (Node n l r)"
  shows "tree_inv B (Node n1 l1 r1)" "tree_inv B l1" "tree_inv B r1"
    "content (Node n l r) = own_mark n1 # content l1 @ content r1" "content (Node n1 l1 r1) = content (Node n l r)"
    "nodes l1 = nodes l" "nodes r1 = nodes r"
proof -
  note a = after_push [OF p]
  show 1: "tree_inv B (Node n1 l1 r1)" using a(6) i by blast
  then show "tree_inv B l1" "tree_inv B r1" using a(3,4) by simp_all
  show 2: "content (Node n1 l1 r1) = content (Node n l r)" using a(5) .
  then show "content (Node n l r) = own_mark n1 # content l1 @ content r1" using a(3,4) by simp
  show "nodes l1 = nodes l" "nodes r1 = nodes r" using nodes_Push_Down [OF p] by blast+
qed

lemma live_Cons:
  "content t = own_mark n # content l @ content r \<Longrightarrow>
   live t = (if point_deleted n then [] else [point n]) @ live l @ live r"
  by (simp add: live_def)

lemma covered_search:
  assumes "Search_by_range b t = (t', s)"
  shows "covered b' t' \<longleftrightarrow> covered b' t"
proof (cases t)
  case (Node n l r)
  obtain n1 l1 r1 where p: "Push_Down n l r = (n1, l1, r1)" by (metis prod_cases3)
  obtain n2 l2 r2 where q: "Push_Down n1 l1 r1 = (n2, l2, r2)" by (metis prod_cases3)
  show ?thesis using assms unfolding Node
    by (auto simp: p q covered_Push_Down(3) [OF p] covered_Push_Down(3) [OF q] Let_def split: if_splits prod.splits)
qed (use assms in simp)

lemma search_range_spec:
  assumes "tree_inv True t" "Search_by_range b t = (t', s)"
  shows "content t' = content t \<and> tree_inv True t' \<and> s = filter (in_box b) (live t)"
  using assms
proof (induction "nodes t" arbitrary: t t' s rule: less_induct)
  case less
  show ?case
  proof (cases t)
    case Null
    then show ?thesis using less.prems by (auto simp: live_def)
  next
    case (Node n l r)
    obtain n1 l1 r1 where p: "Push_Down n l r = (n1, l1, r1)" by (metis prod_cases3)
    note A = sons_after_push [OF p less.prems(1) [unfolded Node], folded Node]
    have lv: "live (Node n1 l1 r1) = live t" using A(5) by (simp add: live_def del: content.simps)
    note D = less.prems(2) [unfolded Node Search_by_range.simps p prod.case]
    consider "disjoint_from b n1" | "\<not> disjoint_from b n1" "covering b n1"
      | "\<not> disjoint_from b n1" "\<not> covering b n1" by blast
    then show ?thesis
    proof cases
      case 1
      then have "t' = Node n1 l1 r1" "s = []" using D by auto
      moreover have "\<forall>x \<in> set (live t). \<not> in_box b x"
        using live_in_ranges [OF A(1)] disjoint_out [OF 1 _ root_ranges(1) [OF A(1)]] mset_live(1) [of t] A(5)
        by (metis set_mset_mset)
      ultimately show ?thesis using A(1,5) by (simp add: filter_empty_conv del: content.simps tree_inv.simps)
    next
      case 2
      obtain t2 s2 d2 where f: "flatten (Node n1 l1 r1) = (t2, s2, d2)" by (metis prod_cases3)
      have "t' = t2" "s = s2" using D 2 by (simp_all add: f del: flatten.simps)
      moreover have "\<forall>x \<in> set (live t). in_box b x"
        using live_in_ranges [OF A(1)] covering_in [OF 2(2) _ root_ranges(1) [OF A(1)]] mset_live(1) [of t] A(5)
        by (metis set_mset_mset)
      ultimately show ?thesis using flatten_spec [OF f, of True] A(1,5) lv by simp
    next
      case 3
      obtain l2 sl where l: "Search_by_range b l1 = (l2, sl)" by fastforce
      obtain r2 sr where r: "Search_by_range b r1 = (r2, sr)" by fastforce
      have res: "t' = Node n1 l2 r2"
        "s = (if in_box b (point n1) \<and> \<not> point_deleted n1 then [point n1] else []) @ sl @ sr"
        using D 3 by (simp_all add: Let_def l r)
      have small: "nodes l1 < nodes t" "nodes r1 < nodes t" using A(6,7) Node by simp_all
      note L = less.hyps [OF small(1) A(2) l] and R = less.hyps [OF small(2) A(3) r]
      have "content t' = content t" "tree_inv True t'"
        using settled_sons [OF p less.prems(1) [unfolded Node]] L R Node res by blast+
      moreover have "s = filter (in_box b) (live t)"
        using L R unfolding live_Cons [OF A(4)] res(2) by auto
      ultimately show ?thesis by blast
    qed
  qed
qed

section \<open>The nearest-neighbour search keeps the tree\<close>

text \<open>Whatever the heap holds, the search only pushes marks down.\<close>

lemma search_keeps:
  assumes "Search k p max_dist t q = Inr (t', q')" "tree_inv True t"
  shows "content t' = content t \<and> tree_inv True t'"
  using assms
proof (induction "nodes t" arbitrary: t q t' q' rule: less_induct)
  case less
  show ?case
  proof (cases t)
    case Null
    then show ?thesis using less.prems by auto
  next
    case (Node n l r)
    obtain n1 l1 r1 where p: "Push_Down n l r = (n1, l1, r1)" by (metis prod_cases3)
    note A = sons_after_push [OF p less.prems(2) [unfolded Node], folded Node]
    have small: "nodes l1 < nodes t" "nodes r1 < nodes t" using A(6,7) Node by simp_all
    have L: "content l2 = content l1 \<and> tree_inv True l2" if "Search k p max_dist l1 q1 = Inr (l2, q2)" for l2 q1 q2
      using less.hyps [OF small(1) that A(2)] .
    have R: "content r2 = content r1 \<and> tree_inv True r2" if "Search k p max_dist r1 q1 = Inr (r2, q2)" for r2 q1 q2
      using less.hyps [OF small(2) that A(3)] .
    let ?from = "\<lambda>m1 m2. m2 = m1 \<or> (\<exists>q1 q2. Search k p max_dist m1 q1 = Inr (m2, q2))"
    note D = less.prems(1) [unfolded Node Search.simps p prod.case Let_def]
    have "t' = t \<or> (\<exists>l2 r2. t' = Node n1 l2 r2 \<and> ?from l1 l2 \<and> ?from r1 r2)"
    proof (cases "tree_deleted n \<or> fless (fmul b32 max_dist max_dist) (calc_box_dist (Node n l r) p)")
      case True
      then show ?thesis using D Node by (auto simp del: calc_box_dist.simps split: if_splits)
    next
      case False
      let ?dl = "calc_box_dist l1 p" and ?dr = "calc_box_dist r1 p"
      obtain q1 both where o: "offer k p (fmul b32 max_dist max_dist) n1 q = Inr q1" "visit_both k ?dl ?dr q1 = Inr both"
        using D False by (auto simp: bind_ub_Inr_iff simp del: calc_box_dist.simps split: if_splits)
      show ?thesis
      proof (cases both)
        case True
        then show ?thesis using D False
          by (cases "fle ?dl ?dr") (force simp: o bind_ub_Inr_iff simp del: calc_box_dist.simps split: if_splits)+
      next
        case both: False
        obtain go_left q2 l2 go_right where s: "below_top ?dl q1 = Inr go_left"
          "(if go_left then Search k p max_dist l1 q1 else Inr (l1, q1)) = Inr (l2, q2)"
          "below_top ?dr q2 = Inr go_right"
          "(if go_right then bind_ub (Search k p max_dist r1 q2) (\<lambda>(r, q). Inr (Node n1 l2 r, q))
            else Inr (Node n1 l2 r1, q2)) = Inr (t', q')"
          using D False both by (auto simp: o bind_ub_Inr_iff simp del: calc_box_dist.simps)
        have "?from l1 l2" using s(2) by (auto split: if_splits)
        then show ?thesis using s(4) by (auto simp: bind_ub_Inr_iff split: if_splits)
      qed
    qed
    then consider "t' = t" | l2 r2 where "t' = Node n1 l2 r2" "?from l1 l2" "?from r1 r2" by blast
    then show ?thesis
    proof cases
      case 2
      then show ?thesis using settled_sons [OF p less.prems(2) [unfolded Node], of l2 r2] L R A(2,3) Node by metis
    qed (use less.prems in simp)
  qed
qed

section \<open>The distance to a range\<close>

lemma add_axis_le:
  assumes v: "finite_flt v" "range_ok r" and w: "lies_in w r" "finite_flt w"
    and m: "Num 0 \<le> m" "representable b32 m" "m \<le> m'" "nonan m'"
  shows "add_axis v r m \<le> fadd b32 m' (sqdiff b32 v w)"
    and "Num 0 \<le> add_axis v r m" and "representable b32 (add_axis v r m)"
proof -
  obtain a where a: "v = Num a" using v(1) by (auto simp: finite_flt_def)
  obtain lo hi where r: "r = (Num lo, Num hi)" using v(2) by (cases r) (auto simp: range_ok_def finite_flt_def)
  obtain c where c: "w = Num c" "lo \<le> c" "c \<le> hi" using w r by (auto simp: finite_flt_def lies_in_def)
  have p: "1 < prec b32" by simp
  have nm: "nonan m" using m(2) by (simp add: representable_def)
  have up: "fadd b32 m s \<le> fadd b32 m' (sqdiff b32 v w)" if "Num 0 \<le> s" "s \<le> sqdiff b32 v w" for s
    using that m sqdiff_nonneg [OF p v(1) w(2)] by (intro fadd_mono) auto
  have sq: "Num 0 \<le> sqdiff b32 v (Num x)" "nonan (sqdiff b32 v (Num x))" for x
    using sqdiff_nonneg [OF p v(1)] by simp_all
  have add: "Num 0 \<le> fadd b32 m (sqdiff b32 v (Num x))" "representable b32 (fadd b32 m (sqdiff b32 v (Num x)))" for x
    using fadd_nonneg [OF p m(1) sq(1) nm sq(2)] by simp_all
  consider "a < lo" | "hi < a" | "lo \<le> a" "a \<le> hi" by linarith
  then have "add_axis v r m \<le> fadd b32 m' (sqdiff b32 v w) \<and> Num 0 \<le> add_axis v r m \<and> representable b32 (add_axis v r m)"
  proof cases
    case 1
    have "sqdiff b32 v (Num lo) \<le> sqdiff b32 v w" unfolding a c using 1 c by (intro sqdiff_mono) auto
    then show ?thesis using 1 c r a up [OF sq(1)] add by (simp add: add_axis_def)
  next
    case 2
    have "sqdiff b32 v (Num hi) \<le> sqdiff b32 v w" unfolding a c using 2 c by (intro sqdiff_mono) auto
    then show ?thesis using 2 c r a up [OF sq(1)] add by (simp add: add_axis_def)
  next
    case 3
    have "m \<le> fadd b32 m (sqdiff b32 v w)"
      using m sqdiff_nonneg [OF p v(1) w(2)] by (intro fadd_ge) auto
    also have "\<dots> \<le> fadd b32 m' (sqdiff b32 v w)"
      using m sqdiff_nonneg [OF p v(1) w(2)] by (intro fadd_mono) auto
    finally have "m \<le> fadd b32 m' (sqdiff b32 v w)" .
    then show ?thesis using 3 r a m by (simp add: add_axis_def)
  qed
  then show "add_axis v r m \<le> fadd b32 m' (sqdiff b32 v w)" "Num 0 \<le> add_axis v r m"
    "representable b32 (add_axis v r m)" by blast+
qed

lemma calc_dist_ok:
  assumes "finite_point p" "finite_point q"
  shows "nonan (calc_dist p q)" "Num 0 \<le> calc_dist p q"
  using assms unfolding calc_dist_def finite_point_def
  by (simp_all add: fadd_nonneg sqdiff_nonneg)

lemma box_dist_le:
  assumes p: "finite_point p" and q: "in_ranges n q" "finite_point q" and n: "ranges_ok n C"
  shows "calc_box_dist (Node n l r) p \<le> calc_dist p q"
proof -
  have f: "finite_flt (pt_x p)" "finite_flt (pt_y p)" "finite_flt (pt_z p)"
    "finite_flt (pt_x q)" "finite_flt (pt_y q)" "finite_flt (pt_z q)"
    using p q by (auto simp: finite_point_def)
  have r: "range_ok (node_range_x n)" "range_ok (node_range_y n)" "range_ok (node_range_z n)"
    using n by (auto simp: ranges_ok_def)
  have w: "lies_in (pt_x q) (node_range_x n)" "lies_in (pt_y q) (node_range_y n)" "lies_in (pt_z q) (node_range_z n)"
    using q by (auto simp: in_ranges_def)
  let ?gx = "sqdiff b32 (pt_x p) (pt_x q)" and ?gy = "sqdiff b32 (pt_y p) (pt_y q)"
  have g: "Num 0 \<le> ?gx" "nonan ?gx" "representable b32 ?gx" "Num 0 \<le> ?gy" "nonan ?gy"
    using f sqdiff_nonneg by simp_all
  note X = add_axis_le [OF f(1) r(1) w(1) f(4), of "Num 0" "Num 0"]
  have x: "add_axis (pt_x p) (node_range_x n) (Num 0) \<le> ?gx"
    "Num 0 \<le> add_axis (pt_x p) (node_range_x n) (Num 0)"
    "representable b32 (add_axis (pt_x p) (node_range_x n) (Num 0))"
    using X fadd_0 [OF g(3)] by (simp_all add: representable_def)
  note Y = add_axis_le [OF f(2) r(2) w(2) f(5) x(2,3,1) g(2)]
  have n1: "nonan (fadd b32 ?gx ?gy)" using fadd_nonneg(2) [of b32 ?gx ?gy] g by simp
  show ?thesis
    using add_axis_le(1) [OF f(3) r(3) w(3) f(6) Y(2,3,1) n1] by (simp add: calc_dist_def)
qed

end
