(* ===== verification/Ikd_Nearest.thy ===== *)
theory Ikd_Nearest
  imports Ikd_Search
begin

text \<open>
  The nearest-neighbour search finds the nearest points. The abstract specification is \<open>best\<close>:
  of the entries offered so far the heap holds the nearest \<open>k\<close>. It needs the comparison of the
  heap to be an order on the entries, which holds when two distances are equal or further apart
  than the tolerance of \<open>operator<\<close> (\<open>separated\<close>).
\<close>

section \<open>The comparison of the entries\<close>

definition too_close :: "flt \<Rightarrow> flt \<Rightarrow> bool" where
  "too_close a b \<longleftrightarrow> fless (fabs (fsub b32 a b)) (fround b64 (1 / 10 ^ 10))"

definition separated :: "'p PointType_CMP set \<Rightarrow> bool" where
  "separated S \<longleftrightarrow> (\<forall>a \<in> S. finite_flt (pt_x (cmp_point a)) \<and> nonan (cmp_dist a) \<and>
     (\<forall>b \<in> S. cmp_dist a = cmp_dist b \<or> \<not> too_close (cmp_dist a) (cmp_dist b)))"

lemma tolerance_pos: "Num 0 < fround b64 (1 / 10 ^ 10)"
proof -
  have "rounded b64 (2 powi (- 40)) = 2 powi (- 40)" by (rule rounded_pow2) simp_all
  moreover have "rounded b64 (2 powi (- 40)) \<le> rounded b64 (1 / 10 ^ 10)"
    by (rule rounded_mono) (simp_all add: power_int_minus divide_simps)
  moreover have "(0::rat) < 2 powi (- 40)" by simp
  ultimately have "0 < rounded b64 (1 / 10 ^ 10)" by linarith
  moreover have "fround b64 (1 / 10 ^ 10) = Num (rounded b64 (1 / 10 ^ 10))" by (rule fround_b64) simp
  ultimately show ?thesis by simp
qed

lemma too_close_self: "too_close a a \<longleftrightarrow> finite_flt a"
  using tolerance_pos by (cases a) (auto simp: too_close_def fsub_def)

lemma cmp_less_separated:
  assumes "separated S" "a \<in> S" "b \<in> S"
  shows "cmp_less a b \<longleftrightarrow> cmp_dist a < cmp_dist b \<or> (cmp_dist a = cmp_dist b \<and> finite_flt (cmp_dist a) \<and>
    pt_x (cmp_point a) < pt_x (cmp_point b))"
proof -
  have n: "nonan (cmp_dist b)" "nonan (pt_x (cmp_point b))" using assms by (auto simp: separated_def)
  show ?thesis
  proof (cases "cmp_dist a = cmp_dist b")
    case True
    then show ?thesis using n too_close_self [of "cmp_dist b"] by (simp add: cmp_less_def too_close_def)
  next
    case False
    then have "\<not> too_close (cmp_dist a) (cmp_dist b)" using assms by (auto simp: separated_def)
    then show ?thesis using n False by (simp add: cmp_less_def too_close_def)
  qed
qed

text \<open>The entries the heap may hold: all of \<open>D\<close> when they are comparable.\<close>

definition comparable :: "'p PointType_CMP set \<Rightarrow> 'p PointType_CMP set" where
  "comparable D = (if separated D then D else {})"

interpretation candidates: weak_order cmp_less "comparable D" for D
proof (rule weak_order.intro)
  fix a b assume "a \<in> comparable D" "b \<in> comparable D" "cmp_less a b"
  then show "\<not> cmp_less b a"
    by (auto simp: comparable_def cmp_less_separated split: if_splits)
next
  fix a b c assume "a \<in> comparable D" "b \<in> comparable D" "c \<in> comparable D" "\<not> cmp_less a b" "\<not> cmp_less b c"
  then show "\<not> cmp_less a c"
    by (auto simp: comparable_def cmp_less_separated split: if_splits)
qed

lemma not_cmp_less_dist:
  assumes "a \<in> comparable D" "b \<in> comparable D" "\<not> cmp_less a b"
  shows "cmp_dist b \<le> cmp_dist a"
  using assms by (auto simp: comparable_def cmp_less_separated split: if_splits)

section \<open>The nearest of a collection\<close>

definition best :: "nat \<Rightarrow> 'p PointType_CMP multiset \<Rightarrow> 'p PointType_CMP multiset \<Rightarrow> bool" where
  "best k Q M \<longleftrightarrow> Q \<subseteq># M \<and> size Q = min k (size M) \<and>
     (\<forall>a \<in># Q. \<forall>b \<in># M - Q. cmp_dist a \<le> cmp_dist b)"

lemma best_all: "size M \<le> k \<Longrightarrow> best k M M"
  by (simp add: best_def)

lemma best_size: "best k Q M \<Longrightarrow> size Q \<le> k"
  by (simp add: best_def)

lemma best_more:
  assumes "size Q = k" "\<And>a b. a \<in># Q \<Longrightarrow> b \<in># A \<Longrightarrow> cmp_dist a \<le> cmp_dist b"
  shows "best k Q (Q + A)"
  using assms by (simp add: best_def)

text \<open>Entries offered one group after the other.\<close>

lemma best_trans:
  assumes Q: "best k Q M" and Q': "best k Q' (Q + A)"
  shows "best k Q' (M + A)"
proof -
  obtain R where M: "M = Q + R" using Q by (auto simp: best_def dest: subset_mset.le_iff_add [THEN iffD1])
  obtain T where T: "Q + A = Q' + T" using Q' by (auto simp: best_def dest: subset_mset.le_iff_add [THEN iffD1])
  have MA: "M + A = Q' + (T + R)" using M T by (metis union_assoc union_commute)
  have R: "R = {#} \<or> size Q = k" using Q M by (auto simp: best_def min_def split: if_splits)
  have s: "size Q' = min k (size Q + size A)" using Q' by (simp add: best_def)
  have size: "size Q' = min k (size (M + A))" using s R M by auto
  have "cmp_dist a \<le> cmp_dist b" if a: "a \<in># Q'" and b: "b \<in># T + R" for a b
  proof (cases "b \<in># T")
    case True
    then show ?thesis using Q' T a by (auto simp: best_def)
  next
    case False
    then have b: "b \<in># R" using b by simp
    then have k: "size Q = k" "size Q' = k" using R s by auto
    have le: "cmp_dist c \<le> cmp_dist b" if "c \<in># Q" for c using Q M b that by (auto simp: best_def)
    show ?thesis
    proof (cases "a \<in># Q")
      case True
      then show ?thesis by (rule le)
    next
      case False
      have "\<not> Q \<subseteq># Q'"
      proof
        assume "Q \<subseteq># Q'"
        then have "Q = Q'" using k by (auto simp: subset_mset.le_iff_add)
        then show False using a False by simp
      qed
      then obtain c where "count Q' c < count Q c" by (auto simp: subseteq_mset_def not_le)
      then have c: "c \<in># Q" "c \<in># T"
        using arg_cong [OF T, of "\<lambda>M. count M c"] by (auto simp flip: count_greater_zero_iff)
      then have "cmp_dist a \<le> cmp_dist c" using Q' T a by (auto simp: best_def)
      then show ?thesis using le [OF c(1)] by simp
    qed
  qed
  then show ?thesis using MA size by (simp add: best_def)
qed

section \<open>The invariant of the search\<close>

text \<open>The entries a subtree offers: its live points within the distance asked for.\<close>

definition offered :: "'p point \<Rightarrow> flt \<Rightarrow> 'p point multiset \<Rightarrow> 'p PointType_CMP multiset" where
  "offered p d2 M = image_mset (\<lambda>x. \<lparr>cmp_point = x, cmp_dist = calc_dist p x\<rparr>)
     (filter_mset (\<lambda>x. fle (calc_dist p x) d2) M)"

lemma offered_simps [simp]:
  "offered p d2 {#} = {#}" "offered p d2 (M + N) = offered p d2 M + offered p d2 N"
  "offered p d2 (add_mset x M) =
     (if fle (calc_dist p x) d2 then {#\<lparr>cmp_point = x, cmp_dist = calc_dist p x\<rparr>#} else {#}) + offered p d2 M"
  by (simp_all add: offered_def)

definition heap_ready :: "'p PointType_CMP set \<Rightarrow> nat \<Rightarrow> 'p PointType_CMP heap \<Rightarrow> bool" where
  "heap_ready D k q \<longleftrightarrow> candidates.ordered_heap D q \<and> heap_size q \<le> k \<and> length (heap q) = 2 * k"

lemma ready_size: "heap_ready D k q \<Longrightarrow> size (entries q) = heap_size q"
  by (simp add: heap_ready_def candidates.ordered_heap_def)

lemma ready_wf: "heap_ready D k q \<Longrightarrow> heap_wf q"
  by (simp add: heap_ready_def candidates.ordered_heap_def)

lemma ready_top:
  assumes "heap_ready D k q" "0 < heap_size q"
  shows "\<exists>c. heap_top q = Inr c \<and> c = heap q ! 0 \<and> c \<in># entries q \<and> c \<in> comparable D \<and>
    (\<forall>x \<in># entries q. cmp_dist x \<le> cmp_dist c)"
proof -
  have o: "candidates.ordered_heap D q" using assms by (simp add: heap_ready_def)
  obtain c where c: "heap_top q = Inr c" "c = heap q ! 0" "c \<in># entries q" "\<forall>x \<in># entries q. \<not> cmp_less c x"
    using candidates.top_largest [OF o assms(2)] by blast
  have S: "set_mset (entries q) \<subseteq> comparable D" using o by (simp add: candidates.ordered_heap_def)
  then show ?thesis using c not_cmp_less_dist by blast
qed

text \<open>What a subtree whose offers all lie beyond the top of a full heap contributes: nothing.\<close>

definition pruned :: "nat \<Rightarrow> 'p point \<Rightarrow> flt \<Rightarrow> 'p PointType_CMP heap \<Rightarrow> 'p tree \<Rightarrow> bool" where
  "pruned k p d2 q t \<longleftrightarrow> best k (entries q) (entries q + offered p d2 (live_of (content t)))"

lemma below_top_prunes:
  assumes "heap_ready D k q" "0 < k" "\<not> heap_size q < k" "nonan d"
    and far: "\<And>x. x \<in># M \<Longrightarrow> d \<le> calc_dist p x"
  shows "\<exists>go. below_top d q = Inr go \<and> (\<not> go \<longrightarrow> best k (entries q) (entries q + offered p d2 M))"
proof -
  have full: "heap_size q = k" using assms by (simp add: heap_ready_def)
  obtain c where c: "heap_top q = Inr c" "c \<in> comparable D" "\<forall>x \<in># entries q. cmp_dist x \<le> cmp_dist c"
    using ready_top [OF assms(1)] assms(2) full by auto
  have nc: "nonan (cmp_dist c)" using c(2) by (auto simp: comparable_def separated_def split: if_splits)
  have "best k (entries q) (entries q + offered p d2 M)" if "\<not> fless d (cmp_dist c)"
  proof (rule best_more)
    show "size (entries q) = k" using ready_size [OF assms(1)] full by simp
    fix a b assume "a \<in># entries q" "b \<in># offered p d2 M"
    then have "cmp_dist a \<le> cmp_dist c" "d \<le> cmp_dist b" using c(3) far by (auto simp: offered_def)
    moreover have "cmp_dist c \<le> d" using that nc by simp
    ultimately show "cmp_dist a \<le> cmp_dist b" by simp
  qed
  then show ?thesis using c(1) by (simp add: below_top_def)
qed

text \<open>The distance to the range of a subtree bounds the distances of what it offers.\<close>

lemma box_dist_bounds:
  assumes "tree_inv True t" "finite_point p" "x \<in># live_of (content t)"
  shows "calc_box_dist t p \<le> calc_dist p x"
proof (cases t)
  case Null
  then show ?thesis using assms by simp
next
  case (Node n l r)
  then show ?thesis
    using assms box_dist_le [OF assms(2) live_in_ranges [of n l r x] root_ranges(1) [of n l r], of l r] by simp
qed

lemma box_dist_nonan:
  assumes "tree_inv True t" "finite_point p"
  shows "nonan (calc_box_dist t p)"
proof (cases t)
  case (Node n l r)
  have f: "finite_flt (pt_x p)" "finite_flt (pt_y p)" "finite_flt (pt_z p)" using assms(2) by (auto simp: finite_point_def)
  have r: "range_ok (node_range_x n)" "range_ok (node_range_y n)" "range_ok (node_range_z n)"
    using root_ranges(1) [of n l r] assms(1) Node by (auto simp: ranges_ok_def)
  have add: "nonan (add_axis v r m) \<and> Num 0 \<le> add_axis v r m"
    if "finite_flt v" "range_ok r" "Num 0 \<le> m" "nonan m" for v r m
    using that sqdiff_nonneg [of b32 v] fadd_nonneg [of b32]
    by (auto simp: add_axis_def Let_def range_ok_def)
  show ?thesis using add f r by (simp add: Node)
qed simp

lemma ready_push:
  assumes "heap_ready D k q" "heap_size q < k" "c \<in> comparable D"
  shows "heap_ready D k (heap_push cmp_less c q)" "entries (heap_push cmp_less c q) = add_mset c (entries q)"
proof -
  have room: "heap_size q < length (heap q)" using assms by (simp add: heap_ready_def)
  show "entries (heap_push cmp_less c q) = add_mset c (entries q)" by (rule entries_push [OF room])
  show "heap_ready D k (heap_push cmp_less c q)"
    using assms room candidates.ordered_push [of D q c] ready_wf [OF assms(1)] by (simp add: heap_ready_def)
qed

lemma ready_pop:
  assumes "heap_ready D k q" "0 < heap_size q"
  shows "heap_ready D k (heap_pop cmp_less q)" "entries (heap_pop cmp_less q) = entries q - {#heap q ! 0#}"
    "heap_size (heap_pop cmp_less q) = heap_size q - 1"
  using assms candidates.ordered_pop [of D q] ready_wf [OF assms(1)] entries_pop [of q cmp_less]
  by (auto simp: heap_ready_def)

lemma best_replace:
  assumes "size Q = k" "0 < k" "t \<in># Q" "\<And>x. x \<in># Q \<Longrightarrow> cmp_dist x \<le> cmp_dist t" "cmp_dist c \<le> cmp_dist t"
  shows "best k (add_mset c (Q - {#t#})) (Q + {#c#})"
proof -
  obtain R where R: "Q = add_mset t R" using assms(3) by (metis insert_DiffM)
  then show ?thesis using assms by (auto simp: best_def)
qed

lemma offer_spec:
  assumes q: "heap_ready D k q" and k: "0 < k"
    and own: "set_mset (offered p d2 (live_of [own_mark n])) \<subseteq> comparable D"
  shows "\<exists>q'. offer k p d2 n q = Inr q' \<and> heap_ready D k q' \<and>
    best k (entries q') (entries q + offered p d2 (live_of [own_mark n]))"
proof -
  let ?c = "\<lparr>cmp_point = point n, cmp_dist = calc_dist p (point n)\<rparr>"
  have size: "size (entries q) \<le> k" using q ready_size [OF q] by (simp add: heap_ready_def)
  show ?thesis
  proof (cases "\<not> point_deleted n \<and> fle (calc_dist p (point n)) d2")
    case False
    then show ?thesis using q size by (auto simp: offer_def Let_def best_all)
  next
    case True
    then have o: "offered p d2 (live_of [own_mark n]) = {#?c#}" and c: "?c \<in> comparable D" using own by auto
    have e: "offer k p d2 n q = bind_ub (room_or_below k (calc_dist p (point n)) q) (\<lambda>enter. Inr
        (if enter then heap_push cmp_less ?c (if k \<le> heap_size q then heap_pop cmp_less q else q) else q))"
      using True by (simp add: offer_def Let_def cong: if_cong)
    show ?thesis
    proof (cases "heap_size q < k")
      case room: True
      then show ?thesis using ready_push [OF q room c] q ready_size [OF q]
        unfolding o e by (simp add: room_or_below_def best_all)
    next
      case False
      then have full: "heap_size q = k" using q by (simp add: heap_ready_def)
      then have ne: "0 < heap_size q" using k by simp
      obtain t where t: "heap_top q = Inr t" "t = heap q ! 0" "t \<in># entries q" "t \<in> comparable D"
        "\<forall>x \<in># entries q. cmp_dist x \<le> cmp_dist t" using ready_top [OF q ne] by blast
      have nt: "nonan (cmp_dist t)" using t(4) by (auto simp: comparable_def separated_def split: if_splits)
      show ?thesis
      proof (cases "calc_dist p (point n) < cmp_dist t")
        case True
        note P = ready_pop [OF q ne]
        have "heap_size (heap_pop cmp_less q) < k" using P(3) full k by simp
        note U = ready_push [OF P(1) this c]
        have "best k (add_mset ?c (entries q - {#t#})) (entries q + {#?c#})"
          using t True ready_size [OF q] full k by (intro best_replace) auto
        then show ?thesis using U P(2) t True nt full
          unfolding o e by (simp add: room_or_below_def below_top_def)
      next
        case False
        have "best k (entries q) (entries q + {#?c#})"
        proof (rule best_more)
          show "size (entries q) = k" using ready_size [OF q] full by simp
          show "cmp_dist a \<le> cmp_dist b" if "a \<in># entries q" "b \<in># {#?c#}" for a b
            using that t(5) False by fastforce
        qed
        then show ?thesis using q t(1) False nt full
          unfolding o e by (simp add: room_or_below_def below_top_def)
      qed
    qed
  qed
qed

text \<open>What a visit of a subtree achieves.\<close>

definition finds :: "'p PointType_CMP set \<Rightarrow> nat \<Rightarrow> 'p point \<Rightarrow> flt \<Rightarrow> 'p tree \<Rightarrow> 'p PointType_CMP heap \<Rightarrow>
    ub + 'p tree \<times> 'p PointType_CMP heap \<Rightarrow> bool" where
  "finds D k p d2 t q res \<longleftrightarrow> (\<exists>t' q'. res = Inr (t', q') \<and> content t' = content t \<and> tree_inv True t' \<and>
     heap_ready D k q' \<and> best k (entries q') (entries q + offered p d2 (live_of (content t))))"

lemma finds_skip:
  "heap_ready D k q \<Longrightarrow> tree_inv True t \<Longrightarrow> pruned k p d2 q t \<Longrightarrow> finds D k p d2 t q (Inr (t, q))"
  by (auto simp: finds_def pruned_def)

text \<open>The guards never fail, and what they skip is pruned.\<close>

lemma guard_prunes:
  assumes q: "heap_ready D k q" and k: "0 < k" and t: "tree_inv True t" and p: "finite_point p"
  shows "\<exists>go. room_or_below k (calc_box_dist t p) q = Inr go \<and> (\<not> go \<longrightarrow> pruned k p d2 q t)"
    "\<not> heap_size q < k \<Longrightarrow> \<exists>go. below_top (calc_box_dist t p) q = Inr go \<and> (\<not> go \<longrightarrow> pruned k p d2 q t)"
proof -
  show 1: "\<exists>go. below_top (calc_box_dist t p) q = Inr go \<and> (\<not> go \<longrightarrow> pruned k p d2 q t)" if "\<not> heap_size q < k"
    using below_top_prunes [OF q k that box_dist_nonan [OF t p] box_dist_bounds [OF t p]]
    by (auto simp: pruned_def)
  show "\<exists>go. room_or_below k (calc_box_dist t p) q = Inr go \<and> (\<not> go \<longrightarrow> pruned k p d2 q t)"
    using 1 by (cases "heap_size q < k") (auto simp: room_or_below_def)
qed

lemma finds_then:
  assumes a: "finds D k p d2 a q (Inr (a', q1))" and b: "finds D k p d2 b q1 (Inr (b', q2))"
  shows "heap_ready D k q2" "best k (entries q2)
    (entries q + (offered p d2 (live_of (content a)) + offered p d2 (live_of (content b))))"
  using a b best_trans [of k "entries q1" "entries q + offered p d2 (live_of (content a))" "entries q2"
      "offered p d2 (live_of (content b))"]
  by (auto simp: finds_def add.assoc)

lemma visit_both_total:
  fixes D :: "'p PointType_CMP set" and a b :: "'p tree"
  assumes q: "heap_ready D k q" and k: "0 < k" and a: "tree_inv True a" and b: "tree_inv True b" and p: "finite_point p"
  shows "\<exists>both. visit_both k (calc_box_dist a p) (calc_box_dist b p) q = Inr both \<and> (\<not> both \<longrightarrow> \<not> heap_size q < k)"
proof (cases "heap_size q < k")
  case False
  obtain x y where "below_top (calc_box_dist a p) q = Inr x" "below_top (calc_box_dist b p) q = Inr y"
    using guard_prunes(2) [OF q k a p False] guard_prunes(2) [OF q k b p False] by blast
  then show ?thesis using False by (auto simp: visit_both_def)
next
  case True
  then have "visit_both k (calc_box_dist a p) (calc_box_dist b p) q = Inr True" by (simp add: visit_both_def)
  then show ?thesis by blast
qed

text \<open>A node whose sons have been visited, in either order, after its own point was offered.\<close>

lemma finds_node:
  assumes p: "Push_Down n l r = (n1, l1, r1)" and i: "tree_inv True (Node n l r)"
    and own: "best k (entries q1) (entries q + offered x d2 (live_of [own_mark n1]))"
    and v: "finds D k x d2 l1 q1 (Inr (l2, q2)) \<and> finds D k x d2 r1 q2 (Inr (r2, q3)) \<or>
            finds D k x d2 r1 q1 (Inr (r2, q2)) \<and> finds D k x d2 l1 q2 (Inr (l2, q3))"
  shows "finds D k x d2 (Node n l r) q (Inr (Node n1 l2 r2, q3))"
proof -
  note A = sons_after_push [OF p i]
  let ?o = "\<lambda>t. offered x d2 (live_of (content t))"
  have s: "content l2 = content l1" "tree_inv True l2" "content r2 = content r1" "tree_inv True r2"
    using v by (auto simp: finds_def)
  have q3: "heap_ready D k q3" "best k (entries q3) (entries q1 + (?o l1 + ?o r1))"
    using v finds_then [of D k x d2 l1 q1 l2 q2 r1 r2 q3] finds_then [of D k x d2 r1 q1 r2 q2 l1 l2 q3]
    by (auto simp: add.commute)
  have "live_of (content (Node n l r)) = live_of [own_mark n1] + (live_of (content l1) + live_of (content r1))"
    unfolding A(4) by simp
  then have "?o (Node n l r) = offered x d2 (live_of [own_mark n1]) + (?o l1 + ?o r1)"
    by (simp only: offered_simps)
  then have "best k (entries q3) (entries q + ?o (Node n l r))"
    using best_trans [OF own q3(2)] by (simp only: add.assoc)
  then show ?thesis using settled_sons [OF p i s] q3(1) unfolding finds_def by blast
qed

lemma search_spec:
  assumes "tree_inv True t" "finite_point p" "0 < k" "heap_ready D k q"
    and "set_mset (offered p (fmul b32 max_dist max_dist) (live_of (content t))) \<subseteq> comparable D"
  shows "finds D k p (fmul b32 max_dist max_dist) t q (Search k p max_dist t q)"
  using assms(1,4,5)
proof (induction "nodes t" arbitrary: t q rule: less_induct)
  case less
  let ?d2 = "fmul b32 max_dist max_dist"
  let ?o = "\<lambda>t. offered p ?d2 (live_of (content t))"
  have size: "size (entries q) \<le> k" using less.prems(2) ready_size [OF less.prems(2)] by (simp add: heap_ready_def)
  have no_offer: "?o t = {#} \<longrightarrow> finds D k p ?d2 t q (Inr (t, q))"
    using less.prems(1,2) size by (intro impI finds_skip) (simp_all add: pruned_def best_all)
  show ?case
  proof (cases t)
    case Null
    then have "?o t = {#}" by simp
    then have "finds D k p ?d2 t q (Inr (t, q))" using no_offer by blast
    moreover have "Search k p max_dist t q = Inr (t, q)" by (simp add: Null)
    ultimately show ?thesis by presburger
  next
    case (Node n l r)
    show ?thesis
    proof (cases "tree_deleted n \<or> fless ?d2 (calc_box_dist t p)")
      case True
      have "?o t = {#}"
      proof (cases "tree_deleted n")
        case True
        then have "live t = []" using deleted_no_live [of True n l r] less.prems(1) Node by blast
        then have "live_of (content t) = {#}" unfolding mset_live(1) [symmetric] by simp
        then show ?thesis by simp
      next
        case False
        then have "?d2 < calc_box_dist t p" using True by (simp add: fless_iff)
        then have "\<not> fle (calc_dist p x) ?d2" if "x \<in># live_of (content t)" for x
          using box_dist_bounds [OF less.prems(1) assms(2) that] by (auto simp: fle_iff)
        then show ?thesis by (simp add: offered_def filter_mset_all)
      qed
      moreover have "Search k p max_dist t q = Inr (t, q)" using True Node by (auto simp: Let_def)
      ultimately show ?thesis using no_offer by presburger
    next
      case False
      obtain n1 l1 r1 where P: "Push_Down n l r = (n1, l1, r1)" by (metis prod_cases3)
      note i = less.prems(1) [unfolded Node]
      note A = sons_after_push [OF P i]
      have sub: "set_mset (offered p ?d2 (live_of [own_mark n1])) \<subseteq> comparable D"
        "set_mset (?o l1) \<subseteq> comparable D" "set_mset (?o r1) \<subseteq> comparable D"
        using less.prems(3) unfolding Node A(4) by (auto split: if_splits)
      have IHl: "heap_ready D k q' \<Longrightarrow> finds D k p ?d2 l1 q' (Search k p max_dist l1 q')" for q'
        using less.hyps [of l1 q'] A(2,6) sub(2) Node by simp
      have IHr: "heap_ready D k q' \<Longrightarrow> finds D k p ?d2 r1 q' (Search k p max_dist r1 q')" for q'
        using less.hyps [of r1 q'] A(3,7) sub(3) Node by simp
      obtain q1 where q1: "offer k p ?d2 n1 q = Inr q1" "heap_ready D k q1"
        "best k (entries q1) (entries q + offered p ?d2 (live_of [own_mark n1]))"
        using offer_spec [OF less.prems(2) assms(3) sub(1)] by blast
      obtain both where both: "visit_both k (calc_box_dist l1 p) (calc_box_dist r1 p) q1 = Inr both"
        "\<not> both \<longrightarrow> \<not> heap_size q1 < k"
        using visit_both_total [OF q1(2) assms(3) A(2,3) assms(2)] by blast
      note node = finds_node [OF P i q1(3)]
      note guards = guard_prunes [OF _ assms(3) _ assms(2)]
      define E where "E = Search k p max_dist t q"
      have E: "E = (if both then
              if fle (calc_box_dist l1 p) (calc_box_dist r1 p) then
                bind_ub (Search k p max_dist l1 q1) (\<lambda>(l, q).
                bind_ub (room_or_below k (calc_box_dist r1 p) q) (\<lambda>go.
                  if go then bind_ub (Search k p max_dist r1 q) (\<lambda>(r, q). Inr (Node n1 l r, q))
                  else Inr (Node n1 l r1, q)))
              else
                bind_ub (Search k p max_dist r1 q1) (\<lambda>(r, q).
                bind_ub (room_or_below k (calc_box_dist l1 p) q) (\<lambda>go.
                  if go then bind_ub (Search k p max_dist l1 q) (\<lambda>(l, q). Inr (Node n1 l r, q))
                  else Inr (Node n1 l1 r, q)))
            else
              bind_ub (below_top (calc_box_dist l1 p) q1) (\<lambda>go_left.
              bind_ub (if go_left then Search k p max_dist l1 q1 else Inr (l1, q1)) (\<lambda>(l, q).
              bind_ub (below_top (calc_box_dist r1 p) q) (\<lambda>go_right.
                if go_right then bind_ub (Search k p max_dist r1 q) (\<lambda>(r, q). Inr (Node n1 l r, q))
                else Inr (Node n1 l r1, q)))))"
        using False unfolding E_def Node Search.simps by (simp add: P q1(1) both(1) Let_def)
      have go: "\<exists>c' q''. Search k p max_dist c q' = Inr (c', q'') \<and> finds D k p ?d2 c q' (Inr (c', q'')) \<and> heap_ready D k q''"
        if "c \<in> {l1, r1}" "heap_ready D k q'" for c q'
        using that IHl [of q'] IHr [of q'] by (auto simp: finds_def)
      have skip: "heap_ready D k q' \<Longrightarrow> pruned k p ?d2 q' l1 \<Longrightarrow> finds D k p ?d2 l1 q' (Inr (l1, q'))"
        "heap_ready D k q' \<Longrightarrow> pruned k p ?d2 q' r1 \<Longrightarrow> finds D k p ?d2 r1 q' (Inr (r1, q'))" for q'
        using finds_skip A(2,3) by blast+
      have "\<exists>l2 r2 q2 q3. E = Inr (Node n1 l2 r2, q3) \<and>
        (finds D k p ?d2 l1 q1 (Inr (l2, q2)) \<and> finds D k p ?d2 r1 q2 (Inr (r2, q3)) \<or>
         finds D k p ?d2 r1 q1 (Inr (r2, q2)) \<and> finds D k p ?d2 l1 q2 (Inr (l2, q3)))"
      proof (cases both)
        case True
        show ?thesis
        proof (cases "fle (calc_box_dist l1 p) (calc_box_dist r1 p)")
          case le: True
          obtain l2 q2 where l: "Search k p max_dist l1 q1 = Inr (l2, q2)"
            "finds D k p ?d2 l1 q1 (Inr (l2, q2))" "heap_ready D k q2" using go [of l1 q1] q1(2) by auto
          obtain g where g: "room_or_below k (calc_box_dist r1 p) q2 = Inr g" "\<not> g \<longrightarrow> pruned k p ?d2 q2 r1"
            using guards(1) [OF l(3) A(3)] by blast
          obtain r2 q3 where r: "Search k p max_dist r1 q2 = Inr (r2, q3)"
            "finds D k p ?d2 r1 q2 (Inr (r2, q3))" using go [of r1 q2] l(3) by auto
          show ?thesis using E True le l g r skip(2) [OF l(3)] by (cases g) auto
        next
          case le: False
          obtain r2 q2 where r: "Search k p max_dist r1 q1 = Inr (r2, q2)"
            "finds D k p ?d2 r1 q1 (Inr (r2, q2))" "heap_ready D k q2" using go [of r1 q1] q1(2) by auto
          obtain g where g: "room_or_below k (calc_box_dist l1 p) q2 = Inr g" "\<not> g \<longrightarrow> pruned k p ?d2 q2 l1"
            using guards(1) [OF r(3) A(2)] by blast
          obtain l2 q3 where l: "Search k p max_dist l1 q2 = Inr (l2, q3)"
            "finds D k p ?d2 l1 q2 (Inr (l2, q3))" using go [of l1 q2] r(3) by auto
          show ?thesis using E True le r g l skip(1) [OF r(3)] by (cases g) auto
        qed
      next
        case False
        then have full: "\<not> heap_size q1 < k" using both(2) by blast
        obtain g where g: "below_top (calc_box_dist l1 p) q1 = Inr g" "\<not> g \<longrightarrow> pruned k p ?d2 q1 l1"
          using guards(2) [OF q1(2) A(2) full] by blast
        obtain l2 q2 where l: "(if g then Search k p max_dist l1 q1 else Inr (l1, q1)) = Inr (l2, q2)"
          "finds D k p ?d2 l1 q1 (Inr (l2, q2))" "heap_ready D k q2"
          using go [of l1 q1] q1(2) skip(1) [OF q1(2)] g by (cases g) auto
        have "size (entries q2) = k"
          using l(2) full q1(2) ready_size [OF q1(2)] by (auto simp: finds_def best_def heap_ready_def)
        then have full2: "\<not> heap_size q2 < k" using ready_size [OF l(3)] by simp
        obtain h where h: "below_top (calc_box_dist r1 p) q2 = Inr h" "\<not> h \<longrightarrow> pruned k p ?d2 q2 r1"
          using guards(2) [OF l(3) A(3) full2] by blast
        obtain r2 q3 where r: "Search k p max_dist r1 q2 = Inr (r2, q3)"
          "finds D k p ?d2 r1 q2 (Inr (r2, q3))" using go [of r1 q2] l(3) by auto
        have "E = (if h then Inr (Node n1 l2 r2, q3) else Inr (Node n1 l2 r1, q2))"
          using E False g(1) l(1) h(1) r(1) by simp
        then show ?thesis using l(2) h(2) r(2) skip(2) [OF l(3)] by (cases h) auto
      qed
      then show ?thesis using node unfolding E_def Node by metis
    qed
  qed
qed

section \<open>Taking the result out of the heap\<close>

lemma take_out_spec:
  assumes "heap_ready D k q"
  shows "\<exists>xs. take_out (heap_size q) q out = Inr (xs @ out) \<and> mset xs = entries q \<and> sorted (map cmp_dist xs)"
  using assms
proof (induction "heap_size q" arbitrary: q out)
  case 0
  then have "entries q = {#}" using ready_size [OF 0(2)] by simp
  then show ?case using 0 by simp
next
  case (Suc n)
  then have ne: "0 < heap_size q" by simp
  obtain c where c: "heap_top q = Inr c" "c = heap q ! 0" "c \<in># entries q" "\<forall>x \<in># entries q. cmp_dist x \<le> cmp_dist c"
    using ready_top [OF Suc.prems ne] by blast
  note P = ready_pop [OF Suc.prems ne]
  have n: "n = heap_size (heap_pop cmp_less q)" using P(3) Suc.hyps(2) by simp
  obtain xs where xs: "take_out n (heap_pop cmp_less q) (c # out) = Inr (xs @ c # out)"
    "mset xs = entries q - {#c#}" "sorted (map cmp_dist xs)"
    using Suc.hyps(1) [OF n P(1), of "c # out"] P(2) c(2) n by auto
  have "take_out (heap_size q) q out = Inr ((xs @ [c]) @ out)"
    using xs(1) c(1) by (simp flip: Suc.hyps(2))
  moreover have "mset (xs @ [c]) = entries q" using xs(2) c(3) by simp
  moreover have "sorted (map cmp_dist (xs @ [c]))"
  proof -
    have "set xs \<subseteq> set_mset (entries q)" using xs(2) by (metis in_diffD set_mset_mset subsetI)
    then show ?thesis using xs(3) c(4) by (auto simp: sorted_append)
  qed
  ultimately show ?case by blast
qed

section \<open>The nearest neighbours\<close>

lemma ready_empty: "heap_ready D k (MANUAL_HEAP d (2 * k))"
  by (simp add: heap_ready_def candidates.ordered_heap_def heap_wf_def MANUAL_HEAP_def entries_def is_heap_def)

text \<open>The live points within the distance asked for.\<close>

definition reachable_points :: "'p point \<Rightarrow> flt \<Rightarrow> 'p tree \<Rightarrow> 'p point multiset" where
  "reachable_points p max_dist t =
     filter_mset (\<lambda>x. fle (calc_dist p x) (fmul b32 max_dist max_dist)) (mset (live t))"

definition entry_of :: "'p point \<Rightarrow> 'p point \<Rightarrow> 'p PointType_CMP" where
  "entry_of p x = \<lparr>cmp_point = x, cmp_dist = calc_dist p x\<rparr>"

text \<open>Two squared distances of at least \<open>2^-9\<close>, of points more than 4.5 cm away, are equal or
  further apart than the tolerance: the last place of a \<open>float\<close> there is \<open>2^-32\<close>.\<close>

lemma grid_point:
  assumes "representable b32 (Num x)" "2 powi (- 9) \<le> x"
  shows "\<exists>i. x = of_int i * 2 powi (- 32)"
proof -
  have x: "0 < x" using assms(2) by (meson less_le_trans zero_less_numeral zero_less_power_int)
  define q where "q = qexp b32 \<bar>x\<bar>"
  have "- 9 \<le> ilog2 x" using x assms(2) by (rule ilog2_ge)
  then have q: "- 32 \<le> q" using x by (simp add: q_def qexp_def)
  have "rounded b32 x = x" using assms(1) by (auto simp: representable_def fround_def Let_def split: if_splits)
  then have x: "x = of_int (rne (x / 2 powi q)) * 2 powi q" using x by (simp add: rounded_def Let_def q_def)
  have "(2::rat) powi q = 2 powi (q + 32) * 2 powi (- 32)"
    using power_int_add [of "2::rat" "q + 32" "- 32"] by simp
  also have "(2::rat) powi (q + 32) = of_int (2 ^ nat (q + 32))" using q by (simp add: power_int_nonneg_exp)
  finally have e: "(2::rat) powi q = of_int (2 ^ nat (q + 32)) * 2 powi (- 32)" .
  have "x = of_int (rne (x / 2 powi q) * 2 ^ nat (q + 32)) * 2 powi (- 32)"
    by (subst x, subst (2) e) (simp only: of_int_mult mult.assoc)
  then show ?thesis by blast
qed

lemma far_apart:
  assumes "representable b32 x" "representable b32 y" "Num (1 / 512) \<le> x" "Num (1 / 512) \<le> y" "x \<noteq> y"
  shows "\<not> too_close x y"
proof (cases "\<exists>a b. x = Num a \<and> y = Num b")
  case True
  then obtain a b where ab: "x = Num a" "y = Num b" by blast
  have p: "(2::rat) powi (- 9) = 1 / 512" by (simp add: power_int_minus divide_simps)
  obtain i j where i: "a = of_int i * 2 powi (- 32)" and j: "b = of_int j * 2 powi (- 32)"
    using grid_point [of a] grid_point [of b] assms ab p by auto
  have "i \<noteq> j" using assms(5) ab i j by auto
  then have "1 \<le> \<bar>i - j\<bar>" by linarith
  then have "(1::rat) \<le> of_int \<bar>i - j\<bar>" by linarith
  moreover have "\<bar>a - b\<bar> = of_int \<bar>i - j\<bar> * 2 powi (- 32)"
  proof -
    define u :: rat where "u = 2 powi (- 32)"
    have "0 < u" by (simp add: u_def)
    moreover have "a - b = of_int (i - j) * u"
      unfolding i j u_def [symmetric] by (simp add: left_diff_distrib)
    ultimately show ?thesis unfolding u_def [symmetric] by (simp add: abs_mult)
  qed
  ultimately have d: "2 powi (- 32) \<le> \<bar>a - b\<bar>" by simp
  have "fabs (fround b32 (a - b)) = fround b32 \<bar>a - b\<bar>"
  proof (cases "a - b < 0")
    case True
    then have "fround b32 (a - b) = fneg (fround b32 \<bar>a - b\<bar>)" using fround_minus [of "\<bar>a - b\<bar>" b32] by simp
    then show ?thesis using fround_mono [of b32 0 "\<bar>a - b\<bar>"] by (cases "fround b32 \<bar>a - b\<bar>") auto
  next
    case False
    then show ?thesis using fround_mono [of b32 0 "\<bar>a - b\<bar>"] by (cases "fround b32 \<bar>a - b\<bar>") auto
  qed
  then have e: "fabs (fsub b32 x y) = fround b32 \<bar>a - b\<bar>" by (simp add: ab fsub_def)
  have "rounded b32 (2 powi (- 32)) = 2 powi (- 32)" by (rule rounded_pow2) simp_all
  then have "fround b32 (2 powi (- 32)) = Num (2 powi (- 32))"
    by (simp add: fround_def Let_def power_int_minus divide_simps)
  then have 1: "Num (2 powi (- 32)) \<le> fround b32 \<bar>a - b\<bar>" using fround_mono [OF _ d, of b32] by simp
  have "rounded b64 (1 / 10 ^ 10) \<le> rounded b64 (2 powi (- 32))"
    by (rule rounded_mono) (simp_all add: power_int_minus divide_simps)
  moreover have "rounded b64 (2 powi (- 32)) = 2 powi (- 32)" by (rule rounded_pow2) simp_all
  ultimately have "fround b64 (1 / 10 ^ 10) \<le> Num (2 powi (- 32))"
    using fround_b64 [of "1 / 10 ^ 10"] by simp
  then show ?thesis using 1 unfolding too_close_def e fless_iff by (meson leD order_trans)
next
  case False
  have "fround b64 (1 / 10 ^ 10) = Num (rounded b64 (1 / 10 ^ 10))" by (rule fround_b64) simp
  then show ?thesis using assms False unfolding too_close_def
    by (cases x; cases y) (auto simp: representable_def fsub_def fless_iff)
qed

lemma separated_far:
  assumes "\<And>x. x \<in> S \<Longrightarrow> finite_point p \<and> finite_point x \<and> Num (1 / 512) \<le> calc_dist p x"
  shows "separated (entry_of p ` S)"
proof -
  have r: "representable b32 (calc_dist p x)" if "x \<in> S" for x
    using assms [OF that] calc_dist_ok [of p x] unfolding calc_dist_def by (auto intro!: representable_fadd)
  have "finite_flt (pt_x x)" if "x \<in> S" for x using assms [OF that] by (simp add: finite_point_def)
  then show ?thesis unfolding separated_def entry_of_def
    using r assms far_apart calc_dist_ok(1) by (auto simp: representable_def; blast)
qed

lemma offered_reachable:
  "offered p (fmul b32 max_dist max_dist) (live_of (content t)) = image_mset (entry_of p) (reachable_points p max_dist t)"
  by (simp add: offered_def reachable_points_def mset_live entry_of_def [abs_def])

text \<open>The points found are the nearest \<open>k\<close> of them, in order of their distance.\<close>

definition nearest :: "nat \<Rightarrow> 'p point \<Rightarrow> 'p point multiset \<Rightarrow> 'p point list \<Rightarrow> bool" where
  "nearest k p M pts \<longleftrightarrow> mset pts \<subseteq># M \<and> length pts = min k (size M) \<and> sorted (map (calc_dist p) pts) \<and>
     (\<forall>x \<in> set pts. \<forall>y \<in># M - mset pts. calc_dist p x \<le> calc_dist p y)"

lemma best_nearest:
  assumes b: "best k (mset xs) (image_mset (entry_of p) M)" and s: "sorted (map cmp_dist xs)"
  shows "nearest k p M (map cmp_point xs)" "map cmp_dist xs = map (calc_dist p) (map cmp_point xs)"
proof -
  have sub: "mset xs \<subseteq># image_mset (entry_of p) M" using b by (simp add: best_def)
  have form: "x = entry_of p (cmp_point x)" if "x \<in> set xs" for x
    using mset_subset_eqD [OF sub, of x] that by (auto simp: entry_of_def)
  then have d: "\<And>x. x \<in> set xs \<Longrightarrow> cmp_dist x = calc_dist p (cmp_point x)" by (metis entry_of_def PointType_CMP.select_convs(2))
  then show m: "map cmp_dist xs = map (calc_dist p) (map cmp_point xs)" by simp
  have pts: "image_mset cmp_point (image_mset (entry_of p) M) = M" by (simp add: entry_of_def image_mset.compositionality o_def)
  have "mset (map cmp_point xs) \<subseteq># M"
    using image_mset_subseteq_mono [OF sub, of cmp_point] pts by simp
  moreover have "length (map cmp_point xs) = min k (size M)" using b by (simp add: best_def)
  moreover have "M - mset (map cmp_point xs) = image_mset cmp_point (image_mset (entry_of p) M - mset xs)"
    using image_mset_Diff [OF sub, of cmp_point] pts by simp
  moreover have "calc_dist p (cmp_point a) \<le> calc_dist p (cmp_point y)"
    if "a \<in> set xs" "y \<in># image_mset (entry_of p) M - mset xs" for a y
  proof -
    have "cmp_dist y = calc_dist p (cmp_point y)" using in_diffD [OF that(2)] by (auto simp: entry_of_def)
    moreover have "cmp_dist a \<le> cmp_dist y" using b that unfolding best_def set_mset_mset by blast
    ultimately show ?thesis using d [OF that(1)] by simp
  qed
  ultimately show "nearest k p M (map cmp_point xs)"
    using s unfolding m by (auto simp: nearest_def simp del: mset_map)
qed

lemma nearest_search_spec:
  assumes t: "tree_inv True t" and p: "finite_point p" and k: "0 < k"
    and sep: "separated (entry_of p ` set_mset (reachable_points p max_dist t))"
  shows "\<exists>t' pts. Nearest_Search d p k max_dist t = Inr (t', pts, map (calc_dist p) pts) \<and>
    content t' = content t \<and> tree_inv True t' \<and> nearest k p (reachable_points p max_dist t) pts"
proof -
  let ?D = "entry_of p ` set_mset (reachable_points p max_dist t)"
  have "set_mset (offered p (fmul b32 max_dist max_dist) (live_of (content t))) \<subseteq> comparable ?D"
    using sep by (simp add: offered_reachable comparable_def)
  note F = search_spec [OF t p k ready_empty this, of d, unfolded finds_def offered_reachable]
  have e: "entries (MANUAL_HEAP d (2 * k)) = {#}" by (simp add: entries_def MANUAL_HEAP_def)
  from F [unfolded e add_0] obtain t' q where
    S: "Search k p max_dist t (MANUAL_HEAP d (2 * k)) = Inr (t', q)" "content t' = content t" "tree_inv True t'"
    "heap_ready ?D k q" "best k (entries q) (image_mset (entry_of p) (reachable_points p max_dist t))"
    by blast
  obtain xs where xs: "take_out (heap_size q) q [] = Inr xs" "mset xs = entries q" "sorted (map cmp_dist xs)"
    using take_out_spec [OF S(4), of "[]"] by auto
  have "min k (heap_size q) = heap_size q" using S(4) by (simp add: heap_ready_def)
  then have N: "Nearest_Search d p k max_dist t = Inr (t', map cmp_point xs, map cmp_dist xs)"
    using S(1) xs(1) by (simp add: Nearest_Search_def)
  note B = best_nearest [OF S(5) [folded xs(2)] xs(3)]
  show ?thesis using N B S(2,3) by metis
qed

text \<open>Asked for no neighbour at all, the search reads the top of an array of no entries.\<close>

lemma search_no_room:
  assumes "\<not> tree_deleted n" "\<not> fless (fmul b32 max_dist max_dist) (calc_box_dist (Node n l r) p)"
  shows "Nearest_Search d p 0 max_dist (Node n l r) = Inl OutOfRange"
proof -
  obtain n1 l1 r1 where P: "Push_Down n l r = (n1, l1, r1)" by (metis prod_cases3)
  let ?q = "MANUAL_HEAP d 0"
  have e: "heap_top ?q = Inl OutOfRange" "heap_size ?q = 0" by (simp_all add: heap_top_def MANUAL_HEAP_def)
  consider "offer 0 p (fmul b32 max_dist max_dist) n1 ?q = Inl OutOfRange"
    | "offer 0 p (fmul b32 max_dist max_dist) n1 ?q = Inr ?q"
    by (cases "point_deleted n1"; cases "fle (calc_dist p (point n1)) (fmul b32 max_dist max_dist)")
      (simp_all add: offer_def Let_def room_or_below_def below_top_def e)
  then have "Search 0 p max_dist (Node n l r) ?q = Inl OutOfRange"
    using assms by cases (simp_all add: P Let_def visit_both_def below_top_def e)
  then show ?thesis by (simp add: Nearest_Search_def)
qed

end
