(* ===== verification/Ikd_Object.thy ===== *)
theory Ikd_Object
  imports Ikd_Nearest
begin

text \<open>
  The public operations of the kd-tree object \<open>KD_TREE\<close>. Each loop of the code handles one element
  at a time and first looks at \<open>Rebuild_Ptr\<close>; the model covers the operations as long as no
  subtree has been handed to the background thread, and answers \<open>Handed_Over\<close> when the next
  element would find one. Dereferencing a null root is a value too.
\<close>

datatype stop = Fault ub | Handed_Over

text \<open>A step of a loop, guarded by the test of \<open>Rebuild_Ptr\<close>.\<close>

definition guarded :: "('p ikd \<Rightarrow> stop + 'b) \<Rightarrow> 'p ikd \<Rightarrow> stop + 'b" where
  "guarded f k = (if Rebuild_Ptr k \<noteq> None then Inl Handed_Over else f k)"

fun and_so :: "stop + 'a \<Rightarrow> ('a \<Rightarrow> stop + 'b) \<Rightarrow> stop + 'b" where
  "and_so (Inl e) f = Inl e"
| "and_so (Inr x) f = f x"

lemma and_so_cong [fundef_cong]:
  "m = m' \<Longrightarrow> (\<And>x. m' = Inr x \<Longrightarrow> f x = f' x) \<Longrightarrow> and_so m f = and_so m' f'"
  by (cases m') auto

lemma and_so_Inr: "and_so m f = Inr y \<longleftrightarrow> (\<exists>x. m = Inr x \<and> f x = Inr y)"
  by (cases m) auto

definition faulty :: "ub + 'a \<Rightarrow> stop + 'a" where
  "faulty m = (case m of Inl e \<Rightarrow> Inl (Fault e) | Inr x \<Rightarrow> Inr x)"

section \<open>Construction and parameters\<close>

definition Set_delete_criterion_param :: "flt \<Rightarrow> 'p ikd \<Rightarrow> 'p ikd" where
  "Set_delete_criterion_param x k = k\<lparr>delete_criterion_param := x\<rparr>"
definition Set_balance_criterion_param :: "flt \<Rightarrow> 'p ikd \<Rightarrow> 'p ikd" where
  "Set_balance_criterion_param x k = k\<lparr>balance_criterion_param := x\<rparr>"
definition set_downsample_param :: "flt \<Rightarrow> 'p ikd \<Rightarrow> 'p ikd" where
  "set_downsample_param x k = k\<lparr>downsample_size := x, inv_downsample_size := fdiv b32 (Num 1) x\<rparr>"

definition InitializeKDTree :: "flt \<Rightarrow> flt \<Rightarrow> flt \<Rightarrow> 'p ikd \<Rightarrow> 'p ikd" where
  "InitializeKDTree delete_param balance_param box_length k =
     set_downsample_param box_length
       (Set_balance_criterion_param balance_param (Set_delete_criterion_param delete_param k))"

text \<open>The constructor, without its thread.\<close>

definition KD_TREE :: "flt \<Rightarrow> flt \<Rightarrow> flt \<Rightarrow> 'p ikd" where
  "KD_TREE delete_param balance_param box_length =
     \<lparr>Root_Node = Null, Points_deleted = [], Multithread_Points_deleted = [], Rebuild_Ptr = None,
      delete_criterion_param = delete_param, balance_criterion_param = balance_param,
      downsample_size = box_length, inv_downsample_size = fdiv b32 (Num 1) box_length\<rparr>"

section \<open>Sizes\<close>

definition ikd_size :: "'p ikd \<Rightarrow> int" where
  "ikd_size k = (case Root_Node k of Null \<Rightarrow> 0 | Node n _ _ \<Rightarrow> TreeSize n)"

definition validnum :: "'p ikd \<Rightarrow> int" where
  "validnum k = (case Root_Node k of Null \<Rightarrow> 0 | Node n _ _ \<Rightarrow> TreeSize n - invalid_point_num n)"

definition tree_range :: "'p ikd \<Rightarrow> BoxPointType" where
  "tree_range k = (case Root_Node k of
     Null \<Rightarrow> \<lparr>box_x = (Num 0, Num 0), box_y = (Num 0, Num 0), box_z = (Num 0, Num 0)\<rparr>
   | Node n _ _ \<Rightarrow> \<lparr>box_x = node_range_x n, box_y = node_range_y n, box_z = node_range_z n\<rparr>)"

section \<open>Building\<close>

text \<open>\<open>Build\<close> of no points only frees the old tree.\<close>

definition Build :: "'p nth_fn \<Rightarrow> 'p point list \<Rightarrow> 'p ikd \<Rightarrow> 'p ikd" where
  "Build nth_element point_cloud k = k\<lparr>Root_Node := BuildTree nth_element point_cloud\<rparr>"

definition Reconstruct :: "'p nth_fn \<Rightarrow> 'p point list \<Rightarrow> 'p ikd \<Rightarrow> 'p ikd" where
  "Reconstruct nth_element PointToRecon k = Build nth_element PointToRecon (k\<lparr>Root_Node := Null\<rparr>)"

section \<open>Deleting\<close>

definition delete_box :: "'p nth_fn \<Rightarrow> bool \<Rightarrow> BoxPointType \<Rightarrow> 'p ikd \<Rightarrow> int \<times> 'p ikd" where
  "delete_box nth_element is_downsample b k =
     (case Delete_by_range nth_element b True is_downsample (Root_Node k) k of
        (c, t, k) \<Rightarrow> (c, k\<lparr>Root_Node := t\<rparr>))"

fun Delete_Point_Boxes :: "'p nth_fn \<Rightarrow> BoxPointType list \<Rightarrow> 'p ikd \<Rightarrow> stop + int \<times> 'p ikd" where
  "Delete_Point_Boxes nth_element [] k = Inr (0, k)"
| "Delete_Point_Boxes nth_element (b # bs) k = guarded (\<lambda>k.
     case delete_box nth_element False b k of (c, k) \<Rightarrow>
       and_so (Delete_Point_Boxes nth_element bs k) (\<lambda>(d, k). Inr (c + d, k))) k"

definition delete_point :: "'p nth_fn \<Rightarrow> 'p point \<Rightarrow> 'p ikd \<Rightarrow> 'p ikd" where
  "delete_point nth_element p k =
     (case Delete_by_point nth_element p True (Root_Node k) k of (t, k) \<Rightarrow> k\<lparr>Root_Node := t\<rparr>)"

fun Delete_Points :: "'p nth_fn \<Rightarrow> 'p point list \<Rightarrow> 'p ikd \<Rightarrow> stop + 'p ikd" where
  "Delete_Points nth_element [] k = Inr k"
| "Delete_Points nth_element (p # ps) k = guarded (\<lambda>k.
     Delete_Points nth_element ps (delete_point nth_element p k)) k"

definition acquire_removed_points :: "'p ikd \<Rightarrow> 'p point list \<times> 'p ikd" where
  "acquire_removed_points k = (Points_deleted k @ Multithread_Points_deleted k,
     k\<lparr>Points_deleted := [], Multithread_Points_deleted := []\<rparr>)"

section \<open>Voxels\<close>

text \<open>A cast to \<open>int\<close> is undefined when the truncated value does not fit.\<close>

fun to_int :: "flt \<Rightarrow> ub + int" where
  "to_int (Num x) = (let t = trunc x in if - (2 ^ 31) \<le> t \<and> t < 2 ^ 31 then Inr t else Inl BadCast)"
| "to_int x = Inl BadCast"

definition voxel_key :: "'p ikd \<Rightarrow> flt \<Rightarrow> ub + int" where
  "voxel_key k v = to_int (ffloor (fmul b32 v (inv_downsample_size k)))"

definition voxel_range :: "'p ikd \<Rightarrow> int \<Rightarrow> range" where
  "voxel_range k key = (let vmin = fmul b32 (of_i b32 key) (downsample_size k)
                        in (vmin, fadd b32 vmin (downsample_size k)))"

text \<open>\<open>(key + 0.5) * downsample_size\<close> is computed in double precision and stored in a float.\<close>

definition voxel_mid :: "'p ikd \<Rightarrow> flt \<Rightarrow> flt" where
  "voxel_mid k key = fconv b32 (fmul b64 (fadd b64 key (Num (1 / 2))) (downsample_size k))"

definition voxel_box :: "'p ikd \<Rightarrow> 'p point \<Rightarrow> ub + BoxPointType \<times> int \<times> int \<times> int" where
  "voxel_box k p =
     bind_ub (voxel_key k (pt_x p)) (\<lambda>x. bind_ub (voxel_key k (pt_y p)) (\<lambda>y.
     bind_ub (voxel_key k (pt_z p)) (\<lambda>z.
       Inr (\<lparr>box_x = voxel_range k x, box_y = voxel_range k y, box_z = voxel_range k z\<rparr>, x, y, z))))"

fun Delete_Points_Downsample :: "'p nth_fn \<Rightarrow> 'p point list \<Rightarrow> 'p ikd \<Rightarrow> stop + 'p ikd" where
  "Delete_Points_Downsample nth_element [] k = Inr k"
| "Delete_Points_Downsample nth_element (p # ps) k =
     and_so (faulty (voxel_box k p)) (\<lambda>(b, _). guarded (\<lambda>k.
       Delete_Points_Downsample nth_element ps (snd (delete_box nth_element False b k))) k)"

section \<open>Adding\<close>

text \<open>\<open>Add_by_point(&Root_Node, p, true, Root_Node->division_axis)\<close>\<close>

definition add_point :: "'p nth_fn \<Rightarrow> 'p point \<Rightarrow> 'p ikd \<Rightarrow> stop + 'p ikd" where
  "add_point nth_element p k = (case Root_Node k of
     Null \<Rightarrow> Inl (Fault NullDeref)
   | Node n _ _ \<Rightarrow> (case Add_by_point nth_element p True (division_axis n) (Root_Node k) k of
       (t, k) \<Rightarrow> Inr (k\<lparr>Root_Node := t\<rparr>)))"

text \<open>The nearest of the points of the voxel to its middle, the new point first.\<close>

fun closest :: "'p point \<Rightarrow> flt \<Rightarrow> 'p point \<Rightarrow> 'p point list \<Rightarrow> 'p point" where
  "closest mid min_dist chosen [] = chosen"
| "closest mid min_dist chosen (q # qs) =
     (let tmp_dist = calc_dist q mid
      in if fless tmp_dist min_dist then closest mid tmp_dist q qs else closest mid min_dist chosen qs)"

text \<open>The middle of a voxel, with the data of the new point.\<close>

definition voxel_middle :: "'p ikd \<Rightarrow> 'p point \<Rightarrow> int \<times> int \<times> int \<Rightarrow> 'p point" where
  "voxel_middle k p = (\<lambda>(x, y, z). p\<lparr>pt_x := voxel_mid k (Num (of_int x)),
     pt_y := voxel_mid k (Num (of_int y)), pt_z := voxel_mid k (Num (of_int z))\<rparr>)"

text \<open>One point with downsampling; the count grows when the point is added.\<close>

definition add_downsampled :: "'p nth_fn \<Rightarrow> 'p point \<Rightarrow> 'p ikd \<Rightarrow> stop + int \<times> 'p ikd" where
  "add_downsampled nth_element p k =
     and_so (faulty (voxel_box k p)) (\<lambda>(b, key).
       let mid_point = voxel_middle k p key;
           (t, storage) = Search_by_range b (Root_Node k);
           k = k\<lparr>Root_Node := t\<rparr>
       in if storage \<noteq> [] then
            (let downsample_result = closest mid_point (calc_dist p mid_point) p storage
             in guarded (\<lambda>k. if same_point p downsample_result
                  then and_so (guarded (add_point nth_element downsample_result)
                                 (snd (delete_box nth_element True b k)))
                         (\<lambda>k. Inr (1, k))
                  else Inr (0, k)) k)
          else guarded (\<lambda>k. and_so (add_point nth_element p k) (\<lambda>k. Inr (1, k))) k)"

fun add_all :: "'p nth_fn \<Rightarrow> bool \<Rightarrow> 'p point list \<Rightarrow> 'p ikd \<Rightarrow> stop + int \<times> 'p ikd" where
  "add_all nth_element downsample_on [] k = Inr (0, k)"
| "add_all nth_element downsample_on (p # ps) k =
     and_so (if downsample_on then add_downsampled nth_element p k
             else guarded (\<lambda>k. and_so (add_point nth_element p k) (\<lambda>k. Inr (0, k))) k)
       (\<lambda>(c, k). and_so (add_all nth_element downsample_on ps k) (\<lambda>(d, k). Inr (c + d, k)))"

text \<open>The first points: with downsampling the middles of their voxels, each once. The data of a
  middle point is that of a default point, a parameter.\<close>

definition first_mid :: "'p point \<Rightarrow> 'p ikd \<Rightarrow> 'p point \<Rightarrow> 'p point" where
  "first_mid dflt k p = dflt
     \<lparr>pt_x := voxel_mid k (ffloor (fmul b32 (pt_x p) (inv_downsample_size k))),
      pt_y := voxel_mid k (ffloor (fmul b32 (pt_y p) (inv_downsample_size k))),
      pt_z := voxel_mid k (ffloor (fmul b32 (pt_z p) (inv_downsample_size k)))\<rparr>"

fun first_downsample :: "'p point \<Rightarrow> 'p ikd \<Rightarrow> 'p point list \<Rightarrow> 'p point list \<Rightarrow> 'p point list" where
  "first_downsample dflt k out [] = out"
| "first_downsample dflt k out (p # ps) =
     (let mid_point = first_mid dflt k p
      in first_downsample dflt k (if \<exists>q \<in> set out. same_point mid_point q then out else out @ [mid_point]) ps)"

definition Add_Points :: "'p nth_fn \<Rightarrow> 'p point \<Rightarrow> 'p point list \<Rightarrow> bool \<Rightarrow> 'p ikd \<Rightarrow> stop + int \<times> 'p ikd" where
  "Add_Points nth_element dflt PointToAdd downsample_on k =
     (if Root_Node k = Null
      then Inr (0, Build nth_element
             (if downsample_on then first_downsample dflt k [] PointToAdd else PointToAdd) k)
      else add_all nth_element downsample_on PointToAdd k)"

definition restore_box :: "'p nth_fn \<Rightarrow> BoxPointType \<Rightarrow> 'p ikd \<Rightarrow> 'p ikd" where
  "restore_box nth_element b k =
     (case Add_by_range nth_element b True (Root_Node k) k of (t, k) \<Rightarrow> k\<lparr>Root_Node := t\<rparr>)"

fun Add_Point_Boxes :: "'p nth_fn \<Rightarrow> BoxPointType list \<Rightarrow> 'p ikd \<Rightarrow> stop + 'p ikd" where
  "Add_Point_Boxes nth_element [] k = Inr k"
| "Add_Point_Boxes nth_element (b # bs) k = guarded (\<lambda>k.
     Add_Point_Boxes nth_element bs (restore_box nth_element b k)) k"

section \<open>Queries\<close>

definition Box_Search :: "BoxPointType \<Rightarrow> 'p ikd \<Rightarrow> 'p point list \<times> 'p ikd" where
  "Box_Search b k = (case Search_by_range b (Root_Node k) of (t, storage) \<Rightarrow> (storage, k\<lparr>Root_Node := t\<rparr>))"

definition nearest_points :: "'p PointType_CMP \<Rightarrow> 'p point \<Rightarrow> nat \<Rightarrow> flt \<Rightarrow> 'p ikd \<Rightarrow>
    stop + 'p point list \<times> flt list \<times> 'p ikd" where
  "nearest_points d p k_nearest max_dist k = guarded (\<lambda>k.
     and_so (faulty (Nearest_Search d p k_nearest max_dist (Root_Node k)))
       (\<lambda>(t, pts, ds). Inr (pts, ds, k\<lparr>Root_Node := t\<rparr>))) k"

end
