(* ===== verification/Ikd_Session.thy ===== *)
theory Ikd_Session
  imports Ikd_Object
begin

text \<open>
  What the public operations of the kd-tree do, as a multiset of points: the abstract state is the
  multiset of live points, and the stock, which counts also the points that are deleted but not yet
  handed out by \<open>acquire_removed_points\<close>. A history of operations keeps the invariant, and every
  point added is in the stock or was handed out, exactly once.
\<close>

section \<open>Abstraction\<close>

definition ikd_ok :: "'p ikd \<Rightarrow> bool" where
  "ikd_ok k \<longleftrightarrow> tree_inv True (Root_Node k)"

definition points :: "'p ikd \<Rightarrow> 'p point multiset" where
  "points k = live_of (content (Root_Node k))"

definition stock :: "'p ikd \<Rightarrow> 'p point multiset" where
  "stock k = points k + gone (content (Root_Node k)) k + mset (Multithread_Points_deleted k)"

lemma ikd_counts:
  assumes "ikd_ok k"
  shows "validnum k = int (size (points k))" "ikd_size k = int (nodes (Root_Node k))"
proof -
  have "size (points k) = length (live (Root_Node k))" by (simp add: points_def flip: mset_live(1))
  then show "validnum k = int (size (points k))"
    using assms valid_count by (cases "Root_Node k") (auto simp: validnum_def ikd_ok_def live_def simp del: content.simps(2))
  show "ikd_size k = int (nodes (Root_Node k))"
    using assms root_counts unfolding ikd_ok_def ikd_size_def
    by (cases "Root_Node k") (auto simp: counts_ok_def simp del: content.simps)
qed

text \<open>An operation that adds at most \<open>m\<close> nodes and, while the tree stays below the size of the
  background rebuild, hands nothing over.\<close>

definition quiet :: "nat \<Rightarrow> 'p ikd \<Rightarrow> 'p ikd \<Rightarrow> bool" where
  "quiet m k k' \<longleftrightarrow> nodes (Root_Node k') \<le> nodes (Root_Node k) + m \<and>
     (int (nodes (Root_Node k) + m) < Multi_Thread_Rebuild_Point_Num \<longrightarrow> Rebuild_Ptr k' = Rebuild_Ptr k)"

definition small_tree :: "nat \<Rightarrow> 'p ikd \<Rightarrow> bool" where
  "small_tree m k \<longleftrightarrow> Rebuild_Ptr k = None \<and> int (nodes (Root_Node k) + m) < Multi_Thread_Rebuild_Point_Num"

lemma quiet_small: "quiet m k k' \<Longrightarrow> small_tree (m + i) k \<Longrightarrow> small_tree i k'"
  by (auto simp: quiet_def small_tree_def)

lemma guarded_Inr: "guarded f k = Inr x \<longleftrightarrow> Rebuild_Ptr k = None \<and> f k = Inr x"
  by (auto simp: guarded_def)

lemma filter_mset_not: "filter_mset (\<lambda>p. \<not> P p) M + filter_mset P M = M"
  by (metis multiset_partition union_commute)

context selection
begin

section \<open>Deleting\<close>

lemma delete_box_spec:
  assumes "ikd_ok k" "delete_box nth_element ds b k = (c, k')"
  shows "ikd_ok k'" "points k' = filter_mset (\<lambda>p. \<not> in_box b p) (points k)"
    "c = int (size (filter_mset (in_box b) (points k)))" "\<not> ds \<Longrightarrow> stock k' = stock k" "quiet 0 k k'"
proof -
  obtain t k1 where d: "Delete_by_range nth_element b True ds (Root_Node k) k = (c, t, k1)"
    and k': "k' = k1\<lparr>Root_Node := t\<rparr>"
    using assms(2) by (auto simp: delete_box_def split: prod.splits)
  note S = delete_range_spec [OF assms(1) [unfolded ikd_ok_def] d]
  show "ikd_ok k'" "points k' = filter_mset (\<lambda>p. \<not> in_box b p) (points k)"
    "c = int (size (filter_mset (in_box b) (points k)))" "quiet 0 k k'"
    using S by (simp_all add: ikd_ok_def points_def k' quiet_def stays_def)
  assume "\<not> ds"
  then have g: "gone (content t) k1 = gone (content (Root_Node k)) k + filter_mset (in_box b) (points k)"
    and m: "Multithread_Points_deleted k1 = Multithread_Points_deleted k" using S by (auto simp: points_def)
  have "points k' + filter_mset (in_box b) (points k) = points k"
    using S filter_mset_not by (simp add: points_def k')
  then show "stock k' = stock k"
    using g m by (simp add: stock_def k' gone_def points_def ac_simps)
qed

lemma delete_boxes_spec:
  assumes "ikd_ok k" "Delete_Point_Boxes nth_element bs k = Inr (c, k')"
  shows "ikd_ok k' \<and> points k' = filter_mset (\<lambda>p. \<forall>b \<in> set bs. \<not> in_box b p) (points k) \<and>
    c = int (size (points k)) - int (size (points k')) \<and> stock k' = stock k"
  using assms
proof (induction bs arbitrary: k c k')
  case (Cons b bs)
  obtain c1 k1 where d: "delete_box nth_element False b k = (c1, k1)" by fastforce
  obtain c2 where r: "Delete_Point_Boxes nth_element bs k1 = Inr (c2, k')" "c = c1 + c2"
    using Cons.prems(2) by (auto simp: guarded_Inr d and_so_Inr split: prod.splits)
  note S = delete_box_spec [OF Cons.prems(1) d]
  have n: "int (size (points k)) = int (size (points k1)) + c1"
    using arg_cong [OF filter_mset_not [of "in_box b" "points k"], of size] S(2,3)
    by (simp only: size_union of_nat_add [symmetric] add.commute)
  show ?case using Cons.IH [OF S(1) r(1)] S n r(2) by (auto simp: filter_filter_mset conj_commute)
qed simp

lemma delete_point_ok:
  assumes "ikd_ok k"
  shows "\<exists>X. (X = {#} \<or> (\<exists>q. X = {#q#} \<and> same_point q p)) \<and> ikd_ok (delete_point nth_element p k) \<and>
    points k = points (delete_point nth_element p k) + X \<and> stock (delete_point nth_element p k) = stock k \<and>
    quiet 0 k (delete_point nth_element p k)"
proof -
  obtain t k1 where d: "Delete_by_point nth_element p True (Root_Node k) k = (t, k1)" by fastforce
  obtain X where X: "removable p (content (Root_Node k)) X" "tree_inv True t"
    "live_of (content (Root_Node k)) = live_of (content t) + X"
    "gone (content t) k1 = gone (content (Root_Node k)) k + X"
    "Multithread_Points_deleted k1 = Multithread_Points_deleted k"
    "nodes t \<le> nodes (Root_Node k)" "stays (nodes (Root_Node k)) k k1"
    using delete_point_spec [OF assms [unfolded ikd_ok_def] d] by blast
  have "stock (k1\<lparr>Root_Node := t\<rparr>) = stock k"
    using X(3-5) by (simp add: stock_def points_def gone_def ac_simps)
  then show ?thesis using X by (intro exI [of _ X]) (auto simp: delete_point_def d ikd_ok_def points_def removable_def
      quiet_def stays_def)
qed

lemma delete_points_spec:
  assumes "ikd_ok k" "Delete_Points nth_element ps k = Inr k'"
  shows "ikd_ok k' \<and> stock k' = stock k \<and> (\<exists>X. points k = points k' + X \<and> size X \<le> length ps \<and>
    (\<forall>q \<in># X. \<exists>p \<in> set ps. same_point q p))"
  using assms
proof (induction ps arbitrary: k)
  case (Cons p ps)
  let ?k = "delete_point nth_element p k"
  obtain X where X: "X = {#} \<or> (\<exists>q. X = {#q#} \<and> same_point q p)" "ikd_ok ?k" "points k = points ?k + X" "stock ?k = stock k"
    using delete_point_ok [OF Cons.prems(1), of p] by blast
  have "Delete_Points nth_element ps ?k = Inr k'" using Cons.prems(2) by (simp add: guarded_Inr)
  then obtain Y where Y: "ikd_ok k'" "stock k' = stock ?k" "points ?k = points k' + Y" "size Y \<le> length ps"
    "\<forall>q \<in># Y. \<exists>p \<in> set ps. same_point q p" using Cons.IH [OF X(2)] by blast
  have "points k = points k' + (Y + X)" using X(3) Y(3) by (simp add: ac_simps)
  moreover have "size (Y + X) \<le> length (p # ps)" "\<forall>q \<in># Y + X. \<exists>p \<in> set (p # ps). same_point q p"
    using X(1) Y(4,5) by auto
  ultimately show ?case using X(4) Y(1,2) by metis
qed auto

section \<open>Adding\<close>

lemma add_point_ok:
  assumes "ikd_ok k" "finite_point p" "add_point nth_element p k = Inr k'"
  shows "ikd_ok k'" "points k' = add_mset p (points k)" "stock k' = add_mset p (stock k)"
    "quiet 1 k k'"
proof -
  obtain n l r t k1 where r: "Root_Node k = Node n l r"
    "Add_by_point nth_element p True (division_axis n) (Root_Node k) k = (t, k1)" "k' = k1\<lparr>Root_Node := t\<rparr>"
    using assms(3) by (auto simp: add_point_def split: tree.splits prod.splits)
  note S = add_point_spec [OF assms(1) [unfolded ikd_ok_def] _ r(2)]
  show "ikd_ok k'" "points k' = add_mset p (points k)" "stock k' = add_mset p (stock k)" "quiet 1 k k'"
    using S assms(2) r(3) by (auto simp: ikd_ok_def points_def stock_def gone_def quiet_def stays_def)
qed

lemma add_all_spec:
  assumes "ikd_ok k" "\<forall>p \<in> set ps. finite_point p" "add_all nth_element False ps k = Inr (c, k')"
  shows "ikd_ok k' \<and> points k' = mset ps + points k \<and> stock k' = mset ps + stock k \<and> c = 0"
  using assms
proof (induction ps arbitrary: k c)
  case (Cons p ps)
  obtain k1 where k1: "add_point nth_element p k = Inr k1" and r: "add_all nth_element False ps k1 = Inr (c, k')"
    using Cons.prems(3) by (auto simp: guarded_Inr and_so_Inr)
  have fin: "finite_point p" "\<forall>p \<in> set ps. finite_point p" using Cons.prems(2) by auto
  note S = add_point_ok [OF Cons.prems(1) fin(1) k1]
  show ?case using Cons.IH [OF S(1) fin(2) r] S by simp
qed simp

lemma build_ok:
  assumes "\<forall>p \<in> set ps. finite_point p"
  shows "ikd_ok (Build nth_element ps k)" "points (Build nth_element ps k) = mset ps"
    "stock (Build nth_element ps k) = mset ps + mset (Points_deleted k) + mset (Multithread_Points_deleted k)"
  using build_spec [of True ps] assms
  by (auto simp: ikd_ok_def points_def stock_def Build_def gone_def)

lemma Add_Points_spec:
  assumes "ikd_ok k" "\<forall>p \<in> set ps. finite_point p" "Add_Points nth_element dflt ps False k = Inr (c, k')"
  shows "ikd_ok k'" "points k' = mset ps + points k" "stock k' = mset ps + stock k"
proof -
  have "ikd_ok k' \<and> points k' = mset ps + points k \<and> stock k' = mset ps + stock k"
  proof (cases "Root_Node k = Null")
    case True
    then have k': "k' = Build nth_element ps k" using assms(3) by (auto simp: Add_Points_def)
    have "points k = {#}" "stock k = mset (Points_deleted k) + mset (Multithread_Points_deleted k)"
      using True by (simp_all add: points_def stock_def gone_def)
    then show ?thesis using build_ok [OF assms(2), of k] k' by (simp add: ac_simps)
  next
    case False
    then show ?thesis using add_all_spec [OF assms(1,2), of c k'] assms(3) by (auto simp: Add_Points_def)
  qed
  then show "ikd_ok k'" "points k' = mset ps + points k" "stock k' = mset ps + stock k" by blast+
qed

section \<open>The operations return\<close>

text \<open>As long as the tree stays below the size of the background rebuild.\<close>

lemma Delete_Point_Boxes_returns:
  assumes "ikd_ok k" "small_tree 0 k"
  shows "\<exists>c k'. Delete_Point_Boxes nth_element bs k = Inr (c, k')"
  using assms
proof (induction bs arbitrary: k)
  case (Cons b bs)
  obtain c1 k1 where d: "delete_box nth_element False b k = (c1, k1)" by fastforce
  note S = delete_box_spec [OF Cons.prems(1) d]
  have "small_tree 0 k1" using quiet_small [OF S(5), of 0] Cons.prems(2) by simp
  then obtain c2 k2 where "Delete_Point_Boxes nth_element bs k1 = Inr (c2, k2)" using Cons.IH [OF S(1)] by blast
  then show ?case using Cons.prems(2) by (simp add: guarded_def small_tree_def d)
qed simp

lemma Delete_Points_returns:
  assumes "ikd_ok k" "small_tree 0 k"
  shows "\<exists>k'. Delete_Points nth_element ps k = Inr k'"
  using assms
proof (induction ps arbitrary: k)
  case (Cons p ps)
  have "ikd_ok (delete_point nth_element p k)" "quiet 0 k (delete_point nth_element p k)"
    using delete_point_ok [OF Cons.prems(1), of p] by blast+
  then show ?case using Cons.IH quiet_small [of 0 k _ 0] Cons.prems(2)
    by (simp add: guarded_def small_tree_def)
qed simp

lemma add_point_returns:
  assumes "Root_Node k \<noteq> Null" "ikd_ok k"
  shows "\<exists>k'. add_point nth_element p k = Inr k' \<and> Root_Node k' \<noteq> Null"
proof -
  obtain n l r where r: "Root_Node k = Node n l r" using assms(1) by (cases "Root_Node k") auto
  obtain t k1 where a: "Add_by_point nth_element p True (division_axis n) (Root_Node k) k = (t, k1)" by fastforce
  have "t \<noteq> Null" using add_point_spec [OF tree_inv_weaken [OF assms(2) [unfolded ikd_ok_def]] _ a] by simp
  then show ?thesis using a by (simp add: add_point_def r)
qed

lemma add_all_returns:
  assumes "ikd_ok k" "Root_Node k \<noteq> Null" "\<forall>p \<in> set ps. finite_point p" "small_tree (length ps) k"
  shows "\<exists>c k'. add_all nth_element False ps k = Inr (c, k')"
  using assms
proof (induction ps arbitrary: k)
  case (Cons p ps)
  obtain k1 where k1: "add_point nth_element p k = Inr k1" "Root_Node k1 \<noteq> Null"
    using add_point_returns [OF Cons.prems(2,1)] by blast
  note S = add_point_ok [OF Cons.prems(1) _ k1(1)]
  have "ikd_ok k1" "small_tree (length ps) k1"
    using S(1,4) quiet_small [of 1 k k1 "length ps"] Cons.prems(3,4) by simp_all
  then obtain c k2 where "add_all nth_element False ps k1 = Inr (c, k2)" using Cons.IH k1(2) Cons.prems(3) by fastforce
  then show ?case using Cons.prems(4) k1(1) by (simp add: guarded_def small_tree_def)
qed simp

lemma Add_Points_returns:
  assumes "ikd_ok k" "\<forall>p \<in> set ps. finite_point p" "small_tree (length ps) k"
  shows "\<exists>c k'. Add_Points nth_element dflt ps False k = Inr (c, k')"
  using add_all_returns [OF assms(1) _ assms(2,3)] by (auto simp: Add_Points_def)

end

section \<open>Queries\<close>

lemma box_search_spec:
  assumes "ikd_ok k" "Box_Search b k = (found, k')"
  shows "mset found = filter_mset (in_box b) (points k)" "ikd_ok k'" "points k' = points k" "stock k' = stock k"
proof -
  obtain t where s: "Search_by_range b (Root_Node k) = (t, found)" "k' = k\<lparr>Root_Node := t\<rparr>"
    using assms(2) by (auto simp: Box_Search_def split: prod.splits)
  note S = search_range_spec [OF assms(1) [unfolded ikd_ok_def] s(1)]
  show "mset found = filter_mset (in_box b) (points k)" "ikd_ok k'" "points k' = points k" "stock k' = stock k"
    using S by (simp_all add: points_def stock_def gone_def ikd_ok_def s(2) flip: mset_live(1))
qed

lemma nearest_points_keeps:
  assumes "ikd_ok k" "nearest_points d p n max_dist k = Inr (pts, ds, k')"
  shows "ikd_ok k'" "points k' = points k" "stock k' = stock k"
proof -
  obtain t q where s: "Search n p max_dist (Root_Node k) (MANUAL_HEAP d (2 * n)) = Inr (t, q)"
    "k' = k\<lparr>Root_Node := t\<rparr>"
    using assms(2) by (auto simp: nearest_points_def guarded_Inr and_so_Inr faulty_def Nearest_Search_def
        bind_ub_Inr_iff split: sum.splits)
  note S = search_keeps [OF s(1) assms(1) [unfolded ikd_ok_def]]
  show "ikd_ok k'" "points k' = points k" "stock k' = stock k"
    using S by (simp_all add: points_def stock_def gone_def ikd_ok_def s(2))
qed

definition in_reach :: "'p point \<Rightarrow> flt \<Rightarrow> 'p ikd \<Rightarrow> 'p point multiset" where
  "in_reach p max_dist k = {#x \<in># points k. fle (calc_dist p x) (fmul b32 max_dist max_dist)#}"

lemma nearest_points_spec:
  assumes "ikd_ok k" "Rebuild_Ptr k = None" "finite_point p" "0 < n"
    and "separated (entry_of p ` set_mset (in_reach p max_dist k))"
  shows "\<exists>pts k'. nearest_points d p n max_dist k = Inr (pts, map (calc_dist p) pts, k') \<and>
    nearest n p (in_reach p max_dist k) pts"
proof -
  have e: "reachable_points p max_dist (Root_Node k) = in_reach p max_dist k"
    by (simp add: reachable_points_def points_def mset_live in_reach_def)
  note S = nearest_search_spec [OF assms(1) [unfolded ikd_ok_def] assms(3,4,5) [folded e], of d, unfolded e]
  then show ?thesis using assms(2) by (fastforce simp: nearest_points_def guarded_def faulty_def)
qed

lemma acquire_spec:
  assumes "acquire_removed_points k = (ps, k')"
  shows "points k' = points k" "mset ps + stock k' = stock k" "ikd_ok k' = ikd_ok k"
  using assms by (auto simp: acquire_removed_points_def points_def stock_def gone_def ikd_ok_def ac_simps)

lemma points_finite:
  assumes "ikd_ok k" "x \<in># points k"
  shows "finite_point x"
  using assms live_in_ranges(2) unfolding ikd_ok_def points_def
  by (cases "Root_Node k") (auto simp del: content.simps(2) tree_inv.simps(2))

section \<open>Downsampling\<close>

lemma closest_stuck: "\<not> nonan d \<Longrightarrow> closest mid d c qs = c"
  by (induction mid d c qs rule: closest.induct) (simp_all add: Let_def fless_iff nonan_def)

lemma closest_spec:
  fixes mid :: "'p point"
  assumes "r = closest mid d c qs" "d = calc_dist c mid"
  shows "r \<in> insert c (set qs) \<and> (\<forall>x \<in> insert c (set qs). \<not> fless (calc_dist x mid) (calc_dist r mid))"
  using assms
proof (induction mid d c qs rule: closest.induct)
  case (1 mid d c)
  then show ?case by (simp add: fless_iff)
next
  case (2 mid d c q qs)
  show ?case
  proof (cases "fless (calc_dist q mid) d")
    case True
    then have r: "r \<in> insert q (set qs)" "\<forall>x \<in> insert q (set qs). \<not> fless (calc_dist x mid) (calc_dist r mid)"
      using "2.IH"(1) [OF refl True _ refl] "2.prems"(1) True by simp_all
    have "\<not> fless (calc_dist c mid) (calc_dist r mid)"
      using r(2) True [unfolded "2.prems"(2)] by (auto simp: fless_iff)
    then show ?thesis using r by auto
  next
    case False
    then have r: "r \<in> insert c (set qs)" "\<forall>x \<in> insert c (set qs). \<not> fless (calc_dist x mid) (calc_dist r mid)"
      using "2.IH"(2) [OF refl False _ "2.prems"(2)] "2.prems"(1) False by simp_all
    have "\<not> fless (calc_dist q mid) (calc_dist r mid)"
      using r(2) False [unfolded "2.prems"(2)] closest_stuck [of d mid c qs] "2.prems" False
      by (cases "nonan d") (auto simp: fless_iff)
    then show ?thesis using r by auto
  qed
qed

context selection
begin

text \<open>The voxel of the new point keeps one point, the closest to its middle; it counts as an
  addition when that is the new point or one that cannot be told from it.\<close>

lemma add_downsampled_spec:
  assumes k: "ikd_ok k" and p: "finite_point p" and b: "voxel_box k p = Inr (b, key)"
    and add: "add_downsampled nth_element p k = Inr (c, k')"
  shows "ikd_ok k' \<and> (\<exists>q. let V = filter_mset (in_box b) (points k); mid = voxel_middle k p key in
    q \<in># add_mset p V \<and> (\<forall>x \<in># add_mset p V. \<not> fless (calc_dist x mid) (calc_dist q mid)) \<and>
    (if V = {#} \<or> same_point p q then c = 1 \<and> points k' = add_mset q (points k - V)
     else c = 0 \<and> points k' = points k))"
proof -
  define V where "V = filter_mset (in_box b) (points k)"
  define mid where "mid = voxel_middle k p key"
  obtain t storage where s: "Search_by_range b (Root_Node k) = (t, storage)" by fastforce
  define k0 where "k0 = k\<lparr>Root_Node := t\<rparr>"
  have "Box_Search b k = (storage, k0)" by (simp add: Box_Search_def s k0_def)
  note B = box_search_spec [OF k this]
  have V: "mset storage = V" using B(1) by (simp add: V_def)
  have rest: "filter_mset (\<lambda>x. \<not> in_box b x) (points k) = points k - V"
    unfolding V_def by (metis filter_mset_not add_diff_cancel_right')
  note D = add [unfolded add_downsampled_def b, simplified faulty_def sum.case and_so.simps prod.case s Let_def,
      folded k0_def mid_def]
  show ?thesis
  proof (cases "storage = []")
    case True
    then obtain k1 where "add_point nth_element p k0 = Inr k1" "c = 1" "k' = k1"
      using D by (auto simp: guarded_Inr and_so_Inr)
    then show ?thesis using add_point_ok [OF B(2) p, of k1] B True V
      by (auto simp: Let_def V_def [symmetric] fless_iff)
  next
    case False
    define q where "q = closest mid (calc_dist p mid) p storage"
    have q: "q \<in># add_mset p V" "\<forall>x \<in># add_mset p V. \<not> fless (calc_dist x mid) (calc_dist q mid)"
      using closest_spec [OF q_def refl] V by auto
    have V0: "V \<noteq> {#}" using False V by auto
    show ?thesis
    proof (cases "same_point p q")
      case True
      obtain c1 k1 where d: "delete_box nth_element True b k0 = (c1, k1)" by fastforce
      note S = delete_box_spec [OF B(2) d]
      have "c = 1" "add_point nth_element q k1 = Inr k'"
        using D False True by (auto simp: guarded_Inr and_so_Inr q_def [symmetric] d)
      moreover have "finite_point q" using q(1) p k unfolding V_def by (auto dest: points_finite)
      ultimately show ?thesis using add_point_ok [OF S(1)] S(2) B(3) rest q True
        by (auto simp: Let_def V_def [symmetric] mid_def [symmetric] intro!: exI [of _ q])
    next
      case other: False
      then have "c = 0" "k' = k0" using D False by (auto simp: guarded_Inr q_def [symmetric])
      then show ?thesis using B q V0 other
        by (auto simp: Let_def V_def [symmetric] mid_def [symmetric] intro!: exI [of _ q])
    qed
  qed
qed

end

lemma EPSS_bounds: "fless (Num 0) EPSS" "\<not> fless (Num 1) EPSS" "\<not> fless (Num (numeral k)) EPSS"
proof -
  have "rounded b64 (2 powi (- 40)) \<le> rounded b64 (1 / 10 ^ 6)"
    by (rule rounded_mono) (simp_all add: power_int_minus divide_simps)
  moreover have "rounded b64 (2 powi (- 40)) = 2 powi (- 40)" by (rule rounded_pow2) simp_all
  moreover have "(0::rat) < 2 powi (- 40)" by simp
  ultimately have "0 < rounded b64 (1 / 10 ^ 6)" by linarith
  moreover have "rounded b64 (1 / 10 ^ 6) \<le> rounded b64 (2 powi 0)" by (rule rounded_mono) simp_all
  moreover have "rounded b64 (2 powi 0) = 2 powi 0" by (rule rounded_pow2) simp_all
  moreover have "fround b64 (1 / 10 ^ 6) = Num (rounded b64 (1 / 10 ^ 6))" by (rule fround_b64) simp
  moreover have "(1::rat) \<le> numeral k" by simp
  ultimately show "fless (Num 0) EPSS" "\<not> fless (Num 1) EPSS" "\<not> fless (Num (numeral k)) EPSS"
    unfolding EPSS_def by (simp_all add: not_less del: one_le_numeral)
qed

text \<open>With downsampling the tree is emptied before the point is added: when that removes the root
  node itself, the addition follows a null pointer.\<close>

lemma same_point_self: "finite_point p \<Longrightarrow> same_point p p"
  using EPSS_bounds(1) by (auto simp: same_point_def finite_point_def finite_flt_def fsub_def)

lemma closest_first: "\<forall>x \<in> set qs. \<not> fless (calc_dist x mid) d \<Longrightarrow> closest mid d c qs = c"
  by (induction qs) (simp_all add: Let_def)

context selection
begin

lemma add_downsampled_null:
  assumes k: "ikd_ok k" "Rebuild_Ptr k = None" "Root_Node k = Node n l r" "\<not> tree_deleted n"
    and p: "finite_point p" "voxel_box k p = Inr (b, key)"
      "\<forall>x \<in># points k. \<not> fless (calc_dist x (voxel_middle k p key)) (calc_dist p (voxel_middle k p key))"
    and box: "points k \<noteq> {#}" "\<forall>x \<in># points k. in_box b x" "\<not> covering b n" "covered b l" "covered b r"
    and size: "10 < ikd_size k" "ikd_size k < 1500" and param: "fless (delete_criterion_param k) (Num 1)"
  shows "add_downsampled nth_element p k = Inl (Fault NullDeref)"
proof -
  let ?mid = "voxel_middle k p key"
  obtain t storage where s: "Search_by_range b (Root_Node k) = (t, storage)" by fastforce
  define k0 where "k0 = k\<lparr>Root_Node := t\<rparr>"
  note S = search_range_spec [OF k(1) [unfolded ikd_ok_def] s]
  have st: "mset storage = points k" using S box(2) by (simp add: points_def mset_live filter_mset_all)
  obtain n1 l1 r1 where P: "Push_Down n l r = (n1, l1, r1)" by (metis prod_cases3)
  obtain l2 sl where sl: "Search_by_range b l1 = (l2, sl)" by fastforce
  obtain r2 sr where sr: "Search_by_range b r1 = (r2, sr)" by fastforce
  note C = covered_Push_Down [OF P]
  have live: "live_of (content (Root_Node k)) = points k" by (simp add: points_def)
  have dis: "\<not> disjoint_from b n"
  proof
    assume "disjoint_from b n"
    then have "filter_mset (in_box b) (points k) = {#}"
      using disjoint_live(1) [of n l r b] k(1,3) by (simp add: ikd_ok_def points_def del: content.simps tree_inv.simps)
    then show False using box(1,2) by (simp add: filter_mset_all)
  qed
  have t: "t = Node n1 l2 r2"
    using s C(3,4) box(3) dis unfolding k(3) by (simp add: P sl sr Let_def)
  obtain n3 l3 r3 where P3: "Push_Down (n1\<lparr>working_flag := True\<rparr>) l2 r2 = (n3, l3, r3)" by (metis prod_cases3)
  obtain c t3 k3 where d: "Delete_by_range nth_element b True True t k0 = (c, t3, k3)" by (metis prod_cases3)
  have "nodes t = nodes (Root_Node k)" using S length_content by metis
  moreover have "ikd_size k = int (nodes (Root_Node k))" using ikd_counts(2) [OF k(1)] .
  ultimately have sz: "10 < nodes t" "nodes t < 1500" using size by simp_all
  have "t3 = Null"
  proof (rule delete_range_empties [OF _ P3])
    show "tree_inv True (Node n1 l2 r2)" using S unfolding t by blast
    show "\<not> tree_deleted n1" "\<not> disjoint_from b n1" "\<not> covering b n1" using C k(4) dis box(3) by simp_all
    show "\<forall>x \<in># live_of (content (Node n1 l2 r2)). in_box b x"
      using S box(2) live unfolding t by metis
    show "covered b l2" "covered b r2"
      using covered_search [OF sl] covered_search [OF sr] C(1,2) box(4,5) by simp_all
    show "10 < nodes (Node n1 l2 r2)" "nodes (Node n1 l2 r2) < 1500" using sz t by simp_all
    show "fless (delete_criterion_param k0) (Num 1)" using param by (simp add: k0_def)
    show "Delete_by_range nth_element b True True (Node n1 l2 r2) k0 = (c, t3, k3)" using d t by simp
  qed
  then have del: "delete_box nth_element True b k0 = (c, k3\<lparr>Root_Node := Null\<rparr>)"
    using d by (simp add: delete_box_def k0_def)
  have "stays (nodes t) k0 k3" using delete_range_spec [OF _ d] S by simp
  then have r3: "Rebuild_Ptr k3 = None" using sz k(2) by (simp add: stays_def k0_def Multi_Thread_Rebuild_Point_Num_def)
  have near: "closest ?mid (calc_dist p ?mid) p storage = p"
    using p(3) st by (intro closest_first) (metis set_mset_mset)
  have same: "same_point p p" using p(1) by (rule same_point_self)
  have "storage \<noteq> []" using st box(1) by auto
  then show ?thesis using k(2) r3
    by (simp add: add_downsampled_def p(2) faulty_def s Let_def near same del guarded_def add_point_def flip: k0_def)
     (simp add: k0_def)
qed

end

section \<open>Histories\<close>

text \<open>\<open>history nth A T k\<close>: the points \<open>A\<close> were added and the points \<open>T\<close> handed out on the way to \<open>k\<close>.\<close>

inductive history :: "'p nth_fn \<Rightarrow> 'p point multiset \<Rightarrow> 'p point multiset \<Rightarrow> 'p ikd \<Rightarrow> bool" for nth_element where
  created: "history nth_element {#} {#} (KD_TREE delete_param balance_param box_length)"
| configured: "history nth_element A T k \<Longrightarrow> history nth_element A T (InitializeKDTree a b c k)"
| added: "history nth_element A T k \<Longrightarrow> \<forall>p \<in> set ps. finite_point p \<Longrightarrow>
    Add_Points nth_element dflt ps False k = Inr (c, k') \<Longrightarrow> history nth_element (mset ps + A) T k'"
| points_deleted: "history nth_element A T k \<Longrightarrow> Delete_Points nth_element ps k = Inr k' \<Longrightarrow>
    history nth_element A T k'"
| boxes_deleted: "history nth_element A T k \<Longrightarrow> Delete_Point_Boxes nth_element bs k = Inr (c, k') \<Longrightarrow>
    history nth_element A T k'"
| box_searched: "history nth_element A T k \<Longrightarrow> Box_Search b k = (found, k') \<Longrightarrow> history nth_element A T k'"
| searched: "history nth_element A T k \<Longrightarrow> nearest_points d p n max_dist k = Inr (pts, ds, k') \<Longrightarrow>
    history nth_element A T k'"
| acquired: "history nth_element A T k \<Longrightarrow> acquire_removed_points k = (ps, k') \<Longrightarrow>
    history nth_element A (mset ps + T) k'"

lemma initialize_fields:
  "Root_Node (InitializeKDTree a b c k) = Root_Node k"
  "Points_deleted (InitializeKDTree a b c k) = Points_deleted k"
  "Multithread_Points_deleted (InitializeKDTree a b c k) = Multithread_Points_deleted k"
  by (simp_all add: InitializeKDTree_def set_downsample_param_def Set_balance_criterion_param_def
      Set_delete_criterion_param_def)

context selection
begin

lemma history_spec:
  assumes "history nth_element A T k"
  shows "ikd_ok k \<and> A = T + stock k"
  using assms
proof (induction rule: history.induct)
  case (created a b c)
  then show ?case by (simp add: KD_TREE_def ikd_ok_def stock_def points_def gone_def)
next
  case (configured A T k a b c)
  then show ?case by (simp add: ikd_ok_def stock_def points_def gone_def initialize_fields)
next
  case (added A T k ps dflt c k')
  then show ?case using Add_Points_spec [of k ps dflt c k'] by (simp add: ac_simps)
next
  case (points_deleted A T k ps k')
  then show ?case using delete_points_spec [of k ps k'] by simp
next
  case (boxes_deleted A T k bs c k')
  then show ?case using delete_boxes_spec [of k bs c k'] by simp
next
  case (box_searched A T k b found k')
  then show ?case using box_search_spec [of k b found k'] by simp
next
  case (searched A T k d p n max_dist pts ds k')
  then show ?case using nearest_points_keeps [of k d p n max_dist pts ds k'] by simp
next
  case (acquired A T k ps k')
  then show ?case using acquire_spec [of k ps k'] by (simp add: ac_simps)
qed

end

end
