(* ===== verification/Ikd_Samples.thy ===== *)
theory Ikd_Samples
  imports Ikd_Session
begin

text \<open>
  Concrete clouds and trees. \<open>std::nth_element\<close> is taken to be sorting, the criteria are the
  defaults of the constructor.
\<close>

definition at_xyz :: "rat \<Rightarrow> rat \<Rightarrow> rat \<Rightarrow> unit point" where
  "at_xyz x y z = \<lparr>pt_x = Num x, pt_y = Num y, pt_z = Num z, pt_data = ()\<rparr>"

text \<open>An empty tree with the voxel size given, and the slab \<open>a <= x < b\<close>.\<close>

definition sample_empty :: "rat \<Rightarrow> unit ikd" where
  "sample_empty voxel = KD_TREE (Num (1 / 2)) (fround b32 (3 / 5)) (Num voxel)"

definition slab :: "rat \<Rightarrow> rat \<Rightarrow> BoxPointType" where
  "slab a b = \<lparr>box_x = (Num a, Num b), box_y = (Num (- 100), Num 100), box_z = (Num (- 100), Num 100)\<rparr>"

definition no_entry :: "unit PointType_CMP" where
  "no_entry = \<lparr>cmp_point = at_xyz 0 0 0, cmp_dist = Infty False\<rparr>"

definition sample_cloud :: "unit point list" where
  "sample_cloud = [at_xyz 5 0 0, at_xyz 1 2 0, at_xyz 20 0 1]"

definition sample_kd :: "unit ikd" where
  "sample_kd = Build sort_by sample_cloud (sample_empty 1)"

text \<open>Three points with the same \<open>x\<close> among five.\<close>

definition tied_cloud :: "unit point list" where
  "tied_cloud = [at_xyz 1 0 0, at_xyz 1 1 0, at_xyz 1 2 0, at_xyz 8 0 0, at_xyz 9 0 0]"

definition tied_kd :: "unit ikd" where
  "tied_kd = Build sort_by tied_cloud (sample_empty 1)"

section \<open>Evaluation\<close>

text \<open>The samples are evaluated by rewriting: integers are represented exactly, and the radius of a
  node, which no operation here reads, stays as it is.\<close>

text \<open>An equation that unfolds only for a list that is given, for evaluation by rewriting.\<close>

lemma BuildTree_code [code]:
  "BuildTree nth_element [] = Null"
  "BuildTree nth_element (x # xs) =
     (let mid = length xs div 2; div_axis = widest_axis (x # xs);
          storage = take (Suc (length xs)) (nth_element (point_cmp div_axis) mid (x # xs));
          left_son = BuildTree nth_element (take mid storage);
          right_son = BuildTree nth_element (drop (mid + 1) storage)
      in Node (Update (new_node (storage ! mid) div_axis) left_son right_son) left_son right_son)"
  by (simp_all add: BuildTree.simps)

lemma at_xyz_simps [simp]:
  "pt_x (at_xyz x y z) = Num x" "pt_y (at_xyz x y z) = Num y" "pt_z (at_xyz x y z) = Num z"
  "at_xyz x y z = at_xyz x' y' z' \<longleftrightarrow> x = x' \<and> y = y' \<and> z = z'"
  by (auto simp: at_xyz_def)

lemma finite_at_xyz [simp]: "finite_point (at_xyz x y z)"
  by (simp add: finite_point_def)

definition radius_of :: "range \<Rightarrow> range \<Rightarrow> range \<Rightarrow> flt" where
  "radius_of x y z = fadd b32 (fadd b32 (fmul b32 (half_extent x) (half_extent x))
     (fmul b32 (half_extent y) (half_extent y))) (fmul b32 (half_extent z) (half_extent z))"

lemma set_radius_of:
  "set_radius n = n\<lparr>radius_sq := radius_of (node_range_x n) (node_range_y n) (node_range_z n)\<rparr>"
  by (simp add: set_radius_def radius_of_def Let_def)

lemma fround_int:
  assumes "\<bar>i\<bar> < 16777216"
  shows "fround b32 (of_int i) = Num (of_int i)"
proof -
  have "rounded b32 (of_int i) = of_int i" using assms by (intro rounded_of_int) simp_all
  moreover have "\<bar>of_int i\<bar> < (16777216::rat)"
    using assms by (metis of_int_abs of_int_less_iff of_int_numeral)
  ultimately show ?thesis by (simp add: fround_def Let_def)
qed

lemma fround_numeral [simp]:
  "fround b32 1 = Num 1" "fround b32 (- 1) = Num (- 1)"
  "(numeral k :: int) < 16777216 \<Longrightarrow> fround b32 (numeral k) = Num (numeral k)"
  "(numeral k :: int) < 16777216 \<Longrightarrow> fround b32 (- numeral k) = Num (- numeral k)"
  using fround_int [of 1] fround_int [of "- 1"] fround_int [of "numeral k"] fround_int [of "- numeral k"] by simp_all

lemma fround_dyadic:
  assumes "\<bar>i\<bar> < 2 ^ 24" "n \<le> 100"
  shows "fround b32 (of_int i / 2 ^ n) = Num (of_int i / 2 ^ n)"
    and "fround b64 (of_int i / 2 ^ n) = Num (of_int i / 2 ^ n)"
proof -
  let ?x = "of_int i / 2 ^ n :: rat"
  have x: "?x = of_int i * 2 powi (- int n)" by (simp add: power_int_minus divide_simps)
  have r: "rounded b32 ?x = ?x" "rounded b64 ?x = ?x"
    using assms by (auto intro!: rounded_exact [OF x])
  have i: "\<bar>of_int i\<bar> \<le> (2 ^ 24 :: rat)"
    using assms(1) by (metis of_int_abs of_int_le_iff of_int_numeral of_int_power less_imp_le)
  have "\<bar>?x\<bar> = \<bar>of_int i\<bar> / 2 ^ n" by simp
  also have "\<dots> \<le> \<bar>of_int i\<bar> / 1" by (rule divide_left_mono) simp_all
  also have "\<dots> \<le> 2 ^ 60" using i by simp
  finally have "\<bar>?x\<bar> \<le> 2 ^ 60" .
  from fround_b32 [OF this] fround_b64 [OF this] show "fround b32 ?x = Num ?x" "fround b64 ?x = Num ?x"
    unfolding r by blast+
qed

lemma point_cmp_axes: "point_cmp 0 = point_cmp_x" "point_cmp (Suc 0) = point_cmp_y" "point_cmp 2 = point_cmp_z"
  by (simp_all add: point_cmp_def)

lemmas eval_axis = widest_axis_def extent_def fmax_def fmin_def fsub_def Let_def

lemmas eval_build = Build_def BuildTree_code sort_by_def point_cmp_axes point_cmp_x_def point_cmp_y_def
  point_cmp_z_def sample_empty_def KD_TREE_def Let_def

lemmas eval_update = Update_def update2_def update1_def update0_def new_node_def set_radius_of range2_def range1_def
  live_range_def join_def at_coord_def empty_range_def b2i_def fmin_def fmax_def Let_def

lemmas eval_boxes = slab_def disjoint_from_def covering_def misses_def covers_def inside_def in_box_def fle_def

lemmas eval_run = Push_Down_def pushed_def guarded_def finish_def Criterion_Check_def Minimal_Unbalanced_Tree_Size_def
  clear_working_def b2i_def

lemmas eval_points = points_def live_of_def own_mark_def

lemmas eval_dist = EPSS_bounds calc_dist_def same_point_def sqdiff_def fsub_def

lemma sample_axes [simp]:
  "widest_axis [at_xyz x y z] = 0"
  "widest_axis [at_xyz 5 0 0, at_xyz 1 2 0, at_xyz 20 0 1] = 0"
  "widest_axis [at_xyz 1 0 0, at_xyz 1 1 0, at_xyz 1 2 0, at_xyz 8 0 0, at_xyz 9 0 0] = 0"
  "widest_axis [at_xyz 1 0 0, at_xyz 1 1 0] = 1" "widest_axis [at_xyz 8 0 0, at_xyz 9 0 0] = 0"
  by (simp_all add: eval_axis)

section \<open>The samples as states\<close>

lemma sample_history: "history sort_by (mset sample_cloud) {#} sample_kd"
proof -
  have "Add_Points sort_by (at_xyz 0 0 0) sample_cloud False (sample_empty 1) = Inr (0, sample_kd)"
    by (simp add: Add_Points_def sample_empty_def KD_TREE_def sample_kd_def)
  moreover have "\<forall>p \<in> set sample_cloud. finite_point p" by (simp add: sample_cloud_def)
  ultimately show ?thesis
    using history.added [OF history.created, where ps = sample_cloud] unfolding sample_empty_def by fastforce
qed

lemma sample_points: "points sample_kd = mset sample_cloud" "Rebuild_Ptr sample_kd = None"
proof -
  show "points sample_kd = mset sample_cloud"
    unfolding sample_kd_def by (rule sorting.build_ok) (simp add: sample_cloud_def)
  show "Rebuild_Ptr sample_kd = None" by (simp add: sample_kd_def Build_def sample_empty_def KD_TREE_def)
qed

lemma sample_small: "nodes (Root_Node sample_kd) = 3" "small_tree 100 sample_kd"
proof -
  show "nodes (Root_Node sample_kd) = 3"
    by (simp add: sample_kd_def sample_cloud_def eval_build)
  then show "small_tree 100 sample_kd"
    by (simp add: small_tree_def sample_points Multi_Thread_Rebuild_Point_Num_def)
qed

text \<open>A point whose voxel of size 1 is empty.\<close>

definition sample_vox :: BoxPointType where
  "sample_vox = \<lparr>box_x = (Num 7, Num 8), box_y = (Num 7, Num 8), box_z = (Num 7, Num 8)\<rparr>"

lemma sample_voxel: "voxel_box sample_kd (at_xyz 7 7 7) = Inr (sample_vox, 7, 7, 7)"
  by (simp add: voxel_box_def voxel_key_def voxel_range_def Let_def sample_vox_def sample_kd_def Build_def
      sample_empty_def KD_TREE_def trunc_def of_i_def)

lemma sample_voxel_empty: "filter_mset (in_box sample_vox) (mset sample_cloud) = {#}"
  by (simp add: sample_cloud_def eval_boxes sample_vox_def)

lemma sample_added: "\<exists>k'. add_downsampled sort_by (at_xyz 7 7 7) sample_kd = Inr (1, k')"
proof -
  have ok: "ikd_ok sample_kd" using sorting.history_spec [OF sample_history] by blast
  obtain t s where s: "Search_by_range sample_vox (Root_Node sample_kd) = (t, s)" by fastforce
  let ?k = "sample_kd\<lparr>Root_Node := t\<rparr>"
  have "Box_Search sample_vox sample_kd = (s, ?k)" by (simp add: Box_Search_def s)
  note B = box_search_spec [OF ok this]
  have "s = []" using B(1) by (simp add: sample_points sample_voxel_empty)
  moreover have "points ?k \<noteq> {#}" using B(3) by (simp add: sample_points sample_cloud_def)
  then have "t \<noteq> Null" by (auto simp: points_def)
  then obtain k' where "add_point sort_by (at_xyz 7 7 7) ?k = Inr k'"
    using sorting.add_point_returns [OF _ B(2), of "at_xyz 7 7 7"] by auto
  ultimately show ?thesis
    by (simp add: add_downsampled_def sample_voxel faulty_def s Let_def guarded_def sample_points)
qed

section \<open>A row of points in one voxel\<close>

text \<open>Ten points of the voxel of size 128 at the origin; the eleventh, the median, lies below it.\<close>

definition row_half1 :: "unit point list" where
  "row_half1 = [at_xyz 0 0 0, at_xyz 8 0 0, at_xyz 16 0 0, at_xyz 24 0 0, at_xyz 32 0 0]"
definition row_half2 :: "unit point list" where
  "row_half2 = [at_xyz 48 0 0, at_xyz 56 0 0, at_xyz 64 0 0, at_xyz 72 0 0, at_xyz 80 0 0]"
definition row_kd0 :: "unit ikd" where
  "row_kd0 = Build sort_by (row_half1 @ at_xyz 39 (- 1) 0 # row_half2) (sample_empty 128)"

text \<open>The median is deleted; the root keeps its range.\<close>

definition row_kd :: "unit ikd" where
  "row_kd = delete_point sort_by (at_xyz 39 (- 1) 0) row_kd0"
definition row_root :: "unit node" where
  "row_root = delete_found ((Update (new_node (at_xyz 39 (- 1) 0) 0) (BuildTree sort_by row_half1)
     (BuildTree sort_by row_half2))\<lparr>working_flag := True\<rparr>)"

lemma row_axes [simp]:
  "widest_axis (row_half1 @ at_xyz 39 (- 1) 0 # row_half2) = 0"
  "widest_axis row_half1 = 0" "widest_axis row_half2 = 0"
  "widest_axis [at_xyz 0 0 0, at_xyz 8 0 0] = 0" "widest_axis [at_xyz 24 0 0, at_xyz 32 0 0] = 0"
  "widest_axis [at_xyz 48 0 0, at_xyz 56 0 0] = 0" "widest_axis [at_xyz 72 0 0, at_xyz 80 0 0] = 0"
  by (simp_all add: eval_axis row_half1_def row_half2_def)

lemma build_sorted:
  assumes "widest_axis xs = 0" "sorted_wrt (\<lambda>p q. fless (pt_x p) (pt_x q)) xs" "xs = ys @ m # zs"
    "length ys = (length xs - 1) div 2"
  shows "BuildTree sort_by xs = Node (Update (new_node m 0) (BuildTree sort_by ys) (BuildTree sort_by zs))
    (BuildTree sort_by ys) (BuildTree sort_by zs)"
proof -
  have "foldr (insert_by point_cmp_x) xs [] = xs" using assms(2)
  proof (induction xs)
    case (Cons x xs)
    then show ?case by (cases xs) (auto simp: point_cmp_x_def fless_iff)
  qed simp
  then have "sort_by (point_cmp 0) i xs = xs" for i by (simp add: sort_by_def point_cmp_axes)
  moreover have "xs \<noteq> []" using assms(3) by simp
  ultimately show ?thesis
    using assms(1,3,4) by (subst BuildTree.simps) (simp add: Let_def nth_append flip: assms(4))
qed

lemma row_build:
  "BuildTree sort_by (row_half1 @ at_xyz 39 (- 1) 0 # row_half2) =
   Node (Update (new_node (at_xyz 39 (- 1) 0) 0) (BuildTree sort_by row_half1) (BuildTree sort_by row_half2))
     (BuildTree sort_by row_half1) (BuildTree sort_by row_half2)"
  by (rule build_sorted) (simp_all add: row_axes(1), simp_all add: row_half1_def row_half2_def)

text \<open>A tree just built, of points on the \<open>x\<close> axis between \<open>a\<close> and \<open>b\<close>.\<close>

definition fresh_row :: "int \<Rightarrow> rat \<Rightarrow> rat \<Rightarrow> unit tree \<Rightarrow> bool" where
  "fresh_row s a b t \<longleftrightarrow> (\<exists>n l r. t = Node n l r \<and> TreeSize n = s \<and> invalid_point_num n = 0 \<and> down_del_num n = 0 \<and>
     \<not> tree_deleted n \<and> \<not> tree_downsample_deleted n \<and> node_range_x n = (Num a, Num b) \<and>
     node_range_y n = (Num 0, Num 0) \<and> node_range_z n = (Num 0, Num 0))"

lemma fresh_leaf: "fresh_row 1 a a (BuildTree sort_by [at_xyz a 0 0])"
  by (simp add: fresh_row_def eval_build eval_update)

lemma new_node_fields [simp]:
  "point (new_node p i) = p" "point_deleted (new_node p i) = False" "tree_deleted (new_node p i) = False"
  "point_downsample_deleted (new_node p i) = False" "tree_downsample_deleted (new_node p i) = False"
  by (simp_all add: new_node_def)

lemmas eval_ranges = range2_def range1_def join_def at_coord_def fmin_def fmax_def b2i_def

lemma fresh_join:
  assumes "fresh_row s a b l" "fresh_row s' c d r" "b < m" "m < c" "a \<le> b" "c \<le> d"
  shows "fresh_row (s + s' + 1) a d (Node (Update (new_node (at_xyz m 0 0) 0) l r) l r)"
proof -
  obtain n x y where l: "l = Node n x y" "TreeSize n = s" "invalid_point_num n = 0" "down_del_num n = 0"
     "\<not> tree_deleted n" "\<not> tree_downsample_deleted n" "node_range_x n = (Num a, Num b)"
     "node_range_y n = (Num 0, Num 0)" "node_range_z n = (Num 0, Num 0)"
    using assms(1) by (auto simp: fresh_row_def)
  obtain n' x' y' where r: "r = Node n' x' y'" "TreeSize n' = s'" "invalid_point_num n' = 0" "down_del_num n' = 0"
     "\<not> tree_deleted n'" "\<not> tree_downsample_deleted n'" "node_range_x n' = (Num c, Num d)"
     "node_range_y n' = (Num 0, Num 0)" "node_range_z n' = (Num 0, Num 0)"
    using assms(2) by (auto simp: fresh_row_def)
  have "Update (new_node (at_xyz m 0 0) 0) l r = set_radius (update2 (new_node (at_xyz m 0 0) 0) n n')"
    by (simp add: Update_def l r)
  then show ?thesis using l r assms(3-6) by (simp add: fresh_row_def update_range_fields eval_ranges)
qed

lemma fresh_right:
  assumes "fresh_row s' c d r" "m < c" "c \<le> d"
  shows "fresh_row (s' + 1) m d (Node (Update (new_node (at_xyz m 0 0) 0) Null r) Null r)"
proof -
  obtain n' x' y' where r: "r = Node n' x' y'" "TreeSize n' = s'" "invalid_point_num n' = 0" "down_del_num n' = 0"
     "\<not> tree_deleted n'" "\<not> tree_downsample_deleted n'" "node_range_x n' = (Num c, Num d)"
     "node_range_y n' = (Num 0, Num 0)" "node_range_z n' = (Num 0, Num 0)"
    using assms(1) by (auto simp: fresh_row_def)
  have "Update (new_node (at_xyz m 0 0) 0) Null r = set_radius (update1 (new_node (at_xyz m 0 0) 0) n')"
    by (simp add: Update_def r)
  then show ?thesis using r assms(2,3) by (simp add: fresh_row_def update_range_fields eval_ranges)
qed

lemma fresh_pair:
  assumes "widest_axis [at_xyz a 0 0, at_xyz b 0 0] = 0" "a < b"
  shows "fresh_row 2 a b (BuildTree sort_by [at_xyz a 0 0, at_xyz b 0 0])"
proof -
  have "BuildTree sort_by [at_xyz a 0 0, at_xyz b 0 0] =
    Node (Update (new_node (at_xyz a 0 0) 0) Null (BuildTree sort_by [at_xyz b 0 0])) Null (BuildTree sort_by [at_xyz b 0 0])"
    using assms by (subst BuildTree.simps) (simp add: sort_by_def point_cmp_axes point_cmp_x_def Let_def BuildTree.simps)
  then show ?thesis using fresh_right [OF fresh_leaf assms(2)] by simp
qed

lemma fresh_five:
  assumes "widest_axis [at_xyz a 0 0, at_xyz b 0 0, at_xyz c 0 0, at_xyz d 0 0, at_xyz e 0 0] = 0"
    "widest_axis [at_xyz a 0 0, at_xyz b 0 0] = 0" "widest_axis [at_xyz d 0 0, at_xyz e 0 0] = 0"
    "a < b" "b < c" "c < d" "d < e"
  shows "fresh_row 5 a e (BuildTree sort_by [at_xyz a 0 0, at_xyz b 0 0, at_xyz c 0 0, at_xyz d 0 0, at_xyz e 0 0])"
proof -
  let ?l = "BuildTree sort_by [at_xyz a 0 0, at_xyz b 0 0]" and ?r = "BuildTree sort_by [at_xyz d 0 0, at_xyz e 0 0]"
  have "BuildTree sort_by [at_xyz a 0 0, at_xyz b 0 0, at_xyz c 0 0, at_xyz d 0 0, at_xyz e 0 0] =
    Node (Update (new_node (at_xyz c 0 0) 0) ?l ?r) ?l ?r"
    using assms by (subst BuildTree.simps) (simp add: sort_by_def point_cmp_axes point_cmp_x_def Let_def)
  then show ?thesis
    using fresh_join [OF fresh_pair [OF assms(2,4)] fresh_pair [OF assms(3,7)], of c] assms by simp
qed

lemma row_sons: "fresh_row 5 0 32 (BuildTree sort_by row_half1)" "fresh_row 5 48 80 (BuildTree sort_by row_half2)"
  using row_axes unfolding row_half1_def row_half2_def by (auto intro!: fresh_five)

lemma row_root:
  "Root_Node row_kd = Node row_root (BuildTree sort_by row_half1) (BuildTree sort_by row_half2)"
  "Rebuild_Ptr row_kd = None" "delete_criterion_param row_kd = Num (1 / 2)"
  "downsample_size row_kd = Num 128" "inv_downsample_size row_kd = Num (1 / 128)"
proof -
  obtain n1 l1 r1 where e: "BuildTree sort_by row_half1 = Node n1 l1 r1" using row_sons(1) by (auto simp: fresh_row_def)
  obtain n2 l2 r2 where f: "BuildTree sort_by row_half2 = Node n2 l2 r2" using row_sons(2) by (auto simp: fresh_row_def)
  have d: "fdiv b32 (Num 1) (Num 128) = Num (1 / 128)" by code_simp
  have "\<not> tree_deleted (Update (new_node (at_xyz 39 (- 1) 0) 0) (BuildTree sort_by row_half1) (BuildTree sort_by row_half2))"
    "\<not> point_deleted (Update (new_node (at_xyz 39 (- 1) 0) 0) (BuildTree sort_by row_half1) (BuildTree sort_by row_half2))"
    by (simp_all add: e f Update_def update2_def new_node_def set_radius_of Let_def)
  moreover have "same_point (at_xyz 39 (- 1) 0) (at_xyz 39 (- 1) 0)" by (simp add: same_point_self)
  ultimately have "Delete_by_point sort_by (at_xyz 39 (- 1) 0) True (Root_Node row_kd0) row_kd0 =
    (Node row_root (BuildTree sort_by row_half1) (BuildTree sort_by row_half2), row_kd0)"
    unfolding row_kd0_def row_root_def Build_def
    by (simp add: row_build Push_Down_def)
  then show "Root_Node row_kd = Node row_root (BuildTree sort_by row_half1) (BuildTree sort_by row_half2)"
    "Rebuild_Ptr row_kd = None" "delete_criterion_param row_kd = Num (1 / 2)"
    "downsample_size row_kd = Num 128" "inv_downsample_size row_kd = Num (1 / 128)"
    using d by (simp_all add: row_kd_def delete_point_def row_kd0_def Build_def sample_empty_def KD_TREE_def)
qed

lemma row_fields:
  "\<not> tree_deleted row_root" "node_range_y row_root = (Num (- 1), Num 0)" "TreeSize row_root = 11"
  "need_push_down_to_left row_root = False" "need_push_down_to_right row_root = False" "point_deleted row_root"
proof -
  obtain n1 l1 r1 where e: "BuildTree sort_by row_half1 = Node n1 l1 r1" "TreeSize n1 = 5" "node_range_y n1 = (Num 0, Num 0)"
    "\<not> tree_deleted n1" "invalid_point_num n1 = 0"
    using row_sons(1) by (auto simp: fresh_row_def)
  obtain n2 l2 r2 where f: "BuildTree sort_by row_half2 = Node n2 l2 r2" "TreeSize n2 = 5" "node_range_y n2 = (Num 0, Num 0)"
    "\<not> tree_deleted n2" "invalid_point_num n2 = 0"
    using row_sons(2) by (auto simp: fresh_row_def)
  have u: "Update (new_node (at_xyz 39 (- 1) 0) 0) (BuildTree sort_by row_half1) (BuildTree sort_by row_half2) =
    set_radius (update2 (new_node (at_xyz 39 (- 1) 0) 0) n1 n2)" by (simp add: Update_def e f)
  show "\<not> tree_deleted row_root" "node_range_y row_root = (Num (- 1), Num 0)" "TreeSize row_root = 11"
    "need_push_down_to_left row_root = False" "need_push_down_to_right row_root = False" "point_deleted row_root"
    unfolding row_root_def u delete_found_def
    using e f by (simp_all add: Let_def update_range_fields eval_ranges set_radius_of new_node_def update2_def)
qed

lemma build_points: "live_of (content (BuildTree sort_by xs)) = mset xs" if "\<forall>p \<in> set xs. finite_point p"
  for xs :: "unit point list"
  using sorting.build_ok(2) [OF that, of "sample_empty 1"] by (simp add: points_def Build_def)

lemma row_points: "points row_kd = mset row_half1 + mset row_half2"
proof -
  have "\<forall>p \<in> set row_half1. finite_point p" "\<forall>p \<in> set row_half2. finite_point p"
    by (simp_all add: row_half1_def row_half2_def)
  from this [THEN build_points] show ?thesis
    by (simp add: points_def row_root row_fields own_mark_def)
qed

lemma row_history: "history sort_by (mset (row_half1 @ at_xyz 39 (- 1) 0 # row_half2)) {#} row_kd"
proof -
  have "Add_Points sort_by (at_xyz 0 0 0) (row_half1 @ at_xyz 39 (- 1) 0 # row_half2) False (sample_empty 128) = Inr (0, row_kd0)"
    by (simp add: Add_Points_def sample_empty_def KD_TREE_def row_kd0_def)
  moreover have "\<forall>p \<in> set (row_half1 @ at_xyz 39 (- 1) 0 # row_half2). finite_point p"
    by (simp add: row_half1_def row_half2_def)
  ultimately have "history sort_by (mset (row_half1 @ at_xyz 39 (- 1) 0 # row_half2)) {#} row_kd0"
    using history.added [OF history.created, where ps = "row_half1 @ at_xyz 39 (- 1) 0 # row_half2"]
    unfolding sample_empty_def by fastforce
  moreover have "Rebuild_Ptr row_kd0 = None" by (simp add: row_kd0_def Build_def sample_empty_def KD_TREE_def)
  then have "Delete_Points sort_by [at_xyz 39 (- 1) 0] row_kd0 = Inr row_kd"
    by (simp add: row_kd_def guarded_def)
  ultimately show ?thesis by (rule history.points_deleted)
qed

definition row_box :: BoxPointType where
  "row_box = \<lparr>box_x = (Num 0, Num 128), box_y = (Num 0, Num 128), box_z = (Num 0, Num 128)\<rparr>"

lemma row_voxel:
  "voxel_box row_kd (at_xyz 64 63 64) = Inr (row_box, 0, 0, 0)"
  "voxel_middle row_kd (at_xyz 64 63 64) (0, 0, 0) = at_xyz 64 64 64"
proof -
  have half: "fround b32 (1 / 2) = Num (1 / 2)" and some: "fround b32 (63 / 128) = Num (63 / 128)"
    using fround_dyadic(1) [of 1 1] fround_dyadic(1) [of 63 7] by simp_all
  have "to_int (ffloor (fmul b32 (Num 64) (Num (1 / 128)))) = Inr 0"
    "to_int (ffloor (fmul b32 (Num 63) (Num (1 / 128)))) = Inr 0"
    "fadd b32 (fmul b32 (of_i b32 0) (Num 128)) (Num 128) = Num 128" "fmul b32 (of_i b32 0) (Num 128) = Num 0"
    by (simp_all add: half some trunc_def of_i_def floor_eq_iff)
  then show "voxel_box row_kd (at_xyz 64 63 64) = Inr (row_box, 0, 0, 0)"
    by (simp add: voxel_box_def voxel_key_def row_root voxel_range_def Let_def row_box_def)
  have "fround b64 (1 / 2) = Num (1 / 2)" "fround b64 64 = Num 64"
    using fround_dyadic(2) [of 1 1] fround_dyadic(2) [of 64 0] by simp_all
  then have "fconv b32 (fmul b64 (fadd b64 (Num 0) (Num (1 / 2))) (Num 128)) = Num 64" by simp
  then show "voxel_middle row_kd (at_xyz 64 63 64) (0, 0, 0) = at_xyz 64 64 64"
    by (simp add: voxel_middle_def voxel_mid_def row_root)
qed

lemma row_inside:
  "\<forall>x \<in># points row_kd. in_box row_box x" "\<not> covering row_box row_root"
  "covered row_box (BuildTree sort_by row_half1)" "covered row_box (BuildTree sort_by row_half2)"
  "\<forall>x \<in># points row_kd. \<not> fless (calc_dist x (at_xyz 64 64 64)) (calc_dist (at_xyz 64 63 64) (at_xyz 64 64 64))"
  using row_sons
  by (auto simp: row_points row_half1_def row_half2_def row_box_def eval_boxes row_fields fresh_row_def eval_dist)

end
