(* ===== verification/Lio_Preprocess.thy ===== *)
theory Lio_Preprocess
  imports Ikd_Tree
begin

text \<open>
  The class \<open>Preprocess\<close> of the LiDAR odometry (\<open>preprocess.h\<close>, \<open>preprocess.cpp\<close>): one handler per
  sensor turns a message into the cloud \<open>pl_surf\<close> of the returns that are kept. A message is the
  list of its points, as \<open>pcl::fromROSMsg\<close> or the Livox driver fills it; the point records have the
  fields the handlers read. \<open>atan2\<close> on \<open>float\<close> is a parameter. The vector \<open>yaw_last\<close> and the first
  and last yaw of a Velodyne scan are computed by the code and never read: they are left out.
\<close>

section \<open>Points and parameters\<close>

text \<open>\<open>pcl::PointXYZINormal\<close>; the last field is used as the time of the point within its scan, in
  milliseconds.\<close>

record lidar_data =
  intensity :: flt
  normal_x :: flt
  normal_y :: flt
  normal_z :: flt
  curvature :: flt

type_synonym PointType = "lidar_data point"

type_synonym V3D = "flt \<times> flt \<times> flt"

definition lidar_point :: "flt \<Rightarrow> flt \<Rightarrow> flt \<Rightarrow> flt \<Rightarrow> flt \<Rightarrow> PointType" where
  "lidar_point x y z i c = \<lparr>pt_x = x, pt_y = y, pt_z = z,
     pt_data = \<lparr>intensity = i, normal_x = Num 0, normal_y = Num 0, normal_z = Num 0, curvature = c\<rparr>\<rparr>"

definition default_point :: PointType where
  "default_point = lidar_point (Num 0) (Num 0) (Num 0) (Num 0) (Num 0)"

record lidar_param =
  lidar_type :: int
  point_filter_num :: int
  N_SCANS :: int
  SCAN_RATE :: int
  time_unit :: int
  time_unit_scale :: flt
  blind :: flt

text \<open>The arrays of two elements are indexed by the number of the sensor, 0 or 1.\<close>

record Preprocess =
  param :: "nat \<Rightarrow> lidar_param"
  pl_full :: "PointType list"
  pl_surf :: "PointType list"
  given_offset_time :: bool

text \<open>The constructor leaves \<open>time_unit_scale\<close> uninitialised, with the value given.\<close>

definition new_Preprocess :: "(nat \<Rightarrow> flt) \<Rightarrow> Preprocess" where
  "new_Preprocess scale = \<lparr>param = (\<lambda>n. \<lparr>lidar_type = 1, point_filter_num = 3, N_SCANS = 6, SCAN_RATE = 10,
       time_unit = 2, time_unit_scale = scale n, blind = fround b64 (1 / 10)\<rparr>),
     pl_full = [], pl_surf = [], given_offset_time = False\<rparr>"

definition unit_scale :: "int \<Rightarrow> flt" where
  "unit_scale u = (if u = 0 then Num 1000 else if u = 1 then Num 1 else if u = 2 then fround b32 (1 / 1000)
     else if u = 3 then fround b32 (1 / 1000000) else Num 1)"

definition set_units :: "Preprocess \<Rightarrow> Preprocess" where
  "set_units P = P\<lparr>param := (\<lambda>n. (param P n)\<lparr>time_unit_scale := unit_scale (time_unit (param P n))\<rparr>)\<rparr>"

definition norm2 :: "PointType \<Rightarrow> flt" where
  "norm2 p = fadd b32 (fadd b32 (fmul b32 (pt_x p) (pt_x p)) (fmul b32 (pt_y p) (pt_y p))) (fmul b32 (pt_z p) (pt_z p))"

definition blind2 :: "lidar_param \<Rightarrow> flt" where
  "blind2 c = fmul b64 (blind c) (blind c)"

text \<open>A loop over the indices of a list whose body can fail.\<close>

fun for_each :: "('i \<Rightarrow> 's \<Rightarrow> ub + 's) \<Rightarrow> 'i list \<Rightarrow> 's \<Rightarrow> ub + 's" where
  "for_each f [] s = Inr s"
| "for_each f (i # is) s = bind_ub (f i s) (for_each f is)"

lemma for_each_append: "for_each f (is @ js) s = bind_ub (for_each f is s) (for_each f js)"
proof (induction "is" arbitrary: s)
  case (Cons i "is")
  then show ?case by (cases "f i s") simp_all
qed simp

section \<open>Livox\<close>

record CustomPoint =
  offset_time :: u32
  cp_x :: flt
  cp_y :: flt
  cp_z :: flt
  reflectivity :: u8
  cp_tag :: u8
  cp_line :: u8

record CustomMsg =
  point_num :: u32
  msg_points :: "CustomPoint list"

definition valid_return :: "lidar_param \<Rightarrow> CustomPoint \<Rightarrow> bool" where
  "valid_return c p \<longleftrightarrow> uint (cp_line p) < N_SCANS c \<and> (cp_tag p AND 0x30 = 0x10 \<or> cp_tag p AND 0x30 = 0x00)"

definition avia_point :: "CustomPoint \<Rightarrow> PointType" where
  "avia_point p = lidar_point (cp_x p) (cp_y p) (cp_z p) (Num (of_int (uint (reflectivity p))))
     (fdiv b32 (of_i b32 (uint (offset_time p))) (Num 1000000))"

text \<open>\<open>valid_num % point_filter_num\<close>, an unsigned remainder.\<close>

definition umod :: "u32 \<Rightarrow> int \<Rightarrow> ub + u32" where
  "umod v n = (if word_of_int n = (0 :: u32) then Inl DivByZero else Inr (v mod word_of_int n))"

definition tiny :: flt where "tiny = fround b64 (1 / 10 ^ 7)"

definition moved :: "PointType \<Rightarrow> PointType \<Rightarrow> bool" where
  "moved a b \<longleftrightarrow> fless tiny (fabs (fsub b32 (pt_x a) (pt_x b))) \<or> fless tiny (fabs (fsub b32 (pt_y a) (pt_y b))) \<or>
     fless tiny (fabs (fsub b32 (pt_z a) (pt_z b)))"

definition avia_step :: "lidar_param \<Rightarrow> CustomPoint list \<Rightarrow> nat \<Rightarrow>
    u32 \<times> PointType list \<times> PointType list \<Rightarrow> ub + u32 \<times> PointType list \<times> PointType list" where
  "avia_step c ps i = (\<lambda>(valid_num, full, surf).
     if length ps \<le> i then Inl OutOfRange
     else if valid_return c (ps ! i) then
       bind_ub (umod (valid_num + 1) (point_filter_num c)) (\<lambda>r.
         if r = 0 then
           let p = avia_point (ps ! i); full = full[i := p]
           in Inr (valid_num + 1, full,
                   if moved p (full ! (i - 1)) \<and> fless (blind2 c) (norm2 p) then surf @ [p] else surf)
         else Inr (valid_num + 1, full, surf))
     else Inr (valid_num, full, surf))"

definition avia_handler :: "nat \<Rightarrow> CustomMsg \<Rightarrow> Preprocess \<Rightarrow> ub + Preprocess" where
  "avia_handler lidar_num msg P =
     (let c = param P lidar_num; plsize = sint (point_num msg)
      in if plsize < 0 then Inl LengthError
         else if 128 < N_SCANS c then Inl OutOfRange
         else bind_ub (for_each (avia_step c (msg_points msg)) [1..<nat plsize]
                         (0, replicate (nat plsize) default_point, []))
                (\<lambda>(_, full, surf). Inr (P\<lparr>pl_full := full, pl_surf := surf\<rparr>)))"

section \<open>Ouster\<close>

record ouster_point =
  os_x :: flt
  os_y :: flt
  os_z :: flt
  os_intensity :: flt
  os_t :: u32

definition ouster_out :: "lidar_param \<Rightarrow> ouster_point \<Rightarrow> PointType" where
  "ouster_out c p = lidar_point (os_x p) (os_y p) (os_z p) (os_intensity p)
     (fmul b32 (of_i b32 (uint (os_t p))) (time_unit_scale c))"

definition oust64_step :: "lidar_param \<Rightarrow> ouster_point list \<Rightarrow> nat \<Rightarrow> PointType list \<Rightarrow> ub + PointType list" where
  "oust64_step c ps i surf =
     (if point_filter_num c = 0 then Inl DivByZero
      else if int i mod point_filter_num c \<noteq> 0 then Inr surf
      else let p = ouster_out c (ps ! i)
           in if fless (norm2 p) (blind2 c) then Inr surf else Inr (surf @ [p]))"

definition oust64_handler :: "nat \<Rightarrow> ouster_point list \<Rightarrow> Preprocess \<Rightarrow> ub + Preprocess" where
  "oust64_handler lidar_num ps P =
     bind_ub (for_each (oust64_step (param P lidar_num) ps) [0..<length ps] [])
       (\<lambda>surf. Inr (P\<lparr>pl_full := [], pl_surf := surf\<rparr>))"

section \<open>Velodyne\<close>

record velodyne_point =
  vl_x :: flt
  vl_y :: flt
  vl_z :: flt
  vl_intensity :: flt
  vl_time :: flt
  vl_ring :: u16

text \<open>What the loop keeps per ring when the points carry no time.\<close>

record rings =
  is_first :: "bool list"
  yaw_fp :: "flt list"
  time_last :: "flt list"

definition velodyne_out :: "lidar_param \<Rightarrow> velodyne_point \<Rightarrow> PointType" where
  "velodyne_out c p = lidar_point (vl_x p) (vl_y p) (vl_z p) (vl_intensity p)
     (fmul b32 (vl_time p) (time_unit_scale c))"

definition with_time :: "PointType \<Rightarrow> flt \<Rightarrow> PointType" where
  "with_time p t = p\<lparr>pt_data := (pt_data p)\<lparr>curvature := t\<rparr>\<rparr>"

text \<open>The time of a return from the angle swept since the first return of its ring.\<close>

definition swept_time :: "flt \<Rightarrow> flt \<Rightarrow> flt \<Rightarrow> flt \<Rightarrow> flt" where
  "swept_time omega_l fp prev yaw =
     (let t = fconv b32 (if fle yaw fp then fdiv b64 (fsub b64 fp yaw) omega_l
                         else fdiv b64 (fadd b64 (fsub b64 fp yaw) (Num 360)) omega_l)
      in if fless t prev then fconv b32 (fadd b64 t (fdiv b64 (Num 360) omega_l)) else t)"

text \<open>The time of a return, or nothing for the first one of its ring.\<close>

definition ring_time :: "(flt \<Rightarrow> flt \<Rightarrow> flt) \<Rightarrow> flt \<Rightarrow> velodyne_point \<Rightarrow> rings \<Rightarrow> ub + flt option \<times> rings" where
  "ring_time atan2 omega_l p s =
     (let layer = unat (vl_ring p); yaw = fmul b64 (atan2 (vl_y p) (vl_x p)) (fround b64 (572957 / 10000))
      in if length (is_first s) \<le> layer then Inl OutOfRange
         else if is_first s ! layer then
           Inr (None, s\<lparr>yaw_fp := (yaw_fp s)[layer := yaw], is_first := (is_first s)[layer := False],
                        time_last := (time_last s)[layer := Num 0]\<rparr>)
         else let t = swept_time omega_l (yaw_fp s ! layer) (time_last s ! layer) yaw
              in Inr (Some t, s\<lparr>time_last := (time_last s)[layer := t]\<rparr>))"

definition thin :: "lidar_param \<Rightarrow> nat \<Rightarrow> PointType \<Rightarrow> PointType list \<Rightarrow> ub + PointType list" where
  "thin c i p surf =
     (if point_filter_num c = 0 then Inl DivByZero
      else if int i mod point_filter_num c = 0 \<and> fless (blind2 c) (norm2 p) then Inr (surf @ [p])
      else Inr surf)"

definition velodyne_step :: "(flt \<Rightarrow> flt \<Rightarrow> flt) \<Rightarrow> bool \<Rightarrow> flt \<Rightarrow> lidar_param \<Rightarrow> velodyne_point list \<Rightarrow> nat \<Rightarrow>
    rings \<times> PointType list \<Rightarrow> ub + rings \<times> PointType list" where
  "velodyne_step atan2 given omega_l c ps i = (\<lambda>(s, surf).
     let p = velodyne_out c (ps ! i)
     in if given then bind_ub (thin c i p surf) (\<lambda>surf. Inr (s, surf))
        else bind_ub (ring_time atan2 omega_l (ps ! i) s) (\<lambda>(t, s).
          case t of None \<Rightarrow> Inr (s, surf)
          | Some t \<Rightarrow> bind_ub (thin c i (with_time p t) surf) (\<lambda>surf. Inr (s, surf))))"

definition velodyne_handler :: "(flt \<Rightarrow> flt \<Rightarrow> flt) \<Rightarrow> nat \<Rightarrow> velodyne_point list \<Rightarrow> Preprocess \<Rightarrow> ub + Preprocess" where
  "velodyne_handler atan2 lidar_num ps P =
     (let c = param P lidar_num; P = P\<lparr>pl_full := [], pl_surf := []\<rparr>
      in if ps = [] then Inr P
         else if N_SCANS c < 0 then Inl LengthError
         else let n = nat (N_SCANS c); given = fless (Num 0) (vl_time (last ps));
                  omega_l = fmul b64 (fround b64 (361 / 1000)) (of_i b64 (SCAN_RATE c))
              in bind_ub (for_each (velodyne_step atan2 given omega_l c ps) [0..<length ps]
                   (\<lparr>is_first = replicate n True, yaw_fp = replicate n (Num 0), time_last = replicate n (Num 0)\<rparr>, []))
                   (\<lambda>(_, surf). Inr (P\<lparr>pl_surf := surf, given_offset_time := given\<rparr>)))"

section \<open>\<open>process\<close>\<close>

text \<open>A \<open>sensor_msgs::PointCloud2\<close> read as points of the type the handler asks for.\<close>

record PointCloud2 =
  as_ouster :: "ouster_point list"
  as_velodyne :: "velodyne_point list"

text \<open>The two overloads: the message is handled and \<open>pl_surf\<close> is copied out.\<close>

definition process_custom :: "nat \<Rightarrow> CustomMsg \<Rightarrow> Preprocess \<Rightarrow> ub + PointType list \<times> Preprocess" where
  "process_custom lidar_num msg P = bind_ub (avia_handler lidar_num msg P) (\<lambda>P. Inr (pl_surf P, P))"

definition process_cloud2 :: "(flt \<Rightarrow> flt \<Rightarrow> flt) \<Rightarrow> nat \<Rightarrow> PointCloud2 \<Rightarrow> Preprocess \<Rightarrow> ub + PointType list \<times> Preprocess" where
  "process_cloud2 atan2 lidar_num msg P =
     bind_ub (if lidar_type (param P lidar_num) = 3 then oust64_handler lidar_num (as_ouster msg) P
              else if lidar_type (param P lidar_num) = 2 then velodyne_handler atan2 lidar_num (as_velodyne msg) P
              else Inr P)
       (\<lambda>P. Inr (pl_surf P, P))"

section \<open>The Livox handler against a reference\<close>

text \<open>Every \<open>k\<close>-th element of a list.\<close>

definition every :: "nat \<Rightarrow> 'a list \<Rightarrow> 'a list" where
  "every k xs = nths xs {j. k dvd Suc j}"

lemma every_simps [simp]:
  "every k [] = []"
  "every k (xs @ [x]) = every k xs @ (if k dvd Suc (length xs) then [x] else [])"
  by (simp_all add: every_def nths_append)

text \<open>What is kept: of the valid returns after the first point every \<open>point_filter_num\<close>-th, when it is
  not at the origin and outside the blind sphere.\<close>

definition avia_reference :: "lidar_param \<Rightarrow> CustomPoint list \<Rightarrow> PointType list" where
  "avia_reference c ps =
     filter (\<lambda>p. moved p default_point \<and> fless (blind2 c) (norm2 p))
       (map avia_point (every (nat (point_filter_num c)) (filter (valid_return c) ps)))"

lemma avia_reference_snoc:
  "avia_reference c (ps @ [p]) = avia_reference c ps @
     (if valid_return c p \<and> nat (point_filter_num c) dvd Suc (length (filter (valid_return c) ps)) \<and>
         moved (avia_point p) default_point \<and> fless (blind2 c) (norm2 (avia_point p)) then [avia_point p] else [])"
  by (simp add: avia_reference_def)

lemma umod_dvd:
  assumes "0 < k" "k < 2 ^ 31"
  shows "\<exists>r. umod v k = Inr r \<and> (r = 0 \<longleftrightarrow> nat k dvd unat v)"
proof -
  have u: "unat (word_of_int k :: u32) = nat k"
    using assms by (simp add: unat_eq_nat_uint uint_word_of_int)
  then have "word_of_int k \<noteq> (0 :: u32)" using assms by auto
  moreover have "v mod word_of_int k = 0 \<longleftrightarrow> unat (v mod word_of_int k) = 0" by (simp add: unat_eq_zero)
  then have "v mod word_of_int k = 0 \<longleftrightarrow> nat k dvd unat v" by (simp only: unat_mod u dvd_eq_mod_eq_0)
  ultimately show ?thesis by (simp add: umod_def)
qed

text \<open>With a filter of two or more, the point before one that is kept was not kept: the comparison is
  with a point that \<open>resize\<close> left at the origin.\<close>

lemma avia_loop:
  assumes k: "2 \<le> point_filter_num c" "point_filter_num c < 2 ^ 31"
    and m: "1 \<le> m" "m \<le> length ps" "m \<le> n" "m < 2 ^ 31"
  shows "\<exists>v full. for_each (avia_step c ps) [1..<m] (0, replicate n default_point, []) =
      Inr (v, full, avia_reference c (drop 1 (take m ps))) \<and>
    unat v = length (filter (valid_return c) (drop 1 (take m ps))) \<and> length full = n \<and>
    (\<forall>j. m \<le> j \<and> j < n \<longrightarrow> full ! j = default_point) \<and>
    (full ! (m - 1) \<noteq> default_point \<longrightarrow> nat (point_filter_num c) dvd unat v)"
  using m
proof (induction m rule: nat_induct_at_least)
  case base
  have "drop 1 (take 1 ps) = []" by simp
  then show ?case using base by (simp add: avia_reference_def)
next
  case (Suc m)
  define V where "V = filter (valid_return c) (drop 1 (take m ps))"
  define k where "k = nat (point_filter_num c)"
  obtain v full where IH: "for_each (avia_step c ps) [1..<m] (0, replicate n default_point, []) =
      Inr (v, full, avia_reference c (drop 1 (take m ps)))"
    "unat v = length V" "length full = n" "\<forall>j. m \<le> j \<and> j < n \<longrightarrow> full ! j = default_point"
    "full ! (m - 1) \<noteq> default_point \<longrightarrow> k dvd unat v"
    using Suc unfolding V_def k_def by auto
  have next_point: "drop 1 (take (Suc m) ps) = drop 1 (take m ps) @ [ps ! m]"
    using Suc by (simp add: take_Suc_conv_app_nth)
  have "length V \<le> m" unfolding V_def by (rule order_trans [OF length_filter_le]) simp
  then have v1: "unat (v + 1) = Suc (length V)" using IH(2) Suc by (simp add: unat_word_ariths)
  obtain r where r: "umod (v + 1) (point_filter_num c) = Inr r" "r = 0 \<longleftrightarrow> k dvd Suc (length V)"
    using umod_dvd [of "point_filter_num c" "v + 1"] k v1 by (auto simp: k_def)
  have two: "2 \<le> k" using k by (simp add: k_def)
  have before: "full ! (m - 1) = default_point" if "k dvd Suc (length V)"
  proof (rule ccontr)
    assume "\<not> ?thesis"
    then have "k dvd length V" using IH(2,5) by simp
    then have "k dvd 1" using that by (metis dvd_add_right_iff Suc_eq_plus1)
    then show False using two by simp
  qed
  have split: "[1..<Suc m] = [1..<m] @ [m]" using Suc by simp
  have loop: "for_each (avia_step c ps) [1..<Suc m] (0, replicate n default_point, []) =
      avia_step c ps m (v, full, avia_reference c (drop 1 (take m ps)))"
    unfolding split for_each_append IH(1)
    by (cases "avia_step c ps m (v, full, avia_reference c (drop 1 (take m ps)))") simp_all
  have sizes: "m < length ps" "m < n" "0 < m" using Suc by simp_all
  have goal: ?case if "avia_step c ps m (v, full, avia_reference c (drop 1 (take m ps))) =
      Inr (v', full', avia_reference c (drop 1 (take m ps) @ [ps ! m]))"
    "unat v' = length (filter (valid_return c) (drop 1 (take m ps) @ [ps ! m]))" "length full' = n"
    "\<forall>j. Suc m \<le> j \<and> j < n \<longrightarrow> full' ! j = default_point" "full' ! m \<noteq> default_point \<longrightarrow> k dvd unat v'" for v' full'
    unfolding loop next_point using that by (intro exI [of _ v'] exI [of _ full']) (simp add: k_def)
  let ?p = "avia_point (ps ! m)"
  consider "\<not> valid_return c (ps ! m)" | "valid_return c (ps ! m)" "\<not> k dvd Suc (length V)"
    | "valid_return c (ps ! m)" "k dvd Suc (length V)" by blast
  then show ?case
  proof cases
    case 1
    then show ?thesis using IH(2-4) sizes
      by (intro goal [of v full]) (simp_all add: avia_step_def avia_reference_snoc V_def [symmetric, simplified])
  next
    case 2
    then show ?thesis using IH(2-4) sizes v1 r
      by (intro goal [of "v + 1" full]) (simp_all add: avia_step_def avia_reference_snoc V_def [symmetric, simplified] k_def [symmetric])
  next
    case 3
    have "full[m := ?p] ! (m - 1) = default_point" using before 3 sizes by simp
    then show ?thesis using IH(2-4) sizes v1 r 3
      by (intro goal [of "v + 1" "full[m := ?p]"])
        (simp_all add: avia_step_def avia_reference_snoc V_def [symmetric, simplified] k_def [symmetric] Let_def)
  qed
qed

lemma avia_handler_reference:
  assumes "2 \<le> point_filter_num (param P n)" "point_filter_num (param P n) < 2 ^ 31" "N_SCANS (param P n) \<le> 128"
    and "0 \<le> sint (point_num msg)" "sint (point_num msg) \<le> int (length (msg_points msg))"
  shows "\<exists>full. avia_handler n msg P = Inr (P\<lparr>pl_full := full,
    pl_surf := avia_reference (param P n) (drop 1 (take (nat (sint (point_num msg))) (msg_points msg)))\<rparr>)"
proof (cases "nat (sint (point_num msg)) = 0")
  case True
  then show ?thesis using assms by (intro exI [of _ "[]"]) (simp add: avia_handler_def Let_def avia_reference_def)
next
  case False
  define N where "N = nat (sint (point_num msg))"
  have "sint (point_num msg) < 2 ^ 31" using sint_lt [of "point_num msg"] by simp
  then have N: "1 \<le> N" "N \<le> length (msg_points msg)" "N \<le> N" "N < 2 ^ 31" using assms(4,5) False by (simp_all add: N_def)
  obtain v full where "for_each (avia_step (param P n) (msg_points msg)) [1..<N]
      (0, replicate N default_point, []) = Inr (v, full, avia_reference (param P n) (drop 1 (take N (msg_points msg))))"
    using avia_loop [OF assms(1,2) N] by blast
  then show ?thesis using assms by (intro exI [of _ full]) (simp add: avia_handler_def Let_def N_def)
qed

section \<open>The other handlers\<close>

text \<open>Every \<open>k\<close>-th element, the first one included.\<close>

definition strided :: "int \<Rightarrow> 'a list \<Rightarrow> 'a list" where
  "strided k xs = nths xs {i. int i mod k = 0}"

lemma strided_simps [simp]:
  "strided k [] = []" "strided k (xs @ [x]) = strided k xs @ (if int (length xs) mod k = 0 then [x] else [])"
  by (simp_all add: strided_def nths_append)

lemma for_each_take:
  assumes "m \<le> length ps" "\<And>i. i < length ps \<Longrightarrow> f i (S (take i ps)) = Inr (S (take i ps @ [ps ! i]))"
  shows "for_each f [0..<m] (S []) = Inr (S (take m ps))"
  using assms(1)
proof (induction m)
  case (Suc m)
  then show ?case using assms(2) [of m] by (simp add: for_each_append take_Suc_conv_app_nth)
qed simp

lemma oust64_handler_reference:
  assumes "point_filter_num (param P n) \<noteq> 0"
  shows "oust64_handler n ps P = Inr (P\<lparr>pl_full := [], pl_surf :=
    filter (\<lambda>p. \<not> fless (norm2 p) (blind2 (param P n)))
      (map (ouster_out (param P n)) (strided (point_filter_num (param P n)) ps))\<rparr>)"
proof -
  let ?c = "param P n"
  let ?S = "\<lambda>ps. filter (\<lambda>p. \<not> fless (norm2 p) (blind2 ?c)) (map (ouster_out ?c) (strided (point_filter_num ?c) ps))"
  have "for_each (oust64_step ?c ps) [0..<length ps] (?S []) = Inr (?S (take (length ps) ps))"
    by (rule for_each_take) (use assms in \<open>simp_all add: oust64_step_def Let_def\<close>)
  then show ?thesis by (simp add: oust64_handler_def)
qed

lemma velodyne_timed_reference:
  assumes "point_filter_num (param P n) \<noteq> 0" "0 \<le> N_SCANS (param P n)" "ps \<noteq> []" "fless (Num 0) (vl_time (last ps))"
  shows "velodyne_handler atan2 n ps P = Inr (P\<lparr>pl_full := [], given_offset_time := True, pl_surf :=
    filter (\<lambda>p. fless (blind2 (param P n)) (norm2 p))
      (map (velodyne_out (param P n)) (strided (point_filter_num (param P n)) ps))\<rparr>)"
proof -
  let ?c = "param P n"
  let ?S = "\<lambda>ps. filter (\<lambda>p. fless (blind2 ?c) (norm2 p)) (map (velodyne_out ?c) (strided (point_filter_num ?c) ps))"
  have "for_each (velodyne_step atan2 True omega ?c ps) [0..<length ps] (s, ?S []) = Inr (s, ?S (take (length ps) ps))"
    for omega s
    by (rule for_each_take [where S = "\<lambda>ps. (s, ?S ps)"]) (use assms in \<open>simp_all add: velodyne_step_def thin_def Let_def\<close>)
  then show ?thesis using assms by (simp add: velodyne_handler_def Let_def)
qed

text \<open>Without times the ring of a return indexes vectors of \<open>N_SCANS\<close> elements.\<close>

lemma thin_Inr: "point_filter_num c \<noteq> 0 \<Longrightarrow> \<exists>surf'. thin c i p surf = Inr surf'"
  by (simp add: thin_def)

lemma ring_time_cases:
  "unat (vl_ring p) < length (is_first s) \<Longrightarrow>
     \<exists>t s'. ring_time atan2 omega p s = Inr (t, s') \<and> length (is_first s') = length (is_first s)"
  "length (is_first s) \<le> unat (vl_ring p) \<Longrightarrow> ring_time atan2 omega p s = Inl OutOfRange"
  by (simp_all add: ring_time_def Let_def)

lemma velodyne_untimed_step:
  assumes "point_filter_num c \<noteq> 0"
  shows "unat (vl_ring (ps ! i)) < length (is_first s) \<Longrightarrow>
      \<exists>s' surf'. velodyne_step atan2 False omega c ps i (s, surf) = Inr (s', surf') \<and> length (is_first s') = length (is_first s)"
    and "length (is_first s) \<le> unat (vl_ring (ps ! i)) \<Longrightarrow> velodyne_step atan2 False omega c ps i (s, surf) = Inl OutOfRange"
proof -
  assume "unat (vl_ring (ps ! i)) < length (is_first s)"
  then obtain t s' where r: "ring_time atan2 omega (ps ! i) s = Inr (t, s')" "length (is_first s') = length (is_first s)"
    using ring_time_cases(1) by blast
  show "\<exists>s' surf'. velodyne_step atan2 False omega c ps i (s, surf) = Inr (s', surf') \<and> length (is_first s') = length (is_first s)"
  proof (cases t)
    case None
    then show ?thesis using r by (simp add: velodyne_step_def)
  next
    case (Some a)
    obtain surf' where "thin c i (with_time (velodyne_out c (ps ! i)) a) surf = Inr surf'" using thin_Inr [OF assms] by blast
    then show ?thesis using r Some by (simp add: velodyne_step_def)
  qed
qed (simp add: velodyne_step_def ring_time_cases(2))

lemma velodyne_untimed_loop:
  assumes "point_filter_num c \<noteq> 0"
  shows "if \<forall>i \<in> set is. unat (vl_ring (ps ! i)) < length (is_first s)
    then \<exists>s' surf'. for_each (velodyne_step atan2 False omega c ps) is (s, surf) = Inr (s', surf')
    else for_each (velodyne_step atan2 False omega c ps) is (s, surf) = Inl OutOfRange"
proof (induction "is" arbitrary: s surf)
  case (Cons i "is")
  show ?case
  proof (cases "unat (vl_ring (ps ! i)) < length (is_first s)")
    case True
    then obtain s' surf' where "velodyne_step atan2 False omega c ps i (s, surf) = Inr (s', surf')"
      "length (is_first s') = length (is_first s)" using velodyne_untimed_step(1) [OF assms] by blast
    then show ?thesis using Cons [of s' surf'] True by simp
  next
    case False
    then show ?thesis using velodyne_untimed_step(2) [OF assms, of s ps i atan2 omega surf] by simp
  qed
qed simp

lemma velodyne_untimed_faults:
  assumes "point_filter_num (param P n) \<noteq> 0" "0 \<le> N_SCANS (param P n)" "ps \<noteq> []" "\<not> fless (Num 0) (vl_time (last ps))"
  shows "velodyne_handler atan2 n ps P = Inl OutOfRange \<longleftrightarrow> (\<exists>p \<in> set ps. N_SCANS (param P n) \<le> uint (vl_ring p))"
    "velodyne_handler atan2 n ps P \<noteq> Inl OutOfRange \<Longrightarrow> \<exists>P'. velodyne_handler atan2 n ps P = Inr P'"
proof -
  have all: "(\<forall>i \<in> set [0..<length ps]. unat (vl_ring (ps ! i)) < nat (N_SCANS (param P n))) \<longleftrightarrow>
    \<not> (\<exists>p \<in> set ps. N_SCANS (param P n) \<le> uint (vl_ring p))"
  proof -
    have A: "unat (vl_ring p) < nat (N_SCANS (param P n)) \<longleftrightarrow> \<not> N_SCANS (param P n) \<le> uint (vl_ring p)" for p
      by (simp only: zless_nat_eq_int_zless uint_nat [symmetric] not_le)
    show ?thesis unfolding A using nth_mem [of _ ps] by (fastforce simp: in_set_conv_nth [of _ ps])
  qed
  define s0 where "s0 = \<lparr>is_first = replicate (nat (N_SCANS (param P n))) True,
    yaw_fp = replicate (nat (N_SCANS (param P n))) (Num 0), time_last = replicate (nat (N_SCANS (param P n))) (Num 0)\<rparr>"
  define X where "X = for_each (velodyne_step atan2 False
    (fmul b64 (fround b64 (361 / 1000)) (of_i b64 (SCAN_RATE (param P n)))) (param P n) ps) [0..<length ps] (s0, [])"
  have h: "velodyne_handler atan2 n ps P = bind_ub X (\<lambda>(_, surf).
      Inr (P\<lparr>pl_full := [], pl_surf := surf, given_offset_time := False\<rparr>))"
    using assms(2-4) by (simp add: velodyne_handler_def Let_def X_def s0_def)
  have s0: "length (is_first s0) = nat (N_SCANS (param P n))" by (simp add: s0_def)
  note loop = velodyne_untimed_loop [OF assms(1), of "[0..<length ps]" ps s0, unfolded s0 all]
  have L: "if \<not> (\<exists>p \<in> set ps. N_SCANS (param P n) \<le> uint (vl_ring p)) then \<exists>s' surf'. X = Inr (s', surf') else X = Inl OutOfRange"
    unfolding X_def by (rule loop)
  show "velodyne_handler atan2 n ps P = Inl OutOfRange \<longleftrightarrow> (\<exists>p \<in> set ps. N_SCANS (param P n) \<le> uint (vl_ring p))"
    "velodyne_handler atan2 n ps P \<noteq> Inl OutOfRange \<Longrightarrow> \<exists>P'. velodyne_handler atan2 n ps P = Inr P'"
    using L h by (cases "\<exists>p \<in> set ps. N_SCANS (param P n) \<le> uint (vl_ring p)"; auto)+
qed

text \<open>A sensor type that \<open>process\<close> does not know: the cloud is the one of the scan handled last,
  whichever sensor it came from.\<close>

lemma process_unknown:
  assumes "lidar_type (param P n) \<notin> {2, 3}"
  shows "process_cloud2 atan2 n msg P = Inr (pl_surf P, P)"
  using assms by (simp add: process_cloud2_def)

end
