(* ===== verification/Lio_Map.thy ===== *)
theory Lio_Map
  imports Lio_Preprocess Ikd_Session
begin

text \<open>
  The local map of the LiDAR odometry, \<open>laserMapping_bundle.cpp\<close>: \<open>lasermap_fov_segment\<close> moves a
  cube along with the robot and deletes what it leaves behind from the kd-tree, \<open>map_incremental\<close>
  decides which points of a scan enter the map and how. The rigid transform of the estimator
  (Eigen) is a parameter.
\<close>

section \<open>The local map\<close>

definition MOV_THRESHOLD :: flt where "MOV_THRESHOLD = Num (3 / 2)"

record mapper =
  ikdtree :: "lidar_data ikd"
  LocalMap_Points :: BoxPointType
  Localmap_Initialized :: bool

definition first_range :: "flt \<Rightarrow> flt \<Rightarrow> range" where
  "first_range cube_len p =
     (fconv b32 (fsub b64 p (fdiv b64 cube_len (Num 2))), fconv b32 (fadd b64 p (fdiv b64 cube_len (Num 2))))"

text \<open>\<open>dist_to_map_edge[i]\<close> for an axis: the distances to the lower and the upper side.\<close>

definition edge_dist :: "flt \<Rightarrow> range \<Rightarrow> flt \<times> flt" where
  "edge_dist p r = (fconv b32 (fabs (fsub b64 p (fst r))), fconv b32 (fabs (fsub b64 p (snd r))))"

definition move_limit :: "flt \<Rightarrow> flt" where
  "move_limit DET_RANGE = fmul b32 MOV_THRESHOLD DET_RANGE"

definition too_near :: "flt \<Rightarrow> flt \<times> flt \<Rightarrow> bool" where
  "too_near DET_RANGE d \<longleftrightarrow> fle (fst d) (move_limit DET_RANGE) \<or> fle (snd d) (move_limit DET_RANGE)"

definition move_distance :: "flt \<Rightarrow> flt \<Rightarrow> flt" where
  "move_distance cube_len DET_RANGE = fconv b32 (fmax
     (fmul b64 (fmul b64 (fsub b64 cube_len (fmul b64 (fmul b64 (Num 2) MOV_THRESHOLD) DET_RANGE)) (Num (1 / 2)))
        (fround b64 (9 / 10)))
     (fmul b32 DET_RANGE (fsub b32 MOV_THRESHOLD (Num 1))))"

text \<open>What the loop does on one axis: the new range, and the range of the slab that is left behind.\<close>

definition slide :: "flt \<Rightarrow> flt \<Rightarrow> flt \<times> flt \<Rightarrow> range \<Rightarrow> range \<times> range option" where
  "slide limit mov_dist d r =
     (if fle (fst d) limit then
        ((fsub b32 (fst r) mov_dist, fsub b32 (snd r) mov_dist), Some (fsub b32 (snd r) mov_dist, snd r))
      else if fle (snd d) limit then
        ((fadd b32 (fst r) mov_dist, fadd b32 (snd r) mov_dist), Some (fst r, fadd b32 (fst r) mov_dist))
      else (r, None))"

definition left_behind :: "BoxPointType \<Rightarrow> range option \<Rightarrow> (range \<Rightarrow> BoxPointType \<Rightarrow> BoxPointType) \<Rightarrow> BoxPointType list" where
  "left_behind old slab set_axis = (case slab of None \<Rightarrow> [] | Some r \<Rightarrow> [set_axis r old])"

text \<open>The new local map, and \<open>cub_needrm\<close>.\<close>

definition slide_box :: "flt \<Rightarrow> flt \<Rightarrow> V3D \<Rightarrow> BoxPointType \<Rightarrow> BoxPointType \<times> BoxPointType list" where
  "slide_box limit mov_dist = (\<lambda>(px, py, pz) old.
     let (x, sx) = slide limit mov_dist (edge_dist px (box_x old)) (box_x old);
         (y, sy) = slide limit mov_dist (edge_dist py (box_y old)) (box_y old);
         (z, sz) = slide limit mov_dist (edge_dist pz (box_z old)) (box_z old)
     in (\<lparr>box_x = x, box_y = y, box_z = z\<rparr>,
         left_behind old sx (\<lambda>r b. b\<lparr>box_x := r\<rparr>) @ left_behind old sy (\<lambda>r b. b\<lparr>box_y := r\<rparr>) @
         left_behind old sz (\<lambda>r b. b\<lparr>box_z := r\<rparr>)))"

definition lasermap_fov_segment :: "lidar_data nth_fn \<Rightarrow> flt \<Rightarrow> flt \<Rightarrow> V3D \<Rightarrow> mapper \<Rightarrow> stop + mapper" where
  "lasermap_fov_segment nth_element cube_len DET_RANGE = (\<lambda>(px, py, pz) m.
     let old = LocalMap_Points m in
     if \<not> Localmap_Initialized m then
       Inr (m\<lparr>LocalMap_Points := \<lparr>box_x = first_range cube_len px, box_y = first_range cube_len py,
                box_z = first_range cube_len pz\<rparr>, Localmap_Initialized := True\<rparr>)
     else if \<not> (too_near DET_RANGE (edge_dist px (box_x old)) \<or> too_near DET_RANGE (edge_dist py (box_y old)) \<or>
                too_near DET_RANGE (edge_dist pz (box_z old))) then Inr m
     else let (new_box, cub_needrm) = slide_box (move_limit DET_RANGE) (move_distance cube_len DET_RANGE) (px, py, pz) old;
              m = m\<lparr>LocalMap_Points := new_box\<rparr>
          in if cub_needrm = [] then Inr m
             else and_so (Delete_Point_Boxes nth_element cub_needrm (ikdtree m)) (\<lambda>(_, k). Inr (m\<lparr>ikdtree := k\<rparr>)))"

section \<open>Adding a scan to the map\<close>

definition NUM_MATCH_POINTS :: nat where "NUM_MATCH_POINTS = 5"

text \<open>The transform takes and gives coordinates in double precision; the point keeps what it had beside
  the coordinates and the intensity.\<close>

definition pointBodyToWorld :: "(V3D \<Rightarrow> V3D) \<Rightarrow> PointType \<Rightarrow> PointType \<Rightarrow> PointType" where
  "pointBodyToWorld T p_in p_out = (case T (pt_x p_in, pt_y p_in, pt_z p_in) of (x, y, z) \<Rightarrow>
     p_out\<lparr>pt_x := fconv b32 x, pt_y := fconv b32 y, pt_z := fconv b32 z,
           pt_data := (pt_data p_out)\<lparr>intensity := intensity (pt_data p_in)\<rparr>\<rparr>)"

text \<open>The middle of the voxel of a point, for the voxel size \<open>fs\<close>.\<close>

definition mid_coord :: "flt \<Rightarrow> flt \<Rightarrow> flt" where
  "mid_coord fs v = fconv b32 (fadd b64 (fmul b64 (ffloor (fdiv b64 v fs)) fs) (fmul b64 (Num (1 / 2)) fs))"

definition mid_of :: "flt \<Rightarrow> PointType \<Rightarrow> PointType" where
  "mid_of fs p = p\<lparr>pt_x := mid_coord fs (pt_x p), pt_y := mid_coord fs (pt_y p), pt_z := mid_coord fs (pt_z p)\<rparr>"

definition off_axis :: "flt \<Rightarrow> flt \<Rightarrow> flt \<Rightarrow> bool" where
  "off_axis fs a b \<longleftrightarrow> fless (fmul b64 (Num (1 / 2)) fs) (fabs (fsub b32 a b))"

datatype destination = To_Add | No_Need_Downsample | Dropped

definition destination_of :: "flt \<Rightarrow> PointType \<Rightarrow> PointType list \<Rightarrow> destination" where
  "destination_of fs p points_near =
     (case points_near of [] \<Rightarrow> To_Add
      | q # _ \<Rightarrow>
        let mid = mid_of fs p; dist = calc_dist p mid
        in if off_axis fs (pt_x q) (pt_x mid) \<and> off_axis fs (pt_y q) (pt_y mid) \<and> off_axis fs (pt_z q) (pt_z mid)
           then No_Need_Downsample
           else if NUM_MATCH_POINTS \<le> length points_near \<and>
                   (\<exists>r \<in> set (take NUM_MATCH_POINTS points_near). fless (calc_dist r mid) dist)
           then Dropped else To_Add)"

definition sent_to :: "destination \<Rightarrow> flt \<Rightarrow> PointType list \<Rightarrow> PointType list list \<Rightarrow> PointType list" where
  "sent_to d fs world near_pts = map fst (filter (\<lambda>(p, near). destination_of fs p near = d) (zip world near_pts))"

text \<open>The three vectors have been resized to \<open>feats_down_size\<close>. Result: the points in world coordinates
  and the tree.\<close>

definition map_incremental :: "lidar_data nth_fn \<Rightarrow> (V3D \<Rightarrow> V3D) \<Rightarrow> flt \<Rightarrow> PointType list \<Rightarrow> PointType list \<Rightarrow>
    PointType list list \<Rightarrow> lidar_data ikd \<Rightarrow> stop + PointType list \<times> lidar_data ikd" where
  "map_incremental nth_element T fs feats_down_body feats_down_world Nearest_Points k =
     (let world = map2 (pointBodyToWorld T) feats_down_body feats_down_world
      in and_so (Add_Points nth_element default_point (sent_to To_Add fs world Nearest_Points) True k) (\<lambda>(_, k).
         and_so (Add_Points nth_element default_point (sent_to No_Need_Downsample fs world Nearest_Points) False k) (\<lambda>(_, k).
         Inr (world, k))))"

section \<open>What moving the map deletes\<close>

lemma slide_outside:
  assumes "slide limit mv d r = (r', s)" "inside r' v"
  shows "case s of None \<Rightarrow> r' = r | Some b \<Rightarrow> \<not> inside b v"
  using assms by (auto simp: slide_def inside_def fle_iff fless_iff split: if_splits)

definition removed :: "BoxPointType list \<Rightarrow> 'p point \<Rightarrow> bool" where
  "removed bs p \<longleftrightarrow> (\<exists>b \<in> set bs. in_box b p)"

lemma removed_behind:
  "removed (left_behind old sx (\<lambda>r b. b\<lparr>box_x := r\<rparr>) @ left_behind old sy (\<lambda>r b. b\<lparr>box_y := r\<rparr>) @
      left_behind old sz (\<lambda>r b. b\<lparr>box_z := r\<rparr>)) p \<longleftrightarrow>
   (\<exists>r. sx = Some r \<and> inside r (pt_x p) \<and> inside (box_y old) (pt_y p) \<and> inside (box_z old) (pt_z p)) \<or>
   (\<exists>r. sy = Some r \<and> inside (box_x old) (pt_x p) \<and> inside r (pt_y p) \<and> inside (box_z old) (pt_z p)) \<or>
   (\<exists>r. sz = Some r \<and> inside (box_x old) (pt_x p) \<and> inside (box_y old) (pt_y p) \<and> inside r (pt_z p))"
  by (cases sx; cases sy; cases sz) (auto simp: removed_def left_behind_def in_box_def)

text \<open>Nothing inside the new map is removed.\<close>

lemma slide_box_keeps:
  assumes "slide_box limit mv pos old = (new_box, bs)" "in_box new_box p"
  shows "\<not> removed bs p"
proof -
  obtain px py pz where pos: "pos = (px, py, pz)" by (cases pos)
  obtain x sx where x: "slide limit mv (edge_dist px (box_x old)) (box_x old) = (x, sx)" by fastforce
  obtain y sy where y: "slide limit mv (edge_dist py (box_y old)) (box_y old) = (y, sy)" by fastforce
  obtain z sz where z: "slide limit mv (edge_dist pz (box_z old)) (box_z old) = (z, sz)" by fastforce
  have n: "new_box = \<lparr>box_x = x, box_y = y, box_z = z\<rparr>"
    and b: "bs = left_behind old sx (\<lambda>r b. b\<lparr>box_x := r\<rparr>) @ left_behind old sy (\<lambda>r b. b\<lparr>box_y := r\<rparr>) @
      left_behind old sz (\<lambda>r b. b\<lparr>box_z := r\<rparr>)"
    using assms(1) by (simp_all add: slide_box_def pos x y z)
  have "inside x (pt_x p)" "inside y (pt_y p)" "inside z (pt_z p)" using assms(2) by (simp_all add: in_box_def n)
  then show ?thesis unfolding b removed_behind
    using slide_outside [OF x] slide_outside [OF y] slide_outside [OF z] by auto
qed

text \<open>When the move is not longer than the map, what is removed is what the map leaves.\<close>

definition fits_range :: "flt \<Rightarrow> range \<Rightarrow> bool" where
  "fits_range mv r \<longleftrightarrow> fst r \<le> fsub b32 (snd r) mv \<and> fadd b32 (fst r) mv \<le> snd r \<and> fsub b32 (fst r) mv \<le> fst r \<and>
     snd r \<le> fadd b32 (snd r) mv \<and> nonan (fst r) \<and> nonan (snd r) \<and> nonan (fsub b32 (snd r) mv) \<and> nonan (fadd b32 (fst r) mv) \<and>
     nonan (fadd b32 (snd r) mv) \<and> nonan (fsub b32 (fst r) mv)"

lemma slide_exact:
  assumes "slide limit mv d r = (r', s)" "fits_range mv r" "nonan v"
  shows "(\<exists>b. s = Some b \<and> inside b v) \<longleftrightarrow> inside r v \<and> \<not> inside r' v" "s = None \<Longrightarrow> r' = r"
  using assms by (auto simp: slide_def inside_def fits_range_def split: if_splits)

lemma slide_box_exact:
  assumes "slide_box limit mv pos old = (new_box, bs)" "fits_range mv (box_x old)" "fits_range mv (box_y old)" "fits_range mv (box_z old)"
    "finite_point p"
  shows "removed bs p \<longleftrightarrow> in_box old p \<and> \<not> in_box new_box p"
proof -
  obtain px py pz where pos: "pos = (px, py, pz)" by (cases pos)
  obtain x sx where x: "slide limit mv (edge_dist px (box_x old)) (box_x old) = (x, sx)" by fastforce
  obtain y sy where y: "slide limit mv (edge_dist py (box_y old)) (box_y old) = (y, sy)" by fastforce
  obtain z sz where z: "slide limit mv (edge_dist pz (box_z old)) (box_z old) = (z, sz)" by fastforce
  have n: "new_box = \<lparr>box_x = x, box_y = y, box_z = z\<rparr>"
    and b: "bs = left_behind old sx (\<lambda>r b. b\<lparr>box_x := r\<rparr>) @ left_behind old sy (\<lambda>r b. b\<lparr>box_y := r\<rparr>) @
      left_behind old sz (\<lambda>r b. b\<lparr>box_z := r\<rparr>)"
    using assms(1) by (simp_all add: slide_box_def pos x y z)
  have f: "nonan (pt_x p)" "nonan (pt_y p)" "nonan (pt_z p)" using assms(5) by (auto simp: finite_point_def)
  show ?thesis unfolding b removed_behind
    using slide_exact(1) [OF x assms(2) f(1)] slide_exact(1) [OF y assms(3) f(2)] slide_exact(1) [OF z assms(4) f(3)]
    by (auto simp: n in_box_def)
qed

text \<open>The local map after a call.\<close>

definition next_box :: "flt \<Rightarrow> flt \<Rightarrow> V3D \<Rightarrow> BoxPointType \<Rightarrow> BoxPointType" where
  "next_box cube_len det = (\<lambda>(px, py, pz) old.
     if too_near det (edge_dist px (box_x old)) \<or> too_near det (edge_dist py (box_y old)) \<or> too_near det (edge_dist pz (box_z old))
     then fst (slide_box (move_limit det) (move_distance cube_len det) (px, py, pz) old) else old)"

lemma fov_segment_box:
  assumes "lasermap_fov_segment nth_element cube_len det pos m = Inr m'" "Localmap_Initialized m"
  shows "LocalMap_Points m' = next_box cube_len det pos (LocalMap_Points m)" "Localmap_Initialized m'"
proof -
  obtain px py pz where pos: "pos = (px, py, pz)" by (cases pos)
  obtain nb bs where s: "slide_box (move_limit det) (move_distance cube_len det) (px, py, pz) (LocalMap_Points m) = (nb, bs)" by fastforce
  show "LocalMap_Points m' = next_box cube_len det pos (LocalMap_Points m)" "Localmap_Initialized m'"
    using assms by (auto simp: lasermap_fov_segment_def next_box_def pos s Let_def and_so_Inr split: if_splits)
qed

lemma fov_segment_spec:
  assumes sel: "selection nth_element" and k: "ikd_ok (ikdtree m)" and m: "lasermap_fov_segment nth_element cube_len det pos m = Inr m'"
  shows "ikd_ok (ikdtree m')" "stock (ikdtree m') = stock (ikdtree m)"
    "points (ikdtree m') \<subseteq># points (ikdtree m)"
    "Localmap_Initialized m \<Longrightarrow> filter_mset (in_box (LocalMap_Points m')) (points (ikdtree m')) =
      filter_mset (in_box (LocalMap_Points m')) (points (ikdtree m))"
    "Localmap_Initialized m \<Longrightarrow> fits_range (move_distance cube_len det) (box_x (LocalMap_Points m)) \<Longrightarrow>
      fits_range (move_distance cube_len det) (box_y (LocalMap_Points m)) \<Longrightarrow>
      fits_range (move_distance cube_len det) (box_z (LocalMap_Points m)) \<Longrightarrow>
      points (ikdtree m') = filter_mset (\<lambda>p. in_box (LocalMap_Points m) p \<longrightarrow> in_box (LocalMap_Points m') p) (points (ikdtree m))"
proof -
  obtain px py pz where pos: "pos = (px, py, pz)" by (cases pos)
  obtain nb bs where s: "slide_box (move_limit det) (move_distance cube_len det) pos (LocalMap_Points m) = (nb, bs)" by fastforce
  define near where "near \<longleftrightarrow> too_near det (edge_dist px (box_x (LocalMap_Points m))) \<or>
    too_near det (edge_dist py (box_y (LocalMap_Points m))) \<or> too_near det (edge_dist pz (box_z (LocalMap_Points m)))"
  define first where "first = m\<lparr>LocalMap_Points := \<lparr>box_x = first_range cube_len px, box_y = first_range cube_len py,
    box_z = first_range cube_len pz\<rparr>, Localmap_Initialized := True\<rparr>"
  have e: "lasermap_fov_segment nth_element cube_len det pos m = (if \<not> Localmap_Initialized m then Inr first
     else if \<not> near then Inr m else if bs = [] then Inr (m\<lparr>LocalMap_Points := nb\<rparr>)
     else and_so (Delete_Point_Boxes nth_element bs (ikdtree m)) (\<lambda>(_, k). Inr (m\<lparr>LocalMap_Points := nb, ikdtree := k\<rparr>)))"
    by (simp only: lasermap_fov_segment_def pos Let_def near_def first_def prod.case s [unfolded pos]) simp
  have "ikd_ok (ikdtree m') \<and> stock (ikdtree m') = stock (ikdtree m) \<and>
    (Localmap_Initialized m \<longrightarrow> (m' = m \<or> LocalMap_Points m' = nb \<and>
       points (ikdtree m') = filter_mset (\<lambda>p. \<not> removed bs p) (points (ikdtree m)))) \<and>
    (\<not> Localmap_Initialized m \<longrightarrow> ikdtree m' = ikdtree m)" (is ?P)
  proof (cases "Localmap_Initialized m \<and> near \<and> bs \<noteq> []")
    case True
    then obtain c k' where d: "Delete_Point_Boxes nth_element bs (ikdtree m) = Inr (c, k')"
      "m' = m\<lparr>LocalMap_Points := nb, ikdtree := k'\<rparr>" using m [unfolded e] by (force simp: and_so_Inr)
    show ?P using True selection.delete_boxes_spec [OF sel k d(1)] by (simp add: d(2) removed_def)
  next
    case False
    then consider "\<not> Localmap_Initialized m" "m' = first" | "Localmap_Initialized m" "m' = m"
      | "Localmap_Initialized m" "bs = []" "m' = m\<lparr>LocalMap_Points := nb\<rparr>"
      using m [unfolded e] by (cases "Localmap_Initialized m"; cases near) simp_all
    then show ?P
    proof cases
      case 1
      then show ?thesis using k by (simp add: first_def)
    next
      case 2
      then show ?thesis using k by simp
    next
      case 3
      then show ?thesis using k by (simp add: removed_def)
    qed
  qed
  then have r: "ikd_ok (ikdtree m')" "stock (ikdtree m') = stock (ikdtree m)"
    "Localmap_Initialized m \<Longrightarrow> m' = m \<or> LocalMap_Points m' = nb \<and>
       points (ikdtree m') = filter_mset (\<lambda>p. \<not> removed bs p) (points (ikdtree m))"
    "\<not> Localmap_Initialized m \<Longrightarrow> ikdtree m' = ikdtree m" by blast+
  show "ikd_ok (ikdtree m')" "stock (ikdtree m') = stock (ikdtree m)" using r by blast+
  show "points (ikdtree m') \<subseteq># points (ikdtree m)" using r(3,4) by (cases "Localmap_Initialized m") auto
  show "filter_mset (in_box (LocalMap_Points m')) (points (ikdtree m')) =
      filter_mset (in_box (LocalMap_Points m')) (points (ikdtree m))" if "Localmap_Initialized m"
  proof (cases "m' = m")
    case False
    then have n: "LocalMap_Points m' = nb" "points (ikdtree m') = filter_mset (\<lambda>p. \<not> removed bs p) (points (ikdtree m))"
      using r(3) [OF that] by blast+
    show ?thesis unfolding n filter_filter_mset
      by (rule filter_mset_cong [OF refl]) (use slide_box_keeps [OF s] in auto)
  qed simp
  show "points (ikdtree m') = filter_mset (\<lambda>p. in_box (LocalMap_Points m) p \<longrightarrow> in_box (LocalMap_Points m') p) (points (ikdtree m))"
    if init: "Localmap_Initialized m" and f: "fits_range (move_distance cube_len det) (box_x (LocalMap_Points m))"
      "fits_range (move_distance cube_len det) (box_y (LocalMap_Points m))" "fits_range (move_distance cube_len det) (box_z (LocalMap_Points m))"
  proof (cases "m' = m")
    case False
    then have n: "LocalMap_Points m' = nb" "points (ikdtree m') = filter_mset (\<lambda>p. \<not> removed bs p) (points (ikdtree m))"
      using r(3) [OF init] by blast+
    show ?thesis unfolding n
      by (rule filter_mset_cong [OF refl]) (use slide_box_exact [OF s f] points_finite [OF k] in auto)
  qed simp
qed

text \<open>A range is wide enough when the move is not longer than it.\<close>

definition wide :: "flt \<Rightarrow> range \<Rightarrow> bool" where
  "wide mv r \<longleftrightarrow> (\<exists>a b d. mv = Num d \<and> r = (Num a, Num b) \<and> 0 \<le> d \<and> d \<le> b - a \<and>
     representable b32 (Num a) \<and> representable b32 (Num b) \<and> \<bar>a\<bar> \<le> 2 ^ 50 \<and> \<bar>b\<bar> \<le> 2 ^ 50)"

lemma wide_fits_range:
  assumes "wide mv r"
  shows "fits_range mv r"
proof -
  obtain a b d where r: "mv = Num d" "r = (Num a, Num b)" "0 \<le> d" "d \<le> b - a" "fround b32 a = Num a" "fround b32 b = Num b"
    using assms by (auto simp: wide_def representable_def)
  have "fround b32 a \<le> fround b32 (b - d)" "fround b32 (a + d) \<le> fround b32 b" "fround b32 (a - d) \<le> fround b32 a"
    "fround b32 b \<le> fround b32 (b + d)" using r(3,4) by (auto intro!: fround_mono)
  then show ?thesis by (simp add: fits_range_def r fsub_def)
qed

section \<open>What adding a scan does\<close>

lemma destination_dropped:
  assumes "destination_of fs p near_pts = Dropped"
  shows "\<exists>r \<in> set near_pts. fless (calc_dist r (mid_of fs p)) (calc_dist p (mid_of fs p))"
proof -
  have "\<exists>r \<in> set (take NUM_MATCH_POINTS near_pts). fless (calc_dist r (mid_of fs p)) (calc_dist p (mid_of fs p))"
    using assms by (cases near_pts) (simp_all add: destination_of_def Let_def split: if_splits)
  then show ?thesis by (blast dest: in_set_takeD)
qed

lemma sent_partition:
  assumes "length near_pts = length world"
  shows "mset (sent_to To_Add fs world near_pts) + mset (sent_to No_Need_Downsample fs world near_pts) +
    mset (sent_to Dropped fs world near_pts) = mset world"
  using assms
proof (induction near_pts world rule: list_induct2)
  case (Cons q near_pts p world)
  then show ?case by (cases "destination_of fs p q") (simp_all add: sent_to_def)
qed (simp add: sent_to_def)

context selection
begin

lemma add_all_downsampled_spec:
  assumes "ikd_ok k" "\<forall>p \<in> set ps. finite_point p" "add_all nth_element True ps k = Inr (c, k')"
  shows "ikd_ok k' \<and> set_mset (points k') \<subseteq> set_mset (points k) \<union> set ps"
  using assms
proof (induction ps arbitrary: k c)
  case (Cons p ps)
  obtain c1 k1 where k1: "add_downsampled nth_element p k = Inr (c1, k1)" and r: "\<exists>c2. add_all nth_element True ps k1 = Inr (c2, k')"
    using Cons.prems(3) by (auto simp: and_so_Inr)
  obtain b key where v: "voxel_box k p = Inr (b, key)"
    using k1 by (auto simp: add_downsampled_def faulty_def and_so_Inr split: sum.splits)
  have fin: "finite_point p" "\<forall>p \<in> set ps. finite_point p" using Cons.prems(2) by auto
  obtain q where q: "ikd_ok k1" "q \<in># add_mset p (filter_mset (in_box b) (points k))"
    "points k1 = add_mset q (points k - filter_mset (in_box b) (points k)) \<or> points k1 = points k"
    using add_downsampled_spec [OF Cons.prems(1) fin(1) v k1] by (auto simp: Let_def split: if_splits)
  then have "set_mset (points k1) \<subseteq> set_mset (points k) \<union> {p}" by (auto dest: in_diffD)
  then show ?case using Cons.IH [OF q(1) fin(2)] r by auto
qed simp

lemma first_downsample_stays:
  assumes "Root_Node k \<noteq> Null" "ikd_ok k" "\<forall>p \<in> set ps. finite_point p" "Add_Points nth_element dflt ps True k = Inr (c, k')"
  shows "ikd_ok k'" "set_mset (points k') \<subseteq> set_mset (points k) \<union> set ps"
  using add_all_downsampled_spec [OF assms(2,3), of c k'] assms(1,4) by (simp_all add: Add_Points_def)

end

lemma map_incremental_spec:
  assumes sel: "selection nth_element" and k: "ikd_ok k" "Root_Node k \<noteq> Null"
    and fin: "\<forall>p \<in> set (map2 (pointBodyToWorld T) body world). finite_point p"
    and m: "map_incremental nth_element T fs body world near_pts k = Inr (world', k')"
  shows "world' = map2 (pointBodyToWorld T) body world" "ikd_ok k'"
    "mset (sent_to No_Need_Downsample fs world' near_pts) \<subseteq># points k'"
    "set_mset (points k') \<subseteq> set_mset (points k) \<union> set (sent_to To_Add fs world' near_pts) \<union>
      set (sent_to No_Need_Downsample fs world' near_pts)"
proof -
  have sub: "set (sent_to d fs world' near_pts) \<subseteq> set world'" for d by (auto simp: sent_to_def dest: set_zip_leftD)
  obtain c1 k1 c2 where w: "world' = map2 (pointBodyToWorld T) body world"
    and a1: "Add_Points nth_element default_point (sent_to To_Add fs world' near_pts) True k = Inr (c1, k1)"
    and a2: "Add_Points nth_element default_point (sent_to No_Need_Downsample fs world' near_pts) False k1 = Inr (c2, k')"
    using m by (auto simp: map_incremental_def Let_def and_so_Inr)
  have f: "\<forall>p \<in> set (sent_to d fs world' near_pts). finite_point p" for d using sub fin w by blast
  note 1 = selection.first_downsample_stays [OF sel k(2,1) f a1]
  note 2 = selection.Add_Points_spec [OF sel 1(1) f a2]
  show "world' = map2 (pointBodyToWorld T) body world" "ikd_ok k'"
    "mset (sent_to No_Need_Downsample fs world' near_pts) \<subseteq># points k'"
    "set_mset (points k') \<subseteq> set_mset (points k) \<union> set (sent_to To_Add fs world' near_pts) \<union>
      set (sent_to No_Need_Downsample fs world' near_pts)"
    using w 1 2 by auto
qed

end
