(* ===== verification/Lio_Match.thy ===== *)
theory Lio_Match
  imports Lio_Map
begin

text \<open>
  Matching a scan against the map, the first half of \<open>h_share_model\<close> of \<open>laserMapping_bundle.cpp\<close>
  and \<open>esti_plane\<close> of \<open>common_lib.h\<close>: for each point the nearest five points of the map, a plane
  through them, and the residual. What the code takes from Eigen is a parameter: the transform, the
  solution of the least-squares problem (\<open>pca_result\<close> as \<open>colPivHouseholderQr\<close> and the
  normalisation give it), and \<open>sqrt(p_body.norm())\<close>. The loop is modelled as it runs without
  \<open>MP_EN\<close>, one point after the other.
\<close>

section \<open>State\<close>

text \<open>The arrays of 100000 elements and the vectors that are resized to \<open>feats_down_size\<close>.\<close>

record matches =
  point_selected_surf :: "bool list"
  res_last :: "flt list"
  normvec :: "PointType list"
  Nearest_Points :: "PointType list list"
  feats_down_world :: "PointType list"

record eigen =
  to_world :: "V3D \<Rightarrow> V3D"
  plane_of :: "PointType list \<Rightarrow> flt \<times> flt \<times> flt \<times> flt"
  root_norm :: "V3D \<Rightarrow> flt"

definition MAX_POINTS :: nat where "MAX_POINTS = 100000"

text \<open>The initial arrays of \<open>main\<close>: every point counts as selected. \<open>memset\<close> fills the bytes of \<open>res_last\<close>
  with the low byte of -1000, which makes each float a value that is not used: a parameter.\<close>

definition initial_matches :: "flt \<Rightarrow> matches" where
  "initial_matches r = \<lparr>point_selected_surf = replicate MAX_POINTS True, res_last = replicate MAX_POINTS r,
     normvec = replicate MAX_POINTS default_point, Nearest_Points = [], feats_down_world = []\<rparr>"

text \<open>\<open>std::vector::resize\<close>.\<close>

definition resize :: "nat \<Rightarrow> 'a \<Rightarrow> 'a list \<Rightarrow> 'a list" where
  "resize n x xs = take n xs @ replicate (n - length xs) x"

definition resize_matches :: "nat \<Rightarrow> matches \<Rightarrow> matches" where
  "resize_matches n s = s\<lparr>normvec := resize n default_point (normvec s),
     feats_down_world := resize n default_point (feats_down_world s), Nearest_Points := resize n [] (Nearest_Points s)\<rparr>"

section \<open>The plane\<close>

definition plane_value :: "flt \<times> flt \<times> flt \<times> flt \<Rightarrow> PointType \<Rightarrow> flt" where
  "plane_value = (\<lambda>(a, b, c, d) p.
     fadd b32 (fadd b32 (fadd b32 (fmul b32 a (pt_x p)) (fmul b32 b (pt_y p))) (fmul b32 c (pt_z p))) d)"

definition plane_threshold :: flt where "plane_threshold = fround b32 (1 / 10)"

text \<open>The result is the plane when all five points are near it; fewer than five are read out of range.\<close>

definition esti_plane :: "(PointType list \<Rightarrow> flt \<times> flt \<times> flt \<times> flt) \<Rightarrow> PointType list \<Rightarrow> flt \<Rightarrow>
    ub + (flt \<times> flt \<times> flt \<times> flt) option" where
  "esti_plane solve pts threshold =
     (if length pts < NUM_MATCH_POINTS then Inl OutOfRange
      else let five = take NUM_MATCH_POINTS pts; pca_result = solve five
           in Inr (if \<exists>p \<in> set five. fless threshold (fabs (plane_value pca_result p)) then None else Some pca_result))"

text \<open>\<open>s = 1 - 0.9 * fabs(pd2) / sqrt(p_body.norm())\<close>, stored in a float.\<close>

definition score :: "eigen \<Rightarrow> PointType \<Rightarrow> flt \<Rightarrow> flt" where
  "score E p_body pd2 = fconv b32 (fsub b64 (Num 1)
     (fdiv b64 (fmul b64 (fround b64 (9 / 10)) (fabs pd2)) (root_norm E (pt_x p_body, pt_y p_body, pt_z p_body))))"

section \<open>One point\<close>

definition search_point :: "lidar_data PointType_CMP \<Rightarrow> nat \<Rightarrow> matches \<Rightarrow> lidar_data ikd \<Rightarrow> stop + matches \<times> lidar_data ikd" where
  "search_point d i s k =
     and_so (nearest_points d (feats_down_world s ! i) NUM_MATCH_POINTS (Infty False) k) (\<lambda>(near_pts, dists, k).
       Inr (s\<lparr>Nearest_Points := (Nearest_Points s)[i := near_pts],
              point_selected_surf := (point_selected_surf s)[i :=
                NUM_MATCH_POINTS \<le> length near_pts \<and> \<not> fless (Num 5) (dists ! (NUM_MATCH_POINTS - 1))]\<rparr>, k))"

definition fit_point :: "eigen \<Rightarrow> PointType list \<Rightarrow> nat \<Rightarrow> matches \<Rightarrow> ub + matches" where
  "fit_point E feats_down_body i s =
     (if \<not> point_selected_surf s ! i then Inr s
      else let s = s\<lparr>point_selected_surf := (point_selected_surf s)[i := False]\<rparr>
           in bind_ub (esti_plane (plane_of E) (Nearest_Points s ! i) plane_threshold) (\<lambda>r. case r of
                None \<Rightarrow> Inr s
              | Some (a, b, c, e) \<Rightarrow>
                  let pd2 = plane_value (a, b, c, e) (feats_down_world s ! i)
                  in if fless (fround b64 (9 / 10)) (score E (feats_down_body ! i) pd2)
                     then Inr (s\<lparr>point_selected_surf := (point_selected_surf s)[i := True],
                                 normvec := (normvec s)[i := (normvec s ! i)\<lparr>pt_x := a, pt_y := b, pt_z := c,
                                   pt_data := (pt_data (normvec s ! i))\<lparr>intensity := pd2\<rparr>\<rparr>],
                                 res_last := (res_last s)[i := fabs pd2]\<rparr>)
                     else Inr s))"

text \<open>An index past one of the arrays is out of range.\<close>

definition match_point :: "lidar_data PointType_CMP \<Rightarrow> eigen \<Rightarrow> bool \<Rightarrow> PointType list \<Rightarrow> nat \<Rightarrow>
    matches \<times> lidar_data ikd \<Rightarrow> stop + matches \<times> lidar_data ikd" where
  "match_point d E converge feats_down_body i = (\<lambda>(s, k).
     if length (point_selected_surf s) \<le> i \<or> length (res_last s) \<le> i \<or> length (normvec s) \<le> i \<or>
        length (Nearest_Points s) \<le> i \<or> length (feats_down_world s) \<le> i \<or> length feats_down_body \<le> i
     then Inl (Fault OutOfRange)
     else let s = s\<lparr>feats_down_world := (feats_down_world s)[i :=
                pointBodyToWorld (to_world E) (feats_down_body ! i) (feats_down_world s ! i)]\<rparr>
          in and_so (if converge then search_point d i s k else Inr (s, k)) (\<lambda>(s, k).
             and_so (faulty (fit_point E feats_down_body i s)) (\<lambda>s. Inr (s, k))))"

fun match_all :: "lidar_data PointType_CMP \<Rightarrow> eigen \<Rightarrow> bool \<Rightarrow> PointType list \<Rightarrow> nat list \<Rightarrow>
    matches \<times> lidar_data ikd \<Rightarrow> stop + matches \<times> lidar_data ikd" where
  "match_all d E converge body [] s = Inr s"
| "match_all d E converge body (i # is) s = and_so (match_point d E converge body i s) (match_all d E converge body is)"

section \<open>The points that count\<close>

text \<open>The second loop: the indices with a residual, the clouds \<open>laserCloudOri\<close> and \<open>corr_normvect\<close>, and
  the sum of the residuals. Without any the measurement is invalid. The code clears both clouds and then
  writes through \<open>points[...]\<close> into the storage they keep; the model has the clouds as they are read.\<close>

record effect =
  laserCloudOri :: "PointType list"
  corr_normvect :: "PointType list"
  total_residual :: flt

definition effective :: "nat \<Rightarrow> matches \<Rightarrow> nat list" where
  "effective n s = filter (\<lambda>i. point_selected_surf s ! i) [0..<n]"

definition collect :: "PointType list \<Rightarrow> matches \<Rightarrow> effect" where
  "collect body s = (let is = effective (length body) s in
     \<lparr>laserCloudOri = map (\<lambda>i. body ! i) is, corr_normvect = map (\<lambda>i. normvec s ! i) is,
      total_residual = foldl (\<lambda>r i. fadd b64 r (res_last s ! i)) (Num 0) is\<rparr>)"

text \<open>The measurement: nothing when there is no effective point, else the points, the normals and the
  mean residual. The Jacobian that is built of them is not modelled.\<close>

definition h_share_model :: "lidar_data PointType_CMP \<Rightarrow> eigen \<Rightarrow> bool \<Rightarrow> PointType list \<Rightarrow>
    matches \<times> lidar_data ikd \<Rightarrow> stop + (effect \<times> flt) option \<times> matches \<times> lidar_data ikd" where
  "h_share_model d E converge body st =
     and_so (match_all d E converge body [0..<length body] st) (\<lambda>(s, k).
       let e = collect body s; n = length (laserCloudOri e)
       in Inr (if n < 1 then None else Some (e, fdiv b64 (total_residual e) (of_i b64 (int n))), s, k))"

section \<open>Which points are matched\<close>

text \<open>Among the nearest, the last is within a distance exactly when that many points of the map are.\<close>

lemma nearest_within:
  assumes n: "nearest (Suc m) p M pts"
  shows "Suc m \<le> length pts \<and> calc_dist p (pts ! m) \<le> d \<longleftrightarrow> Suc m \<le> size (filter_mset (\<lambda>x. calc_dist p x \<le> d) M)"
proof -
  have sub: "mset pts \<subseteq># M" and len: "length pts = min (Suc m) (size M)" and sorted: "sorted (map (calc_dist p) pts)"
    and rest: "\<forall>x \<in> set pts. \<forall>y \<in># M - mset pts. calc_dist p x \<le> calc_dist p y" using n by (auto simp: nearest_def)
  let ?Q = "\<lambda>x. calc_dist p x \<le> d"
  have M: "size (filter_mset ?Q M) = length (filter ?Q pts) + size (filter_mset ?Q (M - mset pts))"
  proof -
    have "filter_mset ?Q M = filter_mset ?Q (mset pts) + filter_mset ?Q (M - mset pts)"
      using sub by (metis filter_union_mset subset_mset.add_diff_inverse)
    then have "size (filter_mset ?Q M) = size (filter_mset ?Q (mset pts)) + size (filter_mset ?Q (M - mset pts))"
      by (metis size_union)
    then show ?thesis by (metis mset_filter size_mset)
  qed
  show ?thesis
  proof
    assume a: "Suc m \<le> length pts \<and> ?Q (pts ! m)"
    then have l: "length pts = Suc m" using len by simp
    have "?Q x" if x: "x \<in> set pts" for x
    proof -
      obtain i where "i < length pts" "x = pts ! i" using x by (auto simp: in_set_conv_nth)
      then have "calc_dist p x \<le> calc_dist p (pts ! m)" using sorted_nth_mono [OF sorted, of i m] l by simp
      then show ?thesis using a by (blast intro: order_trans)
    qed
    then have "filter ?Q pts = pts" by simp
    then show "Suc m \<le> size (filter_mset ?Q M)" using M l by simp
  next
    assume a: "Suc m \<le> size (filter_mset ?Q M)"
    then have l: "length pts = Suc m" using len size_filter_mset_lesseq [of ?Q M] by simp
    have "?Q (pts ! m)"
    proof (rule ccontr)
      assume no: "\<not> ?Q (pts ! m)"
      have "\<not> ?Q y" if "y \<in># M - mset pts" for y
        using rest that no l by (metis lessI nth_mem order_trans)
      then have "filter_mset ?Q (M - mset pts) = {#}" by (metis filter_mset_False filter_mset_cong)
      with M have "size (filter_mset ?Q M) = length (filter ?Q pts)" by (simp only: size_empty add_0_right)
      moreover have "length (filter ?Q pts) < length pts" using no l by (intro length_filter_less [of "pts ! m"]) auto
      ultimately show False using a l by linarith
    qed
    then show "Suc m \<le> length pts \<and> ?Q (pts ! m)" using l by simp
  qed
qed

text \<open>The test of the plane and of the residual, for a point at \<open>w\<close> with the neighbours \<open>near_pts\<close>.\<close>

definition five :: "PointType list \<Rightarrow> PointType list" where
  "five near_pts = take NUM_MATCH_POINTS near_pts"

definition residual :: "eigen \<Rightarrow> PointType \<Rightarrow> PointType list \<Rightarrow> flt" where
  "residual E w near_pts = plane_value (plane_of E (five near_pts)) w"

definition accepts :: "eigen \<Rightarrow> PointType \<Rightarrow> PointType \<Rightarrow> PointType list \<Rightarrow> bool" where
  "accepts E p_body w near_pts \<longleftrightarrow>
     (\<forall>q \<in> set (five near_pts). \<not> fless plane_threshold (fabs (plane_value (plane_of E (five near_pts)) q))) \<and>
     fless (fround b64 (9 / 10)) (score E p_body (residual E w near_pts))"

text \<open>How many points of the map lie within the square root of five metres.\<close>

definition close_points :: "lidar_data ikd \<Rightarrow> PointType \<Rightarrow> PointType multiset" where
  "close_points k w = filter_mset (\<lambda>x. calc_dist w x \<le> Num 5) (points k)"

definition sized :: "nat \<Rightarrow> matches \<Rightarrow> bool" where
  "sized n s \<longleftrightarrow> length (point_selected_surf s) = MAX_POINTS \<and> length (res_last s) = MAX_POINTS \<and>
     length (normvec s) = n \<and> length (Nearest_Points s) = n \<and> length (feats_down_world s) = n"

text \<open>A selected point has the neighbours that the plane needs.\<close>

definition armed :: "nat \<Rightarrow> matches \<Rightarrow> bool" where
  "armed i s \<longleftrightarrow> (point_selected_surf s ! i \<longrightarrow> NUM_MATCH_POINTS \<le> length (Nearest_Points s ! i))"

definition world_at :: "eigen \<Rightarrow> PointType list \<Rightarrow> matches \<Rightarrow> nat \<Rightarrow> PointType" where
  "world_at E body s i = pointBodyToWorld (to_world E) (body ! i) (feats_down_world s ! i)"

definition same_at :: "nat \<Rightarrow> matches \<Rightarrow> matches \<Rightarrow> bool" where
  "same_at i s s' \<longleftrightarrow> point_selected_surf s' ! i = point_selected_surf s ! i \<and> res_last s' ! i = res_last s ! i \<and>
     normvec s' ! i = normvec s ! i \<and> Nearest_Points s' ! i = Nearest_Points s ! i \<and>
     feats_down_world s' ! i = feats_down_world s ! i"

text \<open>What an iteration leaves at index \<open>i\<close>.\<close>

definition matched_at :: "eigen \<Rightarrow> bool \<Rightarrow> PointType list \<Rightarrow> lidar_data ikd \<Rightarrow> matches \<Rightarrow> matches \<Rightarrow> nat \<Rightarrow> bool" where
  "matched_at E converge body k s s' i \<longleftrightarrow>
     feats_down_world s' ! i = world_at E body s i \<and> armed i s' \<and>
     (if converge then nearest NUM_MATCH_POINTS (world_at E body s i) (points k) (Nearest_Points s' ! i)
      else Nearest_Points s' ! i = Nearest_Points s ! i) \<and>
     (point_selected_surf s' ! i \<longleftrightarrow>
        (if converge then NUM_MATCH_POINTS \<le> size (close_points k (world_at E body s i)) else point_selected_surf s ! i) \<and>
        accepts E (body ! i) (world_at E body s i) (Nearest_Points s' ! i)) \<and>
     (point_selected_surf s' ! i \<longrightarrow>
        res_last s' ! i = fabs (residual E (world_at E body s i) (Nearest_Points s' ! i)) \<and>
        intensity (pt_data (normvec s' ! i)) = residual E (world_at E body s i) (Nearest_Points s' ! i) \<and>
        (\<exists>e. plane_of E (five (Nearest_Points s' ! i)) = (pt_x (normvec s' ! i), pt_y (normvec s' ! i), pt_z (normvec s' ! i), e)))"

lemma same_at_refl [simp]: "same_at i s s" by (simp add: same_at_def)
lemma same_at_trans: "same_at i s s' \<Longrightarrow> same_at i s' s'' \<Longrightarrow> same_at i s s''" by (simp add: same_at_def)

lemma fit_point_spec:
  assumes "sized n s" "i < n" "n \<le> MAX_POINTS" "armed i s"
  shows "\<exists>s'. fit_point E body i s = Inr s' \<and> sized n s' \<and> (\<forall>j. j \<noteq> i \<longrightarrow> same_at j s s') \<and>
    feats_down_world s' = feats_down_world s \<and> Nearest_Points s' = Nearest_Points s \<and>
    (point_selected_surf s' ! i \<longleftrightarrow> point_selected_surf s ! i \<and>
       accepts E (body ! i) (feats_down_world s ! i) (Nearest_Points s ! i)) \<and>
    (point_selected_surf s' ! i \<longrightarrow>
       res_last s' ! i = fabs (residual E (feats_down_world s ! i) (Nearest_Points s ! i)) \<and>
       intensity (pt_data (normvec s' ! i)) = residual E (feats_down_world s ! i) (Nearest_Points s ! i) \<and>
       (\<exists>e. plane_of E (five (Nearest_Points s ! i)) = (pt_x (normvec s' ! i), pt_y (normvec s' ! i), pt_z (normvec s' ! i), e)))"
proof (cases "point_selected_surf s ! i")
  case False
  then show ?thesis using assms(1) by (simp add: fit_point_def)
next
  case True
  have len: "i < length (point_selected_surf s)" "i < length (res_last s)" "i < length (normvec s)"
    "NUM_MATCH_POINTS \<le> length (Nearest_Points s ! i)"
    using assms True by (auto simp: sized_def armed_def)
  obtain a b c e where P: "plane_of E (five (Nearest_Points s ! i)) = (a, b, c, e)" by (cases "plane_of E (five (Nearest_Points s ! i))")
  have r: "residual E w (Nearest_Points s ! i) = plane_value (a, b, c, e) w" for w by (simp add: residual_def P)
  show ?thesis
    using assms(1) True len
    by (cases "\<exists>p \<in> set (five (Nearest_Points s ! i)). fless plane_threshold (fabs (plane_value (a, b, c, e) p))";
        cases "fless (fround b64 (9 / 10)) (score E (body ! i) (plane_value (a, b, c, e) (feats_down_world s ! i)))")
      (simp_all add: fit_point_def esti_plane_def Let_def five_def [symmetric] P r accepts_def sized_def same_at_def not_less)
qed

text \<open>The search of one point, without a distance limit.\<close>

lemma in_reach_all:
  assumes "ikd_ok k" "finite_point p"
  shows "in_reach p (Infty False) k = points k"
proof -
  have "fle (calc_dist p x) (Infty False)" if "x \<in># points k" for x
    using calc_dist_ok [of p x] assms points_finite [OF assms(1) that] by (simp add: fle_iff)
  moreover have "fmul b32 (Infty False) (Infty False) = Infty False" by simp
  ultimately show ?thesis unfolding in_reach_def by (metis (mono_tags, lifting) filter_mset_True filter_mset_cong)
qed

lemma search_point_spec:
  assumes s: "sized n s" "i < n" "n \<le> MAX_POINTS" and k: "ikd_ok k" "Rebuild_Ptr k = None"
    and w: "finite_point (feats_down_world s ! i)" "separated (entry_of (feats_down_world s ! i) ` set_mset (points k))"
  shows "\<exists>s' k'. search_point d i s k = Inr (s', k') \<and> sized n s' \<and> (\<forall>j. j \<noteq> i \<longrightarrow> same_at j s s') \<and>
    feats_down_world s' = feats_down_world s \<and> armed i s' \<and>
    nearest NUM_MATCH_POINTS (feats_down_world s ! i) (points k) (Nearest_Points s' ! i) \<and>
    (point_selected_surf s' ! i \<longleftrightarrow> NUM_MATCH_POINTS \<le> size (close_points k (feats_down_world s ! i))) \<and>
    ikd_ok k' \<and> points k' = points k \<and> stock k' = stock k \<and> Rebuild_Ptr k' = None"
proof -
  let ?w = "feats_down_world s ! i"
  note all = in_reach_all [OF k(1) w(1)]
  obtain pts k' where p: "nearest_points d ?w NUM_MATCH_POINTS (Infty False) k = Inr (pts, map (calc_dist ?w) pts, k')"
    "nearest NUM_MATCH_POINTS ?w (points k) pts"
    using nearest_points_spec [OF k w(1), of NUM_MATCH_POINTS "Infty False" d] w(2) by (auto simp: all NUM_MATCH_POINTS_def)
  note K = nearest_points_keeps [OF k(1) p(1)]
  have "Rebuild_Ptr k' = None"
    using p(1) k(2) by (auto simp: nearest_points_def guarded_Inr and_so_Inr)
  have "pts ! 4 \<in># points k" if "NUM_MATCH_POINTS \<le> length pts"
    using p(2) that by (auto simp: nearest_def NUM_MATCH_POINTS_def dest!: mset_subset_eqD[of _ _ "pts ! 4"])
  then have five: "NUM_MATCH_POINTS \<le> length pts \<and> \<not> fless (Num 5) (map (calc_dist ?w) pts ! 4) \<longleftrightarrow>
      NUM_MATCH_POINTS \<le> length pts \<and> calc_dist ?w (pts ! 4) \<le> Num 5"
    using calc_dist_ok [of ?w "pts ! 4"] w(1) points_finite [OF k(1)] by (auto simp: NUM_MATCH_POINTS_def)
  also have "\<dots> \<longleftrightarrow> NUM_MATCH_POINTS \<le> size (close_points k ?w)"
    using nearest_within [of 4 ?w "points k" pts "Num 5"] p(2) by (simp add: NUM_MATCH_POINTS_def close_points_def)
  finally have sel: "(NUM_MATCH_POINTS \<le> length pts \<and> \<not> fless (Num 5) (map (calc_dist ?w) pts ! (NUM_MATCH_POINTS - 1))) \<longleftrightarrow>
      NUM_MATCH_POINTS \<le> size (close_points k ?w)" by (simp add: NUM_MATCH_POINTS_def)
  from sel have "NUM_MATCH_POINTS \<le> size (close_points k ?w) \<longrightarrow> NUM_MATCH_POINTS \<le> length pts" by blast
  moreover have len: "i < length (point_selected_surf s)" "i < length (Nearest_Points s)" using s by (simp_all add: sized_def)
  ultimately show ?thesis using s len p K sel \<open>Rebuild_Ptr k' = None\<close>
    by (simp add: search_point_def sized_def same_at_def armed_def)
qed

lemma match_point_spec:
  assumes s: "sized n s" "i < n" "n \<le> MAX_POINTS" "length body = n" and k: "ikd_ok k" "Rebuild_Ptr k = None"
    and w: "converge \<Longrightarrow> finite_point (world_at E body s i)"
      "converge \<Longrightarrow> separated (entry_of (world_at E body s i) ` set_mset (points k))"
    and a: "\<not> converge \<Longrightarrow> armed i s"
  shows "\<exists>s' k'. match_point d E converge body i (s, k) = Inr (s', k') \<and> sized n s' \<and> (\<forall>j. j \<noteq> i \<longrightarrow> same_at j s s') \<and>
    matched_at E converge body k s s' i \<and> ikd_ok k' \<and> points k' = points k \<and> stock k' = stock k \<and> Rebuild_Ptr k' = None"
proof -
  define s1 where "s1 = s\<lparr>feats_down_world := (feats_down_world s)[i := world_at E body s i]\<rparr>"
  have s1: "sized n s1" "feats_down_world s1 ! i = world_at E body s i" "\<forall>j. j \<noteq> i \<longrightarrow> same_at j s s1"
    "point_selected_surf s1 = point_selected_surf s" "Nearest_Points s1 = Nearest_Points s" "armed i s1 = armed i s"
    using s by (simp_all add: s1_def sized_def same_at_def armed_def)
  have "\<exists>s2 k'. (if converge then search_point d i s1 k else Inr (s1, k)) = Inr (s2, k') \<and> sized n s2 \<and>
    (\<forall>j. j \<noteq> i \<longrightarrow> same_at j s1 s2) \<and> feats_down_world s2 ! i = world_at E body s i \<and> armed i s2 \<and>
    (if converge then nearest NUM_MATCH_POINTS (world_at E body s i) (points k) (Nearest_Points s2 ! i)
     else Nearest_Points s2 ! i = Nearest_Points s ! i) \<and>
    (point_selected_surf s2 ! i \<longleftrightarrow> (if converge then NUM_MATCH_POINTS \<le> size (close_points k (world_at E body s i))
       else point_selected_surf s ! i)) \<and>
    ikd_ok k' \<and> points k' = points k \<and> stock k' = stock k \<and> Rebuild_Ptr k' = None"
  proof (cases converge)
    case True
    then show ?thesis using search_point_spec [OF s1(1) s(2,3) k, of d] w s1(2) by auto
  next
    case False
    then show ?thesis using s1 a k by auto
  qed
  then obtain s2 k' where s2: "(if converge then search_point d i s1 k else Inr (s1, k)) = Inr (s2, k')" "sized n s2"
    "\<forall>j. j \<noteq> i \<longrightarrow> same_at j s1 s2" "feats_down_world s2 ! i = world_at E body s i" "armed i s2"
    "if converge then nearest NUM_MATCH_POINTS (world_at E body s i) (points k) (Nearest_Points s2 ! i)
     else Nearest_Points s2 ! i = Nearest_Points s ! i"
    "point_selected_surf s2 ! i \<longleftrightarrow> (if converge then NUM_MATCH_POINTS \<le> size (close_points k (world_at E body s i))
       else point_selected_surf s ! i)"
    "ikd_ok k'" "points k' = points k" "stock k' = stock k" "Rebuild_Ptr k' = None" by blast
  obtain s3 where s3: "fit_point E body i s2 = Inr s3" "sized n s3" "\<forall>j. j \<noteq> i \<longrightarrow> same_at j s2 s3"
    "feats_down_world s3 = feats_down_world s2" "Nearest_Points s3 = Nearest_Points s2"
    "point_selected_surf s3 ! i \<longleftrightarrow> point_selected_surf s2 ! i \<and>
       accepts E (body ! i) (feats_down_world s2 ! i) (Nearest_Points s2 ! i)"
    "point_selected_surf s3 ! i \<longrightarrow>
       res_last s3 ! i = fabs (residual E (feats_down_world s2 ! i) (Nearest_Points s2 ! i)) \<and>
       intensity (pt_data (normvec s3 ! i)) = residual E (feats_down_world s2 ! i) (Nearest_Points s2 ! i) \<and>
       (\<exists>e. plane_of E (five (Nearest_Points s2 ! i)) = (pt_x (normvec s3 ! i), pt_y (normvec s3 ! i), pt_z (normvec s3 ! i), e))"
    using fit_point_spec [OF s2(2) s(2,3) s2(5), of E body] by blast
  have "match_point d E converge body i (s, k) = Inr (s3, k')"
  proof -
    have "match_point d E converge body i (s, k) = and_so (if converge then search_point d i s1 k else Inr (s1, k)) (\<lambda>(s, k).
        and_so (faulty (fit_point E body i s)) (\<lambda>s. Inr (s, k)))"
      using s by (simp add: match_point_def sized_def s1_def world_at_def Let_def)
    then show ?thesis unfolding s2(1) by (simp add: s3(1) faulty_def)
  qed
  moreover have "matched_at E converge body k s s3 i"
    using s2 s3 unfolding matched_at_def armed_def by auto
  moreover have "\<forall>j. j \<noteq> i \<longrightarrow> same_at j s s3" using s1(3) s2(3) s3(3) same_at_trans by blast
  ultimately show ?thesis using s3(2) s2(8-11) by blast
qed

lemma matched_at_before:
  assumes "points k1 = points k" "same_at j s s1"
  shows "matched_at E c body k1 s1 s' j = matched_at E c body k s s' j"
  using assms by (simp add: matched_at_def same_at_def world_at_def close_points_def)

lemma matched_at_after:
  assumes "matched_at E c body k s s1 j" "same_at j s1 s'"
  shows "matched_at E c body k s s' j"
  using assms unfolding matched_at_def same_at_def armed_def by simp

lemma match_all_spec:
  assumes "n \<le> MAX_POINTS" "length body = n"
    and "sized n s" "set is \<subseteq> {..<n}" "distinct is" "ikd_ok k" "Rebuild_Ptr k = None"
    and "\<forall>i \<in> set is. if converge then finite_point (world_at E body s i) \<and>
        separated (entry_of (world_at E body s i) ` set_mset (points k)) else armed i s"
  shows "\<exists>s' k'. match_all d E converge body is (s, k) = Inr (s', k') \<and> sized n s' \<and>
    (\<forall>j. j \<notin> set is \<longrightarrow> same_at j s s') \<and> (\<forall>i \<in> set is. matched_at E converge body k s s' i) \<and>
    ikd_ok k' \<and> points k' = points k \<and> stock k' = stock k \<and> Rebuild_Ptr k' = None"
  using assms(3-)
proof (induction "is" arbitrary: s k)
  case Nil
  then show ?case by simp
next
  case (Cons i "is")
  obtain s1 k1 where 1: "match_point d E converge body i (s, k) = Inr (s1, k1)" "sized n s1"
    "\<forall>j. j \<noteq> i \<longrightarrow> same_at j s s1" "matched_at E converge body k s s1 i" "ikd_ok k1" "points k1 = points k"
    "stock k1 = stock k" "Rebuild_Ptr k1 = None"
    using match_point_spec [OF Cons.prems(1) _ assms(1,2) Cons.prems(4,5), of i converge E d] Cons.prems(2,6)
    by (auto split: if_splits)
  have same: "same_at j s s1" if "j \<in> set is" for j using 1(3) that Cons.prems(3) by auto
  have "if converge then finite_point (world_at E body s1 j) \<and>
      separated (entry_of (world_at E body s1 j) ` set_mset (points k1)) else armed j s1" if "j \<in> set is" for j
    using Cons.prems(6) same [OF that] that 1(6) by (auto simp: world_at_def same_at_def armed_def split: if_splits)
  then obtain s2 k2 where 2: "match_all d E converge body is (s1, k1) = Inr (s2, k2)" "sized n s2"
    "\<forall>j. j \<notin> set is \<longrightarrow> same_at j s1 s2" "\<forall>j \<in> set is. matched_at E converge body k1 s1 s2 j"
    "ikd_ok k2" "points k2 = points k1" "stock k2 = stock k1" "Rebuild_Ptr k2 = None"
    using Cons.IH [OF 1(2) _ _ 1(5,8)] Cons.prems(2,3) by auto
  have "matched_at E converge body k s s2 j" if "j \<in> set (i # is)" for j
  proof (cases "j = i")
    case True
    then have "same_at i s1 s2" using 2(3) Cons.prems(3) by simp
    then show ?thesis using matched_at_after [OF 1(4)] True by simp
  next
    case False
    then have j: "j \<in> set is" using that by simp
    then show ?thesis using matched_at_before [OF 1(6) same [OF j]] 2(4) by blast
  qed
  moreover have "same_at j s s2" if "j \<notin> set (i # is)" for j
    using 1(3) 2(3) that same_at_trans by (metis list.set_intros(1) list.set_intros(2))
  ultimately show ?case using 1(1,6,7) 2 by auto
qed

text \<open>Resizing keeps the arrays, and a first iteration searches for every point: afterwards each
  selected point has its five neighbours, so that later iterations, which do not search, are safe.\<close>

definition armed_all :: "nat \<Rightarrow> matches \<Rightarrow> bool" where
  "armed_all n s \<longleftrightarrow> sized n s \<and> (\<forall>i < n. armed i s)"

lemma length_resize [simp]: "length (resize n x xs) = n"
  by (simp add: resize_def)

lemma resize_sized: "length (point_selected_surf s) = MAX_POINTS \<Longrightarrow> length (res_last s) = MAX_POINTS \<Longrightarrow> sized n (resize_matches n s)"
  by (simp add: sized_def resize_matches_def)

lemma h_share_model_spec:
  assumes n: "length body \<le> MAX_POINTS" "sized (length body) s" and k: "ikd_ok k" "Rebuild_Ptr k = None"
    and c: "if converge then \<forall>i < length body. finite_point (world_at E body s i) \<and>
        separated (entry_of (world_at E body s i) ` set_mset (points k)) else armed_all (length body) s"
  shows "\<exists>r s' k'. h_share_model d E converge body (s, k) = Inr (r, s', k') \<and> armed_all (length body) s' \<and>
    (\<forall>i < length body. matched_at E converge body k s s' i) \<and>
    (case r of None \<Rightarrow> \<forall>i < length body. \<not> point_selected_surf s' ! i
     | Some (e, _) \<Rightarrow> e = collect body s' \<and> laserCloudOri e \<noteq> []) \<and>
    ikd_ok k' \<and> points k' = points k \<and> stock k' = stock k \<and> Rebuild_Ptr k' = None"
proof -
  have "\<forall>i \<in> set [0..<length body]. if converge then finite_point (world_at E body s i) \<and>
        separated (entry_of (world_at E body s i) ` set_mset (points k)) else armed i s"
    using c by (auto simp: armed_all_def split: if_splits)
  from match_all_spec [OF n(1) refl n(2) _ _ k this, of d]
  obtain s' k' where 1: "match_all d E converge body [0..<length body] (s, k) = Inr (s', k')" "sized (length body) s'"
    "\<forall>i < length body. matched_at E converge body k s s' i"
    "ikd_ok k'" "points k' = points k" "stock k' = stock k" "Rebuild_Ptr k' = None"
    by (auto simp: atLeast0LessThan)
  have "armed_all (length body) s'" using 1(2,3) by (auto simp: armed_all_def matched_at_def)
  moreover have "laserCloudOri (collect body s') = [] \<longleftrightarrow> (\<forall>i < length body. \<not> point_selected_surf s' ! i)"
    by (auto simp: collect_def effective_def Let_def filter_empty_conv)
  ultimately show ?thesis using 1
    by (cases "laserCloudOri (collect body s') = []") (simp_all add: h_share_model_def Let_def Suc_le_eq)
qed

text \<open>The first iteration, which searches.\<close>

lemma h_share_model_first:
  assumes "length body \<le> MAX_POINTS" "sized (length body) a" "ikd_ok k" "Rebuild_Ptr k = None"
    and "\<forall>i < length body. finite_point (world_at E body a i) \<and> separated (entry_of (world_at E body a i) ` set_mset (points k))"
  shows "\<exists>r a' k'. h_share_model d E True body (a, k) = Inr (r, a', k') \<and>
    (\<forall>i < length body. matched_at E True body k a a' i) \<and>
    (r = None \<longleftrightarrow> (\<forall>i < length body. \<not> point_selected_surf a' ! i)) \<and>
    (\<forall>e mean. r = Some (e, mean) \<longrightarrow> e = collect body a') \<and> ikd_ok k' \<and> points k' = points k"
proof -
  obtain r a' k' where h: "h_share_model d E True body (a, k) = Inr (r, a', k')"
    "\<forall>i < length body. matched_at E True body k a a' i"
    "case r of None \<Rightarrow> \<forall>i < length body. \<not> point_selected_surf a' ! i | Some (e, _) \<Rightarrow> e = collect body a' \<and> laserCloudOri e \<noteq> []"
    "ikd_ok k'" "points k' = points k"
    using h_share_model_spec [OF assms(1-4), of True E d] assms(5) by auto
  have "laserCloudOri (collect body a') = [] \<longleftrightarrow> (\<forall>i < length body. \<not> point_selected_surf a' ! i)"
    by (auto simp: collect_def effective_def Let_def filter_empty_conv)
  then have "r = None \<longleftrightarrow> (\<forall>i < length body. \<not> point_selected_surf a' ! i)"
    "\<forall>e mean. r = Some (e, mean) \<longrightarrow> e = collect body a'" using h(3) by (cases r; auto)+
  then show ?thesis using h by blast
qed

end
