(* ===== verification/Lio_Filter.thy ===== *)
theory Lio_Filter
  imports Lio_Match
begin

text \<open>
  The iterated update of the filter, \<open>update_iterated_dyn_share_modified\<close> of \<open>esekfom.hpp\<close>: its loop
  over the iterations with the tests that end it. The linear algebra of an iteration is a parameter.
  The measurement is any function, or \<open>h_share_model\<close> on the map.
\<close>

section \<open>The loop\<close>

text \<open>The linear algebra, for the propagated state and covariance, the state of the iteration and the
  measurement: \<open>gain\<close> gives the step \<open>dx_\<close> and \<open>K_x\<close>; \<open>projected\<close> is the propagated covariance in the
  tangent space of the state, as it is stored in \<open>P_\<close> in every iteration; \<open>updated\<close> is the covariance
  that the last iteration stores.\<close>

record ('x, 'p, 'm, 'd) algebra =
  gain :: "'x \<times> 'p \<Rightarrow> 'x \<Rightarrow> 'm \<Rightarrow> 'd"
  step_of :: "'d \<Rightarrow> flt list"
  boxplus :: "'x \<Rightarrow> 'd \<Rightarrow> 'x"
  projected :: "'x \<times> 'p \<Rightarrow> 'x \<Rightarrow> 'p"
  updated :: "'x \<times> 'p \<Rightarrow> 'x \<Rightarrow> 'm \<Rightarrow> 'd \<Rightarrow> 'p"

text \<open>The members \<open>x_\<close> and \<open>P_\<close>, \<open>dyn_share.converge\<close>, and \<open>t\<close>.\<close>

record ('x, 'p) iterate =
  it_x :: 'x
  it_P :: 'p
  it_converge :: bool
  it_t :: nat

text \<open>Every component of the step is within its limit.\<close>

definition inside_limits :: "flt list \<Rightarrow> flt list \<Rightarrow> bool" where
  "inside_limits limit dx \<longleftrightarrow> list_all2 (\<lambda>l d. \<not> fless l (fabs d)) limit dx"

text \<open>The iterations \<open>is\<close> that are left of \<open>-1, ..., maximum_iter - 1\<close>. The measurement is asked with the
  flag and the state; \<open>None\<close> is \<open>valid = false\<close>. The result says whether the loop was left by \<open>return\<close>,
  after the covariance has been updated.\<close>

fun iterations :: "('x, 'p, 'm, 'd) algebra \<Rightarrow> flt list \<Rightarrow> (bool \<Rightarrow> 'x \<Rightarrow> 's \<Rightarrow> stop + 'm option \<times> 's) \<Rightarrow> int \<Rightarrow>
    'x \<times> 'p \<Rightarrow> int list \<Rightarrow> ('x, 'p) iterate \<Rightarrow> 's \<Rightarrow> stop + bool \<times> ('x, 'p) iterate \<times> 's" where
  "iterations A limit h maximum_iter prop [] s w = Inr (False, s, w)"
| "iterations A limit h maximum_iter prop (i # is) s w =
     and_so (h (it_converge s) (it_x s) w) (\<lambda>(valid, w). case valid of
       None \<Rightarrow> iterations A limit h maximum_iter prop is s w
     | Some m \<Rightarrow>
         let dx = gain A prop (it_x s) m; x = boxplus A (it_x s) dx;
             conv = inside_limits limit (step_of A dx); t = (if conv then it_t s + 1 else it_t s);
             conv = (if t = 0 \<and> i = maximum_iter - 2 then True else conv)
         in if 1 < t \<or> i = maximum_iter - 1
            then Inr (True, \<lparr>it_x = x, it_P = updated A prop (it_x s) m dx, it_converge = conv, it_t = t\<rparr>, w)
            else iterations A limit h maximum_iter prop is
                   \<lparr>it_x = x, it_P = projected A prop (it_x s), it_converge = conv, it_t = t\<rparr> w)"

definition update_iterated :: "('x, 'p, 'm, 'd) algebra \<Rightarrow> flt list \<Rightarrow> (bool \<Rightarrow> 'x \<Rightarrow> 's \<Rightarrow> stop + 'm option \<times> 's) \<Rightarrow>
    int \<Rightarrow> 'x \<times> 'p \<Rightarrow> 's \<Rightarrow> stop + bool \<times> ('x, 'p) iterate \<times> 's" where
  "update_iterated A limit h maximum_iter prop w =
     iterations A limit h maximum_iter prop [-1..maximum_iter - 1]
       \<lparr>it_x = fst prop, it_P = snd prop, it_converge = True, it_t = 0\<rparr> w"

section \<open>How it ends\<close>

text \<open>The covariance is updated exactly when the loop returns; else the last measurement was invalid,
  and what is stored is the propagated covariance, in the tangent space of some iteration.\<close>

definition ended :: "('x, 'p, 'm, 'd) algebra \<Rightarrow> flt list \<Rightarrow> (bool \<Rightarrow> 'x \<Rightarrow> 's \<Rightarrow> stop + 'm option \<times> 's) \<Rightarrow>
    'x \<times> 'p \<Rightarrow> bool \<Rightarrow> ('x, 'p) iterate \<Rightarrow> 's \<Rightarrow> bool" where
  "ended A limit h prop done s w \<longleftrightarrow>
     (if done then \<exists>c x w0 m. h c x w0 = Inr (Some m, w) \<and> it_x s = boxplus A x (gain A prop x m) \<and>
        it_P s = updated A prop x m (gain A prop x m)
      else \<exists>c w0. h c (it_x s) w0 = Inr (None, w))"

lemma iterations_end:
  assumes "iterations A limit h n prop is s w = Inr (d, s', w')" "is \<noteq> []" "last is = n - 1"
  shows "ended A limit h prop d s' w' \<and> (\<not> d \<longrightarrow> it_P s' = it_P s \<and> it_x s' = it_x s \<or> (\<exists>x. it_P s' = projected A prop x))"
  using assms
proof (induction "is" arbitrary: s w)
  case (Cons i "is")
  obtain v w1 where h: "h (it_converge s) (it_x s) w = Inr (v, w1)" using Cons.prems(1) by (auto simp: and_so_Inr)
  show ?case
  proof (cases v)
    case None
    then have r: "iterations A limit h n prop is s w1 = Inr (d, s', w')" using Cons.prems(1) by (simp add: h)
    show ?thesis
    proof (cases "is = []")
      case True
      then show ?thesis using r h None by (auto simp: ended_def)
    next
      case False
      then show ?thesis using Cons.IH [OF r] Cons.prems(3) by simp
    qed
  next
    case (Some m)
    define s1 where "s1 = \<lparr>it_x = boxplus A (it_x s) (gain A prop (it_x s) m), it_P = projected A prop (it_x s),
      it_converge = (if (if inside_limits limit (step_of A (gain A prop (it_x s) m)) then it_t s + 1 else it_t s) = 0 \<and> i = n - 2 then True
        else inside_limits limit (step_of A (gain A prop (it_x s) m))),
      it_t = (if inside_limits limit (step_of A (gain A prop (it_x s) m)) then it_t s + 1 else it_t s)\<rparr>"
    show ?thesis
    proof (cases "1 < it_t s1 \<or> i = n - 1")
      case True
      then have "d" "w' = w1" "it_x s' = boxplus A (it_x s) (gain A prop (it_x s) m)" "it_P s' = updated A prop (it_x s) m (gain A prop (it_x s) m)"
        using Cons.prems(1) by (auto simp: h Some s1_def Let_def split: if_splits)
      then show ?thesis using h Some by (auto simp: ended_def)
    next
      case False
      then have r: "iterations A limit h n prop is s1 w1 = Inr (d, s', w')"
        using Cons.prems(1) by (auto simp: h Some s1_def Let_def split: if_splits)
      have "is \<noteq> []" using False Cons.prems(3) by auto
      then show ?thesis using Cons.IH [OF r] Cons.prems(3) by (auto simp: s1_def)
    qed
  qed
qed simp

lemma last_iteration: "0 \<le> n \<Longrightarrow> [-1..n - 1] \<noteq> [] \<and> last [-1..n - 1] = (n - 1 :: int)"
  by (simp add: upto_rec2)

lemma update_iterated_end:
  assumes "update_iterated A limit h n prop w = Inr (d, s', w')" "0 \<le> n"
  shows "ended A limit h prop d s' w'"
    "\<not> d \<Longrightarrow> it_P s' = snd prop \<and> it_x s' = fst prop \<or> (\<exists>x. it_P s' = projected A prop x)"
  using iterations_end [OF assms(1) [unfolded update_iterated_def]] last_iteration [OF assms(2)] by auto

section \<open>With the map\<close>

text \<open>Whatever the data, NaN and ties included, a search of the map for at least one neighbour reads
  nothing out of range: the order of the heap may be wrong then, not its size.\<close>

definition roomy :: "nat \<Rightarrow> 'a heap \<Rightarrow> bool" where
  "roomy k q \<longleftrightarrow> 0 < k \<and> heap_size q \<le> k \<and> length (heap q) = 2 * k"

lemma roomy_top: "roomy k q \<Longrightarrow> \<exists>c. heap_top q = Inr c"
  by (auto simp: roomy_def heap_top_def)

lemma roomy_guards:
  assumes "roomy k q"
  shows "\<exists>b. below_top d q = Inr b" "\<exists>b. room_or_below k d q = Inr b" "\<exists>b. visit_both k dl dr q = Inr b"
  using roomy_top [OF assms] by (auto simp: below_top_def room_or_below_def visit_both_def)

lemma roomy_offer:
  assumes "roomy k q"
  shows "\<exists>q'. offer k p m n q = Inr q' \<and> roomy k q'"
proof -
  obtain b where b: "room_or_below k (calc_dist p (point n)) q = Inr b" using roomy_guards(2) [OF assms] by blast
  define q1 where "q1 = (if k \<le> heap_size q then heap_pop cmp_less q else q)"
  have "heap_wf q" "k \<le> heap_size q \<Longrightarrow> 0 < heap_size q" using assms by (auto simp: roomy_def heap_wf_def)
  then have "heap_size q1 < k" "length (heap q1) = 2 * k" "heap_wf q1"
    using assms by (auto simp: q1_def roomy_def)
  then have "roomy k (heap_push cmp_less x q1)" for x using assms by (auto simp: roomy_def)
  then show ?thesis using assms b by (auto simp: offer_def Let_def q1_def [symmetric])
qed

definition safe :: "nat \<Rightarrow> ub + 'a \<times> 'b heap \<Rightarrow> bool" where
  "safe k r \<longleftrightarrow> (\<exists>t q. r = Inr (t, q) \<and> roomy k q)"

lemma safe_Inr [simp]: "safe k (Inr (t, q)) \<longleftrightarrow> roomy k q" by (simp add: safe_def)

lemma safe_bind: "safe k r \<Longrightarrow> (\<And>t q. roomy k q \<Longrightarrow> safe k (f (t, q))) \<Longrightarrow> safe k (bind_ub r f)"
  by (auto simp: safe_def)

lemma safe_guard: "\<exists>b. r = Inr b \<Longrightarrow> (\<And>b. safe k (f b)) \<Longrightarrow> safe k (bind_ub r f)"
  by auto

lemma search_safe:
  assumes "roomy k q"
  shows "safe k (Search k p max_dist t q)"
  using assms
proof (induction "nodes t" arbitrary: t q rule: less_induct)
  case less
  show ?case
  proof (cases t)
    case Null
    then show ?thesis using less.prems by simp
  next
    case (Node n l r)
    show ?thesis
    proof (cases "tree_deleted n \<or> fless (fmul b32 max_dist max_dist) (calc_box_dist t p)")
      case True
      then show ?thesis using less.prems Node by (auto simp: Let_def)
    next
      case False
      obtain n1 l1 r1 where P: "Push_Down n l r = (n1, l1, r1)" by (metis prod_cases3)
      obtain q1 where q1: "offer k p (fmul b32 max_dist max_dist) n1 q = Inr q1" "roomy k q1" using roomy_offer [OF less.prems] by blast
      have l: "safe k (Search k p max_dist l1 q')" and r: "safe k (Search k p max_dist r1 q')" if "roomy k q'" for q'
        using less.hyps [of _ q'] nodes_Push_Down [OF P] that Node by simp_all
      have rest: "safe k (if go then bind_ub (Search k p max_dist t1 q') (\<lambda>(x, q). Inr (g x, q)) else Inr (y, q'))"
        if "roomy k q'" "t1 = l1 \<or> t1 = r1" for go t1 q' g y
        using that l [OF that(1)] r [OF that(1)] by (auto intro!: safe_bind)
      let ?L = "bind_ub (Search k p max_dist l1 q1) (\<lambda>(l, q).
                bind_ub (room_or_below k (calc_box_dist r1 p) q) (\<lambda>go.
                  if go then bind_ub (Search k p max_dist r1 q) (\<lambda>(r, q). Inr (Node n1 l r, q))
                  else Inr (Node n1 l r1, q)))"
      let ?R = "bind_ub (Search k p max_dist r1 q1) (\<lambda>(r, q).
                bind_ub (room_or_below k (calc_box_dist l1 p) q) (\<lambda>go.
                  if go then bind_ub (Search k p max_dist l1 q) (\<lambda>(l, q). Inr (Node n1 l r, q))
                  else Inr (Node n1 l1 r, q)))"
      let ?B = "bind_ub (below_top (calc_box_dist l1 p) q1) (\<lambda>go_left.
              bind_ub (if go_left then Search k p max_dist l1 q1 else Inr (l1, q1)) (\<lambda>(l, q).
              bind_ub (below_top (calc_box_dist r1 p) q) (\<lambda>go_right.
                if go_right then bind_ub (Search k p max_dist r1 q) (\<lambda>(r, q). Inr (Node n1 l r, q))
                else Inr (Node n1 l r1, q))))"
      have L: "safe k ?L"
        by (rule safe_bind [OF l [OF q1(2)]], unfold prod.case, rule safe_guard [OF roomy_guards(2)], assumption)
          (rule rest, simp_all)
      have R: "safe k ?R"
        by (rule safe_bind [OF r [OF q1(2)]], unfold prod.case, rule safe_guard [OF roomy_guards(2)], assumption)
          (rule rest, simp_all)
      have left: "safe k (if go then Search k p max_dist l1 q1 else Inr (l1, q1))" for go
        using l q1(2) by simp
      have B: "safe k ?B"
        by (rule safe_guard [OF roomy_guards(1) [OF q1(2)]], rule safe_bind [OF left], unfold prod.case,
            rule safe_guard [OF roomy_guards(1)], assumption) (rule rest, simp_all)
      have "Search k p max_dist t q = bind_ub (visit_both k (calc_box_dist l1 p) (calc_box_dist r1 p) q1) (\<lambda>both.
            if both then if fle (calc_box_dist l1 p) (calc_box_dist r1 p) then ?L else ?R else ?B)"
        using False by (simp add: Node P q1(1) Let_def)
      also have "safe k \<dots>"
        by (rule safe_guard [OF roomy_guards(3) [OF q1(2)]]) (use L R B in presburger)
      finally show ?thesis .
    qed
  qed
qed

lemma take_out_safe:
  assumes "roomy k q" "i \<le> heap_size q"
  shows "\<exists>xs. take_out i q out = Inr xs"
  using assms
proof (induction i arbitrary: q out)
  case (Suc i)
  obtain c where c: "heap_top q = Inr c" using roomy_top [OF Suc.prems(1)] by blast
  have "heap_wf q" "0 < heap_size q" using Suc.prems by (auto simp: roomy_def heap_wf_def)
  then have "roomy k (heap_pop cmp_less q)" "i \<le> heap_size (heap_pop cmp_less q)"
    using Suc.prems by (auto simp: roomy_def)
  then show ?case using Suc.IH c by simp
qed simp

lemma nearest_points_safe:
  assumes "0 < n" "Rebuild_Ptr k = None"
  shows "\<exists>pts ds k'. nearest_points d p n max_dist k = Inr (pts, ds, k') \<and> Rebuild_Ptr k' = None"
proof -
  have "roomy n (MANUAL_HEAP d (2 * n))" using assms by (simp add: roomy_def MANUAL_HEAP_def)
  then obtain t q where s: "Search n p max_dist (Root_Node k) (MANUAL_HEAP d (2 * n)) = Inr (t, q)" "roomy n q"
    using search_safe [of n "MANUAL_HEAP d (2 * n)" p max_dist "Root_Node k"] by (auto simp: safe_def)
  obtain xs where "take_out (min n (heap_size q)) q [] = Inr xs" using take_out_safe [OF s(2), of "min n (heap_size q)"] by auto
  then show ?thesis using assms(2) s(1) by (simp add: nearest_points_def guarded_def Nearest_Search_def faulty_def)
qed

section \<open>The update returns\<close>

lemma match_point_safe:
  assumes "sized n s" "i < n" "n \<le> MAX_POINTS" "length body = n" "Rebuild_Ptr k = None" "\<not> c \<Longrightarrow> armed i s"
  shows "\<exists>s' k'. match_point d E c body i (s, k) = Inr (s', k') \<and> sized n s' \<and> Rebuild_Ptr k' = None \<and> armed i s' \<and>
    (\<forall>j. j \<noteq> i \<longrightarrow> same_at j s s')"
proof -
  define s1 where "s1 = s\<lparr>feats_down_world := (feats_down_world s)[i := world_at E body s i]\<rparr>"
  have s1: "sized n s1" "\<forall>j. j \<noteq> i \<longrightarrow> same_at j s s1" "armed i s1 = armed i s"
    using assms by (simp_all add: s1_def sized_def same_at_def armed_def)
  have "\<exists>s2 k'. (if c then search_point d i s1 k else Inr (s1, k)) = Inr (s2, k') \<and> sized n s2 \<and> armed i s2 \<and>
    (\<forall>j. j \<noteq> i \<longrightarrow> same_at j s1 s2) \<and> Rebuild_Ptr k' = None"
  proof (cases c)
    case False
    then show ?thesis using s1 assms by auto
  next
    case True
    obtain pts ds k' where "nearest_points d (feats_down_world s1 ! i) NUM_MATCH_POINTS (Infty False) k = Inr (pts, ds, k')"
      "Rebuild_Ptr k' = None"
      using nearest_points_safe [OF _ assms(5), of NUM_MATCH_POINTS d "feats_down_world s1 ! i" "Infty False"]
      by (auto simp: NUM_MATCH_POINTS_def)
    then show ?thesis using True s1(1) assms(2,3)
      by (auto simp: search_point_def sized_def same_at_def armed_def)
  qed
  then obtain s2 k' where s2: "(if c then search_point d i s1 k else Inr (s1, k)) = Inr (s2, k')" "sized n s2" "armed i s2"
    "\<forall>j. j \<noteq> i \<longrightarrow> same_at j s1 s2" "Rebuild_Ptr k' = None" by blast
  obtain s3 where s3: "fit_point E body i s2 = Inr s3" "sized n s3" "\<forall>j. j \<noteq> i \<longrightarrow> same_at j s2 s3"
    "Nearest_Points s3 = Nearest_Points s2" "point_selected_surf s3 ! i \<longrightarrow> point_selected_surf s2 ! i"
    using fit_point_spec [OF s2(2) assms(2,3) s2(3), of E body] by blast
  have "match_point d E c body i (s, k) = and_so (if c then search_point d i s1 k else Inr (s1, k)) (\<lambda>(s, k).
        and_so (faulty (fit_point E body i s)) (\<lambda>s. Inr (s, k)))"
    using assms by (simp add: match_point_def sized_def s1_def world_at_def Let_def)
  then have "match_point d E c body i (s, k) = Inr (s3, k')" unfolding s2(1) by (simp add: s3(1) faulty_def)
  moreover have "armed i s3" using s2(3) s3(4,5) by (simp add: armed_def)
  moreover have "\<forall>j. j \<noteq> i \<longrightarrow> same_at j s s3" using s1(2) s2(4) s3(3) same_at_trans by blast
  ultimately show ?thesis using s3(2) s2(5) by blast
qed

lemma match_all_safe:
  assumes "n \<le> MAX_POINTS" "length body = n" "sized n s" "set is \<subseteq> {..<n}" "distinct is" "Rebuild_Ptr k = None"
    "\<not> c \<Longrightarrow> \<forall>i \<in> set is. armed i s"
  shows "\<exists>s' k'. match_all d E c body is (s, k) = Inr (s', k') \<and> sized n s' \<and> Rebuild_Ptr k' = None \<and>
    (\<forall>i \<in> set is. armed i s') \<and> (\<forall>j. j \<notin> set is \<longrightarrow> same_at j s s')"
  using assms(3-)
proof (induction "is" arbitrary: s k)
  case (Cons i "is")
  obtain s1 k1 where 1: "match_point d E c body i (s, k) = Inr (s1, k1)" "sized n s1" "Rebuild_Ptr k1 = None"
    "armed i s1" "\<forall>j. j \<noteq> i \<longrightarrow> same_at j s s1"
    using match_point_safe [OF Cons.prems(1) _ assms(1,2) Cons.prems(4), of i c d E] Cons.prems(2,5) by auto
  have "\<forall>j \<in> set is. armed j s1" if "\<not> c" using Cons.prems(3,5) 1(5) that by (auto simp: armed_def same_at_def)
  then obtain s2 k2 where 2: "match_all d E c body is (s1, k1) = Inr (s2, k2)" "sized n s2" "Rebuild_Ptr k2 = None"
    "\<forall>i \<in> set is. armed i s2" "\<forall>j. j \<notin> set is \<longrightarrow> same_at j s1 s2"
    using Cons.IH [OF 1(2) _ _ 1(3)] Cons.prems(2,3) by auto
  have "armed i s2" using 2(5) 1(4) Cons.prems(3) by (simp add: armed_def same_at_def)
  moreover have "same_at j s s2" if "j \<notin> set (i # is)" for j
    using 1(5) 2(5) that same_at_trans by (metis list.set_intros(1) list.set_intros(2))
  ultimately show ?case using 1(1) 2 by auto
qed simp

lemma h_share_model_safe:
  assumes "length body \<le> MAX_POINTS" "sized (length body) s" "Rebuild_Ptr k = None" "\<not> c \<Longrightarrow> armed_all (length body) s"
  shows "\<exists>r s' k'. h_share_model d E c body (s, k) = Inr (r, s', k') \<and> armed_all (length body) s' \<and> Rebuild_Ptr k' = None"
proof -
  obtain s' k' where "match_all d E c body [0..<length body] (s, k) = Inr (s', k')" "sized (length body) s'"
    "Rebuild_Ptr k' = None" "\<forall>i < length body. armed i s'"
    using match_all_safe [OF assms(1) refl assms(2) _ _ assms(3), of "[0..<length body]" c d E] assms(4)
    by (auto simp: armed_all_def atLeast0LessThan)
  then show ?thesis by (auto simp: h_share_model_def Let_def armed_all_def)
qed

text \<open>A measurement that returns when it searches, and after a search also when it does not.\<close>

lemma iterations_return:
  assumes "\<And>c x w. Q w \<Longrightarrow> (\<not> c \<Longrightarrow> R w) \<Longrightarrow> \<exists>v w'. h c x w = Inr (v, w') \<and> Q w' \<and> R w'"
    and "Q w" "\<not> it_converge s \<Longrightarrow> R w"
  shows "\<exists>d s' w'. iterations A limit h n prop is s w = Inr (d, s', w') \<and> Q w'"
  using assms(2,3)
proof (induction "is" arbitrary: s w)
  case (Cons i "is")
  obtain v w' where h: "h (it_converge s) (it_x s) w = Inr (v, w')" "Q w'" "R w'" using assms(1) Cons.prems by blast
  show ?case
  proof (cases v)
    case None
    then show ?thesis using Cons.IH [OF h(2)] h by simp
  next
    case (Some m)
    then show ?thesis using Cons.IH [OF h(2)] h by (auto simp: Let_def)
  qed
qed (auto simp: ex_bool_eq)

text \<open>The measurement is \<open>h_share_model\<close> at the state of the iteration.\<close>

definition measured :: "lidar_data PointType_CMP \<Rightarrow> ('x \<Rightarrow> eigen) \<Rightarrow> PointType list \<Rightarrow> bool \<Rightarrow> 'x \<Rightarrow>
    matches \<times> lidar_data ikd \<Rightarrow> stop + (effect \<times> flt) option \<times> matches \<times> lidar_data ikd" where
  "measured d ea body c x = h_share_model d (ea x) c body"

lemma update_returns:
  assumes "length body \<le> MAX_POINTS" "sized (length body) s" "Rebuild_Ptr k = None"
  shows "\<exists>b it s' k'. update_iterated A limit (measured d ea body) n prop (s, k) = Inr (b, it, s', k') \<and>
    sized (length body) s' \<and> Rebuild_Ptr k' = None"
proof -
  let ?Q = "\<lambda>(s, k). sized (length body) s \<and> Rebuild_Ptr k = None"
  let ?R = "\<lambda>(s, k :: lidar_data ikd). armed_all (length body) s"
  have "\<exists>v w'. measured d ea body c x w = Inr (v, w') \<and> ?Q w' \<and> ?R w'" if "?Q w" "\<not> c \<Longrightarrow> ?R w" for c x w
    using h_share_model_safe [OF assms(1), of "fst w" "snd w" c d "ea x"] that
    by (cases w) (auto simp: measured_def armed_all_def)
  then have "\<exists>b it w'. update_iterated A limit (measured d ea body) n prop (s, k) = Inr (b, it, w') \<and> ?Q w'"
    unfolding update_iterated_def by (rule iterations_return [where R = ?R]) (use assms in auto)
  then show ?thesis by auto
qed

end
