(* ===== verification/Lio_Sync.thy ===== *)
theory Lio_Sync
  imports Lio_Preprocess "HOL-Library.Sublist"
begin

text \<open>
  The buffers of the LiDAR odometry and \<open>sync_packages\<close> of \<open>laserMapping_bundle.cpp\<close>: the scans of
  one or two sensors and the samples of the IMU arrive in callbacks, and \<open>sync_packages\<close> puts
  together the next scan of each sensor with the samples that cover it. The callbacks and the main
  loop run in one thread (\<open>ros::spinOnce\<close>), so each is one step of the model. The globals of the
  two sensors, \<open>x\<close> and \<open>x2\<close> in the code, are two records of one type. A \<open>front\<close> or \<open>pop_front\<close> of an
  empty deque is undefined behaviour.
\<close>

section \<open>State\<close>

text \<open>The clouds are shared pointers: \<open>meas.lidar\<close> and the front of \<open>lidar_buffer\<close> are the same
  object once a scan is held, so what is written through the one is written to the other too.\<close>

record channel =
  lidar_buffer :: "PointType list list"
  time_buffer :: "flt list"
  last_timestamp_lidar :: flt
  lidar_mean_scantime :: flt
  scan_num :: int
  lidar_end_time :: flt

record 'i imu =
  imu_stamp :: flt
  imu_data :: 'i

record 'i MeasureGroup =
  meas_lidar :: "PointType list"
  meas_lidar2 :: "PointType list"
  lidar_beg_time :: flt
  lidar_beg_time2 :: flt
  meas_end_time :: flt
  meas_end_time2 :: flt
  meas_imu :: "'i imu list"

record 'i buffers =
  ch1 :: channel
  ch2 :: channel
  imu_buffer :: "'i imu list"
  last_timestamp_imu :: flt
  lidar_pushed :: bool
  first_lidar_scan_check :: bool
  Measures :: "'i MeasureGroup"

text \<open>The initial values; the end times of \<open>MeasureGroup\<close> are not initialised.\<close>

definition new_channel :: channel where
  "new_channel = \<lparr>lidar_buffer = [], time_buffer = [], last_timestamp_lidar = Num 0,
     lidar_mean_scantime = Num 0, scan_num = 0, lidar_end_time = Num 0\<rparr>"

definition new_buffers :: "flt \<Rightarrow> flt \<Rightarrow> 'i buffers" where
  "new_buffers e e2 = \<lparr>ch1 = new_channel, ch2 = new_channel, imu_buffer = [], last_timestamp_imu = Num (- 1),
     lidar_pushed = False, first_lidar_scan_check = False,
     Measures = \<lparr>meas_lidar = [], meas_lidar2 = [], lidar_beg_time = Num 0, lidar_beg_time2 = Num 0,
                 meas_end_time = e, meas_end_time2 = e2, meas_imu = []\<rparr>\<rparr>"

section \<open>Deques\<close>

fun front :: "'a list \<Rightarrow> ub + 'a" where
  "front [] = Inl OutOfRange"
| "front (x # xs) = Inr x"

fun pop_front :: "'a list \<Rightarrow> ub + 'a list" where
  "pop_front [] = Inl OutOfRange"
| "pop_front (x # xs) = Inr xs"

text \<open>A scan and its time are popped together.\<close>

definition pop_scan :: "channel \<Rightarrow> ub + channel" where
  "pop_scan c = bind_ub (pop_front (lidar_buffer c)) (\<lambda>l. bind_ub (pop_front (time_buffer c)) (\<lambda>t.
     Inr (c\<lparr>lidar_buffer := l, time_buffer := t\<rparr>)))"

section \<open>Callbacks\<close>

text \<open>The part that \<open>standard_pcl_cbk\<close>, \<open>livox_pcl_cbk\<close> and their twins share: the cloud is what
  \<open>Preprocess::process\<close> made of the message.\<close>

definition store_scan :: "flt \<Rightarrow> PointType list \<Rightarrow> channel \<Rightarrow> channel" where
  "store_scan stamp cloud c =
     (let c = (if fless stamp (last_timestamp_lidar c) then c\<lparr>lidar_buffer := [], time_buffer := []\<rparr> else c)
      in c\<lparr>last_timestamp_lidar := stamp, lidar_buffer := lidar_buffer c @ [cloud],
           time_buffer := time_buffer c @ [stamp]\<rparr>)"

definition pcl_cbk :: "flt \<Rightarrow> PointType list \<Rightarrow> 'i buffers \<Rightarrow> 'i buffers" where
  "pcl_cbk stamp cloud s = s\<lparr>ch1 := store_scan stamp cloud (ch1 s), first_lidar_scan_check := True\<rparr>"
definition pcl_cbk2 :: "flt \<Rightarrow> PointType list \<Rightarrow> 'i buffers \<Rightarrow> 'i buffers" where
  "pcl_cbk2 stamp cloud s = s\<lparr>ch2 := store_scan stamp cloud (ch2 s), first_lidar_scan_check := True\<rparr>"

definition imu_cbk :: "'i imu \<Rightarrow> 'i buffers \<Rightarrow> 'i buffers" where
  "imu_cbk m s =
     (if \<not> first_lidar_scan_check s then s
      else let old = (if fless (imu_stamp m) (last_timestamp_imu s) then [] else imu_buffer s)
           in s\<lparr>last_timestamp_imu := imu_stamp m, imu_buffer := old @ [m]\<rparr>)"

section \<open>\<open>sync_packages\<close>\<close>

lemma pop_scan_Inr:
  "pop_scan c = Inr c' \<longleftrightarrow> (\<exists>x xs t ts. lidar_buffer c = x # xs \<and> time_buffer c = t # ts \<and>
     c' = c\<lparr>lidar_buffer := xs, time_buffer := ts\<rparr>)"
  by (cases "lidar_buffer c"; cases "time_buffer c") (auto simp: pop_scan_def)

text \<open>Pairing: the older of two scans that start too far apart is dropped.\<close>

function drop_unpaired :: "flt \<Rightarrow> channel \<Rightarrow> channel \<Rightarrow> ub + channel \<times> channel" where
  "drop_unpaired skew c1 c2 = (case (time_buffer c1, time_buffer c2) of
     (t1 # _, t2 # _) \<Rightarrow>
       if fless skew (fabs (fsub b64 t1 t2)) then
         if fless t1 t2 then bind_ub (pop_scan c1) (\<lambda>c1. drop_unpaired skew c1 c2)
         else bind_ub (pop_scan c2) (\<lambda>c2. drop_unpaired skew c1 c2)
       else Inr (c1, c2)
   | _ \<Rightarrow> Inr (c1, c2))"
  by pat_completeness auto

termination
  by (relation "measure (\<lambda>(skew, c1, c2). length (time_buffer c1) + length (time_buffer c2))")
    (auto simp: pop_scan_Inr)

declare drop_unpaired.simps [simp del]

text \<open>The end of a scan that begins at \<open>beg\<close>: the time of its last point, or, when that is implausible,
  the mean duration of the scans so far.\<close>

definition scan_end :: "PointType list \<Rightarrow> flt \<Rightarrow> channel \<Rightarrow> channel" where
  "scan_end cloud beg c =
     (if length cloud \<le> 1 then c\<lparr>lidar_end_time := fadd b64 beg (lidar_mean_scantime c)\<rparr>
      else let d = fdiv b64 (curvature (pt_data (last cloud))) (Num 1000)
           in if fless d (fmul b64 (Num (1 / 2)) (lidar_mean_scantime c))
              then c\<lparr>lidar_end_time := fadd b64 beg (lidar_mean_scantime c)\<rparr>
              else let n = scan_num c + 1
                   in c\<lparr>scan_num := n, lidar_end_time := fadd b64 beg d,
                        lidar_mean_scantime := fadd b64 (lidar_mean_scantime c)
                          (fdiv b64 (fsub b64 d (lidar_mean_scantime c)) (of_i b64 n))\<rparr>)"

text \<open>The offsets of the points are counted from the start of the bundle.\<close>

definition shift_point :: "flt \<Rightarrow> PointType \<Rightarrow> PointType" where
  "shift_point offset p = with_time p (fconv b32 (fadd b64 (curvature (pt_data p)) offset))"

definition write_front :: "PointType list \<Rightarrow> channel \<Rightarrow> channel" where
  "write_front cloud c = c\<lparr>lidar_buffer := cloud # tl (lidar_buffer c)\<rparr>"

text \<open>Holding the next scans: \<open>to_lidar1\<close> is \<open>pcl::transformPointCloud\<close> with \<open>LiDAR2_wrt_LiDAR1\<close>.\<close>

definition push_scans :: "(PointType list \<Rightarrow> PointType list) \<Rightarrow> 'i buffers \<Rightarrow> ub + 'i buffers" where
  "push_scans to_lidar1 s =
     bind_ub (front (lidar_buffer (ch1 s))) (\<lambda>lidar. bind_ub (front (time_buffer (ch1 s))) (\<lambda>beg.
     bind_ub (front (lidar_buffer (ch2 s))) (\<lambda>lidar2. bind_ub (front (time_buffer (ch2 s))) (\<lambda>beg2.
       let c1 = scan_end lidar beg (ch1 s);
           lidar2 = to_lidar1 lidar2;
           c2 = scan_end lidar2 beg2 (ch2 s);
           start = fmin beg beg2;
           l1 = map (shift_point (fmul b64 (Num 1000) (fsub b64 beg start))) lidar;
           l2 = map (shift_point (fmul b64 (Num 1000) (fsub b64 beg2 start))) lidar2
       in Inr (s\<lparr>ch1 := write_front l1 c1, ch2 := write_front l2 c2, lidar_pushed := True,
                 Measures := (Measures s)\<lparr>meas_lidar := l1, meas_lidar2 := l2, lidar_beg_time := beg,
                   lidar_beg_time2 := beg2, meas_end_time := lidar_end_time c1,
                   meas_end_time2 := lidar_end_time c2\<rparr>\<rparr>)))))"

definition push_scan :: "'i buffers \<Rightarrow> ub + 'i buffers" where
  "push_scan s =
     bind_ub (front (lidar_buffer (ch1 s))) (\<lambda>lidar. bind_ub (front (time_buffer (ch1 s))) (\<lambda>beg.
       let c1 = scan_end lidar beg (ch1 s)
       in Inr (s\<lparr>ch1 := c1, lidar_pushed := True,
                 Measures := (Measures s)\<lparr>meas_lidar := lidar, lidar_beg_time := beg,
                   meas_end_time := lidar_end_time c1\<rparr>\<rparr>)))"

text \<open>The loop that hands over the IMU samples, for the end times given. \<open>t\<close> is \<open>imu_time\<close>: at first the
  time of the front, then that of the sample last looked at.\<close>

fun hand_over :: "flt list \<Rightarrow> flt \<Rightarrow> 'i imu list \<Rightarrow> 'i imu list \<times> 'i imu list" where
  "hand_over ends t [] = ([], [])"
| "hand_over ends t (m # ms) =
     (if \<exists>e \<in> set ends. fless t e then
        if \<forall>e \<in> set ends. fless e (imu_stamp m) then ([], m # ms)
        else let (taken, rest) = hand_over ends (imu_stamp m) ms in (m # taken, rest)
      else ([], m # ms))"

definition take_imu :: "flt list \<Rightarrow> 'i buffers \<Rightarrow> ub + 'i buffers" where
  "take_imu ends s = bind_ub (front (imu_buffer s)) (\<lambda>m.
     let (taken, rest) = hand_over ends (imu_stamp m) (imu_buffer s)
     in Inr (s\<lparr>Measures := (Measures s)\<lparr>meas_imu := taken\<rparr>, imu_buffer := rest\<rparr>))"

text \<open>The two branches of the function, for two sensors and for one.\<close>

definition pair_scans :: "flt \<Rightarrow> 'i buffers \<Rightarrow> ub + 'i buffers" where
  "pair_scans skew s = (if lidar_pushed s then Inr s
     else bind_ub (drop_unpaired skew (ch1 s) (ch2 s)) (\<lambda>(c1, c2). Inr (s\<lparr>ch1 := c1, ch2 := c2\<rparr>)))"

definition finish_bundle :: "'i buffers \<Rightarrow> ub + bool \<times> 'i buffers" where
  "finish_bundle s =
     (let e = lidar_end_time (ch1 s); e2 = lidar_end_time (ch2 s)
      in if fless (last_timestamp_imu s) e \<or> fless (last_timestamp_imu s) e2 then Inr (False, s)
         else bind_ub (take_imu [e, e2] s) (\<lambda>s. bind_ub (pop_scan (ch1 s)) (\<lambda>c1. bind_ub (pop_scan (ch2 s)) (\<lambda>c2.
                Inr (True, s\<lparr>ch1 := c1, ch2 := c2, lidar_pushed := False\<rparr>)))))"

definition sync_multi :: "flt \<Rightarrow> (PointType list \<Rightarrow> PointType list) \<Rightarrow> 'i buffers \<Rightarrow> ub + bool \<times> 'i buffers" where
  "sync_multi skew to_lidar1 s =
     (if lidar_buffer (ch1 s) = [] \<or> lidar_buffer (ch2 s) = [] \<or> imu_buffer s = [] then Inr (False, s)
      else bind_ub (pair_scans skew s) (\<lambda>s.
        if \<not> lidar_pushed s \<and> (lidar_buffer (ch1 s) = [] \<or> lidar_buffer (ch2 s) = []) then Inr (False, s)
        else bind_ub (if lidar_pushed s then Inr s else push_scans to_lidar1 s) finish_bundle))"

definition finish_single :: "'i buffers \<Rightarrow> ub + bool \<times> 'i buffers" where
  "finish_single s =
     (let e = lidar_end_time (ch1 s)
      in if fless (last_timestamp_imu s) e then Inr (False, s)
         else bind_ub (take_imu [e] s) (\<lambda>s. bind_ub (pop_scan (ch1 s)) (\<lambda>c1.
                Inr (True, s\<lparr>ch1 := c1, lidar_pushed := False\<rparr>))))"

definition sync_single :: "'i buffers \<Rightarrow> ub + bool \<times> 'i buffers" where
  "sync_single s =
     (if lidar_buffer (ch1 s) = [] \<or> imu_buffer s = [] then Inr (False, s)
      else bind_ub (if lidar_pushed s then Inr s else push_scan s) finish_single)"

definition sync_packages :: "bool \<Rightarrow> flt \<Rightarrow> (PointType list \<Rightarrow> PointType list) \<Rightarrow> 'i buffers \<Rightarrow> ub + bool \<times> 'i buffers" where
  "sync_packages multi_lidar skew to_lidar1 s =
     (if multi_lidar then sync_multi skew to_lidar1 s else sync_single s)"

end
