(* ===== verification/Lio_Undistort.thy ===== *)
theory Lio_Undistort
  imports Lio_Sync "HOL-Library.Multiset"
begin

text \<open>
  Motion compensation, \<open>IMU_Processing.hpp\<close>: the samples of a bundle move the filter forward, the
  poses on the way are noted, and each point is moved from the pose of its time to the pose at the
  end of the scan. The filter (IKFoM, Eigen) is a parameter: its prediction, the pose it gives, and
  the compensation of one point between two poses. \<open>std::sort\<close> is a parameter too.
\<close>

section \<open>Parameters and state\<close>

record 'q Pose6D =
  pose_time :: flt
  pose_rest :: 'q

text \<open>The numeric state \<open>'x\<close> is that of the filter with the members \<open>mean_acc\<close>, \<open>angvel_last\<close>,
  \<open>acc_s_last\<close> and the covariances of the class. \<open>predict dt a b\<close> is one round of the loop over
  the samples, with the mean of \<open>a\<close> and \<open>b\<close>; \<open>predict_end dt inp\<close> is the last prediction, with the input
  variable as the last round left it, or never assigned; \<open>pose_of\<close> is what \<open>set_pose6d\<close> stores; \<open>compensate
  head tail x dt\<close> moves a point to the frame of the end state \<open>x\<close>; \<open>init_filter samples first n\<close> is what
  \<open>IMU_init\<close> does, from the sample number \<open>n\<close>, after a \<open>Reset\<close> when \<open>first\<close>.\<close>

record ('x, 'i, 'q) motion =
  predict :: "flt \<Rightarrow> 'i imu \<times> 'i imu \<Rightarrow> 'x \<Rightarrow> 'x"
  predict_end :: "flt \<Rightarrow> ('i imu \<times> 'i imu) option \<Rightarrow> 'x \<Rightarrow> 'x"
  pose_of :: "'x \<Rightarrow> 'q"
  compensate :: "'q \<Rightarrow> 'q \<Rightarrow> 'x \<Rightarrow> flt \<Rightarrow> V3D \<Rightarrow> V3D"
  init_filter :: "'i imu list \<Rightarrow> bool \<Rightarrow> nat \<Rightarrow> 'x \<Rightarrow> 'x"

record 'i ImuProcess =
  last_imu :: "'i imu"
  last_lidar_end_time :: flt
  init_iter_num :: nat
  b_first_frame :: bool
  imu_need_init :: bool

definition MAX_INI_COUNT :: nat where "MAX_INI_COUNT = 10"

text \<open>The members \<open>last_lidar_end_time_\<close> and the stamp of \<open>last_imu_\<close> after the constructor: the first is not
  initialised, the second is a default message.\<close>

definition new_ImuProcess :: "flt \<Rightarrow> 'i imu \<Rightarrow> 'i ImuProcess" where
  "new_ImuProcess junk default_imu = \<lparr>last_imu = default_imu, last_lidar_end_time = junk, init_iter_num = 1,
     b_first_frame = True, imu_need_init = True\<rparr>"

section \<open>Forward: the poses\<close>

text \<open>The loop over pairs of consecutive samples; \<open>le\<close> is the end of the scan before, \<open>beg\<close> the start of
  this one. Result: the filter state, the last pair used, the poses in order.\<close>

fun propagate :: "('x, 'i, 'q) motion \<Rightarrow> flt \<Rightarrow> flt \<Rightarrow> 'i imu list \<Rightarrow> 'x \<Rightarrow> ('i imu \<times> 'i imu) option \<Rightarrow>
    'x \<times> ('i imu \<times> 'i imu) option \<times> 'q Pose6D list" where
  "propagate M le beg (a # b # ms) x inp =
     (if fless (imu_stamp b) le then propagate M le beg (b # ms) x inp
      else let dt = (if fless (imu_stamp a) le then fsub b64 (imu_stamp b) le else fsub b64 (imu_stamp b) (imu_stamp a));
               x = predict M dt (a, b) x;
               (x', inp', ps) = propagate M le beg (b # ms) x (Some (a, b))
           in (x', inp', \<lparr>pose_time = fsub b64 (imu_stamp b) beg, pose_rest = pose_of M x\<rparr> # ps))"
| "propagate M le beg ms x inp = (x, inp, [])"

text \<open>\<open>note * (pcl_end_time - imu_end_time)\<close>\<close>

definition end_step :: "flt \<Rightarrow> flt \<Rightarrow> flt" where
  "end_step pcl_end imu_end = fmul b64 (if fless imu_end pcl_end then Num 1 else Num (- 1)) (fsub b64 pcl_end imu_end)"

text \<open>All of the first half: filter state at the end, and \<open>IMUpose\<close>.\<close>

definition forward :: "('x, 'i, 'q) motion \<Rightarrow> flt \<Rightarrow> flt \<Rightarrow> 'i imu list \<Rightarrow> 'i ImuProcess \<Rightarrow> 'x \<Rightarrow>
    'x \<times> 'q Pose6D list \<times> 'i ImuProcess" where
  "forward M beg pcl_end samples p x =
     (let v_imu = last_imu p # samples;
          (x', inp, ps) = propagate M (last_lidar_end_time p) beg v_imu x None
      in (predict_end M (end_step pcl_end (imu_stamp (last v_imu))) inp x',
          \<lparr>pose_time = Num 0, pose_rest = pose_of M x\<rparr> # ps,
          p\<lparr>last_imu := last samples, last_lidar_end_time := pcl_end\<rparr>))"

section \<open>Backward: the points\<close>

definition point_time :: "PointType \<Rightarrow> flt" where
  "point_time p = fdiv b64 (curvature (pt_data p)) (Num 1000)"

definition move_point :: "('x, 'i, 'q) motion \<Rightarrow> 'x \<Rightarrow> 'q Pose6D \<times> 'q Pose6D \<Rightarrow> PointType \<Rightarrow> PointType" where
  "move_point M x = (\<lambda>(head, tail) p.
     case compensate M (pose_rest head) (pose_rest tail) x (fsub b64 (point_time p) (pose_time head))
            (pt_x p, pt_y p, pt_z p) of
       (a, b, c) \<Rightarrow> p\<lparr>pt_x := fconv b32 a, pt_y := fconv b32 b, pt_z := fconv b32 c\<rparr>)"

text \<open>The inner loop, with the iterator as an index: it stops at the first point of the cloud.\<close>

fun back_points :: "(PointType \<Rightarrow> PointType) \<Rightarrow> flt \<Rightarrow> nat \<Rightarrow> PointType list \<Rightarrow> nat \<times> PointType list" where
  "back_points f t 0 ps = (0, if fless t (point_time (ps ! 0)) then ps[0 := f (ps ! 0)] else ps)"
| "back_points f t (Suc i) ps =
     (if fless t (point_time (ps ! Suc i)) then back_points f t i (ps[Suc i := f (ps ! Suc i)]) else (Suc i, ps))"

text \<open>The outer loop over the pairs of consecutive poses, the last first.\<close>

fun backward :: "('x, 'i, 'q) motion \<Rightarrow> 'x \<Rightarrow> ('q Pose6D \<times> 'q Pose6D) list \<Rightarrow> nat \<Rightarrow> PointType list \<Rightarrow> PointType list" where
  "backward M x [] i ps = ps"
| "backward M x (kp # kps) i ps =
     (case back_points (move_point M x kp) (pose_time (fst kp)) i ps of (i, ps) \<Rightarrow> backward M x kps i ps)"

definition intervals :: "'q Pose6D list \<Rightarrow> ('q Pose6D \<times> 'q Pose6D) list" where
  "intervals poses = zip poses (tl poses)"

definition undistort_points :: "('x, 'i, 'q) motion \<Rightarrow> 'x \<Rightarrow> 'q Pose6D list \<Rightarrow> PointType list \<Rightarrow> PointType list" where
  "undistort_points M x poses ps = backward M x (rev (intervals poses)) (length ps - 1) ps"

section \<open>\<open>Process\<close>\<close>

text \<open>\<open>UndistortPcl\<close> takes the times of the sensor \<open>lidar_num\<close>, but always the cloud of the first. The last
  argument of its twin for two sensors is the cloud that the caller handed in, \<open>feats_undistort\<close>: the
  early returns leave it as it is.\<close>

definition UndistortPcl :: "('x, 'i, 'q) motion \<Rightarrow> (PointType list \<Rightarrow> PointType list) \<Rightarrow> nat \<Rightarrow> 'i MeasureGroup \<Rightarrow>
    'i ImuProcess \<Rightarrow> 'x \<Rightarrow> 'i ImuProcess \<times> 'x \<times> PointType list" where
  "UndistortPcl M sort_by_time lidar_num meas p x =
     (let pcl_out = sort_by_time (meas_lidar meas);
          beg = (if lidar_num = 1 then lidar_beg_time meas else lidar_beg_time2 meas);
          fin = (if lidar_num = 1 then meas_end_time meas else meas_end_time2 meas);
          (x, poses, p) = forward M beg fin (meas_imu meas) p x
      in (p, x, if pcl_out = [] then pcl_out else undistort_points M x poses pcl_out))"

definition UndistortPclMultiLiDAR :: "('x, 'i, 'q) motion \<Rightarrow> (PointType list \<Rightarrow> PointType list) \<Rightarrow> 'i MeasureGroup \<Rightarrow>
    'i ImuProcess \<Rightarrow> 'x \<Rightarrow> PointType list \<Rightarrow> 'i ImuProcess \<times> 'x \<times> PointType list" where
  "UndistortPclMultiLiDAR M sort_by_time meas p x cloud =
     (let pcl_1_out = sort_by_time (meas_lidar meas); pcl_2_out = sort_by_time (meas_lidar2 meas);
          beg = (if fless (lidar_beg_time meas) (lidar_beg_time2 meas) then lidar_beg_time meas else lidar_beg_time2 meas);
          fin = (if fless (meas_end_time2 meas) (meas_end_time meas) then meas_end_time meas else meas_end_time2 meas);
          (x, poses, p) = forward M beg fin (meas_imu meas) p x
      in (p, x, if pcl_1_out = [] \<or> pcl_2_out = [] then cloud
                else undistort_points M x poses pcl_1_out @ undistort_points M x poses pcl_2_out))"

definition Process :: "('x, 'i, 'q) motion \<Rightarrow> (PointType list \<Rightarrow> PointType list) \<Rightarrow> bool \<Rightarrow> nat \<Rightarrow> 'i MeasureGroup \<Rightarrow>
    'i ImuProcess \<Rightarrow> 'x \<Rightarrow> PointType list \<Rightarrow> 'i ImuProcess \<times> 'x \<times> PointType list" where
  "Process M sort_by_time multi_lidar lidar_num meas p x cloud =
     (if meas_imu meas = [] then (p, x, cloud)
      else if imu_need_init p then
        let n0 = (if b_first_frame p then 1 else init_iter_num p); n = n0 + length (meas_imu meas)
        in (p\<lparr>b_first_frame := False, init_iter_num := n, last_imu := last (meas_imu meas),
              imu_need_init := \<not> MAX_INI_COUNT < n\<rparr>,
            init_filter M (meas_imu meas) (b_first_frame p) n0 x, cloud)
      else if multi_lidar then UndistortPclMultiLiDAR M sort_by_time meas p x cloud
      else UndistortPcl M sort_by_time lidar_num meas p x)"

section \<open>The backward pass against a reference\<close>

text \<open>The intervals that start before a time, and what should happen to a point: it is moved once, by
  the last of them. What happens to the first point of the cloud is different.\<close>

definition before :: "flt \<Rightarrow> ('q Pose6D \<times> 'q Pose6D) list \<Rightarrow> ('q Pose6D \<times> 'q Pose6D) list" where
  "before t kps = filter (\<lambda>kp. fless (pose_time (fst kp)) t) kps"

definition moved_once :: "('x, 'i, 'q) motion \<Rightarrow> 'x \<Rightarrow> ('q Pose6D \<times> 'q Pose6D) list \<Rightarrow> PointType \<Rightarrow> PointType" where
  "moved_once M x kps p = (case before (point_time p) kps of [] \<Rightarrow> p | kp # r \<Rightarrow> move_point M x (last (kp # r)) p)"

definition moved_by_all :: "('x, 'i, 'q) motion \<Rightarrow> 'x \<Rightarrow> ('q Pose6D \<times> 'q Pose6D) list \<Rightarrow> PointType \<Rightarrow> PointType" where
  "moved_by_all M x kps p = foldr (move_point M x) (before (point_time p) kps) p"

lemma move_point_time [simp]: "point_time (move_point M x kp p) = point_time p"
  by (simp add: move_point_def point_time_def split: prod.splits)

definition by_time :: "PointType list \<Rightarrow> bool" where
  "by_time ps \<longleftrightarrow> (\<forall>j i. i \<le> j \<longrightarrow> j < length ps \<longrightarrow> point_time (ps ! i) \<le> point_time (ps ! j) \<and> nonan (point_time (ps ! j)))"

lemma back_points_spec:
  assumes "i < length ps" "by_time ps" "\<And>p. point_time (f p) = point_time p" "back_points f t i ps = (i', ps')"
  shows "length ps' = length ps \<and> i' \<le> i \<and>
    (\<forall>j < length ps. ps' ! j = (if j \<le> i \<and> fless t (point_time (ps ! j)) then f (ps ! j) else ps ! j)) \<and>
    (\<forall>j. i' < j \<and> j \<le> i \<longrightarrow> fless t (point_time (ps ! j))) \<and> (0 < i' \<longrightarrow> \<not> fless t (point_time (ps ! i')))"
  using assms
proof (induction i arbitrary: ps)
  case 0
  then show ?case by (auto simp: nth_list_update)
next
  case (Suc i)
  show ?case
  proof (cases "fless t (point_time (ps ! Suc i))")
    case True
    let ?ps = "ps[Suc i := f (ps ! Suc i)]"
    have times: "point_time (?ps ! j) = point_time (ps ! j)" if "j < length ps" for j
      using that Suc.prems(3) by (cases "j = Suc i") auto
    have "by_time ?ps" using Suc.prems(2) times by (simp add: by_time_def)
    then have IH: "length ps' = length ?ps \<and> i' \<le> i \<and>
      (\<forall>j < length ?ps. ps' ! j = (if j \<le> i \<and> fless t (point_time (?ps ! j)) then f (?ps ! j) else ?ps ! j)) \<and>
      (\<forall>j. i' < j \<and> j \<le> i \<longrightarrow> fless t (point_time (?ps ! j))) \<and> (0 < i' \<longrightarrow> \<not> fless t (point_time (?ps ! i')))"
      using Suc.prems True by (intro Suc.IH) simp_all
    have "ps' ! j = (if j \<le> Suc i \<and> fless t (point_time (ps ! j)) then f (ps ! j) else ps ! j)" if j: "j < length ps" for j
      using IH j True by (cases "j = Suc i") (auto simp: nth_list_update)
    moreover have "fless t (point_time (ps ! j))" if "i' < j" "j \<le> Suc i" for j
      using IH that True times [of j] Suc.prems(1) by (cases "j = Suc i") auto
    ultimately show ?thesis using IH times [of i'] Suc.prems(1) by auto
  next
    case False
    then have eq: "i' = Suc i" "ps' = ps" using Suc.prems(4) by auto
    have "\<not> fless t (point_time (ps ! j))" if "j \<le> Suc i" for j
      using False that Suc.prems(1,2) unfolding by_time_def fless_iff by (meson order.trans leD leI)
    then show ?thesis unfolding eq using False by auto
  qed
qed

text \<open>The outer loop, over the intervals in the order of the passes: each point behind the first takes
  part in the first pass that starts before it, and is left behind by the iterator; the first point
  takes part in all of them.\<close>

definition first_pass :: "('x, 'i, 'q) motion \<Rightarrow> 'x \<Rightarrow> ('q Pose6D \<times> 'q Pose6D) list \<Rightarrow> PointType \<Rightarrow> PointType" where
  "first_pass M x kps p = (case before (point_time p) kps of [] \<Rightarrow> p | kp # _ \<Rightarrow> move_point M x kp p)"

lemma before_Cons:
  "before t (kp # kps) = (if fless (pose_time (fst kp)) t then kp # before t kps else before t kps)"
  by (simp add: before_def)

lemma by_time_cong:
  "by_time ps" if "by_time qs" "length ps = length qs" "\<And>j. j < length qs \<Longrightarrow> point_time (ps ! j) = point_time (qs ! j)"
  using that by (auto simp: by_time_def)

lemma backward_spec:
  assumes "i < length ps" "by_time ps"
  shows "length (backward M x kps i ps) = length ps \<and>
    (\<forall>j < length ps. backward M x kps i ps ! j =
       (if i < j then ps ! j
        else if j = 0 then fold (move_point M x) (before (point_time (ps ! 0)) kps) (ps ! 0)
        else first_pass M x kps (ps ! j)))"
  using assms
proof (induction kps arbitrary: i ps)
  case Nil
  then show ?case by (simp add: before_def first_pass_def)
next
  case (Cons kp kps)
  obtain i' ps' where step: "back_points (move_point M x kp) (pose_time (fst kp)) i ps = (i', ps')"
    by (cases "back_points (move_point M x kp) (pose_time (fst kp)) i ps")
  let ?late = "\<lambda>j. fless (pose_time (fst kp)) (point_time (ps ! j))"
  have len: "length ps' = length ps" and le: "i' \<le> i"
    and nth': "\<And>j. j < length ps \<Longrightarrow> ps' ! j = (if j \<le> i \<and> ?late j then move_point M x kp (ps ! j) else ps ! j)"
    and gone: "\<And>j. i' < j \<Longrightarrow> j \<le> i \<Longrightarrow> ?late j" and stop: "0 < i' \<Longrightarrow> \<not> ?late i'"
    using back_points_spec [OF Cons.prems move_point_time step] by auto
  have times: "point_time (ps' ! j) = point_time (ps ! j)" if "j < length ps" for j using nth' that by simp
  have IH: "length (backward M x kps i' ps') = length ps'" "\<And>j. j < length ps' \<Longrightarrow> backward M x kps i' ps' ! j =
       (if i' < j then ps' ! j
        else if j = 0 then fold (move_point M x) (before (point_time (ps' ! 0)) kps) (ps' ! 0)
        else first_pass M x kps (ps' ! j))"
    using Cons.IH [of i' ps'] le len Cons.prems by_time_cong [OF Cons.prems(2) len times] by auto
  have old: "\<not> ?late j" if "0 < j" "j \<le> i'" for j
  proof
    assume "?late j"
    moreover have "i' < length ps" "j < length ps" using Cons.prems(1) le that by simp_all
    then have "point_time (ps ! j) \<le> point_time (ps ! i')" "nonan (point_time (ps ! i'))" "nonan (point_time (ps ! j))"
      using Cons.prems(2) that unfolding by_time_def by blast+
    ultimately have "?late i'" by (auto simp: fless_iff)
    then show False using stop that by simp
  qed
  have "backward M x (kp # kps) i ps ! j =
       (if i < j then ps ! j
        else if j = 0 then fold (move_point M x) (before (point_time (ps ! 0)) (kp # kps)) (ps ! 0)
        else first_pass M x (kp # kps) (ps ! j))" if j: "j < length ps" for j
  proof -
    have rest: "backward M x (kp # kps) i ps ! j = backward M x kps i' ps' ! j" by (simp add: step)
    consider "i < j" | "i' < j" "j \<le> i" | "j \<le> i'" "j = 0" | "j \<le> i'" "0 < j" by linarith
    then show ?thesis
    proof cases
      case 1
      then show ?thesis using rest IH(2) [of j] nth' [OF j] le j len by simp
    next
      case 2
      then have "?late j" by (rule gone)
      then show ?thesis using 2 rest IH(2) [of j] nth' [OF j] j len by (auto simp: first_pass_def before_Cons)
    next
      case 3
      then show ?thesis using rest IH(2) [of j] nth' [OF j] times [OF j] j len by (simp add: before_Cons)
    next
      case 4
      then show ?thesis using rest IH(2) [of j] nth' [OF j] old le j len by (simp add: first_pass_def before_Cons)
    qed
  qed
  then show ?case using IH(1) len by (simp add: step)
qed

lemma before_rev: "before t (rev kps) = rev (before t kps)"
  by (simp add: before_def rev_filter)

lemma first_pass_rev: "first_pass M x (rev kps) p = moved_once M x kps p"
proof -
  let ?kps = "before (point_time p) kps"
  have "first_pass M x (rev kps) p = (if ?kps = [] then p else move_point M x (last ?kps) p)"
    unfolding first_pass_def before_rev by (cases ?kps rule: rev_cases) simp_all
  also have "\<dots> = moved_once M x kps p" by (simp add: moved_once_def split: list.split)
  finally show ?thesis .
qed

definition undistorted :: "('x, 'i, 'q) motion \<Rightarrow> 'x \<Rightarrow> 'q Pose6D list \<Rightarrow> PointType list \<Rightarrow> PointType list" where
  "undistorted M x poses ps = (case ps of [] \<Rightarrow> []
     | q # qs \<Rightarrow> moved_by_all M x (intervals poses) q # map (moved_once M x (intervals poses)) qs)"

lemma undistort_points_reference:
  assumes "by_time ps" "ps \<noteq> []"
  shows "undistort_points M x poses ps = undistorted M x poses ps"
proof (rule nth_equalityI)
  have i: "length ps - 1 < length ps" using assms by simp
  note spec = backward_spec [OF i assms(1), of M x "rev (intervals poses)"]
  show "length (undistort_points M x poses ps) = length (undistorted M x poses ps)"
    using spec assms(2) by (simp add: undistort_points_def undistorted_def split: list.splits)
  fix j assume j: "j < length (undistort_points M x poses ps)"
  then have "j < length ps" using spec by (simp add: undistort_points_def)
  then show "undistort_points M x poses ps ! j = undistorted M x poses ps ! j"
    using spec assms(2) by (cases j)
      (auto simp: undistort_points_def undistorted_def first_pass_rev moved_by_all_def before_rev foldr_conv_fold
        split: list.splits)
qed

section \<open>Sorting\<close>

text \<open>What \<open>std::sort\<close> with \<open>time_list\<close> promises of a cloud without NaN among the times.\<close>

definition no_nan :: "PointType list \<Rightarrow> bool" where
  "no_nan ps \<longleftrightarrow> list_all (\<lambda>p. nonan (curvature (pt_data p))) ps"

definition sorts_by_time :: "(PointType list \<Rightarrow> PointType list) \<Rightarrow> bool" where
  "sorts_by_time f \<longleftrightarrow> (\<forall>ps. no_nan ps \<longrightarrow> mset (f ps) = mset ps \<and>
     sorted_wrt (\<lambda>p q. \<not> fless (curvature (pt_data q)) (curvature (pt_data p))) (f ps))"

lemma fdiv_1000_mono:
  assumes "a \<le> b" "nonan a" "nonan b"
  shows "fdiv b64 a (Num 1000) \<le> fdiv b64 b (Num 1000) \<and> nonan (fdiv b64 b (Num 1000))"
  using assms by (cases a; cases b) (auto intro!: fround_mono divide_right_mono)

lemma sorted_by_time:
  assumes "sorts_by_time f" "no_nan ps"
  shows "by_time (f ps)" "mset (f ps) = mset ps"
proof -
  show m: "mset (f ps) = mset ps" using assms by (simp add: sorts_by_time_def)
  have srt: "sorted_wrt (\<lambda>p q. \<not> fless (curvature (pt_data q)) (curvature (pt_data p))) (f ps)"
    using assms by (simp add: sorts_by_time_def)
  have nn: "nonan (curvature (pt_data (f ps ! j)))" if "j < length (f ps)" for j
    using that assms(2) mset_eq_setD [OF m] nth_mem [OF that] by (auto simp: no_nan_def list_all_iff)
  have "point_time (f ps ! i) \<le> point_time (f ps ! j) \<and> nonan (point_time (f ps ! j))"
    if "i \<le> j" "j < length (f ps)" for i j
  proof -
    have "curvature (pt_data (f ps ! i)) \<le> curvature (pt_data (f ps ! j))"
      using sorted_wrt_nth_less [OF srt, of i j] nn that by (cases "i = j") (auto simp: fless_iff)
    then show ?thesis using nn that by (simp add: point_time_def fdiv_1000_mono)
  qed
  then show "by_time (f ps)" by (simp add: by_time_def)
qed

lemma sort_key_sorts: "sorts_by_time (sort_key (\<lambda>p. curvature (pt_data p)))"
proof -
  have "sorted_wrt (\<lambda>p q. \<not> fless (curvature (pt_data q)) (curvature (pt_data p)))
    (sort_key (\<lambda>p. curvature (pt_data p)) ps)" for ps :: "PointType list"
    using sorted_sort_key [of "\<lambda>p. curvature (pt_data p)" ps]
    by (simp add: sorted_map) (erule sorted_wrt_mono_rel [rotated], simp add: fless_iff)
  then show ?thesis by (simp add: sorts_by_time_def)
qed

section \<open>\<open>Process\<close> as a whole\<close>

definition bundle_beg :: "bool \<Rightarrow> nat \<Rightarrow> 'i MeasureGroup \<Rightarrow> flt" where
  "bundle_beg multi lidar_num meas =
     (if if multi then fless (lidar_beg_time meas) (lidar_beg_time2 meas) else lidar_num = 1
      then lidar_beg_time meas else lidar_beg_time2 meas)"

definition bundle_end :: "bool \<Rightarrow> nat \<Rightarrow> 'i MeasureGroup \<Rightarrow> flt" where
  "bundle_end multi lidar_num meas =
     (if if multi then fless (meas_end_time2 meas) (meas_end_time meas) else lidar_num = 1
      then meas_end_time meas else meas_end_time2 meas)"

lemma Process_reference:
  assumes "sorts_by_time srt" "no_nan (meas_lidar meas)" "no_nan (meas_lidar2 meas)"
    and "meas_imu meas \<noteq> []" "\<not> imu_need_init p"
    and "forward M (bundle_beg multi num meas) (bundle_end multi num meas) (meas_imu meas) p x = (x', poses, p')"
  shows "Process M srt multi num meas p x cloud = (p', x',
    if \<not> multi then undistorted M x' poses (srt (meas_lidar meas))
    else if meas_lidar meas = [] \<or> meas_lidar2 meas = [] then cloud
    else undistorted M x' poses (srt (meas_lidar meas)) @ undistorted M x' poses (srt (meas_lidar2 meas)))"
proof -
  have nil: "srt ps = [] \<longleftrightarrow> ps = []" if "no_nan ps" for ps
    using sorted_by_time(2) [OF assms(1) that] by (metis mset.simps(1) mset_zero_iff)
  have ref: "undistort_points M x' poses (srt ps) = undistorted M x' poses (srt ps)" if "no_nan ps" "ps \<noteq> []" for ps
  proof (rule undistort_points_reference)
    show "by_time (srt ps)" using assms(1) that(1) by (rule sorted_by_time(1))
    show "srt ps \<noteq> []" using nil [OF that(1)] that(2) by simp
  qed
  note r = ref [OF assms(2)] ref [OF assms(3)] nil [OF assms(2)] nil [OF assms(3)]
  show ?thesis
  proof (cases multi)
    case False
    then have f: "forward M (if num = 1 then lidar_beg_time meas else lidar_beg_time2 meas)
      (if num = 1 then meas_end_time meas else meas_end_time2 meas) (meas_imu meas) p x = (x', poses, p')"
      using assms(6) by (simp add: bundle_beg_def bundle_end_def)
    have nul: "undistorted M x' poses [] = []" by (simp add: undistorted_def)
    show ?thesis using False assms(4,5) r f
      by (cases "meas_lidar meas = []"; cases "num = 1") (simp_all add: Process_def UndistortPcl_def nul Let_def)
  next
    case True
    then have f: "forward M (if fless (lidar_beg_time meas) (lidar_beg_time2 meas) then lidar_beg_time meas else lidar_beg_time2 meas)
      (if fless (meas_end_time2 meas) (meas_end_time meas) then meas_end_time meas else meas_end_time2 meas)
      (meas_imu meas) p x = (x', poses, p')"
      using assms(6) by (simp add: bundle_beg_def bundle_end_def split: if_splits)
    show ?thesis
      using True assms(4,5) r by (cases "meas_lidar meas = [] \<or> meas_lidar2 meas = []")
        (auto simp: Process_def UndistortPclMultiLiDAR_def f Let_def simp del: if_split)
  qed
qed

lemma Process_stale:
  "meas_imu meas = [] \<Longrightarrow> Process M srt multi num meas p x cloud = (p, x, cloud)"
  "imu_need_init p \<Longrightarrow> snd (snd (Process M srt multi num meas p x cloud)) = cloud"
  by (simp_all add: Process_def Let_def)

end
