(* ===== verification/Lio_Runs.thy ===== *)
theory Lio_Runs
  imports Lio_Sync
begin

text \<open>
  Runs of the scan synchroniser: callbacks and calls of \<open>sync_packages\<close> in any order, from the
  start of the program, with the bundles handed to the estimator. Every scan and every sample
  is used at most once, in the order of arrival, and no call reads an empty deque.
\<close>

section \<open>Events and runs\<close>

datatype 'i event = Scan flt "PointType list" | Scan2 flt "PointType list" | Imu "'i imu" | Sync

fun scan_of :: "'i event \<Rightarrow> (flt \<times> PointType list) list" where
  "scan_of (Scan t c) = [(t, c)]" | "scan_of _ = []"
fun scan2_of :: "'i event \<Rightarrow> (flt \<times> PointType list) list" where
  "scan2_of (Scan2 t c) = [(t, c)]" | "scan2_of _ = []"

definition scans :: "'i event list \<Rightarrow> (flt \<times> PointType list) list" where "scans es = concat (map scan_of es)"
definition scans2 :: "'i event list \<Rightarrow> (flt \<times> PointType list) list" where "scans2 es = concat (map scan2_of es)"

text \<open>The samples that arrive once a scan has arrived.\<close>

fun is_scan :: "'i event \<Rightarrow> bool" where
  "is_scan (Scan t c) = True" | "is_scan (Scan2 t c) = True" | "is_scan _ = False"
fun imu_of :: "'i event \<Rightarrow> 'i imu list" where
  "imu_of (Imu m) = [m]" | "imu_of _ = []"

definition imus :: "'i event list \<Rightarrow> 'i imu list" where
  "imus es = concat (map imu_of (dropWhile (\<lambda>e. \<not> is_scan e) es))"

inductive sync_run :: "bool \<Rightarrow> flt \<Rightarrow> (PointType list \<Rightarrow> PointType list) \<Rightarrow> 'i event list \<Rightarrow> 'i MeasureGroup list \<Rightarrow>
    'i buffers \<Rightarrow> bool" for multi skew tf where
  start: "sync_run multi skew tf [] [] (new_buffers e e2)"
| scan: "sync_run multi skew tf es bs s \<Longrightarrow> sync_run multi skew tf (es @ [Scan t c]) bs (pcl_cbk t c s)"
| scan2: "sync_run multi skew tf es bs s \<Longrightarrow> sync_run multi skew tf (es @ [Scan2 t c]) bs (pcl_cbk2 t c s)"
| imu: "sync_run multi skew tf es bs s \<Longrightarrow> sync_run multi skew tf (es @ [Imu m]) bs (imu_cbk m s)"
| waiting: "sync_run multi skew tf es bs s \<Longrightarrow> sync_packages multi skew tf s = Inr (False, s') \<Longrightarrow>
    sync_run multi skew tf (es @ [Sync]) bs s'"
| bundled: "sync_run multi skew tf es bs s \<Longrightarrow> sync_packages multi skew tf s = Inr (True, s') \<Longrightarrow>
    sync_run multi skew tf (es @ [Sync]) (bs @ [Measures s']) s'"

lemma scans_simps [simp]:
  "scans [] = []" "scans2 [] = []" "scans (es @ es') = scans es @ scans es'" "scans2 (es @ es') = scans2 es @ scans2 es'"
  "scans [e] = scan_of e" "scans2 [e] = scan2_of e"
  by (simp_all add: scans_def scans2_def)

lemma no_scan: "(\<forall>e \<in> set es. \<not> is_scan e) \<longleftrightarrow> scans es = [] \<and> scans2 es = []"
proof (induction es)
  case (Cons e es)
  then show ?case by (cases e) (simp_all add: scans_def scans2_def)
qed simp

lemma imus_simps [simp]:
  "imus [] = []" "imus (es @ [Scan t c]) = imus es" "imus (es @ [Scan2 t c]) = imus es" "imus (es @ [Sync]) = imus es"
  "imus (es @ [Imu m]) = imus es @ (if scans es = [] \<and> scans2 es = [] then [] else [m])"
proof -
  have snoc: "imus (es @ [e]) = imus es @ (if \<forall>e \<in> set es. \<not> is_scan e then if is_scan e then imu_of e else [] else imu_of e)" for e
  proof (cases "\<forall>e \<in> set es. \<not> is_scan e")
    case True
    then have d: "dropWhile (\<lambda>e. \<not> is_scan e) es = []" by simp
    show ?thesis using True by (simp add: imus_def dropWhile_append d)
  next
    case False
    then show ?thesis by (auto simp: imus_def dropWhile_append)
  qed
  show "imus [] = []" "imus (es @ [Scan t c]) = imus es" "imus (es @ [Scan2 t c]) = imus es" "imus (es @ [Sync]) = imus es"
    "imus (es @ [Imu m]) = imus es @ (if scans es = [] \<and> scans2 es = [] then [] else [m])"
    by (simp add: imus_def) (simp_all add: snoc no_scan)
qed

section \<open>No access to an empty deque\<close>

definition level :: "channel \<Rightarrow> bool" where
  "level c \<longleftrightarrow> length (lidar_buffer c) = length (time_buffer c)"

definition sync_ok :: "'i buffers \<Rightarrow> bool" where
  "sync_ok s \<longleftrightarrow> level (ch1 s) \<and> level (ch2 s)"

lemma level_store [simp]: "level c \<Longrightarrow> level (store_scan t cl c)"
  by (simp add: level_def store_scan_def Let_def)

lemma level_scan_end [simp]: "level (scan_end cl b c) = level c"
  by (simp add: level_def scan_end_def Let_def)

lemma scan_end_buffers [simp]:
  "lidar_buffer (scan_end cl b c) = lidar_buffer c" "time_buffer (scan_end cl b c) = time_buffer c"
  "last_timestamp_lidar (scan_end cl b c) = last_timestamp_lidar c"
  by (simp_all add: scan_end_def Let_def)

text \<open>The scans of a channel that are waiting, with their times.\<close>

definition queued :: "channel \<Rightarrow> (flt \<times> PointType list) list" where
  "queued c = zip (time_buffer c) (lidar_buffer c)"

lemma queued_Cons:
  assumes "level c" "lidar_buffer c \<noteq> []"
  obtains t l ts ls where "time_buffer c = t # ts" "lidar_buffer c = l # ls" "queued c = (t, l) # zip ts ls"
    "length ls = length ts"
  using assms by (cases "time_buffer c"; cases "lidar_buffer c") (auto simp: level_def queued_def)

lemma pop_scan_level:
  assumes "level c" "lidar_buffer c \<noteq> []"
  obtains c' where "pop_scan c = Inr c'" "level c'" "queued c' = tl (queued c)"
    "c' = c\<lparr>lidar_buffer := tl (lidar_buffer c), time_buffer := tl (time_buffer c)\<rparr>"
proof -
  obtain t l ts ls where q: "time_buffer c = t # ts" "lidar_buffer c = l # ls" "queued c = (t, l) # zip ts ls"
    "length ls = length ts" using queued_Cons [OF assms] .
  show thesis using q by (intro that [of "c\<lparr>lidar_buffer := ls, time_buffer := ts\<rparr>"])
    (simp_all add: pop_scan_def queued_def level_def)
qed

lemma queued_store:
  assumes "level c"
  shows "queued (store_scan t cl c) = (if fless t (last_timestamp_lidar c) then [] else queued c) @ [(t, cl)]"
  using assms by (simp add: queued_def level_def store_scan_def Let_def zip_append)

text \<open>What pairing leaves: later parts of the two queues, whose fronts are near each other.\<close>

definition near :: "flt \<Rightarrow> flt \<Rightarrow> flt \<Rightarrow> bool" where
  "near skew a b \<longleftrightarrow> \<not> fless skew (fabs (fsub b64 a b))"

lemma drop_unpaired_spec:
  assumes "level c1" "level c2"
  shows "\<exists>d1 d2. drop_unpaired skew c1 c2 = Inr (d1, d2) \<and> level d1 \<and> level d2 \<and>
    suffix (queued d1) (queued c1) \<and> suffix (queued d2) (queued c2) \<and>
    d1 = c1\<lparr>lidar_buffer := lidar_buffer d1, time_buffer := time_buffer d1\<rparr> \<and>
    d2 = c2\<lparr>lidar_buffer := lidar_buffer d2, time_buffer := time_buffer d2\<rparr> \<and>
    (time_buffer d1 \<noteq> [] \<longrightarrow> time_buffer d2 \<noteq> [] \<longrightarrow> near skew (hd (time_buffer d1)) (hd (time_buffer d2)))"
  using assms
proof (induction skew c1 c2 rule: drop_unpaired.induct)
  case (1 skew c1 c2)
  show ?case
  proof (cases "\<exists>t1 ts1 t2 ts2. time_buffer c1 = t1 # ts1 \<and> time_buffer c2 = t2 # ts2 \<and> fless skew (fabs (fsub b64 t1 t2))")
    case False
    then have "drop_unpaired skew c1 c2 = Inr (c1, c2)"
      by (subst drop_unpaired.simps) (auto split: list.splits)
    then show ?thesis using 1 False
      by (intro exI [of _ c1] exI [of _ c2]) (auto simp: near_def neq_Nil_conv)
  next
    case True
    then obtain t1 ts1 t2 ts2 where t: "time_buffer c1 = t1 # ts1" "time_buffer c2 = t2 # ts2"
      "fless skew (fabs (fsub b64 t1 t2))" by blast
    then have ne: "lidar_buffer c1 \<noteq> []" "lidar_buffer c2 \<noteq> []" using 1(3,4) by (auto simp: level_def)
    show ?thesis
    proof (cases "fless t1 t2")
      case less: True
      obtain c where c: "pop_scan c1 = Inr c" "level c" "queued c = tl (queued c1)"
        "c = c1\<lparr>lidar_buffer := tl (lidar_buffer c1), time_buffer := tl (time_buffer c1)\<rparr>"
        using pop_scan_level [OF 1(3) ne(1)] .
      have eq: "drop_unpaired skew c1 c2 = drop_unpaired skew c c2"
        by (subst drop_unpaired.simps) (simp add: t less c(1))
      obtain d1 d2 where d: "drop_unpaired skew c c2 = Inr (d1, d2)" "level d1" "level d2"
        "suffix (queued d1) (queued c)" "suffix (queued d2) (queued c2)"
        "d1 = c\<lparr>lidar_buffer := lidar_buffer d1, time_buffer := time_buffer d1\<rparr>"
        "d2 = c2\<lparr>lidar_buffer := lidar_buffer d2, time_buffer := time_buffer d2\<rparr>"
        "time_buffer d1 \<noteq> [] \<longrightarrow> time_buffer d2 \<noteq> [] \<longrightarrow> near skew (hd (time_buffer d1)) (hd (time_buffer d2))"
        using 1(1) [OF refl t less c(1,2) 1(4)] by metis
      have "suffix (queued d1) (queued c1)" using d(4) c(3) suffix_tl suffix_order.trans by metis
      moreover have "d1 = c1\<lparr>lidar_buffer := lidar_buffer d1, time_buffer := time_buffer d1\<rparr>" using d(6) c(4) by simp
      ultimately show ?thesis unfolding eq using d by blast
    next
      case geq: False
      obtain c where c: "pop_scan c2 = Inr c" "level c" "queued c = tl (queued c2)"
        "c = c2\<lparr>lidar_buffer := tl (lidar_buffer c2), time_buffer := tl (time_buffer c2)\<rparr>"
        using pop_scan_level [OF 1(4) ne(2)] .
      have eq: "drop_unpaired skew c1 c2 = drop_unpaired skew c1 c"
        by (subst drop_unpaired.simps) (simp add: t geq c(1))
      obtain d1 d2 where d: "drop_unpaired skew c1 c = Inr (d1, d2)" "level d1" "level d2"
        "suffix (queued d1) (queued c1)" "suffix (queued d2) (queued c)"
        "d1 = c1\<lparr>lidar_buffer := lidar_buffer d1, time_buffer := time_buffer d1\<rparr>"
        "d2 = c\<lparr>lidar_buffer := lidar_buffer d2, time_buffer := time_buffer d2\<rparr>"
        "time_buffer d1 \<noteq> [] \<longrightarrow> time_buffer d2 \<noteq> [] \<longrightarrow> near skew (hd (time_buffer d1)) (hd (time_buffer d2))"
        using 1(2) [OF refl t geq c(1) 1(3) c(2)] by metis
      have "suffix (queued d2) (queued c2)" using d(5) c(3) suffix_tl suffix_order.trans by metis
      moreover have "d2 = c2\<lparr>lidar_buffer := lidar_buffer d2, time_buffer := time_buffer d2\<rparr>" using d(7) c(4) by simp
      ultimately show ?thesis unfolding eq using d by blast
    qed
  qed
qed

section \<open>One call\<close>

text \<open>What a bundle contains of the two scans \<open>x\<close> and \<open>y\<close>: they start near each other, and the offsets
  of their points are counted from the earlier start.\<close>

fun paired :: "flt \<Rightarrow> (PointType list \<Rightarrow> PointType list) \<Rightarrow> (flt \<times> PointType list) \<times> (flt \<times> PointType list) \<Rightarrow>
    'i MeasureGroup \<Rightarrow> bool" where
  "paired skew tf ((t1, l1), (t2, l2)) m \<longleftrightarrow> near skew t1 t2 \<and> lidar_beg_time m = t1 \<and> lidar_beg_time2 m = t2 \<and>
     meas_lidar m = map (shift_point (fmul b64 (Num 1000) (fsub b64 t1 (fmin t1 t2)))) l1 \<and>
     meas_lidar2 m = map (shift_point (fmul b64 (Num 1000) (fsub b64 t2 (fmin t1 t2)))) (tf l2)"

definition ends :: "bool \<Rightarrow> 'i MeasureGroup \<Rightarrow> flt list" where
  "ends multi m = (if multi then [meas_end_time m, meas_end_time2 m] else [meas_end_time m])"

lemma paired_imu [simp]: "paired skew tf p (m\<lparr>meas_imu := i\<rparr>) = paired skew tf p m"
  by (cases p; cases "fst p"; cases "snd p") auto

lemma ends_imu [simp]: "ends multi (m\<lparr>meas_imu := i\<rparr>) = ends multi m"
  by (simp add: ends_def)

text \<open>A state that holds its next scans; the measure group agrees with the globals.\<close>

definition held :: "bool \<Rightarrow> 'i buffers \<Rightarrow> bool" where
  "held multi s \<longleftrightarrow> lidar_pushed s \<and> lidar_buffer (ch1 s) \<noteq> [] \<and> (multi \<longrightarrow> lidar_buffer (ch2 s) \<noteq> []) \<and>
     ends multi (Measures s) = (if multi then [lidar_end_time (ch1 s), lidar_end_time (ch2 s)] else [lidar_end_time (ch1 s)])"

definition same_imu :: "'i buffers \<Rightarrow> 'i buffers \<Rightarrow> bool" where
  "same_imu s s' \<longleftrightarrow> imu_buffer s' = imu_buffer s \<and> last_timestamp_imu s' = last_timestamp_imu s \<and>
     first_lidar_scan_check s' = first_lidar_scan_check s"

definition same_last :: "'i buffers \<Rightarrow> 'i buffers \<Rightarrow> bool" where
  "same_last s s' \<longleftrightarrow> last_timestamp_lidar (ch1 s') = last_timestamp_lidar (ch1 s) \<and>
     last_timestamp_lidar (ch2 s') = last_timestamp_lidar (ch2 s)"

lemma push_scans_spec:
  assumes "sync_ok s" "lidar_buffer (ch1 s) \<noteq> []" "lidar_buffer (ch2 s) \<noteq> []"
    "near skew (hd (time_buffer (ch1 s))) (hd (time_buffer (ch2 s)))"
  shows "\<exists>h. push_scans tf s = Inr h \<and> sync_ok h \<and> held True h \<and> same_imu s h \<and> same_last s h \<and>
    paired skew tf (hd (queued (ch1 s)), hd (queued (ch2 s))) (Measures h) \<and>
    tl (queued (ch1 h)) = tl (queued (ch1 s)) \<and> tl (queued (ch2 h)) = tl (queued (ch2 s))"
proof -
  have l: "level (ch1 s)" "level (ch2 s)" using assms(1) by (auto simp: sync_ok_def)
  obtain t1 l1 ts1 ls1 where 1: "time_buffer (ch1 s) = t1 # ts1" "lidar_buffer (ch1 s) = l1 # ls1"
    "queued (ch1 s) = (t1, l1) # zip ts1 ls1" "length ls1 = length ts1" using queued_Cons [OF l(1) assms(2)] .
  obtain t2 l2 ts2 ls2 where 2: "time_buffer (ch2 s) = t2 # ts2" "lidar_buffer (ch2 s) = l2 # ls2"
    "queued (ch2 s) = (t2, l2) # zip ts2 ls2" "length ls2 = length ts2" using queued_Cons [OF l(2) assms(3)] .
  then show ?thesis using 1 assms(4)
    by (simp add: push_scans_def Let_def sync_ok_def level_def held_def same_imu_def same_last_def ends_def write_front_def
        queued_def)
qed

lemma push_scan_spec:
  assumes "sync_ok s" "lidar_buffer (ch1 s) \<noteq> []"
  shows "\<exists>h. push_scan s = Inr h \<and> sync_ok h \<and> held False h \<and> same_imu s h \<and> same_last s h \<and>
    hd (queued (ch1 s)) = (lidar_beg_time (Measures h), meas_lidar (Measures h)) \<and> queued (ch1 h) = queued (ch1 s)"
proof -
  have l: "level (ch1 s)" "level (ch2 s)" using assms(1) by (auto simp: sync_ok_def)
  obtain t1 l1 ts1 ls1 where 1: "time_buffer (ch1 s) = t1 # ts1" "lidar_buffer (ch1 s) = l1 # ls1"
    "queued (ch1 s) = (t1, l1) # zip ts1 ls1" "length ls1 = length ts1" using queued_Cons [OF l(1) assms(2)] .
  then show ?thesis using l
    by (simp add: push_scan_def Let_def sync_ok_def level_def held_def same_imu_def same_last_def ends_def queued_def)
qed

text \<open>What the samples handed over are: a prefix of the buffer that reaches the ends.\<close>

lemma hand_over_spec:
  assumes "hand_over es t ms = (a, b)"
  shows "a @ b = ms" "\<forall>x \<in> set a. \<exists>e \<in> set es. \<not> fless e (imu_stamp x)"
    "sorted (t # map imu_stamp ms) \<Longrightarrow> \<forall>x \<in> set b. \<forall>e \<in> set es. \<not> fless (imu_stamp x) e"
proof -
  have "a @ b = ms \<and> (\<forall>x \<in> set a. \<exists>e \<in> set es. \<not> fless e (imu_stamp x)) \<and>
    (sorted (t # map imu_stamp ms) \<longrightarrow> (\<forall>x \<in> set b. \<forall>e \<in> set es. \<not> fless (imu_stamp x) e))"
    using assms
  proof (induction es t ms arbitrary: a rule: hand_over.induct)
    case (2 es t m ms)
    consider "\<forall>e \<in> set es. \<not> fless t e" | "\<exists>e \<in> set es. fless t e" "\<forall>e \<in> set es. fless e (imu_stamp m)"
      | "\<exists>e \<in> set es. fless t e" "\<not> (\<forall>e \<in> set es. fless e (imu_stamp m))" by blast
    then show ?case
    proof cases
      case 1
      then have ab: "a = []" "b = m # ms" using 2(2) by auto
      show ?thesis unfolding ab using 1 by (auto simp: fless_iff)
    next
      case two: 2
      then have ab: "a = []" "b = m # ms" using 2(2) by auto
      show ?thesis unfolding ab using two(2) by (fastforce simp: fless_iff)
    next
      case 3
      then obtain a' where "hand_over es (imu_stamp m) ms = (a', b)" "a = m # a'"
        using 2(2) unfolding hand_over.simps if_P [OF 3(1)] if_not_P [OF 3(2)] by (auto split: prod.splits)
      then show ?thesis using 2(1) [OF 3] 3(2) by auto
    qed
  qed auto
  then show "a @ b = ms" "\<forall>x \<in> set a. \<exists>e \<in> set es. \<not> fless e (imu_stamp x)"
    "sorted (t # map imu_stamp ms) \<Longrightarrow> \<forall>x \<in> set b. \<forall>e \<in> set es. \<not> fless (imu_stamp x) e" by blast+
qed

text \<open>The end of a call: it waits for the samples up to the ends, or closes the bundle.\<close>

definition finish :: "bool \<Rightarrow> 'i buffers \<Rightarrow> ub + bool \<times> 'i buffers" where
  "finish multi = (if multi then finish_bundle else finish_single)"

definition closes :: "bool \<Rightarrow> 'i buffers \<Rightarrow> 'i buffers \<Rightarrow> bool" where
  "closes multi h s \<longleftrightarrow> sync_ok s \<and> \<not> lidar_pushed s \<and> same_last h s \<and> queued (ch1 s) = tl (queued (ch1 h)) \<and>
     (multi \<longrightarrow> queued (ch2 s) = tl (queued (ch2 h))) \<and> last_timestamp_imu s = last_timestamp_imu h \<and>
     first_lidar_scan_check s = first_lidar_scan_check h \<and>
     (\<forall>e \<in> set (ends multi (Measures h)). \<not> fless (last_timestamp_imu h) e) \<and>
     Measures s = (Measures h)\<lparr>meas_imu := meas_imu (Measures s)\<rparr> \<and>
     hand_over (ends multi (Measures h)) (imu_stamp (hd (imu_buffer h))) (imu_buffer h) = (meas_imu (Measures s), imu_buffer s)"

lemma take_imu_spec:
  assumes "imu_buffer h \<noteq> []"
  obtains taken rest where "hand_over es (imu_stamp (hd (imu_buffer h))) (imu_buffer h) = (taken, rest)"
    "take_imu es h = Inr (h\<lparr>Measures := (Measures h)\<lparr>meas_imu := taken\<rparr>, imu_buffer := rest\<rparr>)"
proof -
  obtain taken rest where "hand_over es (imu_stamp (hd (imu_buffer h))) (imu_buffer h) = (taken, rest)" by fastforce
  then show thesis using assms that by (cases "imu_buffer h") (auto simp: take_imu_def)
qed

lemma closing_spec:
  assumes "sync_ok h" "held multi h" "imu_buffer h \<noteq> []"
  shows "finish multi h = Inr (False, h) \<or> (\<exists>s. finish multi h = Inr (True, s) \<and> closes multi h s)"
proof -
  have l: "level (ch1 h)" "level (ch2 h)" and ne: "lidar_buffer (ch1 h) \<noteq> []"
    and e: "ends multi (Measures h) = (if multi then [lidar_end_time (ch1 h), lidar_end_time (ch2 h)] else [lidar_end_time (ch1 h)])"
    using assms by (auto simp: sync_ok_def held_def)
  obtain c1 where c1: "pop_scan (ch1 h) = Inr c1" "level c1" "queued c1 = tl (queued (ch1 h))"
    "c1 = (ch1 h)\<lparr>lidar_buffer := tl (lidar_buffer (ch1 h)), time_buffer := tl (time_buffer (ch1 h))\<rparr>"
    using pop_scan_level [OF l(1) ne] .
  obtain taken rest where i: "hand_over (ends multi (Measures h)) (imu_stamp (hd (imu_buffer h))) (imu_buffer h) = (taken, rest)"
    "take_imu (ends multi (Measures h)) h = Inr (h\<lparr>Measures := (Measures h)\<lparr>meas_imu := taken\<rparr>, imu_buffer := rest\<rparr>)"
    using take_imu_spec [OF assms(3)] .
  define s where "s = h\<lparr>Measures := (Measures h)\<lparr>meas_imu := taken\<rparr>, imu_buffer := rest, ch1 := c1, lidar_pushed := False\<rparr>"
  show ?thesis
  proof (cases "\<exists>t \<in> set (ends multi (Measures h)). fless (last_timestamp_imu h) t")
    case True
    then show ?thesis using e by (auto simp: finish_def finish_bundle_def finish_single_def Let_def split: if_splits)
  next
    case False
    show ?thesis
    proof (cases multi)
      case m: True
      then have "lidar_buffer (ch2 h) \<noteq> []" using assms(2) by (simp add: held_def)
      then obtain c2 where c2: "pop_scan (ch2 h) = Inr c2" "level c2" "queued c2 = tl (queued (ch2 h))"
        "c2 = (ch2 h)\<lparr>lidar_buffer := tl (lidar_buffer (ch2 h)), time_buffer := tl (time_buffer (ch2 h))\<rparr>"
        using pop_scan_level [OF l(2)] by blast
      have "finish multi h = Inr (True, s\<lparr>ch2 := c2\<rparr>)"
        using m False i(2) c1(1) c2(1) e by (simp add: finish_def finish_bundle_def Let_def s_def)
      moreover have "closes multi h (s\<lparr>ch2 := c2\<rparr>)"
        using m False i(1) c1(2-4) c2(2-4) by (simp add: closes_def s_def sync_ok_def same_last_def)
      ultimately show ?thesis by blast
    next
      case m: False
      then have "finish multi h = Inr (True, s)"
        using False i(2) c1(1) e by (simp add: finish_def finish_single_def Let_def s_def)
      moreover have "closes multi h s"
        using m False i(1) c1(2-4) l(2) by (simp add: closes_def s_def sync_ok_def same_last_def)
      ultimately show ?thesis by blast
    qed
  qed
qed

text \<open>A call of \<open>sync_packages\<close>, in four cases: nothing happens, pairing drops scans, the bundle waits
  for samples, it is closed. \<open>h\<close> is the state that holds the scans, old or new.\<close>

definition paired_off :: "flt \<Rightarrow> 'i buffers \<Rightarrow> 'i buffers \<Rightarrow> bool" where
  "paired_off skew s s' \<longleftrightarrow> sync_ok s' \<and> same_imu s s' \<and> same_last s s' \<and> lidar_pushed s' = lidar_pushed s \<and>
     Measures s' = Measures s \<and> suffix (queued (ch1 s')) (queued (ch1 s)) \<and> suffix (queued (ch2 s')) (queued (ch2 s)) \<and>
     (time_buffer (ch1 s') \<noteq> [] \<longrightarrow> time_buffer (ch2 s') \<noteq> [] \<longrightarrow>
        near skew (hd (time_buffer (ch1 s'))) (hd (time_buffer (ch2 s'))))"

lemma pair_scans_spec:
  assumes "sync_ok s" "\<not> lidar_pushed s"
  shows "\<exists>d. pair_scans skew s = Inr d \<and> paired_off skew s d"
proof -
  have l: "level (ch1 s)" "level (ch2 s)" using assms(1) by (auto simp: sync_ok_def)
  obtain d1 d2 where d: "drop_unpaired skew (ch1 s) (ch2 s) = Inr (d1, d2)" "level d1" "level d2"
    "suffix (queued d1) (queued (ch1 s))" "suffix (queued d2) (queued (ch2 s))"
    "d1 = (ch1 s)\<lparr>lidar_buffer := lidar_buffer d1, time_buffer := time_buffer d1\<rparr>"
    "d2 = (ch2 s)\<lparr>lidar_buffer := lidar_buffer d2, time_buffer := time_buffer d2\<rparr>"
    "time_buffer d1 \<noteq> [] \<longrightarrow> time_buffer d2 \<noteq> [] \<longrightarrow> near skew (hd (time_buffer d1)) (hd (time_buffer d2))"
    using drop_unpaired_spec [OF l] by blast
  from d(6,7) have "last_timestamp_lidar d1 = last_timestamp_lidar (ch1 s)" "last_timestamp_lidar d2 = last_timestamp_lidar (ch2 s)"
    by (metis channel.ext_inject channel.surjective channel.update_convs(1,2))+
  then show ?thesis using assms d(1-5,8)
    by (simp add: pair_scans_def paired_off_def sync_ok_def same_imu_def same_last_def)
qed

lemma sync_cases:
  assumes "sync_ok s" "lidar_pushed s \<longrightarrow> held multi s"
  obtains
    (idle) "sync_packages multi skew tf s = Inr (False, s)"
  | (dropped) d where "multi" "\<not> lidar_pushed s" "paired_off skew s d" "sync_packages multi skew tf s = Inr (False, d)"
  | (held) h where "lidar_pushed s" "h = s" "imu_buffer h \<noteq> []" "sync_packages multi skew tf s = finish multi h"
  | (pushed) d h where "\<not> lidar_pushed s" "if multi then paired_off skew s d \<and> push_scans tf d = Inr h else d = s \<and> push_scan d = Inr h"
      "lidar_buffer (ch1 d) \<noteq> []" "multi \<longrightarrow> lidar_buffer (ch2 d) \<noteq> []" "imu_buffer d \<noteq> []" "imu_buffer h \<noteq> []"
      "sync_packages multi skew tf s = finish multi h"
proof (cases "lidar_buffer (ch1 s) = [] \<or> (multi \<and> lidar_buffer (ch2 s) = []) \<or> imu_buffer s = []")
  case True
  then show thesis by (intro idle) (auto simp: sync_packages_def sync_multi_def sync_single_def)
next
  case False
  show thesis
  proof (cases "lidar_pushed s")
    case True
    then show thesis using False
      by (intro held [of s]) (auto simp: sync_packages_def sync_multi_def sync_single_def pair_scans_def finish_def)
  next
    case np: False
    show thesis
    proof (cases multi)
      case True
      obtain d where d: "pair_scans skew s = Inr d" "paired_off skew s d" using pair_scans_spec [OF assms(1) np] by blast
      have dp: "\<not> lidar_pushed d" "imu_buffer d = imu_buffer s" "sync_ok d" using d(2) np by (auto simp: paired_off_def same_imu_def)
      show thesis
      proof (cases "lidar_buffer (ch1 d) = [] \<or> lidar_buffer (ch2 d) = []")
        case e: True
        then show thesis using True False np d dp by (intro dropped [of d]) (simp_all add: sync_packages_def sync_multi_def)
      next
        case ne: False
        then have t: "time_buffer (ch1 d) \<noteq> []" "time_buffer (ch2 d) \<noteq> []" using dp(3) by (auto simp: sync_ok_def level_def)
        then have "near skew (hd (time_buffer (ch1 d))) (hd (time_buffer (ch2 d)))" using d(2) by (simp add: paired_off_def)
        then obtain h where "push_scans tf d = Inr h" "same_imu d h" using push_scans_spec [OF dp(3)] ne by blast
        then show thesis using True False np d dp ne
          by (intro pushed [of d h]) (simp_all add: sync_packages_def sync_multi_def finish_def same_imu_def)
      qed
    next
      case m: False
      obtain h where "push_scan s = Inr h" "same_imu s h" using push_scan_spec [OF assms(1)] False by blast
      then show thesis using m False np
        by (intro pushed [of s h]) (simp_all add: sync_packages_def sync_single_def finish_def same_imu_def)
    qed
  qed
qed

end
