(* ===== verification/Lio_Bundles.thy ===== *)
theory Lio_Bundles
  imports Lio_Runs
begin

text \<open>
  The invariants of the runs of the scan synchroniser: no empty deque is read; with two sensors
  each bundle pairs two scans that start near each other; with one sensor the scans come out as
  they came in; the samples of the IMU are split among the bundles at their ends.
\<close>

section \<open>Every call succeeds\<close>

definition run_ok :: "bool \<Rightarrow> 'i buffers \<Rightarrow> bool" where
  "run_ok multi s \<longleftrightarrow> sync_ok s \<and> (lidar_pushed s \<longrightarrow> held multi s)"

lemma store_scan_simps [simp]:
  "lidar_buffer (store_scan t c x) \<noteq> []" "lidar_end_time (store_scan t c x) = lidar_end_time x"
  "last_timestamp_lidar (store_scan t c x) = t"
  by (simp_all add: store_scan_def Let_def)

lemma callbacks_ok:
  assumes "run_ok multi s"
  shows "run_ok multi (pcl_cbk t c s)" "run_ok multi (pcl_cbk2 t c s)" "run_ok multi (imu_cbk m s)"
  using assms by (auto simp: run_ok_def sync_ok_def held_def pcl_cbk_def pcl_cbk2_def imu_cbk_def Let_def)

text \<open>How a call gets to a state that holds its scans.\<close>

definition holds :: "bool \<Rightarrow> flt \<Rightarrow> (PointType list \<Rightarrow> PointType list) \<Rightarrow> 'i buffers \<Rightarrow> 'i buffers \<Rightarrow> bool" where
  "holds multi skew tf s h \<longleftrightarrow> sync_ok h \<and> held multi h \<and> imu_buffer h \<noteq> [] \<and> same_imu s h \<and> same_last s h \<and>
     (if lidar_pushed s then h = s
      else if multi then \<exists>d. paired_off skew s d \<and> queued (ch1 d) \<noteq> [] \<and> queued (ch2 d) \<noteq> [] \<and>
          paired skew tf (hd (queued (ch1 d)), hd (queued (ch2 d))) (Measures h) \<and>
          tl (queued (ch1 h)) = tl (queued (ch1 d)) \<and> tl (queued (ch2 h)) = tl (queued (ch2 d))
      else queued (ch1 s) \<noteq> [] \<and> hd (queued (ch1 s)) = (lidar_beg_time (Measures h), meas_lidar (Measures h)) \<and>
          queued (ch1 h) = queued (ch1 s))"

lemma queued_nonempty: "level c \<Longrightarrow> lidar_buffer c \<noteq> [] \<Longrightarrow> queued c \<noteq> []"
  by (cases "time_buffer c"; cases "lidar_buffer c") (auto simp: level_def queued_def)

lemma sync_step:
  assumes "run_ok multi s"
  shows "sync_packages multi skew tf s = Inr (False, s) \<or>
    (multi \<and> \<not> lidar_pushed s \<and> (\<exists>d. paired_off skew s d \<and> sync_packages multi skew tf s = Inr (False, d))) \<or>
    (\<exists>h. holds multi skew tf s h \<and> (sync_packages multi skew tf s = Inr (False, h) \<or>
       (\<exists>s'. sync_packages multi skew tf s = Inr (True, s') \<and> closes multi h s')))"
proof -
  have ok: "sync_ok s" "lidar_pushed s \<longrightarrow> held multi s" using assms by (auto simp: run_ok_def)
  have fin: ?thesis if h: "holds multi skew tf s h" "sync_packages multi skew tf s = finish multi h" for h
  proof -
    have "finish multi h = Inr (False, h) \<or> (\<exists>s'. finish multi h = Inr (True, s') \<and> closes multi h s')"
      using h(1) by (intro closing_spec) (simp_all add: holds_def)
    then show ?thesis using h by metis
  qed
  show ?thesis
  proof (cases rule: sync_cases [OF ok, of skew tf, case_names idle dropped held pushed])
    case idle
    then show ?thesis by blast
  next
    case (dropped d)
    then show ?thesis by blast
  next
    case (held h)
    then show ?thesis using ok by (intro fin [of h]) (simp_all add: holds_def same_imu_def same_last_def)
  next
    case (pushed d h)
    show ?thesis
    proof (cases multi)
      case True
      then have d: "paired_off skew s d" "push_scans tf d = Inr h" using pushed by simp_all
      have l: "level (ch1 d)" "level (ch2 d)" "sync_ok d" using d(1) by (auto simp: paired_off_def sync_ok_def)
      have ne: "lidar_buffer (ch1 d) \<noteq> []" "lidar_buffer (ch2 d) \<noteq> []" using pushed True by simp_all
      have "time_buffer (ch1 d) \<noteq> []" "time_buffer (ch2 d) \<noteq> []" using l ne by (auto simp: level_def)
      then have "near skew (hd (time_buffer (ch1 d))) (hd (time_buffer (ch2 d)))" using d(1) by (simp add: paired_off_def)
      from push_scans_spec [OF l(3) ne this, of tf] obtain h' where h': "push_scans tf d = Inr h'" "sync_ok h'" "held True h'"
        "same_imu d h'" "same_last d h'"
        "paired skew tf (hd (queued (ch1 d)), hd (queued (ch2 d))) (Measures h')"
        "tl (queued (ch1 h')) = tl (queued (ch1 d))" "tl (queued (ch2 h')) = tl (queued (ch2 d))" by blast
      have "same_imu s d" "same_last s d" using d(1) by (simp_all add: paired_off_def)
      then have "holds True skew tf s h" using pushed(1,6) d h' l ne queued_nonempty
        by (auto simp: holds_def same_imu_def same_last_def intro!: exI [of _ d])
      then show ?thesis using True pushed by (intro fin [of h]) simp_all
    next
      case False
      then have d: "d = s" "push_scan s = Inr h" "lidar_buffer (ch1 s) \<noteq> []" using pushed by auto
      have "level (ch1 s)" using ok by (simp add: sync_ok_def)
      then have "holds False skew tf s h" using pushed d push_scan_spec [OF ok(1) d(3)] queued_nonempty [OF _ d(3)]
        by (simp add: holds_def)
      then show ?thesis using False pushed by (intro fin [of h]) simp_all
    qed
  qed
qed

lemma sync_run_ok: "sync_run multi skew tf es bs s \<Longrightarrow> run_ok multi s"
proof (induction rule: sync_run.induct)
  case (start e e2)
  show ?case by (simp add: run_ok_def sync_ok_def level_def new_buffers_def new_channel_def)
next
  case (waiting es bs s s')
  then show ?case using sync_step [OF waiting(3), of skew tf]
    by (auto simp: run_ok_def paired_off_def holds_def)
next
  case (bundled es bs s s')
  then show ?case using sync_step [OF bundled(3), of skew tf] by (auto simp: run_ok_def closes_def)
qed (simp_all add: callbacks_ok)

lemma sync_succeeds:
  assumes "sync_run multi skew tf es bs s"
  shows "\<exists>b s'. sync_packages multi skew tf s = Inr (b, s')"
  using sync_step [OF sync_run_ok [OF assms], of skew tf] by blast

section \<open>Two sensors\<close>

text \<open>The pairs \<open>ps\<close> that were bundled, and the pair that is held, come from the scans that arrived, in
  this order and each once; of the scan that is held the queue has one element, whatever it is.\<close>

definition pairs_inv :: "flt \<Rightarrow> (PointType list \<Rightarrow> PointType list) \<Rightarrow> 'i event list \<Rightarrow> 'i MeasureGroup list \<Rightarrow>
    'i buffers \<Rightarrow> bool" where
  "pairs_inv skew tf es bs s \<longleftrightarrow> (\<exists>ps. list_all2 (paired skew tf) ps bs \<and>
     (if lidar_pushed s then \<exists>x y. paired skew tf (x, y) (Measures s) \<and>
        subseq (map fst ps @ x # tl (queued (ch1 s))) (scans es) \<and> subseq (map snd ps @ y # tl (queued (ch2 s))) (scans2 es)
      else subseq (map fst ps @ queued (ch1 s)) (scans es) \<and> subseq (map snd ps @ queued (ch2 s)) (scans2 es)))"

lemma subseq_drop_middle: "suffix b c \<Longrightarrow> subseq (a @ c) d \<Longrightarrow> subseq (a @ b) d"
  by (meson subseq_order.order_trans suffix_imp_subseq subseq_append_iff subseq_order.refl list_emb_append_mono)

lemma subseq_snoc: "subseq (a @ q) d \<Longrightarrow> subseq (a @ q @ [x]) (d @ [x])"
  using list_emb_append_mono [of "(=)" "a @ q" d "[x]" "[x]"] by simp

lemma subseq_restart: "subseq (a @ q) d \<Longrightarrow> subseq (a @ [x]) (d @ [x])"
  using subseq_snoc [of a "[]" d x] subseq_drop_middle [of "[]" q a d] by simp

text \<open>A scan arrives: it is appended, or replaces all but the held scan of the queue.\<close>

lemma queue_arrives:
  assumes "level c" "subseq (A @ queued c) es"
  shows "subseq (A @ queued (store_scan t cl c)) (es @ [(t, cl)])"
  using assms subseq_snoc [of A "queued c" es] subseq_restart [of A "queued c" es] by (simp add: queued_store)

lemma held_arrives:
  assumes "level c" "lidar_buffer c \<noteq> []" "subseq (A @ x # tl (queued c)) es"
  shows "subseq (A @ x # tl (queued (store_scan t cl c))) (es @ [(t, cl)])"
proof -
  have "subseq (A @ [x]) es" using subseq_drop_middle [of "[x]"] assms(3)
    by (meson subseq_append' subseq_order.dual_order.trans list_emb_append_mono subseq_order.refl subseq_Cons2 list_emb_Nil)
  then have "subseq (A @ [x]) (es @ [(t, cl)])" using list_emb_append_mono [of "(=)" "A @ [x]" es "[]" "[(t, cl)]"] by simp
  moreover have "subseq (A @ (x # tl (queued c)) @ [(t, cl)]) (es @ [(t, cl)])" using assms(3) by (rule subseq_snoc)
  ultimately show ?thesis using assms(1) queued_nonempty [OF assms(1,2)] by (simp add: queued_store)
qed

lemma pairs_inv_holds:
  assumes "pairs_inv skew tf es bs s" "holds True skew tf s h"
  shows "pairs_inv skew tf es bs h"
proof (cases "lidar_pushed s")
  case True
  then show ?thesis using assms by (simp add: holds_def)
next
  case False
  then obtain ps d where ps: "list_all2 (paired skew tf) ps bs" "subseq (map fst ps @ queued (ch1 s)) (scans es)"
    "subseq (map snd ps @ queued (ch2 s)) (scans2 es)" using assms(1) by (auto simp: pairs_inv_def)
  obtain d where d: "paired_off skew s d" "queued (ch1 d) \<noteq> []" "queued (ch2 d) \<noteq> []"
    "paired skew tf (hd (queued (ch1 d)), hd (queued (ch2 d))) (Measures h)"
    "tl (queued (ch1 h)) = tl (queued (ch1 d))" "tl (queued (ch2 h)) = tl (queued (ch2 d))"
    using assms(2) False by (auto simp: holds_def)
  have "suffix (queued (ch1 d)) (queued (ch1 s))" "suffix (queued (ch2 d)) (queued (ch2 s))"
    using d(1) by (simp_all add: paired_off_def)
  then have "subseq (map fst ps @ queued (ch1 d)) (scans es)" "subseq (map snd ps @ queued (ch2 d)) (scans2 es)"
    using ps(2,3) subseq_drop_middle by blast+
  moreover have "lidar_pushed h" using assms(2) by (simp add: holds_def held_def)
  ultimately show ?thesis using ps(1) d(2-6) unfolding pairs_inv_def by (metis list.collapse)
qed

lemma pairs_inv_closes:
  assumes "pairs_inv skew tf es bs h" "held True h" "closes True h s"
  shows "pairs_inv skew tf es (bs @ [Measures s]) s"
proof -
  obtain ps x y where ps: "list_all2 (paired skew tf) ps bs" "paired skew tf (x, y) (Measures h)"
    "subseq (map fst ps @ x # tl (queued (ch1 h))) (scans es)" "subseq (map snd ps @ y # tl (queued (ch2 h))) (scans2 es)"
    using assms(1,2) by (auto simp: pairs_inv_def held_def)
  have s: "\<not> lidar_pushed s" "queued (ch1 s) = tl (queued (ch1 h))" "queued (ch2 s) = tl (queued (ch2 h))"
    "Measures s = (Measures h)\<lparr>meas_imu := meas_imu (Measures s)\<rparr>" using assms(3) by (auto simp: closes_def)
  have "paired skew tf (x, y) (Measures s)" using ps(2) by (subst s(4)) simp
  then have "list_all2 (paired skew tf) (ps @ [(x, y)]) (bs @ [Measures s])" using ps(1) by (simp add: list_all2_appendI)
  then show ?thesis using ps(3,4) s(1-3) unfolding pairs_inv_def by (intro exI [of _ "ps @ [(x, y)]"]) simp
qed

lemma pairs_inv_idle [simp]:
  "pairs_inv skew tf (es @ [Sync]) bs s = pairs_inv skew tf es bs s"
  "pairs_inv skew tf (es @ [Imu m]) bs (imu_cbk m s) = pairs_inv skew tf es bs s"
proof -
  have *: "lidar_pushed (imu_cbk m s) = lidar_pushed s" "Measures (imu_cbk m s) = Measures s"
    "ch1 (imu_cbk m s) = ch1 s" "ch2 (imu_cbk m s) = ch2 s" by (simp_all add: imu_cbk_def Let_def)
  show "pairs_inv skew tf (es @ [Sync]) bs s = pairs_inv skew tf es bs s"
    "pairs_inv skew tf (es @ [Imu m]) bs (imu_cbk m s) = pairs_inv skew tf es bs s"
    by (simp_all only: pairs_inv_def * scans_simps scan_of.simps scan2_of.simps append_Nil2)
qed

lemma sync_run_pairs:
  assumes "sync_run True skew tf es bs s"
  shows "pairs_inv skew tf es bs s"
  using assms
proof (induction es bs s rule: sync_run.induct)
  case (start e e2)
  show ?case by (simp add: pairs_inv_def new_buffers_def new_channel_def queued_def)
next
  case (scan es bs s t c)
  have ok: "level (ch1 s)" "lidar_pushed s \<Longrightarrow> lidar_buffer (ch1 s) \<noteq> []"
    using sync_run_ok [OF scan(1)] by (auto simp: run_ok_def sync_ok_def held_def)
  then show ?case
  proof (cases "lidar_pushed s")
    case True
    then obtain ps x y where ps: "list_all2 (paired skew tf) ps bs" "paired skew tf (x, y) (Measures s)"
      "subseq (map fst ps @ x # tl (queued (ch1 s))) (scans es)" "subseq (map snd ps @ y # tl (queued (ch2 s))) (scans2 es)"
      using scan(2) by (auto simp: pairs_inv_def)
    show ?thesis using True ps held_arrives [OF ok(1) ok(2) [OF True] ps(3), of t c]
      unfolding pairs_inv_def 
      by (intro exI [of _ ps]) (simp add: pcl_cbk_def del: paired.simps split_paired_Ex, blast)
  next
    case False
    then obtain ps where ps: "list_all2 (paired skew tf) ps bs"
      "subseq (map fst ps @ queued (ch1 s)) (scans es)" "subseq (map snd ps @ queued (ch2 s)) (scans2 es)"
      using scan(2) by (auto simp: pairs_inv_def)
    show ?thesis using False ps queue_arrives [OF ok(1) ps(2), of t c]
      unfolding pairs_inv_def by (intro exI [of _ ps]) (simp add: pcl_cbk_def)
  qed
next
  case (scan2 es bs s t c)
  have ok: "level (ch2 s)" "lidar_pushed s \<Longrightarrow> lidar_buffer (ch2 s) \<noteq> []"
    using sync_run_ok [OF scan2(1)] by (auto simp: run_ok_def sync_ok_def held_def)
  then show ?case
  proof (cases "lidar_pushed s")
    case True
    then obtain ps x y where ps: "list_all2 (paired skew tf) ps bs" "paired skew tf (x, y) (Measures s)"
      "subseq (map fst ps @ x # tl (queued (ch1 s))) (scans es)" "subseq (map snd ps @ y # tl (queued (ch2 s))) (scans2 es)"
      using scan2(2) by (auto simp: pairs_inv_def)
    show ?thesis using True ps held_arrives [OF ok(1) ok(2) [OF True] ps(4), of t c]
      unfolding pairs_inv_def 
      by (intro exI [of _ ps]) (simp add: pcl_cbk2_def del: paired.simps split_paired_Ex, blast)
  next
    case False
    then obtain ps where ps: "list_all2 (paired skew tf) ps bs"
      "subseq (map fst ps @ queued (ch1 s)) (scans es)" "subseq (map snd ps @ queued (ch2 s)) (scans2 es)"
      using scan2(2) by (auto simp: pairs_inv_def)
    show ?thesis using False ps queue_arrives [OF ok(1) ps(3), of t c]
      unfolding pairs_inv_def by (intro exI [of _ ps]) (simp add: pcl_cbk2_def)
  qed
next
  case (imu es bs s m)
  then show ?case by simp
next
  case (waiting es bs s s')
  consider "s' = s" | "\<not> lidar_pushed s" "paired_off skew s s'" | "holds True skew tf s s'"
    using sync_step [OF sync_run_ok [OF waiting(1)], of skew tf] waiting(2) by auto
  then show ?case
  proof cases
    case 1
    then show ?thesis using waiting(3) by simp
  next
    case 2
    then obtain ps where ps: "list_all2 (paired skew tf) ps bs"
      "subseq (map fst ps @ queued (ch1 s)) (scans es)" "subseq (map snd ps @ queued (ch2 s)) (scans2 es)"
      using waiting(3) by (auto simp: pairs_inv_def)
    have "suffix (queued (ch1 s')) (queued (ch1 s))" "suffix (queued (ch2 s')) (queued (ch2 s))" "\<not> lidar_pushed s'"
      using 2 by (simp_all add: paired_off_def)
    then have "subseq (map fst ps @ queued (ch1 s')) (scans es)" "subseq (map snd ps @ queued (ch2 s')) (scans2 es)"
      using ps(2,3) subseq_drop_middle by blast+
    then show ?thesis using ps(1) \<open>\<not> lidar_pushed s'\<close> by (simp add: pairs_inv_def) blast
  next
    case 3
    then show ?thesis using pairs_inv_holds [OF waiting(3)] by simp
  qed
next
  case (bundled es bs s s')
  obtain h where h: "holds True skew tf s h" "closes True h s'"
    using sync_step [OF sync_run_ok [OF bundled(1)], of skew tf] bundled(2) by auto
  have "held True h" using h(1) by (simp add: holds_def)
  from pairs_inv_closes [OF pairs_inv_holds [OF bundled(3) h(1)] this h(2)] show ?case by simp
qed

section \<open>One sensor\<close>

text \<open>As long as the times of the scans do not go back, the bundles and the queue are the scans that
  arrived.\<close>

definition scan_in :: "'i MeasureGroup \<Rightarrow> flt \<times> PointType list" where
  "scan_in m = (lidar_beg_time m, meas_lidar m)"

text \<open>The time that arrived last, or the initial value.\<close>

definition newest :: "flt \<Rightarrow> flt list \<Rightarrow> flt" where
  "newest a xs = last (a # xs)"

lemma newest_simps [simp]: "newest a [] = a" "newest a (xs @ [x]) = x"
  by (simp_all add: newest_def)

definition fifo_inv :: "'i event list \<Rightarrow> 'i MeasureGroup list \<Rightarrow> 'i buffers \<Rightarrow> bool" where
  "fifo_inv es bs s \<longleftrightarrow> map scan_in bs @ queued (ch1 s) = scans es \<and>
     last_timestamp_lidar (ch1 s) = newest (Num 0) (map fst (scans es)) \<and>
     (lidar_pushed s \<longrightarrow> queued (ch1 s) \<noteq> [] \<and> hd (queued (ch1 s)) = scan_in (Measures s))"

lemma sorted_snoc_last:
  assumes "sorted (a # xs @ [x])"
  shows "newest a xs \<le> x" "\<not> fless x (newest a xs)"
proof -
  have "sorted ((a # xs) @ [x])" using assms by simp
  then have "last (a # xs) \<le> x" unfolding sorted_append by auto
  then show "newest a xs \<le> x" unfolding newest_def .
  then show "\<not> fless x (newest a xs)" by (simp add: fless_iff)
qed

lemma sorted_snocD: "sorted (a # xs @ [x]) \<Longrightarrow> sorted (a # xs)" for a :: flt
  using sorted_append [of "a # xs" "[x]"] by simp

lemma fifo_inv_idle [simp]:
  "fifo_inv (es @ [Sync]) bs s = fifo_inv es bs s"
  "fifo_inv (es @ [Imu m]) bs (imu_cbk m s) = fifo_inv es bs s"
  "fifo_inv (es @ [Scan2 t c]) bs (pcl_cbk2 t c s) = fifo_inv es bs s"
  by (simp_all add: fifo_inv_def imu_cbk_def pcl_cbk2_def Let_def)

lemma fifo_inv_holds:
  assumes "fifo_inv es bs s" "holds False skew tf s h"
  shows "fifo_inv es bs h"
  using assms by (cases "lidar_pushed s") (auto simp: fifo_inv_def holds_def same_last_def scan_in_def)

lemma fifo_inv_closes:
  assumes "fifo_inv es bs h" "held False h" "closes False h s"
  shows "fifo_inv es (bs @ [Measures s]) s"
proof -
  have s: "\<not> lidar_pushed s" "queued (ch1 s) = tl (queued (ch1 h))" "same_last h s"
    "Measures s = (Measures h)\<lparr>meas_imu := meas_imu (Measures s)\<rparr>" using assms(3) by (auto simp: closes_def)
  have "scan_in (Measures s) = scan_in (Measures h)" by (subst s(4)) (simp add: scan_in_def)
  then have "scan_in (Measures s) # queued (ch1 s) = queued (ch1 h)"
    using assms(1,2) s(2) by (simp add: fifo_inv_def held_def) (metis list.collapse)
  then show ?thesis using assms(1) s(1,3) by (simp add: fifo_inv_def same_last_def)
qed

lemma sync_run_fifo:
  assumes "sync_run False skew tf es bs s" "sorted (Num 0 # map fst (scans es))"
  shows "fifo_inv es bs s"
  using assms
proof (induction es bs s rule: sync_run.induct)
  case (start e e2)
  show ?case by (simp add: fifo_inv_def new_buffers_def new_channel_def queued_def)
next
  case (scan es bs s t c)
  have l: "level (ch1 s)" using sync_run_ok [OF scan(1)] by (simp add: run_ok_def sync_ok_def)
  have "sorted (Num 0 # map fst (scans es) @ [t])" using scan(3) by simp
  from sorted_snoc_last(2) [OF this] sorted_snocD [OF this] show ?case
    using scan(2) queued_store [OF l] by (auto simp: fifo_inv_def pcl_cbk_def)
next
  case (waiting es bs s s')
  then have inv: "fifo_inv es bs s" by simp
  have "s' = s \<or> holds False skew tf s s'"
    using sync_step [OF sync_run_ok [OF waiting(1)], of skew tf] waiting(2) by auto
  then show ?case using inv fifo_inv_holds [OF inv] by auto
next
  case (bundled es bs s s')
  then have inv: "fifo_inv es bs s" by simp
  obtain h where h: "holds False skew tf s h" "closes False h s'"
    using sync_step [OF sync_run_ok [OF bundled(1)], of skew tf] bundled(2) by auto
  have "held False h" using h(1) by (simp add: holds_def)
  from fifo_inv_closes [OF fifo_inv_holds [OF inv h(1)] this h(2)] show ?case by simp
qed simp_all

section \<open>The samples of the IMU\<close>

text \<open>A sample is before the end of a scan.\<close>

definition early :: "bool \<Rightarrow> 'i MeasureGroup \<Rightarrow> 'i imu \<Rightarrow> bool" where
  "early multi m x \<longleftrightarrow> (\<exists>e \<in> set (ends multi m). fless (imu_stamp x) e)"

text \<open>A sample is after the end of every scan of the bundle.\<close>

definition late :: "bool \<Rightarrow> 'i MeasureGroup \<Rightarrow> 'i imu \<Rightarrow> bool" where
  "late multi m x \<longleftrightarrow> (\<forall>e \<in> set (ends multi m). fless e (imu_stamp x))"

definition imu_inv :: "bool \<Rightarrow> 'i event list \<Rightarrow> 'i MeasureGroup list \<Rightarrow> 'i buffers \<Rightarrow> bool" where
  "imu_inv multi es bs s \<longleftrightarrow> concat (map meas_imu bs) @ imu_buffer s = imus es \<and>
     last_timestamp_imu s = newest (Num (- 1)) (map imu_stamp (imus es)) \<and>
     (first_lidar_scan_check s \<longleftrightarrow> scans es \<noteq> [] \<or> scans2 es \<noteq> []) \<and>
     (\<forall>m \<in> set bs. (\<forall>x \<in> set (meas_imu m). \<not> late multi m x) \<and> (\<forall>x \<in> set (imu_buffer s). \<not> early multi m x) \<and>
        (\<forall>e \<in> set (ends multi m). \<not> fless (last_timestamp_imu s) e)) \<and>
     sorted_wrt (\<lambda>m m'. \<forall>x \<in> set (meas_imu m'). \<not> early multi m x) bs"

lemma imu_inv_same:
  assumes "imu_inv multi es bs s" "same_imu s s'"
  shows "imu_inv multi (es @ [Sync]) bs s'"
  using assms unfolding imu_inv_def same_imu_def by auto

lemma imu_inv_scan:
  assumes "imu_inv multi es bs s"
  shows "imu_inv multi (es @ [Scan t c]) bs (pcl_cbk t c s)" "imu_inv multi (es @ [Scan2 t c]) bs (pcl_cbk2 t c s)"
  using assms unfolding imu_inv_def by (auto simp: pcl_cbk_def pcl_cbk2_def)

lemma imu_inv_arrives:
  assumes "imu_inv multi es bs s" "sorted (Num (- 1) # map imu_stamp (imus (es @ [Imu m])))"
  shows "imu_inv multi (es @ [Imu m]) bs (imu_cbk m s)"
proof (cases "first_lidar_scan_check s")
  case False
  then show ?thesis using assms by (auto simp: imu_inv_def imu_cbk_def)
next
  case True
  then have i: "imus (es @ [Imu m]) = imus es @ [m]" using assms(1) by (auto simp: imu_inv_def)
  have "sorted (Num (- 1) # map imu_stamp (imus es) @ [imu_stamp m])" using assms(2) i by simp
  note le = sorted_snoc_last [OF this]
  have l: "last_timestamp_imu s = newest (Num (- 1)) (map imu_stamp (imus es))"
    "\<forall>b \<in> set bs. \<forall>e \<in> set (ends multi b). \<not> fless (last_timestamp_imu s) e" using assms(1) by (auto simp: imu_inv_def)
  then have b: "\<forall>b \<in> set bs. \<forall>e \<in> set (ends multi b). \<not> fless (imu_stamp m) e"
    using le(1) by (fastforce simp: fless_iff)
  then have "\<forall>b \<in> set bs. \<not> early multi b m" by (simp add: early_def)
  moreover have "imu_cbk m s = s\<lparr>last_timestamp_imu := imu_stamp m, imu_buffer := imu_buffer s @ [m]\<rparr>"
    using True le(2) l(1) by (simp add: imu_cbk_def)
  ultimately show ?thesis using assms(1) True i b unfolding imu_inv_def by auto
qed

lemma imu_inv_closes:
  assumes "imu_inv multi es bs h" "imu_buffer h \<noteq> []" "closes multi h s" "sorted (Num (- 1) # map imu_stamp (imus es))"
  shows "imu_inv multi (es @ [Sync]) (bs @ [Measures s]) s"
proof -
  have s: "last_timestamp_imu s = last_timestamp_imu h" "first_lidar_scan_check s = first_lidar_scan_check h"
    "\<forall>e \<in> set (ends multi (Measures h)). \<not> fless (last_timestamp_imu h) e"
    and m: "Measures s = (Measures h)\<lparr>meas_imu := meas_imu (Measures s)\<rparr>"
    and o: "hand_over (ends multi (Measures h)) (imu_stamp (hd (imu_buffer h))) (imu_buffer h) = (meas_imu (Measures s), imu_buffer s)"
    using assms(3) by (auto simp: closes_def)
  have e: "ends multi (Measures s) = ends multi (Measures h)" by (subst m) simp
  note H = hand_over_spec [OF o]
  have "sorted (map imu_stamp (concat (map meas_imu bs) @ imu_buffer h))"
    using assms(1,4) by (simp add: imu_inv_def)
  then have "sorted (map imu_stamp (imu_buffer h))" by (simp add: sorted_append)
  then have "sorted (imu_stamp (hd (imu_buffer h)) # map imu_stamp (imu_buffer h))" using assms(2)
    by (cases "imu_buffer h") auto
  from H(3) [OF this] have rest: "\<forall>x \<in> set (imu_buffer s). \<not> early multi (Measures s) x" by (auto simp: early_def e)
  have taken: "\<forall>x \<in> set (meas_imu (Measures s)). \<not> late multi (Measures s) x" using H(2) by (auto simp: late_def e)
  have sub: "set (meas_imu (Measures s)) \<subseteq> set (imu_buffer h)" "set (imu_buffer s) \<subseteq> set (imu_buffer h)"
    using H(1) by (metis set_append Un_upper1, metis set_append Un_upper2)
  show ?thesis using assms(1) s rest taken sub H(1) e
    by (auto simp: imu_inv_def sorted_wrt_append subset_iff)
qed

lemma sync_run_imu:
  assumes "sync_run multi skew tf es bs s" "sorted (Num (- 1) # map imu_stamp (imus es))"
  shows "imu_inv multi es bs s"
  using assms
proof (induction es bs s rule: sync_run.induct)
  case (start e e2)
  show ?case by (simp add: imu_inv_def new_buffers_def)
next
  case (scan es bs s t c)
  then show ?case using imu_inv_scan by simp
next
  case (scan2 es bs s t c)
  then show ?case using imu_inv_scan by simp
next
  case (imu es bs s m)
  have "sorted (Num (- 1) # map imu_stamp (imus es))" using imu(3)
    by (auto simp: sorted_append split: if_splits)
  then show ?case using imu imu_inv_arrives by blast
next
  case (waiting es bs s s')
  then have inv: "imu_inv multi es bs s" by simp
  have "same_imu s s'"
    using sync_step [OF sync_run_ok [OF waiting(1)], of skew tf] waiting(2)
    by (auto simp: holds_def paired_off_def same_imu_def)
  then show ?case by (rule imu_inv_same [OF inv])
next
  case (bundled es bs s s')
  then have inv: "imu_inv multi es bs s" by simp
  obtain h where h: "holds multi skew tf s h" "closes multi h s'"
    using sync_step [OF sync_run_ok [OF bundled(1)], of skew tf] bundled(2) by auto
  have "imu_inv multi es bs h" "imu_buffer h \<noteq> []" using inv h(1) by (auto simp: imu_inv_def holds_def same_imu_def)
  then show ?case using h(2) bundled(4) by (intro imu_inv_closes) simp_all
qed

section \<open>What the invariants say of the bundles\<close>

lemma pairs_arrived:
  assumes "pairs_inv skew tf es bs s"
  shows "\<exists>ps. list_all2 (paired skew tf) ps bs \<and> subseq (map fst ps) (scans es) \<and> subseq (map snd ps) (scans2 es)"
proof -
  have "subseq a d" if "subseq (a @ q) d" for a q d :: "(flt \<times> PointType list) list"
    using subseq_drop_middle [of "[]" q a d] that by simp
  note drop = this
  obtain ps where ps: "list_all2 (paired skew tf) ps bs"
    "if lidar_pushed s then \<exists>x y. paired skew tf (x, y) (Measures s) \<and>
        subseq (map fst ps @ x # tl (queued (ch1 s))) (scans es) \<and> subseq (map snd ps @ y # tl (queued (ch2 s))) (scans2 es)
      else subseq (map fst ps @ queued (ch1 s)) (scans es) \<and> subseq (map snd ps @ queued (ch2 s)) (scans2 es)"
    using assms unfolding pairs_inv_def by blast
  then have "subseq (map fst ps) (scans es) \<and> subseq (map snd ps) (scans2 es)"
    using drop by (metis (no_types, lifting))
  with ps(1) show ?thesis by blast
qed

text \<open>A stamp that goes back while a scan is held.\<close>

lemma loop_back_loses:
  assumes "lidar_pushed s" "fless t (last_timestamp_lidar (ch1 s))"
    "sync_packages False skew tf (pcl_cbk t c s) = Inr (True, s')"
  shows "queued (ch1 s') = [] \<and> meas_lidar (Measures s') = meas_lidar (Measures s) \<and>
    lidar_beg_time (Measures s') = lidar_beg_time (Measures s)"
proof -
  obtain m ms where m: "imu_buffer s = m # ms"
    using assms(3) by (cases "imu_buffer s") (auto simp: sync_packages_def sync_single_def pcl_cbk_def)
  obtain tk rs where h: "hand_over [lidar_end_time (ch1 s)] (imu_stamp m) (m # ms) = (tk, rs)" by fastforce
  have "s\<lparr>first_lidar_scan_check := True, Measures := (Measures s)\<lparr>meas_imu := tk\<rparr>, imu_buffer := rs,
      ch1 := (ch1 s)\<lparr>last_timestamp_lidar := t, lidar_buffer := [], time_buffer := []\<rparr>, lidar_pushed := False\<rparr> = s'" (is "?s = s'")
    using assms by (simp add: sync_packages_def sync_single_def finish_single_def take_imu_def pcl_cbk_def store_scan_def
        Let_def pop_scan_def m h del: hand_over.simps split: if_splits)
  then have "s' = ?s" by (rule sym)
  then show ?thesis by (simp add: queued_def)
qed

end
