(* ===== verification/Lio_Loop.thy ===== *)
theory Lio_Loop
  imports Lio_Filter Lio_Undistort Lio_Bundles
begin

text \<open>
  The main loop of \<open>laserMapping_bundle.cpp\<close>, which puts the parts together: a bundle is compensated,
  the map is moved, the scan is thinned, matched against the map in the iterations of the filter, and
  added to the map. The node as a whole is a state machine of callbacks and rounds of the loop.
\<close>

section \<open>State and parameters\<close>

record ('i, 'n) odometry =
  buffers_of :: "'i buffers"
  p_imu :: "'i ImuProcess"
  numbers :: 'n
  feats_undistort :: "PointType list"
  map_of_node :: mapper
  arrays :: matches

text \<open>What the node takes from elsewhere: \<open>std::nth_element\<close> and \<open>std::sort\<close>, the voxel filter and the
  transform of PCL, the linear algebra, with the state and covariance of the filter within the numeric
  state; and the configuration.\<close>

record ('i, 'n, 'q, 'x, 'p, 'd) node =
  nth_of :: "lidar_data nth_fn"
  sort_of :: "PointType list \<Rightarrow> PointType list"
  voxel_filter :: "PointType list \<Rightarrow> PointType list"
  second_to_first :: "PointType list \<Rightarrow> PointType list"
  motion_of :: "('n, 'i, 'q) motion"
  filter_part :: "'n \<Rightarrow> 'x \<times> 'p"
  with_filter :: "'x \<times> 'p \<Rightarrow> 'n \<Rightarrow> 'n"
  eigen_at :: "'x \<Rightarrow> eigen"
  pos_lid :: "'x \<Rightarrow> V3D"
  algebra_of :: "('x, 'p, effect \<times> flt, 'd) algebra"
  heap_default :: "lidar_data PointType_CMP"
  multi_lidar :: bool
  max_pair_skew :: flt
  cube_len :: flt
  DET_RANGE :: flt
  filter_size_surf :: flt
  NUM_MAX_ITERATIONS :: int
  epsi :: "flt list"

section \<open>One round\<close>

text \<open>The part behind the test of \<open>feats_undistort\<close> and the move of the map, for the thinned scan.\<close>

definition build_map :: "('i, 'n, 'q, 'x, 'p, 'd) node \<Rightarrow> PointType list \<Rightarrow> ('i, 'n) odometry \<Rightarrow> ('i, 'n) odometry" where
  "build_map N down s =
     (let world = map2 (pointBodyToWorld (to_world (eigen_at N (fst (filter_part N (numbers s)))))) down
            (resize (length down) default_point (feats_down_world (arrays s)))
      in s\<lparr>arrays := (arrays s)\<lparr>feats_down_world := world\<rparr>,
           map_of_node := (map_of_node s)\<lparr>ikdtree := Build (nth_of N) world (ikdtree (map_of_node s))\<rparr>\<rparr>)"

definition update_map :: "('i, 'n, 'q, 'x, 'p, 'd) node \<Rightarrow> PointType list \<Rightarrow> ('i, 'n) odometry \<Rightarrow> stop + ('i, 'n) odometry" where
  "update_map N down s =
     and_so (update_iterated (algebra_of N) (epsi N) (measured (heap_default N) (eigen_at N) down) (NUM_MAX_ITERATIONS N)
         (filter_part N (numbers s)) (resize_matches (length down) (arrays s), ikdtree (map_of_node s)))
       (\<lambda>(returned, it, a, k).
     and_so (map_incremental (nth_of N) (to_world (eigen_at N (it_x it))) (filter_size_surf N) down
         (feats_down_world a) (Nearest_Points a) k) (\<lambda>(world, k).
     Inr (s\<lparr>numbers := with_filter N (it_x it, it_P it) (numbers s), arrays := a\<lparr>feats_down_world := world\<rparr>,
            map_of_node := (map_of_node s)\<lparr>ikdtree := k\<rparr>\<rparr>)))"

definition map_scan :: "('i, 'n, 'q, 'x, 'p, 'd) node \<Rightarrow> PointType list \<Rightarrow> ('i, 'n) odometry \<Rightarrow> stop + ('i, 'n) odometry" where
  "map_scan N down s =
     (if Root_Node (ikdtree (map_of_node s)) = Null
      then Inr (if 5 < length down then build_map N down s else s)
      else if length down < 5 then Inr s else update_map N down s)"

definition move_map :: "('i, 'n, 'q, 'x, 'p, 'd) node \<Rightarrow> ('i, 'n) odometry \<Rightarrow> stop + ('i, 'n) odometry" where
  "move_map N s =
     and_so (lasermap_fov_segment (nth_of N) (cube_len N) (DET_RANGE N)
         (pos_lid N (fst (filter_part N (numbers s)))) (map_of_node s)) (\<lambda>m. Inr (s\<lparr>map_of_node := m\<rparr>))"

definition after_process :: "('i, 'n, 'q, 'x, 'p, 'd) node \<Rightarrow> ('i, 'n) odometry \<Rightarrow> stop + ('i, 'n) odometry" where
  "after_process N s =
     (if feats_undistort s = [] then Inr s
      else and_so (move_map N s) (map_scan N (voxel_filter N (feats_undistort s))))"

text \<open>\<open>Process\<close> on the bundle, for both sensors at once or for one of them.\<close>

definition process_bundle :: "('i, 'n, 'q, 'x, 'p, 'd) node \<Rightarrow> bool \<Rightarrow> nat \<Rightarrow> ('i, 'n) odometry \<Rightarrow> ('i, 'n) odometry" where
  "process_bundle N both lidar_num s =
     (case Process (motion_of N) (sort_of N) both lidar_num (Measures (buffers_of s)) (p_imu s) (numbers s)
             (feats_undistort s) of
        (p, n, cloud) \<Rightarrow> s\<lparr>p_imu := p, numbers := n, feats_undistort := cloud\<rparr>)"

definition lio_round :: "('i, 'n, 'q, 'x, 'p, 'd) node \<Rightarrow> ('i, 'n) odometry \<Rightarrow> stop + ('i, 'n) odometry" where
  "lio_round N s =
     and_so (faulty (sync_packages (multi_lidar N) (max_pair_skew N) (second_to_first N) (buffers_of s))) (\<lambda>(b, bufs).
       if b then after_process N (process_bundle N (multi_lidar N) 1 (s\<lparr>buffers_of := bufs\<rparr>)) else Inr (s\<lparr>buffers_of := bufs\<rparr>))"

section \<open>The node\<close>

text \<open>The state before the loop: junk in \<open>last_lidar_end_time_\<close> and in the end times of the first bundle,
  any numbers, an empty tree with the parameters of its constructor and \<open>set_downsample_param\<close>, whose own
  argument is a float.\<close>

definition new_odometry :: "('i, 'n, 'q, 'x, 'p, 'd) node \<Rightarrow> flt \<Rightarrow> flt \<Rightarrow> flt \<Rightarrow> flt \<Rightarrow> 'i imu \<Rightarrow> 'n \<Rightarrow> ('i, 'n) odometry" where
  "new_odometry N e e2 junk r default_imu n =
     \<lparr>buffers_of = new_buffers e e2, p_imu = new_ImuProcess junk default_imu, numbers = n, feats_undistort = [],
      map_of_node = \<lparr>ikdtree = set_downsample_param (fconv b32 (filter_size_surf N))
           (KD_TREE (Num (1 / 2)) (fround b32 (3 / 5)) (fround b32 (1 / 5))),
         LocalMap_Points = \<lparr>box_x = (Num 0, Num 0), box_y = (Num 0, Num 0), box_z = (Num 0, Num 0)\<rparr>,
         Localmap_Initialized = False\<rparr>,
      arrays = initial_matches r\<rparr>"

inductive lio_run :: "('i, 'n, 'q, 'x, 'p, 'd) node \<Rightarrow> 'i event list \<Rightarrow> ('i, 'n) odometry \<Rightarrow> bool" for N where
  start: "lio_run N [] (new_odometry N e e2 junk r default_imu n)"
| scan: "lio_run N es s \<Longrightarrow> lio_run N (es @ [Scan t c]) (s\<lparr>buffers_of := pcl_cbk t c (buffers_of s)\<rparr>)"
| scan2: "lio_run N es s \<Longrightarrow> lio_run N (es @ [Scan2 t c]) (s\<lparr>buffers_of := pcl_cbk2 t c (buffers_of s)\<rparr>)"
| imu: "lio_run N es s \<Longrightarrow> lio_run N (es @ [Imu m]) (s\<lparr>buffers_of := imu_cbk m (buffers_of s)\<rparr>)"
| round: "lio_run N es s \<Longrightarrow> lio_round N s = Inr s' \<Longrightarrow> lio_run N (es @ [Sync]) s'"

section \<open>The map through an update\<close>

text \<open>A measurement that keeps a property keeps it through all iterations.\<close>

lemma iterations_keep:
  assumes "\<And>c x w v w'. Q w \<Longrightarrow> h c x w = Inr (v, w') \<Longrightarrow> Q w'" and "Q w"
    and "iterations A limit h n prop is s w = Inr (d, s', w')"
  shows "Q w'"
  using assms(2,3)
proof (induction "is" arbitrary: s w)
  case (Cons i "is")
  obtain v w1 where h: "h (it_converge s) (it_x s) w = Inr (v, w1)" "Q w1"
    using assms(1) Cons.prems by (auto simp: and_so_Inr)
  show ?case using Cons.IH [OF h(2)] Cons.prems h
    by (cases v) (auto simp: Let_def split: if_splits)
qed simp

text \<open>What the searches keep of the tree.\<close>

definition same_map :: "lidar_data ikd \<Rightarrow> lidar_data ikd \<Rightarrow> bool" where
  "same_map k k' \<longleftrightarrow> ikd_ok k' \<and> points k' = points k \<and> stock k' = stock k \<and>
     (Root_Node k' = Null \<longleftrightarrow> Root_Node k = Null)"

lemma same_map_trans: "same_map k k1 \<Longrightarrow> same_map k1 k2 \<Longrightarrow> same_map k k2"
  by (simp add: same_map_def)

lemma nearest_points_same:
  assumes "ikd_ok k" "nearest_points d p n max_dist k = Inr (pts, ds, k')"
  shows "same_map k k'"
proof -
  obtain t q where s: "Search n p max_dist (Root_Node k) (MANUAL_HEAP d (2 * n)) = Inr (t, q)"
    "k' = k\<lparr>Root_Node := t\<rparr>"
    using assms(2) by (auto simp: nearest_points_def guarded_Inr and_so_Inr faulty_def Nearest_Search_def
        bind_ub_Inr_iff split: sum.splits)
  have "content t = content (Root_Node k)" using search_keeps [OF s(1) assms(1) [unfolded ikd_ok_def]] by blast
  then have "t = Null \<longleftrightarrow> Root_Node k = Null" by (metis content_Nil)
  then show ?thesis using nearest_points_keeps [OF assms] s(2) by (simp add: same_map_def)
qed

lemma match_point_same:
  assumes "match_point d E c body i (s, k) = Inr (s', k')" "ikd_ok k"
  shows "same_map k k'"
proof -
  obtain s1 s2 where "(if c then search_point d i s1 k else Inr (s1, k)) = Inr (s2, k')"
    using assms(1) by (fastforce simp: match_point_def Let_def and_so_Inr split: if_splits)
  then show ?thesis using nearest_points_same [OF assms(2)] assms(2)
    by (auto simp: search_point_def and_so_Inr same_map_def split: if_splits)
qed

lemma match_all_same:
  assumes "match_all d E c body is (s, k) = Inr (s', k')" "ikd_ok k"
  shows "same_map k k'"
  using assms
proof (induction "is" arbitrary: s k)
  case Nil
  then show ?case by (simp add: same_map_def)
next
  case (Cons i "is")
  obtain s1 k1 where 1: "match_point d E c body i (s, k) = Inr (s1, k1)" "match_all d E c body is (s1, k1) = Inr (s', k')"
    using Cons.prems(1) by (auto simp: and_so_Inr)
  note m = match_point_same [OF 1(1) Cons.prems(2)]
  then have "ikd_ok k1" by (simp add: same_map_def)
  from same_map_trans [OF m Cons.IH [OF 1(2) this]] show ?case .
qed

lemma update_same:
  assumes "update_iterated A limit (measured d ea body) n prop (s, k) = Inr (b, it, s', k')" "ikd_ok k"
  shows "same_map k k'"
proof -
  let ?Q = "\<lambda>(s :: matches, k'). same_map k k'"
  have step: "?Q w'" if "?Q w" "measured d ea body c x w = Inr (v, w')" for c x w v w'
  proof -
    obtain s1 k1 s2 k2 where w: "w = (s1, k1)" "w' = (s2, k2)" by (metis prod.exhaust)
    then have "match_all d (ea x) c body [0..<length body] (s1, k1) = Inr (s2, k2)"
      using that(2) by (auto simp: measured_def h_share_model_def and_so_Inr Let_def)
    from match_all_same [OF this] that(1) show ?thesis using same_map_trans by (auto simp: w same_map_def)
  qed
  have "?Q (s', k')"
    by (rule iterations_keep [where Q = ?Q, OF step _ assms(1) [unfolded update_iterated_def]])
      (use assms(2) in \<open>simp_all add: same_map_def\<close>)
  then show ?thesis by simp
qed

section \<open>The node keeps its map\<close>

text \<open>The transform of the estimate gives coordinates in the range of a float.\<close>

definition bounded_poses :: "('i, 'n, 'q, 'x, 'p, 'd) node \<Rightarrow> bool" where
  "bounded_poses N \<longleftrightarrow> (\<forall>x p q. finite_point (pointBodyToWorld (to_world (eigen_at N x)) p q))"

definition tree_of :: "('i, 'n) odometry \<Rightarrow> lidar_data ikd" where
  "tree_of s = ikdtree (map_of_node s)"

lemma map_scan_ok:
  assumes "selection (nth_of N)" "bounded_poses N" "ikd_ok (tree_of s)" "map_scan N down s = Inr s'"
  shows "ikd_ok (tree_of s') \<and> buffers_of s' = buffers_of s"
proof -
  have fin: "\<forall>p \<in> set (map2 (pointBodyToWorld (to_world (eigen_at N x))) down world). finite_point p" for x world
    using assms(2) by (auto simp: bounded_poses_def)
  consider "s' = s" | "s' = build_map N down s"
    | "Root_Node (tree_of s) \<noteq> Null" "update_map N down s = Inr s'"
  proof (cases "Root_Node (tree_of s) = Null")
    case True
    then have "s' = (if 5 < length down then build_map N down s else s)"
      using assms(4) by (simp add: map_scan_def tree_of_def)
    then show thesis using that(1,2) by presburger
  next
    case False
    then have "(if length down < 5 then Inr s else update_map N down s) = Inr s'"
      using assms(4) by (simp add: map_scan_def tree_of_def)
    then show thesis using that(1,3) False by (cases "length down < 5") simp_all
  qed
  then show ?thesis
  proof cases
    case 1
    then show ?thesis using assms(3) by simp
  next
    case 2
    then show ?thesis using selection.build_ok(1) [OF assms(1) fin] by (simp add: build_map_def tree_of_def Let_def)
  next
    case 3
    then obtain b it a k world k' where u: "update_iterated (algebra_of N) (epsi N) (measured (heap_default N) (eigen_at N) down)
        (NUM_MAX_ITERATIONS N) (filter_part N (numbers s)) (resize_matches (length down) (arrays s), tree_of s) = Inr (b, it, a, k)"
      "map_incremental (nth_of N) (to_world (eigen_at N (it_x it))) (filter_size_surf N) down
         (feats_down_world a) (Nearest_Points a) k = Inr (world, k')"
      "tree_of s' = k'" "buffers_of s' = buffers_of s"
      by (auto simp: update_map_def and_so_Inr tree_of_def)
    have "ikd_ok k" "Root_Node k \<noteq> Null" using update_same [OF u(1) assms(3)] 3(1) by (simp_all add: same_map_def)
    from map_incremental_spec(2) [OF assms(1) this fin u(2)] show ?thesis using u(3,4) by simp
  qed
qed

lemma process_bundle_frame [simp]:
  "map_of_node (process_bundle N both num s) = map_of_node s" "buffers_of (process_bundle N both num s) = buffers_of s"
  "arrays (process_bundle N both num s) = arrays s" "tree_of (process_bundle N both num s) = tree_of s"
  by (simp_all add: process_bundle_def tree_of_def split: prod.splits)

lemma lio_round_Inr:
  assumes "lio_round N s = Inr s'"
  obtains b bufs where "sync_packages (multi_lidar N) (max_pair_skew N) (second_to_first N) (buffers_of s) = Inr (b, bufs)"
    "if b then after_process N (process_bundle N (multi_lidar N) 1 (s\<lparr>buffers_of := bufs\<rparr>)) = Inr s' else s' = s\<lparr>buffers_of := bufs\<rparr>"
  using assms that by (fastforce simp: lio_round_def and_so_Inr faulty_def split: sum.splits if_splits)

lemma after_process_ok:
  assumes "selection (nth_of N)" "bounded_poses N" "ikd_ok (tree_of s)" "after_process N s = Inr s'"
  shows "ikd_ok (tree_of s') \<and> buffers_of s' = buffers_of s"
proof (cases "feats_undistort s = []")
  case True
  then show ?thesis using assms(3,4) by (simp add: after_process_def)
next
  case False
  then obtain m where m: "lasermap_fov_segment (nth_of N) (cube_len N) (DET_RANGE N)
      (pos_lid N (fst (filter_part N (numbers s)))) (map_of_node s) = Inr m"
    "map_scan N (voxel_filter N (feats_undistort s)) (s\<lparr>map_of_node := m\<rparr>) = Inr s'"
    using assms(4) by (auto simp: after_process_def move_map_def and_so_Inr)
  have "ikd_ok (tree_of (s\<lparr>map_of_node := m\<rparr>))"
    using fov_segment_spec(1) [OF assms(1) _ m(1)] assms(3) by (simp add: tree_of_def)
  from map_scan_ok [OF assms(1,2) this m(2)] show ?thesis by simp
qed

text \<open>A run of the node: its buffers go through a run of the synchroniser, so that what is shown of those
  holds of the node, and its tree stays well formed.\<close>

lemma lio_run_ok:
  assumes "lio_run N es s" "selection (nth_of N)" "bounded_poses N"
  shows "ikd_ok (tree_of s) \<and>
    (\<exists>bs. sync_run (multi_lidar N) (max_pair_skew N) (second_to_first N) es bs (buffers_of s))"
  using assms(1)
proof (induction rule: lio_run.induct)
  case (start e e2 junk r default_imu n)
  have "ikd_ok (tree_of (new_odometry N e e2 junk r default_imu n))"
    by (simp add: new_odometry_def tree_of_def ikd_ok_def set_downsample_param_def KD_TREE_def)
  then show ?case using sync_run.start [of _ _ _ e e2] by (auto simp: new_odometry_def)
next
  case (scan es s t c)
  then show ?case using sync_run.scan by (fastforce simp: tree_of_def)
next
  case (scan2 es s t c)
  then show ?case using sync_run.scan2 by (fastforce simp: tree_of_def)
next
  case (imu es s m)
  then show ?case using sync_run.imu by (fastforce simp: tree_of_def)
next
  case (round es s s')
  obtain bs where bs: "sync_run (multi_lidar N) (max_pair_skew N) (second_to_first N) es bs (buffers_of s)"
    using round.IH by blast
  obtain b bufs where r: "sync_packages (multi_lidar N) (max_pair_skew N) (second_to_first N) (buffers_of s) = Inr (b, bufs)"
    "if b then after_process N (process_bundle N (multi_lidar N) 1 (s\<lparr>buffers_of := bufs\<rparr>)) = Inr s' else s' = s\<lparr>buffers_of := bufs\<rparr>"
    using lio_round_Inr [OF round.hyps(2)] by blast
  have "ikd_ok (tree_of (process_bundle N (multi_lidar N) 1 (s\<lparr>buffers_of := bufs\<rparr>)))" using round.IH by (simp add: tree_of_def)
  then have k: "ikd_ok (tree_of s') \<and> buffers_of s' = bufs"
    using after_process_ok [OF assms(2,3)] r(2) round.IH by (cases b) (fastforce simp: tree_of_def)+
  show ?case
  proof (cases b)
    case True
    then show ?thesis using sync_run.bundled [OF bs] r(1) k by metis
  next
    case False
    then show ?thesis using sync_run.waiting [OF bs] r(1) k by metis
  qed
qed

section \<open>Where a round can stop\<close>

context selection
begin

lemma delete_boxes_small:
  assumes "ikd_ok k" "Delete_Point_Boxes nth_element bs k = Inr (c, k')" "small_tree 0 k"
  shows "small_tree 0 k'"
  using assms
proof (induction bs arbitrary: k c)
  case (Cons b bs)
  obtain c1 k1 where d: "delete_box nth_element False b k = (c1, k1)" by fastforce
  obtain c2 where r: "Delete_Point_Boxes nth_element bs k1 = Inr (c2, k')"
    using Cons.prems(2) by (auto simp: guarded_Inr d and_so_Inr split: prod.splits)
  note S = delete_box_spec [OF Cons.prems(1) d]
  show ?case using Cons.IH [OF S(1) r] quiet_small [OF S(5), of 0] Cons.prems(3) by simp
qed simp

end

lemma fov_segment_returns:
  assumes sel: "selection nth_element" and k: "ikd_ok (ikdtree m)" "small_tree 0 (ikdtree m)"
  shows "\<exists>m'. lasermap_fov_segment nth_element len det pos m = Inr m' \<and> small_tree 0 (ikdtree m')"
proof -
  obtain px py pz where pos: "pos = (px, py, pz)" by (cases pos)
  obtain nb bs where s: "slide_box (move_limit det) (move_distance len det) (px, py, pz) (LocalMap_Points m) = (nb, bs)" by fastforce
  obtain c k' where d: "Delete_Point_Boxes nth_element bs (ikdtree m) = Inr (c, k')"
    using selection.Delete_Point_Boxes_returns [OF sel k] by blast
  have "small_tree 0 k'" by (rule selection.delete_boxes_small [OF sel k(1) d k(2)])
  then show ?thesis using k(2) d by (simp add: lasermap_fov_segment_def pos s Let_def)
qed

lemma and_so_Inl: "and_so m f = Inl e \<longleftrightarrow> m = Inl e \<or> (\<exists>x. m = Inr x \<and> f x = Inl e)"
  by (cases m) simp_all

definition arrays_ok :: "matches \<Rightarrow> bool" where
  "arrays_ok a \<longleftrightarrow> length (point_selected_surf a) = MAX_POINTS \<and> length (res_last a) = MAX_POINTS"

lemma fit_point_arrays:
  assumes "fit_point E body i s = Inr s'"
  shows "arrays_ok s' = arrays_ok s"
proof (cases "point_selected_surf s ! i")
  case True
  let ?s = "s\<lparr>point_selected_surf := (point_selected_surf s)[i := False]\<rparr>"
  obtain r where r: "esti_plane (plane_of E) (Nearest_Points s ! i) plane_threshold = Inr r"
    using assms True by (cases "esti_plane (plane_of E) (Nearest_Points s ! i) plane_threshold") (simp_all add: fit_point_def)
  show ?thesis
  proof (cases r)
    case None
    then have "s' = ?s" using assms True r by (simp add: fit_point_def)
    then show ?thesis by (simp add: arrays_ok_def)
  next
    case (Some q)
    obtain a b c e where q: "q = (a, b, c, e)" by (metis prod_cases4)
    show ?thesis using assms True unfolding fit_point_def arrays_ok_def
      by (cases "fless (fround b64 (9 / 10)) (score E (body ! i) (plane_value (a, b, c, e) (feats_down_world s ! i)))")
        (auto simp: r Some q Let_def)
  qed
next
  case False
  then show ?thesis using assms by (simp add: fit_point_def)
qed

lemma match_all_arrays:
  assumes "match_all d E c body is (s, k) = Inr (s', k')"
  shows "arrays_ok s' = arrays_ok s"
  using assms
proof (induction "is" arbitrary: s k)
  case (Cons i "is")
  obtain s1 k1 where 1: "match_point d E c body i (s, k) = Inr (s1, k1)" "match_all d E c body is (s1, k1) = Inr (s', k')"
    using Cons.prems by (auto simp: and_so_Inr)
  obtain a b where "(if c then search_point d i a k else Inr (a, k)) = Inr (b, k1)" "fit_point E body i b = Inr s1"
    "arrays_ok a = arrays_ok s"
    using 1(1) by (fastforce simp: match_point_def Let_def and_so_Inr faulty_def arrays_ok_def split: if_splits sum.splits)
  then have "arrays_ok s1 = arrays_ok s"
    using fit_point_arrays by (auto simp: search_point_def and_so_Inr arrays_ok_def split: if_splits)
  then show ?case using Cons.IH [OF 1(2)] by simp
qed simp

lemma update_arrays:
  assumes "update_iterated A limit (measured d ea body) n prop (s, k) = Inr (b, it, s', k')"
  shows "arrays_ok s \<Longrightarrow> arrays_ok s'"
proof -
  let ?Q = "\<lambda>(s, k :: lidar_data ikd). arrays_ok s"
  have step: "?Q w'" if "?Q w" "measured d ea body c x w = Inr (v, w')" for c x w v w'
    using that match_all_arrays by (cases w) (auto simp: measured_def h_share_model_def and_so_Inr Let_def)
  assume "arrays_ok s"
  then have "?Q (s', k')"
    by (intro iterations_keep [where Q = ?Q, OF step _ assms [unfolded update_iterated_def]]) simp_all
  then show "arrays_ok s'" by simp
qed

lemma map_scan_arrays:
  assumes "map_scan N down s = Inr s'" "arrays_ok (arrays s)"
  shows "arrays_ok (arrays s')"
proof (cases "Root_Node (tree_of s) = Null \<or> length down < 5")
  case True
  then have "s' = s \<or> s' = build_map N down s"
    using assms(1) by (cases "5 < length down") (auto simp: map_scan_def tree_of_def split: if_splits)
  then show ?thesis using assms(2) by (auto simp: build_map_def Let_def arrays_ok_def)
next
  case False
  then have "update_map N down s = Inr s'" using assms(1) by (simp add: map_scan_def tree_of_def)
  then obtain b it a k world where u: "update_iterated (algebra_of N) (epsi N) (measured (heap_default N) (eigen_at N) down)
      (NUM_MAX_ITERATIONS N) (filter_part N (numbers s)) (resize_matches (length down) (arrays s), tree_of s) = Inr (b, it, a, k)"
    "arrays s' = a\<lparr>feats_down_world := world\<rparr>"
    by (auto simp: update_map_def and_so_Inr tree_of_def)
  have "arrays_ok (resize_matches (length down) (arrays s))"
    using assms(2) by (simp add: arrays_ok_def resize_matches_def)
  from update_arrays [OF u(1) this] show ?thesis using u(2) by (simp add: arrays_ok_def)
qed

lemma lio_run_arrays: "lio_run N es s \<Longrightarrow> arrays_ok (arrays s)"
proof (induction rule: lio_run.induct)
  case (start e e2 junk r default_imu n)
  show ?case by (simp add: new_odometry_def initial_matches_def arrays_ok_def)
next
  case (round es s s')
  obtain b bufs where r: "sync_packages (multi_lidar N) (max_pair_skew N) (second_to_first N) (buffers_of s) = Inr (b, bufs)"
    "if b then after_process N (process_bundle N (multi_lidar N) 1 (s\<lparr>buffers_of := bufs\<rparr>)) = Inr s' else s' = s\<lparr>buffers_of := bufs\<rparr>"
    using lio_round_Inr [OF round.hyps(2)] by blast
  show ?case
  proof (cases b)
    case True
    let ?s = "process_bundle N (multi_lidar N) 1 (s\<lparr>buffers_of := bufs\<rparr>)"
    have a: "after_process N ?s = Inr s'" using True r(2) by simp
    have "arrays s' = arrays ?s \<or> (\<exists>m. map_scan N (voxel_filter N (feats_undistort ?s)) (?s\<lparr>map_of_node := m\<rparr>) = Inr s')"
      using a by (cases "feats_undistort ?s = []") (auto simp: after_process_def move_map_def and_so_Inr)
    then show ?thesis using map_scan_arrays round.IH by fastforce
  next
    case False
    then show ?thesis using r(2) round.IH by simp
  qed
qed simp_all

text \<open>With a scan of at most 100000 points after thinning and a tree below the size of the background
  rebuild, nothing but adding the scan to the map can stop a round: no read out of range happens in the
  buffers, the matching or the iterations, whatever the data.\<close>

lemma map_scan_stops:
  assumes "map_scan N down s = Inl e" "length down \<le> MAX_POINTS" "arrays_ok (arrays s)" "Rebuild_Ptr (tree_of s) = None"
    "ikd_ok (tree_of s)"
  shows "\<exists>T world near_pts k. map_incremental (nth_of N) T (filter_size_surf N) down world near_pts k = Inl e \<and>
    points k = points (tree_of s) \<and> ikd_ok k \<and> Root_Node k \<noteq> Null"
proof -
  have r: "Root_Node (tree_of s) \<noteq> Null" "update_map N down s = Inl e"
    using assms(1) by (cases "Root_Node (tree_of s) = Null"; cases "length down < 5"; simp add: map_scan_def tree_of_def)+
  have "sized (length down) (resize_matches (length down) (arrays s))"
    using assms(3) by (simp add: arrays_ok_def resize_sized)
  then obtain b it a k where u: "update_iterated (algebra_of N) (epsi N) (measured (heap_default N) (eigen_at N) down)
      (NUM_MAX_ITERATIONS N) (filter_part N (numbers s)) (resize_matches (length down) (arrays s), tree_of s) = Inr (b, it, a, k)"
    using update_returns [OF assms(2) _ assms(4)] by blast
  have "map_incremental (nth_of N) (to_world (eigen_at N (it_x it))) (filter_size_surf N) down
         (feats_down_world a) (Nearest_Points a) k = Inl e"
    using r(2) u by (auto simp: update_map_def tree_of_def and_so_Inl)
  then show ?thesis using update_same [OF u assms(5)] r(1) by (auto simp: same_map_def)
qed

lemma round_stops:
  assumes "lio_run N es s" "selection (nth_of N)" "bounded_poses N" "\<And>c. length (voxel_filter N c) \<le> MAX_POINTS"
    and "small_tree 0 (tree_of s)" "lio_round N s = Inl e"
  shows "\<exists>T fs body world near_pts k. map_incremental (nth_of N) T fs body world near_pts k = Inl e \<and>
    ikd_ok k \<and> Root_Node k \<noteq> Null"
proof -
  obtain bs where bs: "sync_run (multi_lidar N) (max_pair_skew N) (second_to_first N) es bs (buffers_of s)"
    and k: "ikd_ok (tree_of s)" using lio_run_ok [OF assms(1-3)] by blast
  obtain b bufs where r: "sync_packages (multi_lidar N) (max_pair_skew N) (second_to_first N) (buffers_of s) = Inr (b, bufs)"
    using sync_succeeds [OF bs] by blast
  let ?s = "process_bundle N (multi_lidar N) 1 (s\<lparr>buffers_of := bufs\<rparr>)"
  have a: "after_process N ?s = Inl e"
    using assms(6) r by (cases b) (simp_all add: lio_round_def faulty_def)
  have m: "map_of_node ?s = map_of_node s" "arrays ?s = arrays s" by simp_all
  have k1: "ikd_ok (ikdtree (map_of_node ?s))" "small_tree 0 (ikdtree (map_of_node ?s))"
    using k assms(5) by (simp_all add: tree_of_def)
  obtain m' where m': "lasermap_fov_segment (nth_of N) (cube_len N) (DET_RANGE N)
      (pos_lid N (fst (filter_part N (numbers ?s)))) (map_of_node ?s) = Inr m'" "small_tree 0 (ikdtree m')"
    using fov_segment_returns [OF assms(2), of "map_of_node ?s"] k1
    by blast
  have "map_scan N (voxel_filter N (feats_undistort ?s)) (?s\<lparr>map_of_node := m'\<rparr>) = Inl e"
    using a m'(1) by (cases "feats_undistort ?s = []") (simp_all add: after_process_def move_map_def)
  from map_scan_stops [OF this assms(4)] show ?thesis
    using lio_run_arrays [OF assms(1)] m'(2) fov_segment_spec(1) [OF assms(2) _ m'(1)] k
    by (fastforce simp: tree_of_def small_tree_def)
qed

section \<open>A scan that is repeated\<close>

lemma stale_cloud:
  assumes "sorts_by_time (sort_of N)" "no_nan (meas_lidar (Measures (buffers_of s)))" "no_nan (meas_lidar2 (Measures (buffers_of s)))"
    and "meas_imu (Measures (buffers_of s)) = [] \<or> imu_need_init (p_imu s) \<or>
      both \<and> (meas_lidar (Measures (buffers_of s)) = [] \<or> meas_lidar2 (Measures (buffers_of s)) = [])"
  shows "feats_undistort (process_bundle N both num s) = feats_undistort s"
proof -
  let ?m = "Measures (buffers_of s)"
  have "snd (snd (Process (motion_of N) (sort_of N) both num ?m (p_imu s) (numbers s) (feats_undistort s))) = feats_undistort s"
  proof (cases "meas_imu ?m = [] \<or> imu_need_init (p_imu s)")
    case True
    then show ?thesis
    proof
      assume "meas_imu ?m = []"
      then show ?thesis by (simp only: Process_stale(1) snd_conv)
    next
      assume "imu_need_init (p_imu s)"
      then show ?thesis by (rule Process_stale(2))
    qed
  next
    case False
    obtain x poses p where f: "forward (motion_of N) (bundle_beg both num ?m) (bundle_end both num ?m) (meas_imu ?m)
        (p_imu s) (numbers s) = (x, poses, p)" by (metis prod_cases3)
    then show ?thesis using Process_reference [OF assms(1-3) _ _ f] False assms(4) by simp
  qed
  then show ?thesis by (auto simp: process_bundle_def split: prod.splits)
qed

end
