(* ===== verification/Lio_Samples.thy ===== *)
theory Lio_Samples
  imports Lio_Loop Ikd_Samples
begin

text \<open>
  Concrete runs of the scan synchroniser, messages of the sensors and maps, for the witnesses.
\<close>

section \<open>Runs\<close>

text \<open>The events one after the other, with the bundles they give.\<close>

fun exec :: "bool \<Rightarrow> flt \<Rightarrow> (PointType list \<Rightarrow> PointType list) \<Rightarrow> 'i event list \<Rightarrow> 'i buffers \<Rightarrow>
    ub + 'i MeasureGroup list \<times> 'i buffers" where
  "exec multi skew tf [] s = Inr ([], s)"
| "exec multi skew tf (Scan t c # es) s = exec multi skew tf es (pcl_cbk t c s)"
| "exec multi skew tf (Scan2 t c # es) s = exec multi skew tf es (pcl_cbk2 t c s)"
| "exec multi skew tf (Imu m # es) s = exec multi skew tf es (imu_cbk m s)"
| "exec multi skew tf (Sync # es) s = bind_ub (sync_packages multi skew tf s) (\<lambda>(b, s).
     bind_ub (exec multi skew tf es s) (\<lambda>(bs, s'). Inr (if b then Measures s # bs else bs, s')))"

lemma exec_run:
  assumes "sync_run multi skew tf es bs s" "exec multi skew tf es' s = Inr (bs', s')"
  shows "sync_run multi skew tf (es @ es') (bs @ bs') s'"
  using assms
proof (induction es' arbitrary: es bs s bs')
  case (Cons e es')
  show ?case
  proof (cases e)
    case (Scan t c)
    then show ?thesis using Cons.IH [OF sync_run.scan [OF Cons.prems(1)]] Cons.prems(2) by simp
  next
    case (Scan2 t c)
    then show ?thesis using Cons.IH [OF sync_run.scan2 [OF Cons.prems(1)]] Cons.prems(2) by simp
  next
    case (Imu m)
    then show ?thesis using Cons.IH [OF sync_run.imu [OF Cons.prems(1)]] Cons.prems(2) by simp
  next
    case Sync
    then obtain b s1 bs1 where s1: "sync_packages multi skew tf s = Inr (b, s1)" "exec multi skew tf es' s1 = Inr (bs1, s')"
      "bs' = (if b then Measures s1 # bs1 else bs1)"
      using Cons.prems(2) by (auto simp: bind_ub_Inr_iff split: prod.splits if_splits)
    show ?thesis
    proof (cases b)
      case True
      then show ?thesis using Cons.IH [OF sync_run.bundled [OF Cons.prems(1)] s1(2)] s1 Sync by simp
    next
      case False
      then show ?thesis using Cons.IH [OF sync_run.waiting [OF Cons.prems(1)] s1(2)] s1 Sync by simp
    qed
  qed
qed simp

text \<open>Scans of one point; the times are seconds, so that rounding is exact.\<close>

definition sample_scan :: "rat \<Rightarrow> PointType list" where
  "sample_scan x = [lidar_point (Num x) (Num 2) (Num 0) (Num 9) (Num 0)]"

definition imu_at :: "rat \<Rightarrow> unit imu" where "imu_at t = \<lparr>imu_stamp = Num t, imu_data = ()\<rparr>"

text \<open>Scans that start a second apart, which is allowed here, and one without a partner.\<close>

definition two_sensors :: "unit event list" where
  "two_sensors = [Imu (imu_at 14), Scan (Num 15) (sample_scan 4), Scan (Num 17) (sample_scan 5), Imu (imu_at 16),
     Scan2 (Num 18) (sample_scan 6), Imu (imu_at 19), Sync]"

definition one_sensor :: "unit event list" where
  "one_sensor = [Scan (Num 16) (sample_scan 4), Imu (imu_at 15), Scan (Num 17) (sample_scan 5), Imu (imu_at 18), Sync]"

text \<open>A scan that is held, for a time that goes back.\<close>

definition holding :: "unit event list" where
  "holding = [Scan (Num 16) (sample_scan 4), Imu (imu_at 15), Sync]"

text \<open>Evaluation by rewriting: the rest of a sequence is left alone until its argument is known.\<close>

lemma bind_ub_weak_cong: "m = m' \<Longrightarrow> bind_ub m f = bind_ub m' f"
  by simp

lemma drop_unpaired_done:
  "time_buffer c1 = [] \<or> time_buffer c2 = [] \<Longrightarrow> drop_unpaired skew c1 c2 = Inr (c1, c2)"
  by (subst drop_unpaired.simps) (auto split: list.splits)

lemma drop_unpaired_step:
  assumes "time_buffer c1 \<noteq> []" "time_buffer c2 \<noteq> []"
  shows "drop_unpaired skew c1 c2 = (if fless skew (fabs (fsub b64 (hd (time_buffer c1)) (hd (time_buffer c2)))) then
     if fless (hd (time_buffer c1)) (hd (time_buffer c2)) then bind_ub (pop_scan c1) (\<lambda>c1. drop_unpaired skew c1 c2)
     else bind_ub (pop_scan c2) (\<lambda>c2. drop_unpaired skew c1 c2)
   else Inr (c1, c2))"
  using assms by (subst drop_unpaired.simps) (auto split: list.splits)

lemma fround64_numeral [simp]:
  "fround b64 1 = Num 1" "fround b64 (- 1) = Num (- 1)"
  "(numeral k :: int) < 16777216 \<Longrightarrow> fround b64 (numeral k) = Num (numeral k)"
  "(numeral k :: int) < 16777216 \<Longrightarrow> fround b64 (- numeral k) = Num (- numeral k)"
  using fround_dyadic(2) [of 1 0] fround_dyadic(2) [of "- 1" 0] fround_dyadic(2) [of "numeral k" 0]
    fround_dyadic(2) [of "- numeral k" 0] by simp_all

lemmas eval_sync = pcl_cbk_def pcl_cbk2_def imu_cbk_def store_scan_def sync_packages_def sync_multi_def sync_single_def
  pair_scans_def push_scans_def push_scan_def scan_end_def finish_bundle_def finish_single_def take_imu_def
  pop_scan_def write_front_def new_buffers_def new_channel_def Let_def imu_at_def sample_scan_def
  drop_unpaired_done drop_unpaired_step fsub_def fmin_def shift_point_def with_time_def lidar_point_def

lemma sample_two_sensors:
  "\<exists>bs s. exec True (Num 1) id two_sensors (new_buffers (Num 0) (Num 0)) = Inr (bs, s) \<and>
    map lidar_beg_time bs = [Num 17] \<and> map lidar_beg_time2 bs = [Num 18] \<and> map meas_imu bs = [[imu_at 16]] \<and>
    imu_buffer s = [imu_at 19]"
  by (simp add: two_sensors_def eval_sync cong: bind_ub_weak_cong)

lemma sample_one_sensor:
  "\<exists>bs s. exec False (Num 1) id one_sensor (new_buffers (Num 0) (Num 0)) = Inr (bs, s) \<and>
    map scan_in bs = [(Num 16, sample_scan 4)] \<and> map meas_imu bs = [[imu_at 15]] \<and> imu_buffer s = [imu_at 18]"
  by (simp add: one_sensor_def eval_sync scan_in_def cong: bind_ub_weak_cong)

text \<open>A scan is held; the IMU reaches its end; then a scan comes that starts before it.\<close>

lemma sample_loop_back:
  "\<exists>s s'. exec False (Num 1) id (holding @ [Imu (imu_at 18)]) (new_buffers (Num 0) (Num 0)) = Inr ([], s) \<and>
    lidar_pushed s \<and> fless (Num 10) (last_timestamp_lidar (ch1 s)) \<and>
    sync_packages False (Num 1) id (pcl_cbk (Num 10) (sample_scan 5) s) = Inr (True, s')"
  by (simp add: holding_def eval_sync cong: bind_ub_weak_cong)

section \<open>Maps\<close>

definition lat :: "rat \<Rightarrow> rat \<Rightarrow> rat \<Rightarrow> PointType" where
  "lat x y z = lidar_point (Num x) (Num y) (Num z) (Num 0) (Num 0)"

lemma lat_simps [simp]:
  "pt_x (lat x y z) = Num x" "pt_y (lat x y z) = Num y" "pt_z (lat x y z) = Num z" "finite_point (lat x y z)"
  "lat x y z = lat x' y' z' \<longleftrightarrow> x = x' \<and> y = y' \<and> z = z'"
  by (auto simp: lat_def lidar_point_def finite_point_def)

definition lio_tree :: "PointType list \<Rightarrow> lidar_data ikd" where
  "lio_tree ps = Build sort_by ps (KD_TREE (Num (1 / 2)) (fround b32 (3 / 5)) (Num 1))"

lemma lio_tree_ok:
  assumes "\<forall>p \<in> set ps. finite_point p"
  shows "ikd_ok (lio_tree ps)" "points (lio_tree ps) = mset ps" "Rebuild_Ptr (lio_tree ps) = None"
    "Root_Node (lio_tree ps) = Null \<longleftrightarrow> ps = []" "length ps + n < 1500 \<Longrightarrow> small_tree n (lio_tree ps)"
proof -
  show "ikd_ok (lio_tree ps)" "points (lio_tree ps) = mset ps"
    unfolding lio_tree_def using assms by (rule sorting.build_ok)+
  show r: "Rebuild_Ptr (lio_tree ps) = None" by (simp add: lio_tree_def Build_def KD_TREE_def)
  obtain ys where ys: "content (BuildTree sort_by ps) = map fresh_mark ys" "mset ys = mset ps"
    using sorting.build_spec [of False ps] by auto
  have "nodes (BuildTree sort_by ps) = length ps"
    using arg_cong [OF ys(1), of length] mset_eq_length [OF ys(2)] by simp
  moreover have root: "Root_Node (lio_tree ps) = BuildTree sort_by ps" by (simp add: lio_tree_def Build_def)
  ultimately show "length ps + n < 1500 \<Longrightarrow> small_tree n (lio_tree ps)"
    using r by (simp add: small_tree_def Multi_Thread_Rebuild_Point_Num_def)
  have "Root_Node (lio_tree ps) = Null \<longleftrightarrow> content (BuildTree sort_by ps) = []" unfolding root by simp
  also have "\<dots> \<longleftrightarrow> ps = []" using ys by auto
  finally show "Root_Node (lio_tree ps) = Null \<longleftrightarrow> ps = []" .
qed

definition cube :: "rat \<Rightarrow> BoxPointType" where
  "cube a = \<lparr>box_x = (Num (- a), Num a), box_y = (Num (- a), Num a), box_z = (Num (- a), Num a)\<rparr>"

definition sample_mapper :: "rat \<Rightarrow> PointType list \<Rightarrow> mapper" where
  "sample_mapper a ps = \<lparr>ikdtree = lio_tree ps, LocalMap_Points = cube a, Localmap_Initialized = True\<rparr>"

section \<open>A node\<close>

text \<open>An estimator that does not move: the trivial linear algebra.\<close>

definition still :: eigen where
  "still = \<lparr>to_world = id, plane_of = (\<lambda>_. (Num 0, Num 0, Num 1, Num 0)), root_norm = (\<lambda>_. Num 1)\<rparr>"

definition lio_motion :: "(unit, unit, unit) motion" where
  "lio_motion = \<lparr>predict = (\<lambda>_ _ _. ()), predict_end = (\<lambda>_ _ _. ()), pose_of = (\<lambda>_. ()),
     compensate = (\<lambda>_ _ _ dt p. p), init_filter = (\<lambda>_ _ _ _. ())\<rparr>"

definition by_curvature :: "PointType list \<Rightarrow> PointType list" where
  "by_curvature = sort_key (\<lambda>p. curvature (pt_data p))"

definition sample_algebra :: "(unit, unit, effect \<times> flt, unit) algebra" where
  "sample_algebra = \<lparr>gain = (\<lambda>_ _ _. ()), step_of = (\<lambda>_. []), boxplus = (\<lambda>_ _. ()), projected = (\<lambda>_ _. ()),
     updated = (\<lambda>_ _ _ _. ())\<rparr>"

definition sample_node :: "(unit, unit, unit, unit, unit, unit) node" where
  "sample_node = \<lparr>nth_of = sort_by, sort_of = by_curvature, voxel_filter = take 1000, second_to_first = id,
     motion_of = lio_motion, filter_part = (\<lambda>_. ((), ())), with_filter = (\<lambda>_ _. ()),
     eigen_at = (\<lambda>_. still\<lparr>to_world := (\<lambda>_. (Num 1, Num 2, Num 3))\<rparr>), pos_lid = (\<lambda>_. (Num 0, Num 0, Num 0)), algebra_of = sample_algebra,
     heap_default = \<lparr>cmp_point = lat 0 0 0, cmp_dist = Infty False\<rparr>, multi_lidar = False, max_pair_skew = Num 1,
     cube_len = Num 192, DET_RANGE = Num 64, filter_size_surf = Num 1, NUM_MAX_ITERATIONS = 4, epsi = []\<rparr>"

lemma sample_node_ok: "selection (nth_of sample_node)" "bounded_poses sample_node"
  "length (voxel_filter sample_node c) \<le> MAX_POINTS"
  by (simp_all add: sample_node_def bounded_poses_def still_def pointBodyToWorld_def finite_point_def
      sorting.selection_axioms MAX_POINTS_def)

text \<open>A run in which a scan has come and the loop has gone round once.\<close>

lemma sample_lio_run: "\<exists>s. lio_run sample_node holding s \<and> tree_of s = set_downsample_param (Num 1)
    (KD_TREE (Num (1 / 2)) (fround b32 (3 / 5)) (fround b32 (1 / 5)))"
proof -
  define s0 where "s0 = new_odometry sample_node (Num 0) (Num 0) (Num 0) (Num 0) (imu_at 0) ()"
  define s1 where "s1 = s0\<lparr>buffers_of := pcl_cbk (Num 16) (sample_scan 4) (buffers_of s0)\<rparr>"
  define s2 where "s2 = s1\<lparr>buffers_of := imu_cbk (imu_at 15) (buffers_of s1)\<rparr>"
  have "lio_run sample_node [] s0" unfolding s0_def by (rule lio_run.start)
  then have "lio_run sample_node ([] @ [Scan (Num 16) (sample_scan 4)]) s1" unfolding s1_def by (rule lio_run.scan)
  then have r: "lio_run sample_node ([Scan (Num 16) (sample_scan 4)] @ [Imu (imu_at 15)]) s2"
    unfolding s2_def by (intro lio_run.imu) simp
  have bufs: "buffers_of s2 = imu_cbk (imu_at 15) (pcl_cbk (Num 16) (sample_scan 4) (new_buffers (Num 0) (Num 0)))"
    by (simp add: s2_def s1_def s0_def new_odometry_def)
  have "\<exists>b. sync_packages False (Num 1) id (buffers_of s2) = Inr (False, b)"
    unfolding bufs by (simp add: eval_sync cong: bind_ub_weak_cong)
  then obtain b where "lio_round sample_node s2 = Inr (s2\<lparr>buffers_of := b\<rparr>)"
    by (auto simp: lio_round_def sample_node_def faulty_def)
  from lio_run.round [OF r this] have "lio_run sample_node holding (s2\<lparr>buffers_of := b\<rparr>)" by (simp add: holding_def)
  moreover have "tree_of (s2\<lparr>buffers_of := b\<rparr>) = set_downsample_param (Num 1)
      (KD_TREE (Num (1 / 2)) (fround b32 (3 / 5)) (fround b32 (1 / 5)))"
    by (simp add: tree_of_def s2_def s1_def s0_def new_odometry_def sample_node_def)
  ultimately show ?thesis by blast
qed

section \<open>Messages\<close>

definition return_at :: "u8 \<Rightarrow> rat \<Rightarrow> CustomPoint" where
  "return_at tag x = \<lparr>offset_time = 0, cp_x = Num x, cp_y = Num 1, cp_z = Num 0, reflectivity = 7, cp_tag = tag, cp_line = 0\<rparr>"

definition custom_sample :: CustomMsg where
  "custom_sample = \<lparr>point_num = 6, msg_points = map (return_at 0x10) [1, 2, 3] @ return_at 0x20 4 # map (return_at 0) [5, 6]\<rparr>"

section \<open>Evaluations\<close>

lemma cube_ranges [simp]: "box_x (cube a) = (Num (- a), Num a)" "box_y (cube a) = (Num (- a), Num a)" "box_z (cube a) = (Num (- a), Num a)"
  by (simp_all add: cube_def)

lemma nine_tenths: "\<exists>r. fround b64 (9 / 10) = Num r \<and> 0 \<le> r"
proof -
  have "fround b64 (9 / 10) = Num (rounded b64 (9 / 10))" by (rule fround_b64) simp
  moreover have "0 \<le> rounded b64 (9 / 10)" by (rule rounded_nonneg) simp
  ultimately show ?thesis by blast
qed

lemma fround_half [simp]: "fround b32 (1 / 2) = Num (1 / 2)" "fround b64 (1 / 2) = Num (1 / 2)"
  "fround b32 (3 / 2) = Num (3 / 2)" "fround b64 (3 / 2) = Num (3 / 2)"
  using fround_dyadic [of 1 1] fround_dyadic [of 3 1] by simp_all

lemma sample_move: "move_distance (Num 192) (Num 64) = Num 32"
proof -
  obtain r where r: "fround b64 (9 / 10) = Num r" "0 \<le> r" using nine_tenths by blast
  show ?thesis by (simp add: move_distance_def MOV_THRESHOLD_def r fsub_def fmax_def)
qed

lemma default_move: "move_distance (Num 200) (Num 300) = Num 150"
proof -
  obtain r where r: "fround b64 (9 / 10) = Num r" "0 \<le> r" using nine_tenths by blast
  have "fround b64 (- (350 * r)) \<le> fround b64 0" using r(2) by (intro fround_mono) simp_all
  then have "fround b64 (- (350 * r)) < Num 150" by (rule order.strict_trans1) simp
  then have "fless (fround b64 (- (350 * r))) (Num 150)" by (simp add: fless_iff)
  then show ?thesis by (simp add: move_distance_def MOV_THRESHOLD_def r fsub_def fmax_def)
qed

lemma sample_next_box:
  "next_box (Num 192) (Num 64) (Num 190, Num 0, Num 0) (cube 200) = (cube 200)\<lparr>box_x := (Num (- 168), Num 232)\<rparr>"
  by (simp add: next_box_def slide_box_def slide_def too_near_def edge_dist_def move_limit_def MOV_THRESHOLD_def sample_move
      cube_def fsub_def fle_def)

lemma default_next_box:
  "next_box (Num 200) (Num 300) (Num 0, Num 0, Num 0) (cube 100) =
    \<lparr>box_x = (Num (- 250), Num (- 50)), box_y = (Num (- 250), Num (- 50)), box_z = (Num (- 250), Num (- 50))\<rparr>"
  by (simp add: next_box_def slide_box_def slide_def too_near_def edge_dist_def move_limit_def MOV_THRESHOLD_def default_move
      cube_def fsub_def fle_def)

lemmas eval_cube = cube_def in_box_def inside_def fle_def

lemma default_gone: "in_box (cube 50) p \<Longrightarrow> in_box (cube 100) p \<and> \<not> in_box (next_box (Num 200) (Num 300) (Num 0, Num 0, Num 0) (cube 100)) p"
  unfolding default_next_box by (cases "pt_x p"; cases "pt_y p"; cases "pt_z p") (auto simp: eval_cube split: if_splits)

definition at_origin :: PointType where
  "at_origin = default_point"

lemma world_at_origin: "world_at still [lat 0 0 0] (resize_matches 1 (initial_matches (Num 0))) 0 = at_origin"
  by (simp add: world_at_def still_def resize_matches_def initial_matches_def resize_def pointBodyToWorld_def lat_def
      lidar_point_def at_origin_def default_point_def)

lemma at_origin_simps [simp]: "pt_x at_origin = Num 0" "pt_y at_origin = Num 0" "pt_z at_origin = Num 0" "finite_point at_origin"
  by (simp_all add: at_origin_def default_point_def lidar_point_def finite_point_def)

lemma world_lat: "pointBodyToWorld id (lat 5 6 7) (lat 0 0 0) = lat 5 6 7"
  by (simp add: pointBodyToWorld_def lat_def lidar_point_def)

lemma sample_destination: "destination_of (Num 1) (lat 5 6 7) [lat 50 60 70] = No_Need_Downsample"
proof -
  have "fround b32 (11 / 2) = Num (11 / 2)" "fround b32 (13 / 2) = Num (13 / 2)" "fround b32 (15 / 2) = Num (15 / 2)"
    "fround b64 (11 / 2) = Num (11 / 2)" "fround b64 (13 / 2) = Num (13 / 2)" "fround b64 (15 / 2) = Num (15 / 2)"
    "fround b32 (89 / 2) = Num (89 / 2)" "fround b32 (107 / 2) = Num (107 / 2)" "fround b32 (125 / 2) = Num (125 / 2)"
    using fround_dyadic [of 11 1] fround_dyadic [of 13 1] fround_dyadic [of 15 1] fround_dyadic [of 89 1]
      fround_dyadic [of 107 1] fround_dyadic [of 125 1] by simp_all
  then show ?thesis by (simp add: destination_of_def Let_def mid_of_def mid_coord_def off_axis_def fsub_def)
qed

end
