(* ===== verification/Lio_Async.thy ===== *)
theory Lio_Async
  imports Lio_Loop
begin

text \<open>
  The asynchronous variant of the node, \<open>laserMapping_async.cpp\<close>: the scans of both sensors go through
  one deque, and each is a bundle of its own. What it shares with the other variant (the filter, the
  matching, the local map) is modelled once.
\<close>

section \<open>Callbacks\<close>

text \<open>A stamp that goes back clears the clouds, but not the times.\<close>

definition append_scan :: "flt \<Rightarrow> flt \<Rightarrow> PointType list \<Rightarrow> channel \<Rightarrow> channel" where
  "append_scan last_time stamp cloud c =
     c\<lparr>lidar_buffer := (if fless stamp last_time then [] else lidar_buffer c) @ [cloud],
       time_buffer := time_buffer c @ [stamp]\<rparr>"

text \<open>The globals are those of the other variant: \<open>ch1\<close> has the deques and the scan times of both sensors,
  of \<open>ch2\<close> only the last time stamp is used. \<open>tags\<close> are the \<open>header.seq\<close> of the clouds in the deque, true
  for the second sensor, and \<open>current\<close> is \<open>current_lidar_num\<close>.\<close>

record 'i async =
  bufs :: "'i buffers"
  tags :: "bool list"
  current :: nat

definition last_of :: "bool \<Rightarrow> 'i buffers \<Rightarrow> flt" where
  "last_of second b = last_timestamp_lidar (if second then ch2 b else ch1 b)"

definition async_cbk :: "bool \<Rightarrow> flt \<Rightarrow> PointType list \<Rightarrow> 'i async \<Rightarrow> 'i async" where
  "async_cbk second stamp cloud s =
     (let b = bufs s; l = last_of second b; c = append_scan l stamp cloud (ch1 b)
      in s\<lparr>bufs := (if second then b\<lparr>ch1 := c, ch2 := (ch2 b)\<lparr>last_timestamp_lidar := stamp\<rparr>, first_lidar_scan_check := True\<rparr>
              else b\<lparr>ch1 := c\<lparr>last_timestamp_lidar := stamp\<rparr>, first_lidar_scan_check := True\<rparr>),
           tags := (if fless stamp l then [] else tags s) @ [second]\<rparr>)"

section \<open>\<open>sync_packages\<close>\<close>

text \<open>Holding the next scan: a scan of the second sensor is transformed where it stands.\<close>

definition push_async :: "(PointType list \<Rightarrow> PointType list) \<Rightarrow> 'i async \<Rightarrow> ub + 'i async" where
  "push_async to_lidar1 s = (let b = bufs s in
     bind_ub (front (lidar_buffer (ch1 b))) (\<lambda>lidar. bind_ub (front (time_buffer (ch1 b))) (\<lambda>beg.
     bind_ub (front (tags s)) (\<lambda>second.
       let lidar = (if second then to_lidar1 lidar else lidar);
           c = scan_end lidar beg (write_front lidar (ch1 b))
       in Inr (s\<lparr>bufs := b\<lparr>ch1 := c, lidar_pushed := True,
                    Measures := (Measures b)\<lparr>meas_lidar := lidar, lidar_beg_time := beg, meas_end_time := lidar_end_time c\<rparr>\<rparr>,
                 current := (if second then 2 else 1)\<rparr>)))))"

definition sync_async :: "(PointType list \<Rightarrow> PointType list) \<Rightarrow> 'i async \<Rightarrow> ub + bool \<times> 'i async" where
  "sync_async to_lidar1 s =
     (if lidar_buffer (ch1 (bufs s)) = [] \<or> imu_buffer (bufs s) = [] then Inr (False, s)
      else bind_ub (if lidar_pushed (bufs s) then Inr s else push_async to_lidar1 s) (\<lambda>s.
           bind_ub (finish_single (bufs s)) (\<lambda>(done, b).
             Inr (done, s\<lparr>bufs := b, tags := (if done then tl (tags s) else tags s)\<rparr>))))"

section \<open>Runs\<close>

text \<open>Any interleaving of messages and calls from a state on, with the bundles given out and the
  sensor each is said to come from.\<close>

inductive async_run :: "(PointType list \<Rightarrow> PointType list) \<Rightarrow> 'i async \<Rightarrow> 'i event list \<Rightarrow> (nat \<times> 'i MeasureGroup) list \<Rightarrow>
    'i async \<Rightarrow> bool" for tf s0 where
  start: "async_run tf s0 [] [] s0"
| scan: "async_run tf s0 es bs s \<Longrightarrow> async_run tf s0 (es @ [Scan t c]) bs (async_cbk False t c s)"
| scan2: "async_run tf s0 es bs s \<Longrightarrow> async_run tf s0 (es @ [Scan2 t c]) bs (async_cbk True t c s)"
| imu: "async_run tf s0 es bs s \<Longrightarrow> async_run tf s0 (es @ [Imu m]) bs (s\<lparr>bufs := imu_cbk m (bufs s)\<rparr>)"
| waiting: "async_run tf s0 es bs s \<Longrightarrow> sync_async tf s = Inr (False, s') \<Longrightarrow> async_run tf s0 (es @ [Sync]) bs s'"
| bundled: "async_run tf s0 es bs s \<Longrightarrow> sync_async tf s = Inr (True, s') \<Longrightarrow>
    async_run tf s0 (es @ [Sync]) (bs @ [(current s', Measures (bufs s'))]) s'"

definition new_async :: "flt \<Rightarrow> flt \<Rightarrow> 'i async" where
  "new_async e e2 = \<lparr>bufs = new_buffers e e2, tags = [], current = 1\<rparr>"

text \<open>What arrives: start, sensor and cloud, the cloud as the odometry is to see it.\<close>

fun arrival :: "(PointType list \<Rightarrow> PointType list) \<Rightarrow> 'i event \<Rightarrow> (flt \<times> bool \<times> PointType list) list" where
  "arrival tf (Scan t c) = [(t, False, c)]"
| "arrival tf (Scan2 t c) = [(t, True, tf c)]"
| "arrival tf _ = []"

definition arrivals :: "(PointType list \<Rightarrow> PointType list) \<Rightarrow> 'i event list \<Rightarrow> (flt \<times> bool \<times> PointType list) list" where
  "arrivals tf es = concat (map (arrival tf) es)"

lemma arrivals_simps [simp]:
  "arrivals tf [] = []" "arrivals tf (es @ es') = arrivals tf es @ arrivals tf es'" "arrivals tf [e] = arrival tf e"
  by (simp_all add: arrivals_def)

text \<open>What a bundle carries, and the clouds that are queued, as the odometry is to see them.\<close>

definition scan_of_bundle :: "nat \<times> 'i MeasureGroup \<Rightarrow> flt \<times> bool \<times> PointType list" where
  "scan_of_bundle = (\<lambda>(n, m). (lidar_beg_time m, n = 2, meas_lidar m))"

definition seen :: "(PointType list \<Rightarrow> PointType list) \<Rightarrow> bool \<times> PointType list \<Rightarrow> PointType list" where
  "seen tf = (\<lambda>(second, c). if second then tf c else c)"

definition pending :: "(PointType list \<Rightarrow> PointType list) \<Rightarrow> 'i async \<Rightarrow> PointType list list" where
  "pending tf s = (let qs = zip (tags s) (lidar_buffer (ch1 (bufs s)))
     in if lidar_pushed (bufs s) then map snd (take 1 qs) @ map (seen tf) (drop 1 qs) else map (seen tf) qs)"

section \<open>The deques\<close>

definition async_ok :: "'i async \<Rightarrow> bool" where
  "async_ok s \<longleftrightarrow> length (tags s) = length (lidar_buffer (ch1 (bufs s))) \<and>
     length (lidar_buffer (ch1 (bufs s))) \<le> length (time_buffer (ch1 (bufs s))) \<and>
     (lidar_pushed (bufs s) \<longrightarrow> lidar_buffer (ch1 (bufs s)) \<noteq> [] \<and>
        hd (time_buffer (ch1 (bufs s))) = lidar_beg_time (Measures (bufs s)))"

text \<open>The scan that is held is the front of the deque; a stamp that goes back breaks this.\<close>

definition carries :: "'i async \<Rightarrow> bool" where
  "carries s \<longleftrightarrow> (lidar_pushed (bufs s) \<longrightarrow> hd (lidar_buffer (ch1 (bufs s))) = meas_lidar (Measures (bufs s)) \<and>
     hd (tags s) = (current s = 2))"

definition same_queue :: "(PointType list \<Rightarrow> PointType list) \<Rightarrow> 'i async \<Rightarrow> 'i async \<Rightarrow> bool" where
  "same_queue tf s h \<longleftrightarrow> tags h = tags s \<and> time_buffer (ch1 (bufs h)) = time_buffer (ch1 (bufs s)) \<and>
     pending tf h = pending tf s \<and> (\<forall>b. last_of b (bufs h) = last_of b (bufs s)) \<and> (carries s \<longrightarrow> carries h)"

definition gives_out :: "'i async \<Rightarrow> 'i async \<Rightarrow> bool" where
  "gives_out h s \<longleftrightarrow> lidar_pushed (bufs h) \<and> \<not> lidar_pushed (bufs s) \<and> tags s = tl (tags h) \<and> current s = current h \<and>
     time_buffer (ch1 (bufs s)) = tl (time_buffer (ch1 (bufs h))) \<and>
     lidar_buffer (ch1 (bufs s)) = tl (lidar_buffer (ch1 (bufs h))) \<and> (\<forall>b. last_of b (bufs s) = last_of b (bufs h)) \<and>
     lidar_beg_time (Measures (bufs s)) = lidar_beg_time (Measures (bufs h)) \<and>
     meas_lidar (Measures (bufs s)) = meas_lidar (Measures (bufs h))"

lemma finish_single_cases:
  assumes "imu_buffer b \<noteq> []" "lidar_buffer (ch1 b) = l # ls" "time_buffer (ch1 b) = t # ts"
  obtains "finish_single b = Inr (False, b)"
  | taken rest where "finish_single b = Inr (True, b\<lparr>Measures := (Measures b)\<lparr>meas_imu := taken\<rparr>, imu_buffer := rest,
      ch1 := (ch1 b)\<lparr>lidar_buffer := ls, time_buffer := ts\<rparr>, lidar_pushed := False\<rparr>)"
proof (cases "fless (last_timestamp_imu b) (lidar_end_time (ch1 b))")
  case True
  then show thesis using that(1) by (simp add: finish_single_def)
next
  case False
  obtain taken rest where "take_imu [lidar_end_time (ch1 b)] b =
      Inr (b\<lparr>Measures := (Measures b)\<lparr>meas_imu := taken\<rparr>, imu_buffer := rest\<rparr>)"
    using take_imu_spec [OF assms(1)] by blast
  then show thesis using that(2) [of rest taken] False assms(2,3) by (simp add: finish_single_def pop_scan_def)
qed

lemma push_async_spec:
  assumes "async_ok s" "lidar_buffer (ch1 (bufs s)) \<noteq> []" "\<not> lidar_pushed (bufs s)"
  shows "\<exists>h. push_async tf s = Inr h \<and> async_ok h \<and> same_queue tf s h \<and> lidar_pushed (bufs h) \<and>
    imu_buffer (bufs h) = imu_buffer (bufs s)"
proof -
  obtain l ls where l: "lidar_buffer (ch1 (bufs s)) = l # ls" using assms(2) by (meson list.exhaust)
  obtain q qs where q: "tags s = q # qs" "length qs = length ls" using assms(1) l by (cases "tags s") (auto simp: async_ok_def)
  obtain t ts where t: "time_buffer (ch1 (bufs s)) = t # ts" "length ls \<le> length ts"
    using assms(1) l by (cases "time_buffer (ch1 (bufs s))") (auto simp: async_ok_def)
  show ?thesis using l q t assms(3)
    by (simp add: push_async_def Let_def async_ok_def same_queue_def pending_def seen_def carries_def last_of_def write_front_def)
qed

lemma sync_async_step:
  assumes "async_ok s"
  shows "sync_async tf s = Inr (False, s) \<or> (\<exists>h. async_ok h \<and> same_queue tf s h \<and>
    (sync_async tf s = Inr (False, h) \<or> (\<exists>s'. sync_async tf s = Inr (True, s') \<and> async_ok s' \<and> gives_out h s')))"
proof (cases "lidar_buffer (ch1 (bufs s)) = [] \<or> imu_buffer (bufs s) = []")
  case True
  then show ?thesis by (auto simp: sync_async_def)
next
  case False
  have "\<exists>h. (if lidar_pushed (bufs s) then Inr s else push_async tf s) = Inr h \<and> async_ok h \<and> same_queue tf s h \<and>
      lidar_pushed (bufs h) \<and> imu_buffer (bufs h) = imu_buffer (bufs s)"
    using push_async_spec [OF assms] assms False by (cases "lidar_pushed (bufs s)") (auto simp: same_queue_def)
  then obtain h where h: "(if lidar_pushed (bufs s) then Inr s else push_async tf s) = Inr h" "async_ok h" "same_queue tf s h"
    "lidar_pushed (bufs h)" "imu_buffer (bufs h) = imu_buffer (bufs s)" by blast
  have eq: "sync_async tf s = bind_ub (finish_single (bufs h)) (\<lambda>(done, b).
      Inr (done, h\<lparr>bufs := b, tags := (if done then tl (tags h) else tags h)\<rparr>))"
    using False h(1) by (simp add: sync_async_def del: if_split)
  obtain l ls where l: "lidar_buffer (ch1 (bufs h)) = l # ls" using h(2,4) by (cases "lidar_buffer (ch1 (bufs h))") (auto simp: async_ok_def)
  obtain t ts where t: "time_buffer (ch1 (bufs h)) = t # ts" "length ls \<le> length ts"
    using h(2) l by (cases "time_buffer (ch1 (bufs h))") (auto simp: async_ok_def)
  have "imu_buffer (bufs h) \<noteq> []" using False h(5) by simp
  then show ?thesis
  proof (rule finish_single_cases [OF _ l t(1)])
    assume "finish_single (bufs h) = Inr (False, bufs h)"
    then have "sync_async tf s = Inr (False, h)" by (simp add: eq)
    then show ?thesis using h(2,3) by blast
  next
    fix taken rest
    assume f: "finish_single (bufs h) = Inr (True, (bufs h)\<lparr>Measures := (Measures (bufs h))\<lparr>meas_imu := taken\<rparr>, imu_buffer := rest,
      ch1 := (ch1 (bufs h))\<lparr>lidar_buffer := ls, time_buffer := ts\<rparr>, lidar_pushed := False\<rparr>)" (is "_ = Inr (True, ?b)")
    have "sync_async tf s = Inr (True, h\<lparr>bufs := ?b, tags := tl (tags h)\<rparr>)" by (simp add: eq f)
    moreover have "async_ok (h\<lparr>bufs := ?b, tags := tl (tags h)\<rparr>)" using h(2) l t(2) by (simp add: async_ok_def)
    moreover have "gives_out h (h\<lparr>bufs := ?b, tags := tl (tags h)\<rparr>)"
      using h(4) l t by (simp add: gives_out_def last_of_def)
    ultimately show ?thesis using h(2,3) by blast
  qed
qed

lemma async_ok_cbk [simp]: "async_ok s \<Longrightarrow> async_ok (async_cbk b t c s)"
  by (cases "time_buffer (ch1 (bufs s))") (auto simp: async_ok_def async_cbk_def append_scan_def Let_def)

lemma async_ok_imu [simp]: "async_ok (s\<lparr>bufs := imu_cbk m (bufs s)\<rparr>) = async_ok s"
  by (simp add: async_ok_def imu_cbk_def Let_def)

lemma new_async_ok [simp]: "async_ok (new_async e e2)"
  by (simp add: async_ok_def new_async_def new_buffers_def new_channel_def)

lemma async_run_ok: "async_run tf s0 es bs s \<Longrightarrow> async_ok s0 \<Longrightarrow> async_ok s"
proof (induction rule: async_run.induct)
  case (waiting es bs s s')
  then show ?case using sync_async_step [of s tf] by auto
next
  case (bundled es bs s s')
  then show ?case using sync_async_step [of s tf] by auto
qed simp_all

section \<open>Times and clouds\<close>

text \<open>The times of the bundles, then those that are queued, are the times that arrived, whatever happens.\<close>

lemma async_run_times:
  assumes "async_run tf s0 es bs s" "async_ok s0"
  shows "map (fst \<circ> scan_of_bundle) bs @ time_buffer (ch1 (bufs s)) = time_buffer (ch1 (bufs s0)) @ map fst (arrivals tf es)"
  using assms
proof (induction es bs s rule: async_run.induct)
  case (waiting es bs s s')
  from sync_async_step [OF async_run_ok [OF waiting(1,4)], of tf] waiting show ?case by (auto simp: same_queue_def)
next
  case (bundled es bs s s')
  obtain h where h: "async_ok h" "same_queue tf s h" "gives_out h s'"
    using sync_async_step [OF async_run_ok [OF bundled(1,4)], of tf] bundled(2) by auto
  have "time_buffer (ch1 (bufs h)) \<noteq> []" "hd (time_buffer (ch1 (bufs h))) = lidar_beg_time (Measures (bufs h))"
    using h(1,3) by (auto simp: async_ok_def gives_out_def)
  then have "lidar_beg_time (Measures (bufs s')) # time_buffer (ch1 (bufs s')) = time_buffer (ch1 (bufs s))"
    using h(2,3) by (metis gives_out_def list.collapse same_queue_def)
  then show ?case using bundled by (simp add: scan_of_bundle_def)
qed (simp_all add: async_cbk_def append_scan_def imu_cbk_def Let_def)

text \<open>For the clouds and the sensors this holds when no stamp goes back.\<close>

definition steady :: "'i async \<Rightarrow> 'i event list \<Rightarrow> bool" where
  "steady s0 es \<longleftrightarrow> sorted (last_of False (bufs s0) # map fst (scans es)) \<and> sorted (last_of True (bufs s0) # map fst (scans2 es))"

definition cloud_inv :: "(PointType list \<Rightarrow> PointType list) \<Rightarrow> 'i async \<Rightarrow> 'i event list \<Rightarrow> (nat \<times> 'i MeasureGroup) list \<Rightarrow>
    'i async \<Rightarrow> bool" where
  "cloud_inv tf s0 es bs s \<longleftrightarrow> carries s \<and>
     map (fst \<circ> snd \<circ> scan_of_bundle) bs @ tags s = tags s0 @ map (fst \<circ> snd) (arrivals tf es) \<and>
     map (snd \<circ> snd \<circ> scan_of_bundle) bs @ pending tf s = pending tf s0 @ map (snd \<circ> snd) (arrivals tf es) \<and>
     last_of False (bufs s) = newest (last_of False (bufs s0)) (map fst (scans es)) \<and>
     last_of True (bufs s) = newest (last_of True (bufs s0)) (map fst (scans2 es))"

lemma cbk_appends:
  assumes "async_ok s" "\<not> fless t (last_of b (bufs s))"
  shows "pending tf (async_cbk b t c s) = pending tf s @ [seen tf (b, c)]" "tags (async_cbk b t c s) = tags s @ [b]"
    "carries s \<Longrightarrow> carries (async_cbk b t c s)"
proof -
  let ?l = "lidar_buffer (ch1 (bufs s))"
  have c: "lidar_buffer (ch1 (bufs (async_cbk b t c s))) = ?l @ [c]" "tags (async_cbk b t c s) = tags s @ [b]"
    "lidar_pushed (bufs (async_cbk b t c s)) = lidar_pushed (bufs s)" "Measures (bufs (async_cbk b t c s)) = Measures (bufs s)"
    "current (async_cbk b t c s) = current s"
    using assms(2) by (cases b; simp add: async_cbk_def append_scan_def Let_def)+
  then show "tags (async_cbk b t c s) = tags s @ [b]" by simp
  have len: "length (tags s) = length ?l" "lidar_pushed (bufs s) \<longrightarrow> ?l \<noteq> []" using assms(1) by (simp_all add: async_ok_def)
  then show "pending tf (async_cbk b t c s) = pending tf s @ [seen tf (b, c)]"
    by (cases "tags s"; cases ?l) (simp_all add: pending_def c Let_def)
  assume "carries s"
  then show "carries (async_cbk b t c s)" using len by (cases "tags s"; cases ?l) (simp_all add: carries_def c)
qed

lemma imu_keeps [simp]:
  "pending tf (s\<lparr>bufs := imu_cbk m (bufs s)\<rparr>) = pending tf s" "carries (s\<lparr>bufs := imu_cbk m (bufs s)\<rparr>) = carries s"
  "last_of b (imu_cbk m (bufs s)) = last_of b (bufs s)"
  by (simp_all add: pending_def carries_def last_of_def imu_cbk_def Let_def)

lemma gives_out_front:
  assumes "async_ok h" "carries h" "gives_out h s"
  shows "meas_lidar (Measures (bufs s)) # pending tf s = pending tf h" "(current s = 2) # tags s = tags h" "carries s"
proof -
  obtain l ls q qs where l: "lidar_buffer (ch1 (bufs h)) = l # ls" "tags h = q # qs"
    using assms(1,3) by (cases "lidar_buffer (ch1 (bufs h))"; cases "tags h") (auto simp: async_ok_def gives_out_def)
  then show "meas_lidar (Measures (bufs s)) # pending tf s = pending tf h" "(current s = 2) # tags s = tags h" "carries s"
    using assms(2,3) by (simp_all add: carries_def gives_out_def pending_def Let_def)
qed

lemma last_of_cbk [simp]: "last_of b (bufs (async_cbk b' t c s)) = (if b = b' then t else last_of b (bufs s))"
  by (cases b; cases b') (simp_all add: last_of_def async_cbk_def append_scan_def Let_def)

lemma async_run_clouds:
  assumes "async_run tf s0 es bs s" "async_ok s0" "carries s0" "steady s0 es"
  shows "cloud_inv tf s0 es bs s"
  using assms
proof (induction es bs s rule: async_run.induct)
  case start
  then show ?case by (simp add: cloud_inv_def)
next
  case (scan es bs s t c)
  have "sorted (last_of False (bufs s0) # map fst (scans es) @ [t])" using scan(5) by (simp add: steady_def)
  note so = sorted_snocD [OF this] sorted_snoc_last(2) [OF this]
  have inv: "cloud_inv tf s0 es bs s" using scan so(1) by (simp add: steady_def)
  then have "\<not> fless t (last_of False (bufs s))" using so(2) by (simp add: cloud_inv_def)
  from cbk_appends [OF async_run_ok [OF scan(1,3)] this] inv show ?case by (simp add: cloud_inv_def seen_def)
next
  case (scan2 es bs s t c)
  have "sorted (last_of True (bufs s0) # map fst (scans2 es) @ [t])" using scan2(5) by (simp add: steady_def)
  note so = sorted_snocD [OF this] sorted_snoc_last(2) [OF this]
  have inv: "cloud_inv tf s0 es bs s" using scan2 so(1) by (simp add: steady_def)
  then have "\<not> fless t (last_of True (bufs s))" using so(2) by (simp add: cloud_inv_def)
  from cbk_appends [OF async_run_ok [OF scan2(1,3)] this] inv show ?case by (simp add: cloud_inv_def seen_def)
next
  case (imu es bs s m)
  then show ?case by (simp add: cloud_inv_def steady_def)
next
  case (waiting es bs s s')
  then have inv: "cloud_inv tf s0 es bs s" by (simp add: steady_def)
  from sync_async_step [OF async_run_ok [OF waiting(1,4)], of tf] waiting(2) inv show ?case
    by (auto simp: cloud_inv_def same_queue_def)
next
  case (bundled es bs s s')
  then have inv: "cloud_inv tf s0 es bs s" by (simp add: steady_def)
  obtain h where h: "async_ok h" "same_queue tf s h" "gives_out h s'"
    using sync_async_step [OF async_run_ok [OF bundled(1,4)], of tf] bundled(2) by auto
  have "carries h" using h(2) inv by (simp add: same_queue_def cloud_inv_def)
  note f = gives_out_front [OF h(1) this h(3)]
  have "last_of b (bufs s') = last_of b (bufs s)" for b using h by (simp add: same_queue_def gives_out_def)
  then show ?case using inv f h(2) by (simp add: cloud_inv_def scan_of_bundle_def same_queue_def)
qed

section \<open>No stamp goes back, and one does\<close>

lemma map_triple_eq:
  assumes "map fst xs = map fst ys" "map (fst \<circ> snd) xs = map (fst \<circ> snd) ys" "map (snd \<circ> snd) xs = map (snd \<circ> snd) ys"
  shows "xs = ys"
proof (rule nth_equalityI)
  show "length xs = length ys" using assms(1) by (metis length_map)
  fix i assume i: "i < length xs"
  then have "i < length ys" using assms(1) by (metis length_map)
  with i assms have "fst (xs ! i) = fst (ys ! i)" "fst (snd (xs ! i)) = fst (snd (ys ! i))" "snd (snd (xs ! i)) = snd (snd (ys ! i))"
    by (metis nth_map, metis (mono_tags) comp_apply nth_map, metis (mono_tags) comp_apply nth_map)
  then show "xs ! i = ys ! i" by (simp add: prod_eq_iff)
qed

lemma async_fifo:
  assumes "async_run tf (new_async e e2) es bs s" "steady (new_async e e2) es"
  shows "map scan_of_bundle bs = take (length bs) (arrivals tf es)"
    "length bs + length (lidar_buffer (ch1 (bufs s))) = length (arrivals tf es)"
proof -
  have c: "carries (new_async e e2)" by (simp add: carries_def new_async_def new_buffers_def)
  note inv = async_run_clouds [OF assms(1) new_async_ok c assms(2)]
  have n: "tags (new_async e e2) = []" "pending tf (new_async e e2) = []" "time_buffer (ch1 (bufs (new_async e e2))) = []"
    by (simp_all add: new_async_def pending_def new_buffers_def new_channel_def)
  have t: "map (fst \<circ> scan_of_bundle) bs @ time_buffer (ch1 (bufs s)) = map fst (arrivals tf es)"
    using async_run_times [OF assms(1) new_async_ok] by (simp add: n)
  have q: "map (fst \<circ> snd \<circ> scan_of_bundle) bs @ tags s = map (fst \<circ> snd) (arrivals tf es)"
    "map (snd \<circ> snd \<circ> scan_of_bundle) bs @ pending tf s = map (snd \<circ> snd) (arrivals tf es)"
    using inv by (simp_all add: cloud_inv_def n)
  have "length bs + length (tags s) = length (arrivals tf es)" using arg_cong [OF q(1), of length] by simp
  then show "length bs + length (lidar_buffer (ch1 (bufs s))) = length (arrivals tf es)"
    using async_run_ok [OF assms(1) new_async_ok] by (simp add: async_ok_def)
  have tk: "map f bs = take (length bs) (map g (arrivals tf es))" if "map f bs @ x = map g (arrivals tf es)" for f x and g :: "_ \<Rightarrow> 'z"
    using that by (metis append_eq_conv_conj length_map)
  show "map scan_of_bundle bs = take (length bs) (arrivals tf es)"
    by (rule map_triple_eq) (use tk [OF t] tk [OF q(1)] tk [OF q(2)] in \<open>simp_all add: take_map o_assoc\<close>)
qed

text \<open>After a stamp that goes back, each bundle carries a new cloud with the time of a scan that was dropped.\<close>

lemma async_desync:
  assumes "async_run tf (new_async e e2) es0 bs0 s" "\<not> lidar_pushed (bufs s)" "fless t (last_of b (bufs s))"
    and "async_run tf (async_cbk b t c s) es bs s'" "steady (async_cbk b t c s) es"
  shows "map (snd \<circ> scan_of_bundle) bs = take (length bs) ((b, seen tf (b, c)) # map snd (arrivals tf es))"
    "map (fst \<circ> scan_of_bundle) bs = take (length bs) (time_buffer (ch1 (bufs s)) @ t # map fst (arrivals tf es))"
proof -
  let ?s = "async_cbk b t c s"
  note ok = async_run_ok [OF assms(1) new_async_ok]
  have n: "tags ?s = [b]" "lidar_buffer (ch1 (bufs ?s)) = [c]" "time_buffer (ch1 (bufs ?s)) = time_buffer (ch1 (bufs s)) @ [t]"
    "\<not> lidar_pushed (bufs ?s)"
    using assms(2,3) by (cases b; simp add: async_cbk_def append_scan_def Let_def)+
  then have c: "carries ?s" "pending tf ?s = [seen tf (b, c)]" by (simp_all add: carries_def pending_def)
  note inv = async_run_clouds [OF assms(4) async_ok_cbk [OF ok] c(1) assms(5)]
  have q: "map (fst \<circ> snd \<circ> scan_of_bundle) bs @ tags s' = map fst ((b, seen tf (b, c)) # map snd (arrivals tf es))"
    "map (snd \<circ> snd \<circ> scan_of_bundle) bs @ pending tf s' = map snd ((b, seen tf (b, c)) # map snd (arrivals tf es))"
    using inv by (simp_all add: cloud_inv_def n c)
  have tk: "xs = take (length xs) zs" if "xs @ ys = zs" for xs ys zs :: "'z list" using that by (metis append_eq_conv_conj)
  have "map fst (map (snd \<circ> scan_of_bundle) bs) = map fst (take (length bs) ((b, seen tf (b, c)) # map snd (arrivals tf es)))"
    "map snd (map (snd \<circ> scan_of_bundle) bs) = map snd (take (length bs) ((b, seen tf (b, c)) # map snd (arrivals tf es)))"
    using tk [OF q(1)] tk [OF q(2)] by (simp_all add: take_map [symmetric] o_assoc)
  then show "map (snd \<circ> scan_of_bundle) bs = take (length bs) ((b, seen tf (b, c)) # map snd (arrivals tf es))"
    by (metis zip_map_fst_snd)
  show "map (fst \<circ> scan_of_bundle) bs = take (length bs) (time_buffer (ch1 (bufs s)) @ t # map fst (arrivals tf es))"
    using tk [OF async_run_times [OF assms(4) async_ok_cbk [OF ok]]] by (simp add: n)
qed

section \<open>The node\<close>

text \<open>Both sensors must have put a scan into the map before scans are matched; \<open>inits\<close> are
  \<open>lidar1_ikd_init\<close> and \<open>lidar2_ikd_init\<close>. The first scans are added with downsampling, which on an empty
  tree moves the points to the middles of their voxels.\<close>

definition grow_map :: "('i, 'n, 'q, 'x, 'p, 'd) node \<Rightarrow> PointType list \<Rightarrow> ('i, 'n) odometry \<Rightarrow> stop + ('i, 'n) odometry" where
  "grow_map N down s =
     (let world = map2 (pointBodyToWorld (to_world (eigen_at N (fst (filter_part N (numbers s)))))) down
            (resize (length down) default_point (feats_down_world (arrays s)))
      in and_so (Add_Points (nth_of N) default_point world True (ikdtree (map_of_node s))) (\<lambda>(_, k).
           Inr (s\<lparr>arrays := (arrays s)\<lparr>feats_down_world := world\<rparr>, map_of_node := (map_of_node s)\<lparr>ikdtree := k\<rparr>\<rparr>)))"

definition uninitialised :: "('i, 'n, 'q, 'x, 'p, 'd) node \<Rightarrow> bool \<times> bool \<Rightarrow> ('i, 'n) odometry \<Rightarrow> bool" where
  "uninitialised N inits s \<longleftrightarrow> Root_Node (ikdtree (map_of_node s)) = Null \<or> multi_lidar N \<and> \<not> (fst inits \<and> snd inits)"

definition mark_init :: "nat \<Rightarrow> bool \<times> bool \<Rightarrow> bool \<times> bool" where
  "mark_init lidar_num = (\<lambda>(i1, i2). if lidar_num = 1 then (True, i2) else if lidar_num = 2 then (i1, True) else (i1, i2))"

definition init_map :: "('i, 'n, 'q, 'x, 'p, 'd) node \<Rightarrow> nat \<Rightarrow> PointType list \<Rightarrow> bool \<times> bool \<Rightarrow> ('i, 'n) odometry \<Rightarrow>
    stop + (bool \<times> bool) \<times> ('i, 'n) odometry" where
  "init_map N lidar_num down inits s =
     (if 5 < length down
      then and_so (grow_map N down s) (\<lambda>s. Inr (if multi_lidar N then mark_init lidar_num inits else inits, s))
      else Inr (inits, s))"

record ('i, 'n) async_odometry =
  deques :: "'i async"
  core :: "('i, 'n) odometry"
  inits :: "bool \<times> bool"

definition async_scan :: "('i, 'n, 'q, 'x, 'p, 'd) node \<Rightarrow> PointType list \<Rightarrow> ('i, 'n) async_odometry \<Rightarrow> stop + ('i, 'n) async_odometry" where
  "async_scan N down s =
     (if uninitialised N (inits s) (core s)
      then and_so (init_map N (current (deques s)) down (inits s) (core s)) (\<lambda>(i, c). Inr (s\<lparr>core := c, inits := i\<rparr>))
      else if length down < 5 then Inr s else and_so (update_map N down (core s)) (\<lambda>c. Inr (s\<lparr>core := c\<rparr>)))"

definition async_after :: "('i, 'n, 'q, 'x, 'p, 'd) node \<Rightarrow> ('i, 'n) async_odometry \<Rightarrow> stop + ('i, 'n) async_odometry" where
  "async_after N s =
     (if feats_undistort (core s) = [] then Inr s
      else and_so (move_map N (core s)) (\<lambda>c. async_scan N (voxel_filter N (feats_undistort c)) (s\<lparr>core := c\<rparr>)))"

definition async_round :: "('i, 'n, 'q, 'x, 'p, 'd) node \<Rightarrow> ('i, 'n) async_odometry \<Rightarrow> stop + ('i, 'n) async_odometry" where
  "async_round N s =
     and_so (faulty (sync_async (second_to_first N) (deques s))) (\<lambda>(b, d).
       if b then async_after N (s\<lparr>deques := d, core := process_bundle N False 1 ((core s)\<lparr>buffers_of := bufs d\<rparr>)\<rparr>)
       else Inr (s\<lparr>deques := d\<rparr>))"

inductive async_node :: "('i, 'n, 'q, 'x, 'p, 'd) node \<Rightarrow> flt \<Rightarrow> flt \<Rightarrow> 'i event list \<Rightarrow> ('i, 'n) async_odometry \<Rightarrow> bool" for N e e2 where
  start: "async_node N e e2 [] \<lparr>deques = new_async e e2, core = new_odometry N e e2 junk r default_imu n, inits = (False, False)\<rparr>"
| scan: "async_node N e e2 es s \<Longrightarrow> async_node N e e2 (es @ [Scan t c]) (s\<lparr>deques := async_cbk False t c (deques s)\<rparr>)"
| scan2: "async_node N e e2 es s \<Longrightarrow> async_node N e e2 (es @ [Scan2 t c]) (s\<lparr>deques := async_cbk True t c (deques s)\<rparr>)"
| imu: "async_node N e e2 es s \<Longrightarrow>
    async_node N e e2 (es @ [Imu m]) (s\<lparr>deques := (deques s)\<lparr>bufs := imu_cbk m (bufs (deques s))\<rparr>\<rparr>)"
| round: "async_node N e e2 es s \<Longrightarrow> async_round N s = Inr s' \<Longrightarrow> async_node N e e2 (es @ [Sync]) s'"

lemma async_scan_deques: "async_scan N down s = Inr s' \<Longrightarrow> deques s' = deques s"
  unfolding async_scan_def
  by (cases "uninitialised N (inits s) (core s)"; cases "length down < 5") (auto simp: and_so_Inr)

lemma async_after_deques:
  assumes "async_after N s = Inr s'"
  shows "deques s' = deques s"
proof (cases "feats_undistort (core s) = []")
  case False
  then obtain c where "async_scan N (voxel_filter N (feats_undistort c)) (s\<lparr>core := c\<rparr>) = Inr s'"
    using assms unfolding async_after_def by (auto simp: and_so_Inr)
  from async_scan_deques [OF this] show ?thesis by simp
qed (use assms in \<open>simp add: async_after_def\<close>)

text \<open>The deques of the node go through a run of the synchroniser.\<close>

lemma async_node_run:
  assumes "async_node N e e2 es s"
  shows "\<exists>bs. async_run (second_to_first N) (new_async e e2) es bs (deques s)"
  using assms
proof (induction rule: async_node.induct)
  case start
  then show ?case using async_run.start by fastforce
next
  case (scan es s t c)
  then show ?case using async_run.scan by fastforce
next
  case (scan2 es s t c)
  then show ?case using async_run.scan2 by fastforce
next
  case (imu es s m)
  then show ?case using async_run.imu by fastforce
next
  case (round es s s')
  obtain b d where r: "sync_async (second_to_first N) (deques s) = Inr (b, d)"
    "if b then async_after N (s\<lparr>deques := d, core := process_bundle N False 1 ((core s)\<lparr>buffers_of := bufs d\<rparr>)\<rparr>) = Inr s'
     else s' = s\<lparr>deques := d\<rparr>"
    using round.hyps(2) by (fastforce simp: async_round_def and_so_Inr faulty_def split: sum.splits if_splits)
  have d: "deques s' = d"
  proof (cases b)
    case True
    then show ?thesis using r(2) async_after_deques by fastforce
  qed (use r(2) in simp)
  obtain bs where bs: "async_run (second_to_first N) (new_async e e2) es bs (deques s)" using round.IH by blast
  show ?case unfolding d
  proof (cases b)
    case True
    then have "sync_async (second_to_first N) (deques s) = Inr (True, d)" using r(1) by simp
    from async_run.bundled [OF bs this] show "\<exists>bs. async_run (second_to_first N) (new_async e e2) (es @ [Sync]) bs d" by (rule exI)
  next
    case False
    then have "sync_async (second_to_first N) (deques s) = Inr (False, d)" using r(1) by simp
    from async_run.waiting [OF bs this] show "\<exists>bs. async_run (second_to_first N) (new_async e e2) (es @ [Sync]) bs d" by (rule exI)
  qed
qed

end
