(* ===== verification/Lio_Adaptive.thy ===== *)
theory Lio_Adaptive
  imports Lio_Async
begin

text \<open>
  The adaptive variant of the node, \<open>laserMapping_adaptive.cpp\<close>: one deque per sensor; scans are bundled
  one by one, the older sensor first, or all that are queued of both at once, as the quality of the
  last matching decides.
\<close>

section \<open>Callbacks\<close>

definition adaptive_cbk :: "bool \<Rightarrow> flt \<Rightarrow> PointType list \<Rightarrow> 'i buffers \<Rightarrow> 'i buffers" where
  "adaptive_cbk second stamp cloud b =
     (let store = (\<lambda>c. (append_scan (last_timestamp_lidar c) stamp cloud c)\<lparr>last_timestamp_lidar := stamp\<rparr>)
      in if second then b\<lparr>ch2 := store (ch2 b), first_lidar_scan_check := True\<rparr>
         else b\<lparr>ch1 := store (ch1 b), first_lidar_scan_check := True\<rparr>)"

section \<open>One scan at a time\<close>

text \<open>\<open>lidar_use_num_now_\<close>.\<close>

definition older_sensor :: "'i buffers \<Rightarrow> ub + nat" where
  "older_sensor b =
     (if lidar_buffer (ch1 b) \<noteq> [] \<and> lidar_buffer (ch2 b) \<noteq> [] then
        bind_ub (front (time_buffer (ch1 b))) (\<lambda>t1. bind_ub (front (time_buffer (ch2 b))) (\<lambda>t2.
          Inr (if fless t1 t2 then 1 else 2)))
      else Inr (if lidar_buffer (ch1 b) \<noteq> [] then 1 else if lidar_buffer (ch2 b) \<noteq> [] then 2 else 0))"

definition push_second :: "(PointType list \<Rightarrow> PointType list) \<Rightarrow> 'i buffers \<Rightarrow> ub + 'i buffers" where
  "push_second to_lidar1 b =
     bind_ub (front (lidar_buffer (ch2 b))) (\<lambda>lidar2. bind_ub (front (time_buffer (ch2 b))) (\<lambda>beg.
       let lidar2 = to_lidar1 lidar2; c = scan_end lidar2 beg (write_front lidar2 (ch2 b))
       in Inr (b\<lparr>ch2 := c, lidar_pushed := True,
                 Measures := (Measures b)\<lparr>meas_lidar2 := lidar2, lidar_beg_time2 := beg, meas_end_time2 := lidar_end_time c\<rparr>\<rparr>)))"

definition finish_second :: "'i buffers \<Rightarrow> ub + bool \<times> 'i buffers" where
  "finish_second b =
     (let e = lidar_end_time (ch2 b)
      in if fless (last_timestamp_imu b) e then Inr (False, b)
         else bind_ub (take_imu [e] b) (\<lambda>b. bind_ub (pop_scan (ch2 b)) (\<lambda>c.
                Inr (True, b\<lparr>ch2 := c, lidar_pushed := False\<rparr>))))"

text \<open>\<open>sync_packages_async\<close>, with \<open>current_lidar_num\<close>.\<close>

definition sync_older :: "(PointType list \<Rightarrow> PointType list) \<Rightarrow> 'i buffers \<times> nat \<Rightarrow> ub + bool \<times> 'i buffers \<times> nat" where
  "sync_older to_lidar1 = (\<lambda>(b, num).
     if lidar_buffer (ch1 b) = [] \<and> lidar_buffer (ch2 b) = [] \<or> imu_buffer b = [] then Inr (False, b, num)
     else bind_ub (older_sensor b) (\<lambda>use.
       if use = 0 then Inr (False, b, num)
       else if use = 1 then
         bind_ub (if lidar_pushed b then Inr (b, num) else bind_ub (push_scan b) (\<lambda>b. Inr (b, 1))) (\<lambda>(b, num).
         bind_ub (finish_single b) (\<lambda>(done, b). Inr (done, b, num)))
       else
         bind_ub (if lidar_pushed b then Inr (b, num) else bind_ub (push_second to_lidar1 b) (\<lambda>b. Inr (b, 2))) (\<lambda>(b, num).
         bind_ub (finish_second b) (\<lambda>(done, b). Inr (done, b, num)))))"

section \<open>All scans at once\<close>

text \<open>The queued clouds of each sensor are appended to its first one, where it stands; the times of the
  points are left as they are.\<close>

definition merge_front :: "(PointType list \<Rightarrow> PointType list) \<Rightarrow> channel \<Rightarrow> ub + PointType list \<times> flt \<times> channel" where
  "merge_front f c =
     bind_ub (front (lidar_buffer c)) (\<lambda>_. bind_ub (front (time_buffer c)) (\<lambda>beg.
       let cloud = f (concat (lidar_buffer c)) in Inr (cloud, beg, scan_end cloud beg (write_front cloud c))))"

definition push_merged :: "(PointType list \<Rightarrow> PointType list) \<Rightarrow> 'i buffers \<Rightarrow> ub + 'i buffers" where
  "push_merged to_lidar1 b =
     bind_ub (merge_front (\<lambda>c. c) (ch1 b)) (\<lambda>(l1, beg1, c1). bind_ub (merge_front to_lidar1 (ch2 b)) (\<lambda>(l2, beg2, c2).
       Inr (b\<lparr>ch1 := c1, ch2 := c2, lidar_pushed := True,
              Measures := (Measures b)\<lparr>meas_lidar := l1, meas_lidar2 := l2, lidar_beg_time := beg1, lidar_beg_time2 := beg2,
                meas_end_time := lidar_end_time c1, meas_end_time2 := lidar_end_time c2\<rparr>\<rparr>)))"

definition clear_scans :: "channel \<Rightarrow> channel" where
  "clear_scans c = c\<lparr>lidar_buffer := [], time_buffer := []\<rparr>"

definition finish_merged :: "'i buffers \<Rightarrow> ub + bool \<times> 'i buffers" where
  "finish_merged b =
     (let e = lidar_end_time (ch1 b); e2 = lidar_end_time (ch2 b)
      in if fless (last_timestamp_imu b) e \<or> fless (last_timestamp_imu b) e2 then Inr (False, b)
         else bind_ub (take_imu [e, e2] b) (\<lambda>b.
                Inr (True, b\<lparr>ch1 := clear_scans (ch1 b), ch2 := clear_scans (ch2 b), lidar_pushed := False\<rparr>)))"

text \<open>\<open>sync_packages_bundle\<close>.\<close>

definition sync_merged :: "bool \<Rightarrow> (PointType list \<Rightarrow> PointType list) \<Rightarrow> 'i buffers \<Rightarrow> ub + bool \<times> 'i buffers" where
  "sync_merged multi to_lidar1 b =
     (if multi then
        if lidar_buffer (ch1 b) = [] \<or> lidar_buffer (ch2 b) = [] \<or> imu_buffer b = [] then Inr (False, b)
        else bind_ub (if lidar_pushed b then Inr b else push_merged to_lidar1 b) finish_merged
      else sync_single b)"

section \<open>The node\<close>

text \<open>The members \<open>bundle_enabled\<close>, \<open>bundle_enabled_tic\<close> and the thresholds of the switch. The counter
  is an \<open>int\<close> of 32 bits in the code; it grows by one with each matched scan, and does not come near
  its limit within years.\<close>

record thresholds =
  voxelized_pt_num_thres :: int
  effect_pt_num_ratio_thres :: flt
  bundle_enabled_tic_thres :: int

definition poor_match :: "thresholds \<Rightarrow> nat \<Rightarrow> nat \<Rightarrow> bool" where
  "poor_match T feats_down_size effect_feat_num \<longleftrightarrow> int feats_down_size < voxelized_pt_num_thres T \<and>
     fless (fdiv b64 (of_i b64 (int effect_feat_num)) (of_i b64 (int feats_down_size))) (effect_pt_num_ratio_thres T)"

definition adapt :: "thresholds \<Rightarrow> nat \<Rightarrow> nat \<Rightarrow> bool \<times> int \<Rightarrow> bool \<times> int" where
  "adapt T feats_down_size effect_feat_num = (\<lambda>(enabled, tic).
     let (enabled, tic) = (if poor_match T feats_down_size effect_feat_num then (True, 0)
                           else if bundle_enabled_tic_thres T < tic then (False, tic) else (enabled, tic))
     in (enabled, tic + 1))"

record ('i, 'n) adaptive_odometry =
  odo :: "('i, 'n) odometry"
  odo_inits :: "bool \<times> bool"
  current_lidar_num :: nat
  bundle_mode :: "bool \<times> int"
  effect_feat_num :: nat

text \<open>The matching leaves the number of effective points in \<open>effect_feat_num\<close>.\<close>

definition adaptive_update :: "('i, 'n, 'q, 'x, 'p, 'd) node \<Rightarrow> thresholds \<Rightarrow> PointType list \<Rightarrow> ('i, 'n) adaptive_odometry \<Rightarrow>
    stop + ('i, 'n) adaptive_odometry" where
  "adaptive_update N T down s = and_so (update_map N down (odo s)) (\<lambda>c.
     let n = length down;
         e = (if NUM_MAX_ITERATIONS N < 0 then effect_feat_num s else length (effective n (arrays c)))
     in Inr (s\<lparr>odo := c, effect_feat_num := e,
               bundle_mode := (if multi_lidar N then adapt T n e (bundle_mode s) else bundle_mode s)\<rparr>))"

definition adaptive_scan :: "('i, 'n, 'q, 'x, 'p, 'd) node \<Rightarrow> thresholds \<Rightarrow> PointType list \<Rightarrow> ('i, 'n) adaptive_odometry \<Rightarrow>
    stop + ('i, 'n) adaptive_odometry" where
  "adaptive_scan N T down s =
     (if uninitialised N (odo_inits s) (odo s)
      then and_so (init_map N (current_lidar_num s) down (odo_inits s) (odo s)) (\<lambda>(i, c). Inr (s\<lparr>odo := c, odo_inits := i\<rparr>))
      else if length down < 5 then Inr s else adaptive_update N T down s)"

definition adaptive_after :: "('i, 'n, 'q, 'x, 'p, 'd) node \<Rightarrow> thresholds \<Rightarrow> ('i, 'n) adaptive_odometry \<Rightarrow>
    stop + ('i, 'n) adaptive_odometry" where
  "adaptive_after N T s =
     (if feats_undistort (odo s) = [] then Inr s
      else and_so (move_map N (odo s)) (\<lambda>c. adaptive_scan N T (voxel_filter N (feats_undistort c)) (s\<lparr>odo := c\<rparr>)))"

definition adaptive_sync :: "('i, 'n, 'q, 'x, 'p, 'd) node \<Rightarrow> ('i, 'n) adaptive_odometry \<Rightarrow> ub + bool \<times> 'i buffers \<times> nat" where
  "adaptive_sync N s =
     (if fst (bundle_mode s)
      then bind_ub (sync_merged (multi_lidar N) (second_to_first N) (buffers_of (odo s))) (\<lambda>(done, b).
             Inr (done, b, current_lidar_num s))
      else sync_older (second_to_first N) (buffers_of (odo s), current_lidar_num s))"

text \<open>\<open>Process\<close>, with both sensors or for the current one.\<close>

definition adaptive_process :: "('i, 'n, 'q, 'x, 'p, 'd) node \<Rightarrow> ('i, 'n) adaptive_odometry \<Rightarrow> ('i, 'n) adaptive_odometry" where
  "adaptive_process N s = s\<lparr>odo :=
     (if fst (bundle_mode s) then process_bundle N (multi_lidar N) 1 (odo s)
      else process_bundle N False (current_lidar_num s) (odo s))\<rparr>"

definition adaptive_round :: "('i, 'n, 'q, 'x, 'p, 'd) node \<Rightarrow> thresholds \<Rightarrow> ('i, 'n) adaptive_odometry \<Rightarrow>
    stop + ('i, 'n) adaptive_odometry" where
  "adaptive_round N T s =
     and_so (faulty (adaptive_sync N s)) (\<lambda>(done, b, num).
       let s = s\<lparr>odo := (odo s)\<lparr>buffers_of := b\<rparr>, current_lidar_num := num\<rparr>
       in if done then adaptive_after N T (adaptive_process N s) else Inr s)"

section \<open>No access to an empty deque\<close>

definition times_cover :: "channel \<Rightarrow> bool" where
  "times_cover c \<longleftrightarrow> length (lidar_buffer c) \<le> length (time_buffer c)"

definition times_covered :: "'i buffers \<Rightarrow> bool" where
  "times_covered b \<longleftrightarrow> times_cover (ch1 b) \<and> times_cover (ch2 b)"

lemma times_cover_simps [simp]:
  "times_cover (scan_end l t c) = times_cover c" "times_cover (clear_scans c)"
  "times_cover c \<Longrightarrow> times_cover (append_scan a t l c)"
  by (simp_all add: times_cover_def clear_scans_def append_scan_def)

lemma write_front_cover [simp]: "lidar_buffer c \<noteq> [] \<Longrightarrow> times_cover (write_front l c) = times_cover c"
  by (cases "lidar_buffer c") (simp_all add: times_cover_def write_front_def)

lemma cover_Cons:
  assumes "times_cover c" "lidar_buffer c \<noteq> []"
  obtains l ls t ts where "lidar_buffer c = l # ls" "time_buffer c = t # ts" "length ls \<le> length ts"
  using assms by (cases "lidar_buffer c"; cases "time_buffer c") (auto simp: times_cover_def)

lemma pop_scan_cover:
  assumes "times_cover c" "lidar_buffer c \<noteq> []"
  shows "\<exists>c'. pop_scan c = Inr c' \<and> times_cover c' \<and> lidar_buffer c' = tl (lidar_buffer c)"
  using assms by (rule cover_Cons) (simp add: pop_scan_def times_cover_def)

lemma merge_front_cover:
  assumes "times_cover c" "lidar_buffer c \<noteq> []"
  shows "\<exists>l t c'. merge_front f c = Inr (l, t, c') \<and> times_cover c'"
  using assms by (rule cover_Cons) (simp add: merge_front_def Let_def times_cover_def write_front_def)

lemma finish_single_cover:
  assumes "times_covered b" "lidar_buffer (ch1 b) \<noteq> []" "imu_buffer b \<noteq> []"
  shows "\<exists>d b'. finish_single b = Inr (d, b') \<and> times_covered b'"
proof -
  obtain taken rest where t: "take_imu [lidar_end_time (ch1 b)] b =
      Inr (b\<lparr>Measures := (Measures b)\<lparr>meas_imu := taken\<rparr>, imu_buffer := rest\<rparr>)" using take_imu_spec [OF assms(3)] by blast
  show ?thesis using pop_scan_cover [of "ch1 b"] assms
    by (cases "fless (last_timestamp_imu b) (lidar_end_time (ch1 b))") (auto simp: finish_single_def t times_covered_def Let_def)
qed

lemma finish_second_cover:
  assumes "times_covered b" "lidar_buffer (ch2 b) \<noteq> []" "imu_buffer b \<noteq> []"
  shows "\<exists>d b'. finish_second b = Inr (d, b') \<and> times_covered b'"
proof -
  obtain taken rest where t: "take_imu [lidar_end_time (ch2 b)] b =
      Inr (b\<lparr>Measures := (Measures b)\<lparr>meas_imu := taken\<rparr>, imu_buffer := rest\<rparr>)" using take_imu_spec [OF assms(3)] by blast
  show ?thesis using pop_scan_cover [of "ch2 b"] assms
    by (cases "fless (last_timestamp_imu b) (lidar_end_time (ch2 b))") (auto simp: finish_second_def t times_covered_def Let_def)
qed

lemma finish_merged_cover:
  assumes "times_covered b" "imu_buffer b \<noteq> []"
  shows "\<exists>d b'. finish_merged b = Inr (d, b') \<and> times_covered b'"
proof -
  obtain taken rest where t: "take_imu [lidar_end_time (ch1 b), lidar_end_time (ch2 b)] b =
      Inr (b\<lparr>Measures := (Measures b)\<lparr>meas_imu := taken\<rparr>, imu_buffer := rest\<rparr>)" using take_imu_spec [OF assms(2)] by blast
  show ?thesis using assms
    by (cases "fless (last_timestamp_imu b) (lidar_end_time (ch1 b)) \<or> fless (last_timestamp_imu b) (lidar_end_time (ch2 b))")
      (auto simp: finish_merged_def t times_covered_def Let_def)
qed

text \<open>What closing a bundle leaves of it.\<close>

lemma take_imu_measures:
  assumes "take_imu es b = Inr b'"
  shows "Measures b' = (Measures b)\<lparr>meas_imu := meas_imu (Measures b')\<rparr> \<and> ch1 b' = ch1 b \<and> ch2 b' = ch2 b"
  using assms by (cases "imu_buffer b") (auto simp: take_imu_def split: prod.splits simp del: hand_over.simps)

lemma finish_single_measures:
  assumes "finish_single b = Inr (d, b')"
  shows "Measures b' = (Measures b)\<lparr>meas_imu := meas_imu (Measures b')\<rparr> \<and> ch2 b' = ch2 b \<and>
    (d \<longrightarrow> \<not> lidar_pushed b' \<and> lidar_buffer (ch1 b') = tl (lidar_buffer (ch1 b)))"
proof (cases "fless (last_timestamp_imu b) (lidar_end_time (ch1 b))")
  case False
  then obtain b1 c where "take_imu [lidar_end_time (ch1 b)] b = Inr b1" "pop_scan (ch1 b1) = Inr c"
    "b' = b1\<lparr>ch1 := c, lidar_pushed := False\<rparr>"
    using assms by (auto simp: finish_single_def bind_ub_Inr_iff)
  then show ?thesis using take_imu_measures [of "[lidar_end_time (ch1 b)]" b b1] by (auto simp: pop_scan_Inr)
qed (use assms in \<open>simp add: finish_single_def\<close>)

lemma finish_second_measures:
  assumes "finish_second b = Inr (d, b')"
  shows "Measures b' = (Measures b)\<lparr>meas_imu := meas_imu (Measures b')\<rparr> \<and> ch1 b' = ch1 b"
proof (cases "fless (last_timestamp_imu b) (lidar_end_time (ch2 b))")
  case False
  then obtain b1 c where "take_imu [lidar_end_time (ch2 b)] b = Inr b1" "b' = b1\<lparr>ch2 := c, lidar_pushed := False\<rparr>"
    using assms by (auto simp: finish_second_def bind_ub_Inr_iff)
  then show ?thesis using take_imu_measures [of "[lidar_end_time (ch2 b)]" b b1] by auto
qed (use assms in \<open>simp add: finish_second_def\<close>)

lemma push_scan_cover:
  assumes "times_covered b" "lidar_buffer (ch1 b) \<noteq> []"
  shows "\<exists>b'. push_scan b = Inr b' \<and> times_covered b' \<and> lidar_buffer (ch1 b') \<noteq> [] \<and> imu_buffer b' = imu_buffer b \<and>
    meas_lidar2 (Measures b') = meas_lidar2 (Measures b)"
proof -
  have "times_cover (ch1 b)" using assms(1) by (simp add: times_covered_def)
  then show ?thesis using assms by (elim cover_Cons [OF _ assms(2)]) (simp add: push_scan_def Let_def times_covered_def)
qed

lemma push_second_cover:
  assumes "times_covered b" "lidar_buffer (ch2 b) \<noteq> []"
  shows "\<exists>b'. push_second tf b = Inr b' \<and> times_covered b' \<and> lidar_buffer (ch2 b') \<noteq> [] \<and> imu_buffer b' = imu_buffer b \<and>
    meas_lidar (Measures b') = meas_lidar (Measures b)"
proof -
  have "times_cover (ch2 b)" using assms(1) by (simp add: times_covered_def)
  then show ?thesis using assms
    by (elim cover_Cons [OF _ assms(2)]) (simp add: push_second_def Let_def times_covered_def times_cover_def write_front_def)
qed

lemma older_sensor_cover:
  assumes "times_covered b" "lidar_buffer (ch1 b) \<noteq> [] \<or> lidar_buffer (ch2 b) \<noteq> []"
  obtains "older_sensor b = Inr 1" "lidar_buffer (ch1 b) \<noteq> []" | "older_sensor b = Inr 2" "lidar_buffer (ch2 b) \<noteq> []"
proof (cases "lidar_buffer (ch1 b) \<noteq> [] \<and> lidar_buffer (ch2 b) \<noteq> []")
  case True
  then obtain t1 ts1 t2 ts2 where "time_buffer (ch1 b) = t1 # ts1" "time_buffer (ch2 b) = t2 # ts2"
    using assms(1) unfolding times_covered_def times_cover_def
    by (cases "time_buffer (ch1 b)"; cases "time_buffer (ch2 b)") auto
  then show thesis using True that by (cases "fless t1 t2") (simp_all add: older_sensor_def)
next
  case False
  then show thesis using assms(2) that by (auto simp: older_sensor_def)
qed

lemma sync_older_cover:
  assumes "times_covered b"
  shows "\<exists>d b' num'. sync_older tf (b, num) = Inr (d, b', num') \<and> times_covered b' \<and>
    (num' = 2 \<longrightarrow> meas_lidar (Measures b') = meas_lidar (Measures b))"
proof (cases "lidar_buffer (ch1 b) = [] \<and> lidar_buffer (ch2 b) = [] \<or> imu_buffer b = []")
  case True
  then show ?thesis using assms by (auto simp: sync_older_def)
next
  case False
  then have ne: "lidar_buffer (ch1 b) \<noteq> [] \<or> lidar_buffer (ch2 b) \<noteq> []" "imu_buffer b \<noteq> []" by auto
  show ?thesis
  proof (rule older_sensor_cover [OF assms ne(1)])
    assume o: "older_sensor b = Inr 1" "lidar_buffer (ch1 b) \<noteq> []"
    obtain b1 num1 where p: "(if lidar_pushed b then Inr (b, num) else bind_ub (push_scan b) (\<lambda>b. Inr (b, 1))) = Inr (b1, num1)"
      "times_covered b1" "lidar_buffer (ch1 b1) \<noteq> []" "imu_buffer b1 \<noteq> []"
      "num1 = 2 \<longrightarrow> meas_lidar (Measures b1) = meas_lidar (Measures b)"
      using push_scan_cover [OF assms o(2)] assms o(2) ne(2) by (cases "lidar_pushed b") auto
    obtain d b2 where f: "finish_single b1 = Inr (d, b2)" "times_covered b2"
      using finish_single_cover [OF p(2-4)] by blast
    have "sync_older tf (b, num) = Inr (d, b2, num1)" using False o p(1) f(1) by (simp add: sync_older_def del: if_split)
    moreover have "meas_lidar (Measures b2) = meas_lidar (Measures b1)"
      using arg_cong [OF conjunct1 [OF finish_single_measures [OF f(1)]], of meas_lidar] by simp
    ultimately show ?thesis using f(2) p(5) by auto
  next
    assume o: "older_sensor b = Inr 2" "lidar_buffer (ch2 b) \<noteq> []"
    obtain b1 num1 where p: "(if lidar_pushed b then Inr (b, num) else bind_ub (push_second tf b) (\<lambda>b. Inr (b, 2))) = Inr (b1, num1)"
      "times_covered b1" "lidar_buffer (ch2 b1) \<noteq> []" "imu_buffer b1 \<noteq> []"
      "meas_lidar (Measures b1) = meas_lidar (Measures b)"
      using push_second_cover [OF assms o(2), of tf] assms o(2) ne(2) by (cases "lidar_pushed b") auto
    obtain d b2 where f: "finish_second b1 = Inr (d, b2)" "times_covered b2"
      using finish_second_cover [OF p(2-4)] by blast
    have "sync_older tf (b, num) = Inr (d, b2, num1)" using False o p(1) f(1) by (simp add: sync_older_def del: if_split)
    moreover have "meas_lidar (Measures b2) = meas_lidar (Measures b1)"
      using arg_cong [OF conjunct1 [OF finish_second_measures [OF f(1)]], of meas_lidar] by simp
    ultimately show ?thesis using f(2) p(5) by auto
  qed
qed

lemma sync_merged_cover:
  assumes "times_covered b"
  shows "\<exists>d b'. sync_merged True tf b = Inr (d, b') \<and> times_covered b'"
proof (cases "lidar_buffer (ch1 b) = [] \<or> lidar_buffer (ch2 b) = [] \<or> imu_buffer b = []")
  case True
  then show ?thesis using assms by (auto simp: sync_merged_def)
next
  case False
  obtain l1 t1 c1 l2 t2 c2 where m: "merge_front (\<lambda>c. c) (ch1 b) = Inr (l1, t1, c1)" "times_cover c1"
    "merge_front tf (ch2 b) = Inr (l2, t2, c2)" "times_cover c2"
    using merge_front_cover [of "ch1 b"] merge_front_cover [of "ch2 b"] False assms unfolding times_covered_def by metis
  obtain b1 where p: "(if lidar_pushed b then Inr b else push_merged tf b) = Inr b1" "times_covered b1" "imu_buffer b1 \<noteq> []"
    using m False assms by (cases "lidar_pushed b") (simp_all add: push_merged_def times_covered_def)
  obtain d b2 where "finish_merged b1 = Inr (d, b2)" "times_covered b2" using finish_merged_cover [OF p(2,3)] by blast
  then show ?thesis using False p(1) by (simp add: sync_merged_def)
qed

section \<open>Runs\<close>

text \<open>Any interleaving of messages and calls, each call in one of the two modes.\<close>

datatype 'i adaptive_event = Message "'i event" | Older | Merged

fun receive :: "'i event \<Rightarrow> 'i buffers \<Rightarrow> 'i buffers" where
  "receive (Scan t c) b = adaptive_cbk False t c b"
| "receive (Scan2 t c) b = adaptive_cbk True t c b"
| "receive (Imu m) b = imu_cbk m b"
| "receive Sync b = b"

inductive adaptive_run :: "(PointType list \<Rightarrow> PointType list) \<Rightarrow> 'i adaptive_event list \<Rightarrow> 'i buffers \<times> nat \<Rightarrow> bool" for tf where
  start: "adaptive_run tf [] (new_buffers e e2, 1)"
| message: "adaptive_run tf es (b, n) \<Longrightarrow> adaptive_run tf (es @ [Message m]) (receive m b, n)"
| older: "adaptive_run tf es (b, n) \<Longrightarrow> sync_older tf (b, n) = Inr (d, b', n') \<Longrightarrow> adaptive_run tf (es @ [Older]) (b', n')"
| merged: "adaptive_run tf es (b, n) \<Longrightarrow> sync_merged True tf b = Inr (d, b') \<Longrightarrow> adaptive_run tf (es @ [Merged]) (b', n)"

lemma receive_covered: "times_covered b \<Longrightarrow> times_covered (receive m b)"
  by (cases m) (auto simp: times_covered_def adaptive_cbk_def imu_cbk_def times_cover_def append_scan_def Let_def)

lemma adaptive_run_covered:
  assumes "adaptive_run tf es s"
  shows "times_covered (fst s)"
  using assms
proof (induction rule: adaptive_run.induct)
  case (start e e2)
  show ?case by (simp add: new_buffers_def new_channel_def times_covered_def times_cover_def)
next
  case (message es b n m)
  then show ?case using receive_covered by simp
next
  case (older es b n d b' n')
  then show ?case using sync_older_cover [of b tf n] by auto
next
  case (merged es b n d b')
  then show ?case using sync_merged_cover [of b tf] by auto
qed

section \<open>Scans that are lost\<close>

text \<open>A scan of the second sensor is held and waits for the IMU. An older scan of the first sensor that
  arrives meanwhile is popped in its place, and the held scan stays in its queue.\<close>

lemma older_scan_lost:
  assumes "lidar_pushed b" "lidar_buffer (ch1 b) = []" "time_buffer (ch1 b) = []"
    and "lidar_buffer (ch2 b) \<noteq> []" "time_buffer (ch2 b) = t2 # ts" "fless t1 t2"
    and "sync_older tf (adaptive_cbk False t1 c b, 2) = Inr (True, b', num)"
  shows "lidar_buffer (ch1 b') = []" "ch2 b' = ch2 b" "num = 2" "\<not> lidar_pushed b'"
    "Measures b' = (Measures b)\<lparr>meas_imu := meas_imu (Measures b')\<rparr>"
proof -
  let ?b = "adaptive_cbk False t1 c b"
  have q: "lidar_buffer (ch1 ?b) = [c]" "time_buffer (ch1 ?b) = [t1]" "ch2 ?b = ch2 b" "lidar_pushed ?b" "Measures ?b = Measures b"
    "imu_buffer ?b = imu_buffer b"
    using assms(1-3) by (simp_all add: adaptive_cbk_def append_scan_def Let_def)
  have o: "older_sensor ?b = Inr 1" using assms(4-6) q by (simp add: older_sensor_def)
  have "imu_buffer b \<noteq> []" using assms(7) q by (auto simp: sync_older_def)
  then have "finish_single ?b = Inr (True, b')" "num = 2"
    using assms(7) q o by (auto simp: sync_older_def bind_ub_Inr_iff)
  from finish_single_measures [OF this(1)] this(2) q
  show "lidar_buffer (ch1 b') = []" "ch2 b' = ch2 b" "num = 2" "\<not> lidar_pushed b'"
    "Measures b' = (Measures b)\<lparr>meas_imu := meas_imu (Measures b')\<rparr>" by simp_all
qed

text \<open>Bundling all scans clears the queues; what arrived after the clouds were merged was in neither.\<close>

lemma merged_clears:
  assumes "lidar_pushed b" "sync_merged True tf b = Inr (True, b')"
  shows "lidar_buffer (ch1 b') = [] \<and> lidar_buffer (ch2 b') = [] \<and>
    Measures b' = (Measures b)\<lparr>meas_imu := meas_imu (Measures b')\<rparr>"
proof -
  have f: "finish_merged b = Inr (True, b')" using assms by (auto simp: sync_merged_def split: if_splits)
  show ?thesis
  proof (cases "fless (last_timestamp_imu b) (lidar_end_time (ch1 b)) \<or> fless (last_timestamp_imu b) (lidar_end_time (ch2 b))")
    case False
    then obtain b1 where "take_imu [lidar_end_time (ch1 b), lidar_end_time (ch2 b)] b = Inr b1"
      "b' = b1\<lparr>ch1 := clear_scans (ch1 b1), ch2 := clear_scans (ch2 b1), lidar_pushed := False\<rparr>"
      using f by (auto simp: finish_merged_def bind_ub_Inr_iff Let_def)
    then show ?thesis using take_imu_measures [of _ b b1] by (simp add: clear_scans_def)
  qed (use f in \<open>simp add: finish_merged_def Let_def\<close>)
qed

section \<open>The second sensor\<close>

lemma push_second_measures: "push_second tf b = Inr b' \<Longrightarrow> meas_lidar (Measures b') = meas_lidar (Measures b)"
  by (auto simp: push_second_def bind_ub_Inr_iff Let_def)

lemma second_unused:
  assumes "sync_older tf (b, n) = Inr (True, b', 2)"
  shows "meas_lidar (Measures b') = meas_lidar (Measures b)"
proof -
  obtain use where o: "older_sensor b = Inr use" "use \<noteq> 0"
    using assms by (auto simp: sync_older_def bind_ub_Inr_iff split: if_splits)
  obtain b1 num where p: "meas_lidar (Measures b1) = meas_lidar (Measures b)"
    "(if use = 1 then finish_single b1 else finish_second b1) = Inr (True, b')"
  proof (cases "use = 1")
    case True
    then show thesis using assms o that by (auto simp: sync_older_def bind_ub_Inr_iff split: if_splits)
  next
    case False
    then obtain b1 where "finish_second b1 = Inr (True, b')" "b1 = b \<or> push_second tf b = Inr b1"
      using assms o by (auto simp: sync_older_def bind_ub_Inr_iff split: if_splits)
    then show thesis using that [of b1] push_second_measures False by auto
  qed
  have "Measures b' = (Measures b1)\<lparr>meas_imu := meas_imu (Measures b')\<rparr>"
    using p(2) finish_single_measures finish_second_measures by (cases "use = 1") force+
  from arg_cong [OF this, of meas_lidar] p(1) show ?thesis by simp
qed

section \<open>The switch\<close>

lemma adapt_poor: "poor_match T n e \<Longrightarrow> adapt T n e m = (True, 1)"
  by (simp add: adapt_def split: prod.split)

lemma adapt_good: "\<not> poor_match T n e \<Longrightarrow> adapt T n e (en, tic) = (en \<and> tic \<le> bundle_enabled_tic_thres T, tic + 1)"
  by (auto simp: adapt_def)

text \<open>The mode after a poor match and then some good ones.\<close>

lemma adapt_after_poor:
  assumes "poor_match T n e" "\<forall>(n, e) \<in> set ms. \<not> poor_match T n e"
  shows "fold (\<lambda>(n, e). adapt T n e) ((n, e) # ms) st =
    (ms = [] \<or> int (length ms) \<le> bundle_enabled_tic_thres T, 1 + int (length ms))"
proof -
  have "fold (\<lambda>(n, e). adapt T n e) ms (True, 1) =
      (ms = [] \<or> int (length ms) \<le> bundle_enabled_tic_thres T, 1 + int (length ms))"
    using assms(2)
  proof (induction ms rule: rev_induct)
    case (snoc m ms)
    obtain a b where m: "m = (a, b)" by (cases m)
    have "\<not> poor_match T a b" using snoc.prems by (simp add: m)
    then show ?case using snoc by (auto simp: m adapt_good)
  qed simp
  then show ?thesis using assms(1) by (simp add: adapt_poor)
qed

section \<open>The node as a state machine\<close>

definition new_adaptive :: "('i, 'n) odometry \<Rightarrow> ('i, 'n) adaptive_odometry" where
  "new_adaptive c = \<lparr>odo = c, odo_inits = (False, False), current_lidar_num = 1, bundle_mode = (False, 10000), effect_feat_num = 0\<rparr>"

inductive adaptive_node :: "('i, 'n, 'q, 'x, 'p, 'd) node \<Rightarrow> thresholds \<Rightarrow> 'i event list \<Rightarrow> ('i, 'n) adaptive_odometry \<Rightarrow> bool"
  for N T where
  start: "adaptive_node N T [] (new_adaptive (new_odometry N e e2 junk r default_imu n))"
| message: "adaptive_node N T es s \<Longrightarrow> m \<noteq> Sync \<Longrightarrow>
    adaptive_node N T (es @ [m]) (s\<lparr>odo := (odo s)\<lparr>buffers_of := receive m (buffers_of (odo s))\<rparr>\<rparr>)"
| round: "adaptive_node N T es s \<Longrightarrow> adaptive_round N T s = Inr s' \<Longrightarrow> adaptive_node N T (es @ [Sync]) s'"

lemma update_map_buffers: "update_map N down s = Inr s' \<Longrightarrow> buffers_of s' = buffers_of s"
  by (auto simp: update_map_def and_so_Inr)

lemma init_map_buffers: "init_map N num down i s = Inr (i', s') \<Longrightarrow> buffers_of s' = buffers_of s"
  by (cases "5 < length down") (auto simp: init_map_def grow_map_def and_so_Inr Let_def)

lemma adaptive_after_buffers:
  assumes "adaptive_after N T s = Inr s'"
  shows "buffers_of (odo s') = buffers_of (odo s) \<and> current_lidar_num s' = current_lidar_num s"
proof (cases "feats_undistort (odo s) = []")
  case False
  then obtain c where c: "move_map N (odo s) = Inr c" "adaptive_scan N T (voxel_filter N (feats_undistort c)) (s\<lparr>odo := c\<rparr>) = Inr s'"
    using assms unfolding adaptive_after_def by (auto simp: and_so_Inr)
  have b: "buffers_of c = buffers_of (odo s)" using c(1) by (auto simp: move_map_def and_so_Inr)
  let ?down = "voxel_filter N (feats_undistort c)"
  show ?thesis
  proof (cases "uninitialised N (odo_inits s) c")
    case True
    then show ?thesis using c(2) b init_map_buffers by (fastforce simp: adaptive_scan_def and_so_Inr)
  next
    case u: False
    show ?thesis
    proof (cases "length ?down < 5")
      case True
      then show ?thesis using c(2) u b by (auto simp: adaptive_scan_def)
    next
      case l: False
      then show ?thesis using c(2) u b update_map_buffers
        by (fastforce simp: adaptive_scan_def adaptive_update_def and_so_Inr Let_def)
    qed
  qed
qed (use assms in \<open>simp add: adaptive_after_def\<close>)

lemma adaptive_process_frame [simp]:
  "buffers_of (odo (adaptive_process N s)) = buffers_of (odo s)" "current_lidar_num (adaptive_process N s) = current_lidar_num s"
  by (simp_all add: adaptive_process_def)

text \<open>The buffers of the node go through a run of the synchroniser.\<close>

lemma adaptive_node_run:
  assumes "adaptive_node N T es s" "multi_lidar N"
  shows "\<exists>es'. adaptive_run (second_to_first N) es' (buffers_of (odo s), current_lidar_num s)"
  using assms(1)
proof (induction rule: adaptive_node.induct)
  case (start e e2 junk r default_imu n)
  show ?case using adaptive_run.start [of _ e e2] by (auto simp: new_adaptive_def new_odometry_def)
next
  case (message es s m)
  then obtain es' where "adaptive_run (second_to_first N) es' (buffers_of (odo s), current_lidar_num s)" by blast
  from adaptive_run.message [OF this, of m] show ?case by auto
next
  case (round es s s')
  obtain es' where es': "adaptive_run (second_to_first N) es' (buffers_of (odo s), current_lidar_num s)" using round.IH by blast
  obtain d b num where r: "adaptive_sync N s = Inr (d, b, num)"
    "(let s = s\<lparr>odo := (odo s)\<lparr>buffers_of := b\<rparr>, current_lidar_num := num\<rparr>
      in if d then adaptive_after N T (adaptive_process N s) else Inr s) = Inr s'"
    using round.hyps(2) by (auto simp: adaptive_round_def and_so_Inr faulty_def split: sum.splits)
  have s': "buffers_of (odo s') = b \<and> current_lidar_num s' = num"
    using r(2) adaptive_after_buffers by (cases d) (fastforce simp: Let_def)+
  show ?case
  proof (cases "fst (bundle_mode s)")
    case True
    then have "sync_merged True (second_to_first N) (buffers_of (odo s)) = Inr (d, b)" "num = current_lidar_num s"
      using r(1) assms(2) by (auto simp: adaptive_sync_def bind_ub_Inr_iff)
    then show ?thesis using adaptive_run.merged [OF es'] s' by metis
  next
    case False
    then have "sync_older (second_to_first N) (buffers_of (odo s), current_lidar_num s) = Inr (d, b, num)"
      using r(1) by (simp add: adaptive_sync_def)
    then show ?thesis using adaptive_run.older [OF es'] s' by metis
  qed
qed

lemma adaptive_sync_succeeds:
  assumes "adaptive_node N T es s" "multi_lidar N"
  shows "\<exists>d b num. adaptive_sync N s = Inr (d, b, num)"
proof -
  obtain es' where "adaptive_run (second_to_first N) es' (buffers_of (odo s), current_lidar_num s)"
    using adaptive_node_run [OF assms] by blast
  from adaptive_run_covered [OF this] have c: "times_covered (buffers_of (odo s))" by simp
  show ?thesis using sync_merged_cover [OF c] sync_older_cover [OF c] assms(2)
    by (cases "fst (bundle_mode s)") (auto simp: adaptive_sync_def bind_ub_Inr_iff, metis+)
qed

text \<open>When the scans are bundled one by one, a bundle of the second sensor makes the node compensate the
  last cloud of the first sensor again, with the times of the second.\<close>

lemma second_cloud_unused:
  assumes "\<not> fst (bundle_mode s)" "adaptive_sync N s = Inr (True, b, 2)"
    and "sorts_by_time (sort_of N)" "no_nan (meas_lidar (Measures b))" "no_nan (meas_lidar2 (Measures b))"
    and "meas_imu (Measures b) \<noteq> []" "\<not> imu_need_init (p_imu (odo s))"
    and "forward (motion_of N) (lidar_beg_time2 (Measures b)) (meas_end_time2 (Measures b)) (meas_imu (Measures b))
      (p_imu (odo s)) (numbers (odo s)) = (x, poses, p)"
  shows "feats_undistort (odo (adaptive_process N (s\<lparr>odo := (odo s)\<lparr>buffers_of := b\<rparr>, current_lidar_num := 2\<rparr>))) =
    undistorted (motion_of N) x poses (sort_of N (meas_lidar (Measures (buffers_of (odo s)))))"
proof -
  have m: "meas_lidar (Measures b) = meas_lidar (Measures (buffers_of (odo s)))"
    using second_unused assms(1,2) by (fastforce simp: adaptive_sync_def)
  have "Process (motion_of N) (sort_of N) False 2 (Measures b) (p_imu (odo s)) (numbers (odo s)) (feats_undistort (odo s)) =
      (p, x, undistorted (motion_of N) x poses (sort_of N (meas_lidar (Measures b))))"
    using Process_reference [OF assms(3-7), of "motion_of N" False 2 "numbers (odo s)" x poses p] assms(8)
    by (simp add: bundle_beg_def bundle_end_def)
  then show ?thesis using assms(1) m by (simp add: adaptive_process_def process_bundle_def)
qed

end
