(* ===== verification/Lio_Variant_Samples.thy ===== *)
theory Lio_Variant_Samples
  imports Lio_Adaptive Lio_Samples
begin

text \<open>
  Concrete runs of the asynchronous and the adaptive variants of the node, for the witnesses.
\<close>

section \<open>The asynchronous variant\<close>

fun async_exec :: "(PointType list \<Rightarrow> PointType list) \<Rightarrow> 'i event list \<Rightarrow> 'i async \<Rightarrow> ub + (nat \<times> 'i MeasureGroup) list \<times> 'i async" where
  "async_exec tf [] s = Inr ([], s)"
| "async_exec tf (Scan t c # es) s = async_exec tf es (async_cbk False t c s)"
| "async_exec tf (Scan2 t c # es) s = async_exec tf es (async_cbk True t c s)"
| "async_exec tf (Imu m # es) s = async_exec tf es (s\<lparr>bufs := imu_cbk m (bufs s)\<rparr>)"
| "async_exec tf (Sync # es) s = bind_ub (sync_async tf s) (\<lambda>(b, s).
     bind_ub (async_exec tf es s) (\<lambda>(bs, s'). Inr (if b then (current s, Measures (bufs s)) # bs else bs, s')))"

lemma async_exec_run:
  assumes "async_run tf s0 es bs s" "async_exec tf es' s = Inr (bs', s')"
  shows "async_run tf s0 (es @ es') (bs @ bs') s'"
  using assms
proof (induction es' arbitrary: es bs s bs')
  case (Cons e es')
  show ?case
  proof (cases e)
    case (Scan t c)
    then show ?thesis using Cons.IH [OF async_run.scan [OF Cons.prems(1)]] Cons.prems(2) by simp
  next
    case (Scan2 t c)
    then show ?thesis using Cons.IH [OF async_run.scan2 [OF Cons.prems(1)]] Cons.prems(2) by simp
  next
    case (Imu m)
    then show ?thesis using Cons.IH [OF async_run.imu [OF Cons.prems(1)]] Cons.prems(2) by simp
  next
    case Sync
    then obtain b s1 bs1 where s1: "sync_async tf s = Inr (b, s1)" "async_exec tf es' s1 = Inr (bs1, s')"
      "bs' = (if b then (current s1, Measures (bufs s1)) # bs1 else bs1)"
      using Cons.prems(2) by (auto simp: bind_ub_Inr_iff split: prod.splits if_splits)
    show ?thesis
    proof (cases b)
      case True
      then show ?thesis using Cons.IH [OF async_run.bundled [OF Cons.prems(1)] s1(2)] s1 Sync by simp
    next
      case False
      then show ?thesis using Cons.IH [OF async_run.waiting [OF Cons.prems(1)] s1(2)] s1 Sync by simp
    qed
  qed
qed simp

definition merged_events :: "unit event list" where
  "merged_events = [Scan (Num 16) (sample_scan 4), Scan2 (Num 17) (sample_scan 5), Imu (imu_at 15), Imu (imu_at 18), Sync]"

lemmas eval_async = async_cbk_def append_scan_def last_of_def sync_async_def push_async_def new_async_def scan_of_bundle_def

lemma sample_async:
  "\<exists>bs s. async_exec id merged_events (new_async (Num 0) (Num 0)) = Inr (bs, s) \<and> length bs = 1"
  by (simp add: merged_events_def eval_async eval_sync cong: bind_ub_weak_cong)

text \<open>A scan is queued when a stamp goes back.\<close>

definition before_loop_back :: "unit async" where
  "before_loop_back = async_cbk False (Num 16) (sample_scan 4) (new_async (Num 0) (Num 0))"

lemma before_loop_back_run:
  "async_run id (new_async (Num 0) (Num 0)) [Scan (Num 16) (sample_scan 4)] [] before_loop_back"
  using async_run.scan [OF async_run.start, of id "new_async (Num 0) (Num 0)" "Num 16" "sample_scan 4"]
  by (simp add: before_loop_back_def)

lemma before_loop_back_simps:
  "\<not> lidar_pushed (bufs before_loop_back)" "last_of False (bufs before_loop_back) = Num 16"
  "time_buffer (ch1 (bufs before_loop_back)) = [Num 16]"
  by (simp_all add: before_loop_back_def async_cbk_def append_scan_def last_of_def new_async_def new_buffers_def new_channel_def Let_def)

definition after_loop_back :: "unit event list" where
  "after_loop_back = [Imu (imu_at 15), Imu (imu_at 18), Sync]"

lemma sample_desync:
  "\<exists>bs s'. async_exec id after_loop_back (async_cbk False (Num 10) (sample_scan 5) before_loop_back) = Inr (bs, s') \<and> length bs = 1"
  by (simp add: after_loop_back_def before_loop_back_def eval_async eval_sync cong: bind_ub_weak_cong)

section \<open>The adaptive variant\<close>

text \<open>The second sensor's scan is held; the IMU has reached its end.\<close>

lemma sample_held:
  "\<exists>b. sync_older id (imu_cbk (imu_at 16) (adaptive_cbk True (Num 17) (sample_scan 5) (new_buffers (Num 0) (Num 0))), 1) =
      Inr (False, b, 2) \<and> lidar_pushed b \<and> lidar_buffer (ch1 b) = [] \<and> time_buffer (ch1 b) = [] \<and>
    lidar_buffer (ch2 b) = [sample_scan 5] \<and> time_buffer (ch2 b) = [Num 17] \<and>
    (\<exists>b'. sync_older id (adaptive_cbk False (Num 15) (sample_scan 4) (imu_cbk (imu_at 18) b), 2) = Inr (True, b', 2))"
  by (simp add: adaptive_cbk_def append_scan_def sync_older_def older_sensor_def push_second_def finish_second_def eval_sync
      cong: bind_ub_weak_cong)

text \<open>A scan of the second sensor, after one of the first has been bundled.\<close>

definition second_buffers :: "unit buffers" where
  "second_buffers = (let b = imu_cbk (imu_at 18) (imu_cbk (imu_at 16) (adaptive_cbk True (Num 17) (sample_scan 5) (new_buffers (Num 0) (Num 0))))
     in b\<lparr>Measures := (Measures b)\<lparr>meas_lidar := sample_scan 9\<rparr>\<rparr>)"

definition second_state :: "(unit, unit) adaptive_odometry" where
  "second_state = new_adaptive ((new_odometry sample_node (Num 0) (Num 0) (Num 0) (Num 0) (imu_at 0) ())
     \<lparr>buffers_of := second_buffers, p_imu := (new_ImuProcess (Num 0) (imu_at 0))\<lparr>imu_need_init := False\<rparr>\<rparr>)"

lemma sample_second:
  "\<exists>b. adaptive_sync sample_node second_state = Inr (True, b, 2) \<and> meas_imu (Measures b) \<noteq> [] \<and>
    meas_lidar (Measures b) = sample_scan 9 \<and> meas_lidar2 (Measures b) = sample_scan 5"
  by (simp add: adaptive_sync_def second_state_def new_adaptive_def second_buffers_def sample_node_def adaptive_cbk_def append_scan_def
      sync_older_def older_sensor_def push_second_def finish_second_def eval_sync cong: bind_ub_weak_cong)

definition sample_thresholds :: thresholds where
  "sample_thresholds = \<lparr>voxelized_pt_num_thres = 100, effect_pt_num_ratio_thres = Num (1 / 2), bundle_enabled_tic_thres = 5\<rparr>"

lemma sample_poor: "poor_match sample_thresholds 64 16"
proof -
  have "fdiv b64 (of_i b64 16) (of_i b64 64) = Num (1 / 4)" using fround_dyadic(2) [of 1 2] by (simp add: of_i_def)
  then show ?thesis by (simp add: poor_match_def sample_thresholds_def)
qed

end
