(* ===== verification/Spec2Isabelle.thy ===== *)
theory Spec2Isabelle
  imports Samples Protocol_Detector Async_Serial Livox_Samples Ikd_Samples Lio_Samples Lio_Variant_Samples
begin

text \<open>
  The control and device protocol layers, the point map and the LiDAR inertial odometry of the AGILEX
  workspace.

  The repository is a ROS workspace for AgileX mobile robots. Its own logic lies in the C and C++
  code that talks to the hardware and in the LiDAR odometry. The four parts modelled here are
  independent of each other, but for the odometry, which works on the point map.
  \<^item> \<open>src/src/ugv_sdk\<close> drives the robot base over CAN: a codec per protocol version turns CAN frames
    into messages and back, \<open>AgilexBase<Parser>\<close> sends commands through the codec and stores what
    arrives, one class per robot builds on it, and the ports move bytes and frames.
  \<^item> \<open>src/src/Livox-SDK2/sdk_core\<close> drives the lidar over UDP: requests are built as key value lists,
    packed into packets with two checksums, sent and registered until they are acknowledged; the
    lidar pushes state reports that are parsed and turned into JSON.
  \<^item> \<open>src/lio_ws/src/FAST_LIO_MULTI/include/ikd-Tree\<close> keeps the point map of the odometry: a kd-tree
    that is changed in place, with deletions that are only marked, partial rebuilds and downsampling.
  \<^item> \<open>src/lio_ws/src/FAST_LIO_MULTI/src\<close> is the odometry: callbacks store the preprocessed scans of one
    or two lidars and the samples of the IMU in deques, the main loop bundles them, compensates the
    motion during the scan, moves the local map, matches the scan against the map in the iterations of
    a Kalman filter, and adds it to the map.

  Theories and sources.
  \<^item> \<open>Prelude\<close>: machine integers as words, byte order, undefined behaviour as a value (\<open>ub + 'a\<close>).
    \<open>Memory\<close>: bounded reads and writes, little endian integers.
  \<^item> \<open>Ieee\<close>, \<open>Quantise\<close>: binary32 and binary64 over the rationals with correct rounding; the
    conversions between counts and physical units with their error bounds.
  \<^item> \<open>Agx_Types\<close>, \<open>Frames_V2\<close>, \<open>Parser_Interface\<close>: \<open>agilex_types.h\<close>, \<open>agilex_message.h\<close>,
    \<open>agilex_protocol_v2.h\<close>, \<open>parser_base.hpp\<close>. The locale \<open>can_parser\<close> is what the robot classes rely
    on; both codecs interpret it.
  \<^item> \<open>Codec_V2\<close>, \<open>Codec_V1\<close>: \<open>agilex_msg_parser_v2.c\<close>, \<open>agilex_msg_parser_v1.c\<close> with the static
    counters of the encoders as state, \<open>protocol_v1_parser.hpp\<close> and \<open>robot_limits.hpp\<close>.
  \<^item> \<open>Agilex_Base\<close>, \<open>Robot_Parsers\<close>, \<open>Robots\<close>, \<open>Session\<close>: \<open>agilex_base.hpp\<close> over any parser, its
    instances, the robot classes with their wrappers, and runs of one robot object.
  \<^item> \<open>Bounded_Fifo\<close>, \<open>Ring_Buffer\<close>, \<open>Async_Serial\<close>: the locale of a bounded queue, its implementation
    \<open>ring_buffer.hpp\<close> (an interpretation), and the transmit side of \<open>async_serial.cpp\<close> as a step
    relation in which clients, the io thread and the port interleave.
  \<^item> \<open>Protocol_Detector\<close>: \<open>protocol_detector.cpp\<close>.
  \<^item> \<open>Livox_Protocol\<close>: \<open>comm/sdk_protocol.cpp\<close>, \<open>comm_port.cpp\<close>, \<open>generate_seq.cpp\<close>. The locale
    \<open>packet_protocol\<close> is the virtual interface of \<open>comm/protocol.h\<close>, interpreted for the SDK protocol
    over any two checksum functions.
  \<^item> \<open>Livox_Request\<close>, \<open>Livox_Commands\<close>: \<open>build_request.cpp\<close> and \<open>command_impl.cpp\<close>.
  \<^item> \<open>Livox_State\<close>, \<open>Livox_Json\<close>: \<open>parse_lidar_state_info.cpp\<close>.
  \<^item> \<open>Livox_Handler\<close>: the command table of \<open>general_command_handler.cpp\<close> with the senders of the
    device handlers, as a state that calls, registrations, datagrams and clock readings change.
  \<^item> \<open>Ieee_Order\<close>, \<open>Manual_Heap\<close>: the order of the floating-point values and monotone rounding; the
    heap of \<open>ikd_Tree.h\<close> over any comparison, with the locale \<open>weak_order\<close> for the contract that
    makes it a heap, interpreted for the entries of the search.
  \<^item> \<open>Ikd_Tree\<close>, \<open>Ikd_Search\<close>, \<open>Ikd_Object\<close>: nodes, marks, summaries, building and the recursive
    updates of \<open>ikd_Tree.cpp\<close>; its searches; the public operations on an object. \<open>Ikd_Invariant\<close>,
    \<open>Ikd_Update\<close>, \<open>Ikd_Nearest\<close>, \<open>Ikd_Session\<close>: the invariant and what the operations do to the
    multiset of points. \<open>std::nth_element\<close> is the locale \<open>selection\<close>, interpreted for sorting.
  \<^item> \<open>Lio_Preprocess\<close>: \<open>preprocess.cpp\<close>, the handlers of the Livox, Ouster and Velodyne messages.
  \<^item> \<open>Lio_Sync\<close>: the globals, callbacks and \<open>sync_packages\<close> of \<open>laserMapping_bundle.cpp\<close>; \<open>Lio_Runs\<close>,
    \<open>Lio_Bundles\<close>: its runs under any interleaving of messages and calls, with their invariants.
  \<^item> \<open>Lio_Map\<close>, \<open>Lio_Match\<close>: \<open>lasermap_fov_segment\<close>, \<open>map_incremental\<close> and \<open>h_share_model\<close> of the same
    file and \<open>esti_plane\<close> of \<open>common_lib.h\<close>, on the kd-tree of \<open>Ikd_Object\<close>.
  \<^item> \<open>Lio_Undistort\<close>: \<open>ImuProcess\<close> of \<open>IMU_Processing.hpp\<close>; \<open>Lio_Filter\<close>: the loop of
    \<open>update_iterated_dyn_share_modified\<close> of \<open>esekfom.hpp\<close>.
  \<^item> \<open>Lio_Loop\<close>: the main loop of \<open>laserMapping_bundle.cpp\<close> over all of these; \<open>lio_run\<close> is the node as a
    state machine whose steps are the callbacks and the rounds of the loop.
  \<^item> \<open>Lio_Async\<close>, \<open>Lio_Adaptive\<close>: the variants of the node, \<open>laserMapping_async.cpp\<close> and
    \<open>laserMapping_adaptive.cpp\<close>, where they differ: their deques, the initialisation of the map by both
    sensors, the switch between bundling one scan and all of them.
  \<^item> \<open>Samples\<close>, \<open>Livox_Samples\<close>, \<open>Ikd_Samples\<close>, \<open>Lio_Samples\<close>, \<open>Lio_Variant_Samples\<close>: the
    concrete objects of the witnesses.

  State and operations. A class is a record of its members, a method a function of the same name
  on it. C enumerations are words, \<open>float\<close> is \<open>flt\<close>, a union is a datatype with the member last
  written. Undefined behaviour is an error value, so a theorem that an operation gives \<open>Inr\<close> says
  that none occurs. Indeterminate data (uninitialised variables, stack bytes) is an argument, named
  \<open>junk\<close> or \<open>locals\<close>, and the theorems hold for all of it. Code outside the model (asio, CAN sockets,
  UDP sockets, clocks, the checksum and JSON libraries, the time zone) is an argument or a list of
  observations or calls. The odometry takes these as arguments: the matrices of Eigen and IKFoM (the
  steps of the filter, the transform to the world, the compensation of a point, the solution of the
  plane equations), the voxel filter and the transform of PCL, \<open>atan2\<close>, \<open>std::sort\<close> and
  \<open>std::nth_element\<close>.

  The groups of lemmas. Codecs: acceptance, round trips, what the checksum protects, ranges of the
  encoded values. Robot base: the invariant of the stored state and of whole sessions, what each
  command puts on the bus, what feedback is stored where. Ports: the queue contract, the discipline
  of at most one outstanding write, order and delivery. Detector: verdict and termination. Livox
  packets: round trip, over-read and overflow. Point map: a tree is read as its list of points with
  their marks, pending marks included, and the invariant ties the counters and ranges of every node to
  that list; each operation is a change of the multiset of live points, the searches are equal to
  their specification on it, histories of operations lose no point. Livox reports: a simulation of the parser by the map
  from keys to values, JSON well-formedness. Livox commands: an accounting of every callback.
  Odometry: the deques as queues of scans and of IMU samples, pairing as a relation between scans; the
  in-place backward pass equal to a function of each point; the moves of the map as a filter of its
  points; the searches under ties and NaN return what the loops over the points may read; invariants of
  the node that lift the ones of the synchroniser and of the kd-tree to any run.

  Bounds. Loops recurse on their data: number of keys, length of text, number of polls; the only
  loop that waits (the detector) takes the list of its observations, and its termination theorem
  says that a clock that reaches the limit ends it. There is no fuel; the recursions on the kd-tree end because pushing marks down keeps
  the number of nodes, the pairing of scans because each round drops one, and the filter because it
  runs over the list of its iterations. Its operations are proved to return below 1500 nodes, the size from which the
  code hands subtrees to its background thread; beyond it the model answers \<open>Handed_Over\<close>. The arrays of the matching have 100000 entries, which is the
  bound on a thinned scan in the theorems about it. The limit of 65535 commands in
  the accounting theorem is the period of the sequence numbers; beyond it a number in use can be
  taken again and the entry of the older command is overwritten.

  Not modelled. Mutexes: a block under a mutex is one step. Opening of ports and sockets, file and
  log output. Signed zeros and NaN payloads. The empty UART functions of the parsers and the pure
  forwarders of the robot wrappers. Of the Livox SDK: discovery and configuration of devices, the
  device manager's sockets, logging, firmware upgrade, the debug point cloud. Of the kd-tree: the
  background rebuild with its operation log, radius search, collision checks, ray casting, and the
  addresses of nodes. Of the odometry: publishers, paths and files, the Jacobian of the measurement and
  the localizability vector, and the numbers of the filter. The loops over the points run one point after the other, as without \<open>MP_EN\<close>. The rest of the
  workspace is ROS glue and third party code (laser odometry, camera and lidar drivers, navigation).
\<close>

text \<open>C1. A session of a robot with either parser keeps the invariant of \<open>AgilexBase\<close>, and all frames it has sent are valid CAN frames.\<close>

theorem session_invariant:
  assumes "session P es r r'" "P = V2Parser j \<or> P = V1Parser l j" "wf_robot r"
  shows "wf_robot r' \<and> (\<forall>f \<in> set (bus r'). valid_tx f)"
  using assms v2p.session_wf v2p.session_valid_bus v1p.session_wf v1p.session_valid_bus by metis

theorem session_invariant_witness:
  "\<exists>r'. session (V2Parser sample_junk) [(sample_locals, Command (Brake BRAKE_MODE_LOCK))] sample_robot r' \<and>
     wf_robot r' \<and> (\<forall>f \<in> set (bus r'). valid_tx f)"
proof -
  obtain r' where "SetBrakeMode (V2Parser sample_junk) sample_locals BRAKE_MODE_LOCK sample_robot = Inr r'"
    using v2_brake_frame [of sample_robot sample_locals sample_junk BRAKE_MODE_LOCK] by auto
  then have "session (V2Parser sample_junk) [(sample_locals, Command (Brake BRAKE_MODE_LOCK))] sample_robot r'"
    by (auto intro!: session.intros)
  from this session_invariant [OF this disjI1 [OF refl] sample_wf(1)] show ?thesis by blast
qed

text \<open>C2. A received frame never makes a robot object run into undefined behaviour, whatever its identifier and data, and does not touch the port.\<close>

theorem received_frame_is_safe:
  assumes "valid_rx f" "wf_robot r" "P = V2Parser j \<or> P = V1Parser l j"
  shows "\<exists>r'. ParseCANFrame P t k f r = Inr r' \<and> wf_robot r' \<and> bus r' = bus r \<and> encoder r' = encoder r"
  using assms v2p.parse_total v1p.parse_total ParseCANFrame_frame by metis

theorem received_frame_is_safe_witness:
  "\<exists>r'. ParseCANFrame (V1Parser BunkerLimits sample_junk) sample_clock sample_locals
     (sample_frame 0x203 sample_bytes) sample_robot = Inr r' \<and> wf_robot r' \<and> bus r' = []"
  using received_frame_is_safe [OF sample_wf(4) sample_wf(1) disjI2 [OF refl]] by fastforce

text \<open>C3. A motion command is one frame on the bus, from which a receiver decodes nearly the commanded speeds.\<close>

theorem v2_command_reaches_bus:
  assumes "connected r" "wf_locals k" "double_ok a" "double_ok b" "double_ok c" "double_ok d"
  shows "\<exists>r' f m. SendMotionCommand (V2Parser j) k a b c d r = Inr r' \<and> bus r' = bus r @ [f] \<and>
    DecodeMessage (V2Parser j') f msg =
      Inr (True, \<lparr>msg_type = AgxMsgMotionCommand, msg_body = U_motion_command m\<rparr>) \<and>
    near_double (mcm_linear_velocity m) a \<and> near_double (mcm_angular_velocity m) b \<and>
    near_double (mcm_lateral_velocity m) c \<and> near_double (mcm_steering_angle m) d"
  using assms by (rule v2_motion_frame)

theorem v2_command_reaches_bus_witness:
  "\<exists>r' f m. SendMotionCommand (V2Parser sample_junk) sample_locals (Num 1.5) (Num (- 0.25)) (Num 0) (Num 0.1)
      sample_robot = Inr r' \<and> bus r' = [f] \<and>
    DecodeMessage (V2Parser sample_junk) f sample_msg =
      Inr (True, \<lparr>msg_type = AgxMsgMotionCommand, msg_body = U_motion_command m\<rparr>) \<and>
    near_double (mcm_linear_velocity m) (Num 1.5) \<and> near_double (mcm_steering_angle m) (Num 0.1)"
  using v2_command_reaches_bus [OF sample_wf(2,3), of "Num 1.5" "Num (- 0.25)" "Num 0" "Num 0.1"
      sample_junk sample_junk sample_msg] by auto

text \<open>C4. The nearest-neighbour search of the kd-tree, with its pruning by floating-point box distances and its
heap, finds the nearest points.\<close>

theorem ikd_nearest:
  assumes "selection nth_element" "history nth_element A T k" "Rebuild_Ptr k = None" "finite_point p" "0 < n"
    "separated (entry_of p ` set_mset (in_reach p max_dist k))"
  shows "\<exists>pts k'. nearest_points d p n max_dist k = Inr (pts, map (calc_dist p) pts, k') \<and>
    mset pts \<subseteq># in_reach p max_dist k \<and> length pts = min n (size (in_reach p max_dist k)) \<and>
    sorted (map (calc_dist p) pts) \<and>
    (\<forall>x \<in> set pts. \<forall>y \<in># in_reach p max_dist k - mset pts. calc_dist p x \<le> calc_dist p y) \<and>
    points k' = points k"
proof -
  have k: "ikd_ok k" using selection.history_spec [OF assms(1,2)] by blast
  from nearest_points_spec [OF k assms(3-6), of d] nearest_points_keeps(2) [OF k]
  show ?thesis unfolding nearest_def by blast
qed

theorem ikd_nearest_witness:
  "\<exists>pts k'. nearest_points no_entry (at_xyz 4 0 0) 2 (Num 100) sample_kd =
     Inr (pts, map (calc_dist (at_xyz 4 0 0)) pts, k') \<and> length pts = 2 \<and> mset pts \<subseteq># mset sample_cloud"
proof -
  have r: "in_reach (at_xyz 4 0 0) (Num 100) sample_kd = mset sample_cloud"
    by (simp add: in_reach_def sample_points sample_cloud_def eval_dist fle_def)
  have "separated (entry_of (at_xyz 4 0 0) ` set_mset (in_reach (at_xyz 4 0 0) (Num 100) sample_kd))"
    unfolding r by (rule separated_far) (auto simp: sample_cloud_def eval_dist)
  from ikd_nearest [OF sorting.selection_axioms sample_history sample_points(2) finite_at_xyz _ this, of 2 no_entry]
  have "\<exists>pts k'. nearest_points no_entry (at_xyz 4 0 0) 2 (Num 100) sample_kd =
      Inr (pts, map (calc_dist (at_xyz 4 0 0)) pts, k') \<and> mset pts \<subseteq># mset sample_cloud \<and>
      length pts = min 2 (size (mset sample_cloud))" unfolding r by auto
  then show ?thesis by (auto simp: sample_cloud_def)
qed





text \<open>C7. The node keeps its map well formed through every run, and uses the synchroniser as specified.\<close>

theorem lio_node_keeps_map:
  assumes "lio_run N es s" "selection (nth_of N)" "bounded_poses N"
  shows "ikd_ok (tree_of s) \<and> (\<forall>p \<in># points (tree_of s). finite_point p) \<and>
    validnum (tree_of s) = int (size (points (tree_of s))) \<and>
    (\<exists>bs. sync_run (multi_lidar N) (max_pair_skew N) (second_to_first N) es bs (buffers_of s))"
  using lio_run_ok [OF assms] points_finite ikd_counts by blast

theorem lio_node_keeps_map_witness:
  "\<exists>s bs. lio_run sample_node holding s \<and> validnum (tree_of s) = 0 \<and> sync_run False (Num 1) id holding bs (buffers_of s)"
proof -
  obtain s where s: "lio_run sample_node holding s" "tree_of s = set_downsample_param (Num 1)
      (KD_TREE (Num (1 / 2)) (fround b32 (3 / 5)) (fround b32 (1 / 5)))" using sample_lio_run by blast
  have "points (tree_of s) = {#}" by (simp add: s(2) points_def set_downsample_param_def KD_TREE_def)
  with lio_node_keeps_map [OF s(1) sample_node_ok(1,2)] show ?thesis using s(1) by (auto simp: sample_node_def)
qed

text \<open>C8. Two sensors: what is bundled are pairs of scans that belong together, none used twice.\<close>

theorem lio_pairs:
  assumes "sync_run True skew tf es bs s"
  shows "\<exists>ps. list_all2 (paired skew tf) ps bs \<and> subseq (map fst ps) (scans es) \<and> subseq (map snd ps) (scans2 es)"
  by (rule pairs_arrived [OF sync_run_pairs [OF assms]])

theorem lio_pairs_witness:
  "\<exists>bs s ps. sync_run True (Num 1) id two_sensors bs (s :: unit buffers) \<and> map lidar_beg_time bs = [Num 17] \<and>
    list_all2 (paired (Num 1) id) ps bs \<and> subseq (map fst ps) (scans two_sensors)"
proof -
  obtain bs s where e: "exec True (Num 1) id two_sensors (new_buffers (Num 0) (Num 0)) = Inr (bs, s)"
    "map lidar_beg_time bs = [Num 17]" using sample_two_sensors by auto
  have r: "sync_run True (Num 1) id two_sensors bs s" using exec_run [OF sync_run.start e(1)] by simp
  from lio_pairs [OF r] r e(2) show ?thesis by metis
qed

text \<open>C9. The in-place motion compensation against a definition that moves each point by itself.\<close>

theorem lio_undistort:
  assumes "sorts_by_time srt" "no_nan (meas_lidar meas)" "no_nan (meas_lidar2 meas)"
    and "meas_imu meas \<noteq> []" "\<not> imu_need_init p"
    and "forward M (bundle_beg multi num meas) (bundle_end multi num meas) (meas_imu meas) p x = (x', poses, p')"
  shows "Process M srt multi num meas p x cloud = (p', x',
    if \<not> multi then undistorted M x' poses (srt (meas_lidar meas))
    else if meas_lidar meas = [] \<or> meas_lidar2 meas = [] then cloud
    else undistorted M x' poses (srt (meas_lidar meas)) @ undistorted M x' poses (srt (meas_lidar2 meas)))"
  by (rule Process_reference [OF assms])

theorem lio_undistort_witness:
  "\<exists>p' x' poses. Process lio_motion by_curvature True 1
      \<lparr>meas_lidar = sample_scan 4, meas_lidar2 = sample_scan 5, lidar_beg_time = Num 1, lidar_beg_time2 = Num 2,
       meas_end_time = Num 3, meas_end_time2 = Num 4, meas_imu = [imu_at 2]\<rparr>
      ((new_ImuProcess (Num 0) (imu_at 0))\<lparr>imu_need_init := False\<rparr>) () [] =
    (p', x', undistorted lio_motion x' poses (by_curvature (sample_scan 4)) @
       undistorted lio_motion x' poses (by_curvature (sample_scan 5)))"
proof -
  let ?m = "\<lparr>meas_lidar = sample_scan 4, meas_lidar2 = sample_scan 5, lidar_beg_time = Num 1, lidar_beg_time2 = Num 2,
       meas_end_time = Num 3, meas_end_time2 = Num 4, meas_imu = [imu_at 2]\<rparr>"
  let ?p = "(new_ImuProcess (Num 0) (imu_at 0))\<lparr>imu_need_init := False\<rparr>"
  obtain x' poses p' where f: "forward lio_motion (bundle_beg True 1 ?m) (bundle_end True 1 ?m) (meas_imu ?m) ?p () = (x', poses, p')"
    by (metis prod_cases3)
  have s: "sorts_by_time by_curvature" unfolding by_curvature_def by (rule sort_key_sorts)
  have n: "no_nan (sample_scan a)" for a by (simp add: no_nan_def sample_scan_def lidar_point_def)
  from lio_undistort [OF s _ _ _ _ f, of "[]"] n show ?thesis by (auto simp: sample_scan_def)
qed

text \<open>C10. The scaled speeds of the Scout Mini fit their signed byte: at most one hundred percent either way.\<close>

theorem mini_command_in_range:
  assumes "mc1_linear m \<noteq> NaN" "mc1_angular m \<noteq> NaN" "mc1_lateral m \<noteq> NaN" "wf_frame f"
  shows "\<exists>s' f'. V1EncodeMessage ScoutMiniLimits junk
      \<lparr>msg_type = AgxMsgMotionCommandV1, msg_body = U_v1_motion_command m\<rparr> s f = Inr (True, s', f')
    \<and> v1_checked f' \<and> can_id f' = 0x130
    \<and> (\<forall>i \<in> {2, 3, 4}. \<bar>sint (can_data f' ! i)\<bar> \<le> 100)"
  using assms by (rule mini_motion_command)

theorem mini_command_in_range_witness:
  "\<exists>s' f'. V1EncodeMessage ScoutMiniLimits sample_bytes \<lparr>msg_type = AgxMsgMotionCommandV1,
      msg_body = U_v1_motion_command \<lparr>mc1_control_mode = 1, mc1_clear_all_error = False,
        mc1_linear = Num 5, mc1_angular = Infty True, mc1_lateral = Num 0\<rparr>\<rparr>
      (v1_counters sample_statics) (sample_frame 0 sample_bytes) = Inr (True, s', f')
    \<and> v1_checked f' \<and> can_id f' = 0x130 \<and> (\<forall>i \<in> {2, 3, 4}. \<bar>sint (can_data f' ! i)\<bar> \<le> 100)"
  by (rule mini_command_in_range) simp_all

text \<open>C11. Moving the local map deletes what it leaves behind and nothing else.\<close>

theorem lio_map_slides:
  assumes "selection nth_element" "ikd_ok (ikdtree m)" "small_tree 0 (ikdtree m)" "Localmap_Initialized m"
    and "wide (move_distance len det) (box_x (LocalMap_Points m))" "wide (move_distance len det) (box_y (LocalMap_Points m))"
      "wide (move_distance len det) (box_z (LocalMap_Points m))"
  shows "\<exists>m'. lasermap_fov_segment nth_element len det pos m = Inr m' \<and> ikd_ok (ikdtree m') \<and>
    LocalMap_Points m' = next_box len det pos (LocalMap_Points m) \<and>
    points (ikdtree m') = filter_mset (\<lambda>p. in_box (LocalMap_Points m) p \<longrightarrow> in_box (LocalMap_Points m') p) (points (ikdtree m))"
proof -
  obtain m' where m': "lasermap_fov_segment nth_element len det pos m = Inr m'"
    using fov_segment_returns [OF assms(1-3)] by blast
  show ?thesis using fov_segment_spec(1,5) [OF assms(1,2) m'] fov_segment_box(1) [OF m' assms(4)] m' assms(4)
      wide_fits_range [OF assms(5)] wide_fits_range [OF assms(6)] wide_fits_range [OF assms(7)] by blast
qed

theorem lio_map_slides_witness:
  "\<exists>m'. lasermap_fov_segment sort_by (Num 192) (Num 64) (Num 190, Num 0, Num 0)
      (sample_mapper 200 [lat 190 0 0, lat (- 190) 0 0]) = Inr m' \<and> points (ikdtree m') = {#lat 190 0 0#}"
proof -
  let ?ps = "[lat 190 0 0, lat (- 190) 0 0]"
  note t = lio_tree_ok [of ?ps, simplified]
  have mv: "move_distance (Num 192) (Num 64) = Num 32" by (rule sample_move)
  have w: "wide (Num 32) (Num (- 200), Num 200)" by (simp add: wide_def representable_def)
  have nb: "next_box (Num 192) (Num 64) (Num 190, Num 0, Num 0) (cube 200) = (cube 200)\<lparr>box_x := (Num (- 168), Num 232)\<rparr>"
    by (rule sample_next_box)
  obtain m' where "lasermap_fov_segment sort_by (Num 192) (Num 64) (Num 190, Num 0, Num 0) (sample_mapper 200 ?ps) = Inr m'"
      "LocalMap_Points m' = (cube 200)\<lparr>box_x := (Num (- 168), Num 232)\<rparr>"
      "points (ikdtree m') = filter_mset (\<lambda>p. in_box (cube 200) p \<longrightarrow> in_box (LocalMap_Points m') p) (mset ?ps)"
    using lio_map_slides [OF sorting.selection_axioms, of "sample_mapper 200 ?ps" "Num 192" "Num 64" "(Num 190, Num 0, Num 0)"]
    by (auto simp: sample_mapper_def mv w nb t simp del: filter_mset_add_mset)
  then show ?thesis by (intro exI [of _ m']) (simp add: eval_cube)
qed

text \<open>C12. The IMU samples are split exactly at the ends of the scans.\<close>

theorem lio_imu_split:
  assumes "sync_run multi skew tf es bs s" "sorted (Num (- 1) # map imu_stamp (imus es))"
  shows "concat (map meas_imu bs) @ imu_buffer s = imus es \<and>
    (\<forall>m \<in> set bs. (\<forall>x \<in> set (meas_imu m). \<not> late multi m x) \<and> (\<forall>x \<in> set (imu_buffer s). \<not> early multi m x) \<and>
       (\<forall>e \<in> set (ends multi m). \<not> fless (last_timestamp_imu s) e)) \<and>
    sorted_wrt (\<lambda>m m'. \<forall>x \<in> set (meas_imu m'). \<not> early multi m x) bs"
  using sync_run_imu [OF assms] unfolding imu_inv_def by blast

theorem lio_imu_split_witness:
  "\<exists>bs s. sync_run True (Num 1) id two_sensors bs (s :: unit buffers) \<and> concat (map meas_imu bs) @ imu_buffer s = imus two_sensors \<and>
    imus two_sensors = [imu_at 16, imu_at 19]"
proof -
  obtain bs s where e: "exec True (Num 1) id two_sensors (new_buffers (Num 0) (Num 0)) = Inr (bs, s)"
    using sample_two_sensors by auto
  have r: "sync_run True (Num 1) id two_sensors bs s" using exec_run [OF sync_run.start e(1)] by simp
  have i: "imus two_sensors = [imu_at 16, imu_at 19]" by (simp add: two_sensors_def imus_def)
  have "sorted (Num (- 1) # map imu_stamp (imus two_sensors))" by (simp add: i) (simp add: imu_at_def)
  from lio_imu_split [OF r this] r i show ?thesis by metis
qed



text \<open>C14. The asynchronous variant: scans of both sensors come out as they came in.\<close>

theorem lio_async_fifo:
  assumes "async_run tf (new_async e e2) es bs s" "steady (new_async e e2) es"
  shows "map scan_of_bundle bs = take (length bs) (arrivals tf es) \<and>
    length bs + length (lidar_buffer (ch1 (bufs s))) = length (arrivals tf es)"
  using async_fifo [OF assms] by blast

theorem lio_async_fifo_witness:
  "\<exists>bs s. async_run id (new_async (Num 0) (Num 0)) merged_events bs s \<and> map scan_of_bundle bs = [(Num 16, False, sample_scan 4)] \<and>
    length (lidar_buffer (ch1 (bufs s))) = 1"
proof -
  obtain bs s where e: "async_exec id merged_events (new_async (Num 0) (Num 0)) = Inr (bs, s)" "length bs = 1"
    using sample_async by blast
  have r: "async_run id (new_async (Num 0) (Num 0)) merged_events bs s" using async_exec_run [OF async_run.start e(1)] by simp
  have st: "steady (new_async (Num 0) (Num 0)) merged_events"
    by (simp add: steady_def last_of_def new_async_def new_buffers_def new_channel_def merged_events_def scans_def scans2_def)
  have "arrivals id merged_events = [(Num 16, False, sample_scan 4), (Num 17, True, sample_scan 5)]"
    by (simp add: merged_events_def arrivals_def)
  with lio_async_fifo [OF r st] e(2) r show ?thesis by (intro exI conjI) auto
qed



text \<open>C16. The clouds of the second sensor are not used.\<close>

theorem lio_adaptive_second_unused:
  assumes "\<not> fst (bundle_mode s)" "adaptive_sync N s = Inr (True, b, 2)"
    and "sorts_by_time (sort_of N)" "no_nan (meas_lidar (Measures b))" "no_nan (meas_lidar2 (Measures b))"
    and "meas_imu (Measures b) \<noteq> []" "\<not> imu_need_init (p_imu (odo s))"
    and "forward (motion_of N) (lidar_beg_time2 (Measures b)) (meas_end_time2 (Measures b)) (meas_imu (Measures b))
      (p_imu (odo s)) (numbers (odo s)) = (x, poses, p)"
  shows "feats_undistort (odo (adaptive_process N (s\<lparr>odo := (odo s)\<lparr>buffers_of := b\<rparr>, current_lidar_num := 2\<rparr>))) =
    undistorted (motion_of N) x poses (sort_of N (meas_lidar (Measures (buffers_of (odo s)))))"
  by (rule second_cloud_unused [OF assms])

theorem lio_adaptive_second_unused_witness:
  "\<exists>b x poses. adaptive_sync sample_node second_state = Inr (True, b, 2) \<and> meas_lidar2 (Measures b) = sample_scan 5 \<and>
    feats_undistort (odo (adaptive_process sample_node
      (second_state\<lparr>odo := (odo second_state)\<lparr>buffers_of := b\<rparr>, current_lidar_num := 2\<rparr>))) =
    undistorted lio_motion x poses (by_curvature (sample_scan 9))"
proof -
  obtain b where b: "adaptive_sync sample_node second_state = Inr (True, b, 2)" "meas_imu (Measures b) \<noteq> []"
    "meas_lidar (Measures b) = sample_scan 9" "meas_lidar2 (Measures b) = sample_scan 5" using sample_second by blast
  have n: "no_nan (sample_scan a)" for a by (simp add: no_nan_def sample_scan_def lidar_point_def)
  have srt: "sorts_by_time (sort_of sample_node)" using sort_key_sorts by (simp add: sample_node_def by_curvature_def)
  have m: "\<not> fst (bundle_mode second_state)" "\<not> imu_need_init (p_imu (odo second_state))"
    "meas_lidar (Measures (buffers_of (odo second_state))) = sample_scan 9"
    by (simp_all add: second_state_def new_adaptive_def second_buffers_def Let_def)
  have d: "no_nan (meas_lidar (Measures b))" "no_nan (meas_lidar2 (Measures b))" using b(3,4) n by simp_all
  obtain x poses p where f: "forward (motion_of sample_node) (lidar_beg_time2 (Measures b)) (meas_end_time2 (Measures b))
      (meas_imu (Measures b)) (p_imu (odo second_state)) (numbers (odo second_state)) = (x, poses, p)" by (metis prod_cases3)
  have "motion_of sample_node = lio_motion" "sort_of sample_node = by_curvature" by (simp_all add: sample_node_def)
  with lio_adaptive_second_unused [OF m(1) b(1) srt d b(2) m(2) f] b(1,4) m(3) show ?thesis by (intro exI conjI) auto
qed

text \<open>C17. The adaptive variant loses one scan and uses another one twice.\<close>

theorem lio_adaptive_scan_lost:
  assumes "lidar_pushed b" "lidar_buffer (ch1 b) = []" "time_buffer (ch1 b) = []"
    and "lidar_buffer (ch2 b) \<noteq> []" "time_buffer (ch2 b) = t2 # ts" "fless t1 t2"
    and "sync_older tf (adaptive_cbk False t1 c b, 2) = Inr (True, b', num)"
  shows "num = 2 \<and> Measures b' = (Measures b)\<lparr>meas_imu := meas_imu (Measures b')\<rparr> \<and> \<not> lidar_pushed b' \<and>
    lidar_buffer (ch1 b') = [] \<and> lidar_buffer (ch2 b') = lidar_buffer (ch2 b) \<and> time_buffer (ch2 b') = time_buffer (ch2 b)"
  using older_scan_lost [OF assms] by simp

theorem lio_adaptive_scan_lost_witness:
  "\<exists>b b' :: unit buffers. sync_older id (adaptive_cbk False (Num 15) (sample_scan 4) b, 2) = Inr (True, b', 2) \<and>
    lidar_buffer (ch1 b') = [] \<and> lidar_buffer (ch2 b') = [sample_scan 5]"
proof -
  obtain b b' :: "unit buffers" where b: "lidar_pushed b" "lidar_buffer (ch1 b) = []" "time_buffer (ch1 b) = []"
    "lidar_buffer (ch2 b) = [sample_scan 5]" "time_buffer (ch2 b) = [Num 17]"
    and s: "sync_older id (adaptive_cbk False (Num 15) (sample_scan 4) (imu_cbk (imu_at 18) b), 2) = Inr (True, b', 2)"
    using sample_held by blast
  let ?b = "imu_cbk (imu_at 18) b"
  have q: "lidar_pushed ?b" "lidar_buffer (ch1 ?b) = []" "time_buffer (ch1 ?b) = []" "lidar_buffer (ch2 ?b) \<noteq> []"
    "time_buffer (ch2 ?b) = Num 17 # []" "lidar_buffer (ch2 ?b) = [sample_scan 5]" using b by (simp_all add: imu_cbk_def Let_def)
  have "fless (Num 15) (Num 17)" by simp
  from lio_adaptive_scan_lost [OF q(1-5) this s] s q(6) show ?thesis by metis
qed

text \<open>C18. Every motion command of a version 1 Scout, Hunter or Bunker is undefined behaviour: the lateral speed is divided by a limit of zero.\<close>

theorem v1_without_lateral_cannot_move:
  assumes "connected r"
  shows "ScoutRobot_SetMotionCommand j k a b (ScoutRobot AGX_V1 False) r = Inl BadCast \<and>
    HunterRobot_SetMotionCommand j k a b (HunterRobot AGX_V1) r = Inl BadCast \<and>
    BunkerRobot_SetMotionCommand j k a b (BunkerRobot AGX_V1) r = Inl BadCast"
  using assms
  by (simp_all add: ScoutRobot_SetMotionCommand_def ScoutRobot_def ScoutBase_SetMotionCommand_def
      HunterRobot_SetMotionCommand_def HunterRobot_def HunterBase_SetMotionCommand_def
      BunkerRobot_SetMotionCommand_def BunkerRobot_def BunkerBase_SetMotionCommand_def call_def
      v1_motion_undefined ScoutV2Limits_def HunterV1Limits_def BunkerLimits_def)

theorem v1_without_lateral_cannot_move_witness:
  "ScoutRobot_SetMotionCommand sample_junk sample_locals (Num 1) (Num 0) (ScoutRobot AGX_V1 False)
     sample_robot = Inl BadCast"
  using v1_without_lateral_cannot_move [OF sample_wf(2)] by blast

text \<open>C19. The transmit buffer is never handed out twice, and no queued byte is forgotten, in any interleaving of clients and the io thread.\<close>

theorem serial_discipline:
  assumes "serial_run es (opened junk buf) s" "length junk = rxtx_buffer_size" "length buf = rxtx_buffer_size"
  shows "serial_inv s"
  using assms serial_run_inv opened_inv(1) by blast

theorem serial_discipline_witness:
  "\<exists>s. serial_run [Send [1, 2, 3]] (opened (replicate rxtx_buffer_size 0) (replicate rxtx_buffer_size 0)) s \<and>
     serial_inv s"
proof -
  let ?o = "opened (replicate rxtx_buffer_size 0) (replicate rxtx_buffer_size 0)"
  obtain res s where "SendBytes [1, 2, 3] ?o = (res, s)" by fastforce
  then have "serial_run [Send [1, 2, 3]] ?o s" by (auto simp: serial_run_Cons intro: serial_step.send)
  with serial_discipline [OF this] show ?thesis by auto
qed

text \<open>C20. One sensor: no scan is lost, duplicated or reordered.\<close>

theorem lio_fifo:
  assumes "sync_run False skew tf es bs s" "sorted (Num 0 # map fst (scans es))"
  shows "map scan_in bs @ queued (ch1 s) = scans es \<and>
    (lidar_pushed s \<longrightarrow> queued (ch1 s) \<noteq> [] \<and> hd (queued (ch1 s)) = scan_in (Measures s))"
  using sync_run_fifo [OF assms] by (simp add: fifo_inv_def)

theorem lio_fifo_witness:
  "\<exists>bs s. sync_run False (Num 1) id one_sensor bs (s :: unit buffers) \<and> map scan_in bs = [(Num 16, sample_scan 4)] \<and>
    queued (ch1 s) = [(Num 17, sample_scan 5)]"
proof -
  obtain bs s where e: "exec False (Num 1) id one_sensor (new_buffers (Num 0) (Num 0)) = Inr (bs, s)"
    "map scan_in bs = [(Num 16, sample_scan 4)]" using sample_one_sensor by auto
  have r: "sync_run False (Num 1) id one_sensor bs s" using exec_run [OF sync_run.start e(1)] by simp
  have sc: "scans one_sensor = [(Num 16, sample_scan 4), (Num 17, sample_scan 5)]" by (simp add: one_sensor_def scans_def)
  have "sorted (Num 0 # map fst (scans one_sensor))" by (simp add: sc)
  from lio_fifo [OF r this] have "map scan_in bs @ queued (ch1 s) = [(Num 16, sample_scan 4), (Num 17, sample_scan 5)]" by (simp add: sc)
  then have "queued (ch1 s) = [(Num 17, sample_scan 5)]" by (simp add: e(2))
  with r e(2) show ?thesis by metis
qed

text \<open>C21. How the iterated update of the filter ends.\<close>

theorem lio_filter_covariance:
  assumes "update_iterated A limit h n prop w = Inr (returned, it, w')" "0 \<le> n"
  shows "if returned
    then \<exists>c x w0 m. h c x w0 = Inr (Some m, w') \<and> it_x it = boxplus A x (gain A prop x m) \<and>
      it_P it = updated A prop x m (gain A prop x m)
    else (\<exists>c w0. h c (it_x it) w0 = Inr (None, w')) \<and>
      (it_P it = snd prop \<and> it_x it = fst prop \<or> (\<exists>x. it_P it = projected A prop x))"
  using update_iterated_end [OF assms] by (cases returned) (simp_all add: ended_def)

theorem lio_filter_covariance_witness:
  "\<exists>it. update_iterated (sample_algebra\<lparr>updated := (\<lambda>_ _ _ _. ())\<rparr>) [] (\<lambda>_ _ w. Inr (None :: (effect \<times> flt) option, w)) 2 ((), ()) (0 :: nat) =
      Inr (False, it, 0) \<and> it_P it = ()"
proof -
  have "[-1..1] = [-1, 0, 1 :: int]" by (simp add: upto.simps)
  then obtain it where u: "update_iterated (sample_algebra\<lparr>updated := (\<lambda>_ _ _ _. ())\<rparr>) []
      (\<lambda>_ _ w. Inr (None :: (effect \<times> flt) option, w)) 2 ((), ()) (0 :: nat) = Inr (False, it, 0)"
    by (simp add: update_iterated_def)
  from lio_filter_covariance [OF u] have "it_P it = ()" by simp
  with u show ?thesis by blast
qed

text \<open>C22. Deleting boxes removes exactly the points in them.\<close>

theorem ikd_box_delete:
  assumes "selection nth_element" "history nth_element A T k" "small_tree 0 k"
  shows "\<exists>c k'. Delete_Point_Boxes nth_element bs k = Inr (c, k') \<and>
    points k' = filter_mset (\<lambda>p. \<forall>b \<in> set bs. \<not> in_box b p) (points k) \<and>
    c = int (size (points k)) - int (size (points k')) \<and> stock k' = stock k"
proof -
  have k: "ikd_ok k" using selection.history_spec [OF assms(1,2)] by blast
  then show ?thesis
    using selection.Delete_Point_Boxes_returns [OF assms(1) k assms(3), of bs]
      selection.delete_boxes_spec [OF assms(1) k, of bs] by blast
qed

theorem ikd_box_delete_witness:
  "\<exists>c k'. Delete_Point_Boxes sort_by [slab 0 2, slab 10 30] sample_kd = Inr (c, k') \<and>
    points k' = {#at_xyz 5 0 0#} \<and> c = 2"
proof -
  have "small_tree 0 sample_kd" using sample_small(2) by (simp add: small_tree_def)
  from ikd_box_delete [OF sorting.selection_axioms sample_history this, of "[slab 0 2, slab 10 30]"]
  obtain c k' where "Delete_Point_Boxes sort_by [slab 0 2, slab 10 30] sample_kd = Inr (c, k')"
    "points k' = filter_mset (\<lambda>p. \<forall>b \<in> set [slab 0 2, slab 10 30]. \<not> in_box b p) (mset sample_cloud)"
    "c = int (size (mset sample_cloud)) - int (size (points k'))" unfolding sample_points by auto
  then show ?thesis by (simp add: sample_cloud_def eval_boxes)
qed

text \<open>C23. The pruned box search is the filter of the stored points by the box.\<close>

theorem ikd_box_search:
  assumes "selection nth_element" "history nth_element A T k"
  shows "mset (fst (Box_Search b k)) = filter_mset (in_box b) (points k) \<and>
    points (snd (Box_Search b k)) = points k"
  using selection.history_spec [OF assms] box_search_spec [of k b "fst (Box_Search b k)" "snd (Box_Search b k)"]
  by simp

theorem ikd_box_search_witness:
  "mset (fst (Box_Search (slab 0 6) sample_kd)) = {#at_xyz 5 0 0, at_xyz 1 2 0#}"
  using ikd_box_search [OF sorting.selection_axioms sample_history, of "slab 0 6"]
  by (simp add: sample_points sample_cloud_def eval_boxes)





text \<open>C26. The Livox handler against a specification by filters.\<close>

theorem lio_avia_thins:
  assumes "2 \<le> point_filter_num (param P n)" "point_filter_num (param P n) < 2 ^ 31" "N_SCANS (param P n) \<le> 128"
    and "0 \<le> sint (point_num msg)" "sint (point_num msg) \<le> int (length (msg_points msg))"
  shows "\<exists>P'. process_custom n msg P =
    Inr (filter (\<lambda>p. moved p default_point \<and> fless (blind2 (param P n)) (norm2 p))
      (map avia_point (every (nat (point_filter_num (param P n)))
        (filter (valid_return (param P n)) (drop 1 (take (nat (sint (point_num msg))) (msg_points msg)))))), P')"
  using avia_handler_reference [OF assms] by (auto simp: process_custom_def avia_reference_def)

theorem lio_avia_thins_witness:
  "\<exists>P'. process_custom 0 custom_sample ((new_Preprocess (\<lambda>_. Num 1))\<lparr>param := (\<lambda>n. (param (new_Preprocess (\<lambda>_. Num 1)) n)\<lparr>point_filter_num := 2\<rparr>)\<rparr>) =
    Inr (filter (\<lambda>p. moved p default_point \<and> fless (fmul b64 (fround b64 (1 / 10)) (fround b64 (1 / 10))) (norm2 p))
      (map avia_point [return_at 0x10 3, return_at 0 6]), P')"
proof -
  let ?P = "(new_Preprocess (\<lambda>_. Num 1))\<lparr>param := (\<lambda>n. (param (new_Preprocess (\<lambda>_. Num 1)) n)\<lparr>point_filter_num := 2\<rparr>)\<rparr>"
  have f: "every 2 (filter (valid_return (param ?P 0)) (drop 1 (take 6 (msg_points custom_sample)))) = [return_at 0x10 3, return_at 0 6]"
    by (simp add: custom_sample_def return_at_def valid_return_def new_Preprocess_def every_def nths_Cons)
  show ?thesis using lio_avia_thins [of ?P 0 custom_sample] f
    by (simp add: new_Preprocess_def custom_sample_def blind2_def)
qed

text \<open>C27. How long the adaptive variant stays in the mode that bundles everything.\<close>

theorem lio_adaptive_mode:
  assumes "poor_match T n e" "\<forall>(n, e) \<in> set ms. \<not> poor_match T n e"
  shows "fold (\<lambda>(n, e). adapt T n e) ((n, e) # ms) st =
    (ms = [] \<or> int (length ms) \<le> bundle_enabled_tic_thres T, 1 + int (length ms))"
  by (rule adapt_after_poor [OF assms])

theorem lio_adaptive_mode_witness:
  "fold (\<lambda>(n, e). adapt sample_thresholds n e) ((64, 16) # replicate 6 (200, 100)) (False, 10000) = (False, 7)"
proof -
  have "\<not> poor_match sample_thresholds 200 100" by (simp add: poor_match_def sample_thresholds_def)
  then have "\<forall>(n, e) \<in> set (replicate 6 (200 :: nat, 100 :: nat)). \<not> poor_match sample_thresholds n e" by simp
  from lio_adaptive_mode [OF sample_poor this, of "(False, 10000)"] show ?thesis by (simp add: sample_thresholds_def)
qed



text \<open>C29. A light command comes back from the bus as it was sent, and its counter advances.\<close>

theorem v2_light_roundtrip:
  assumes "wf_frame f"
  shows "\<exists>f'. EncodeCanFrameV2 junk \<lparr>msg_type = AgxMsgLightCommand, msg_body = U_light_command m\<rparr>
      cnt f = Inr (True, cnt + 1, f') \<and>
    DecodeCanFrameV2 u f' msg =
      (True, \<lparr>msg_type = AgxMsgLightCommand, msg_body = U_light_command (light_on_wire m)\<rparr>) \<and>
    can_data f' ! 7 = cnt"
  using assms by (rule light_command_roundtrip)

theorem v2_light_roundtrip_witness:
  "\<exists>f'. EncodeCanFrameV2 sample_bytes \<lparr>msg_type = AgxMsgLightCommand, msg_body = U_light_command sample_light\<rparr>
      7 (sample_frame 0 sample_bytes) = Inr (True, 8, f') \<and>
    DecodeCanFrameV2 sample_rc f' sample_msg =
      (True, \<lparr>msg_type = AgxMsgLightCommand, msg_body = U_light_command sample_light\<rparr>)"
  using v2_light_roundtrip [of "sample_frame 0 sample_bytes" sample_bytes sample_light 7 sample_rc sample_msg]
  by (auto simp: light_on_wire_def sample_light_def)

text \<open>C30. The version 2 decoder accepts the identifiers of the protocol and no others.\<close>

theorem v2_accepts: "fst (DecodeCanFrameV2 u f msg) = (can_id f \<in> set v2_ids)"
  by (rule decode_accepts_iff)



text \<open>C32. A verdict of the detector rests on a frame that only the protocol in question knows.\<close>

theorem detector_sound:
  assumes "DetectProtocolVersion t obs = Some v"
  shows "(v = AGX_V1 \<longrightarrow> (\<exists>p \<in> set obs. \<exists>f \<in> set (snd p). \<forall>u m. \<not> fst (DecodeCanFrameV2 u f m))) \<and>
    (v = AGX_V2 \<longrightarrow> (\<exists>p \<in> set obs. \<exists>f \<in> set (snd p). \<forall>u m m'. DecodeCanFrameV1 u f m \<noteq> Inr (True, m')))"
proof -
  obtain fs where fs: "set fs \<subseteq> (\<Union>p \<in> set obs. set (snd p))"
    "v = AGX_V1 \<longleftrightarrow> (\<exists>f \<in> set fs. can_id f = 0x151) \<and> \<not> (\<exists>f \<in> set fs. can_id f \<in> {0x221, 0x241})"
    "v = AGX_V2 \<longleftrightarrow> \<not> (\<exists>f \<in> set fs. can_id f = 0x151) \<and> (\<exists>f \<in> set fs. can_id f \<in> {0x221, 0x241})"
    using verdict_frames [OF assms] .
  have "\<exists>p \<in> set obs. \<exists>f \<in> set (snd p). \<forall>u m. \<not> fst (DecodeCanFrameV2 u f m)" if "v = AGX_V1"
    using that fs(1,2) v1_id_refused_by_v2 by blast
  moreover have "\<exists>p \<in> set obs. \<exists>f \<in> set (snd p). \<forall>u m m'. DecodeCanFrameV1 u f m \<noteq> Inr (True, m')"
    if "v = AGX_V2"
    using that fs(1,3) v2_id_refused_by_v1 by blast
  ultimately show ?thesis by blast
qed

theorem detector_sound_witness:
  "\<exists>f. DetectProtocolVersion 3 [(0, []), (0, [f])] = Some AGX_V2 \<and>
     (\<forall>u m m'. DecodeCanFrameV1 u f m \<noteq> Inr (True, m'))"
proof -
  let ?f = "sample_frame 0x241 sample_bytes"
  have "DetectProtocolVersion 3 [(0, []), (0, [?f])] = Some AGX_V2"
    by (simp add: DetectProtocolVersion_def detector_ParseCANFrame_def sample_frame_def verdict_def)
  from this detector_sound [OF this] show ?thesis by auto
qed

text \<open>C33. A command that is packed arrives as it was sent, wherever its bytes are copied.\<close>

theorem livox_packet_roundtrip:
  assumes "fits buf sz p"
  shows "\<exists>k buf'. SdkPack crc16 crc32 buf sz p = Inr (Some k, buf') \<and> unat k \<le> length buf' \<and>
    (\<forall>m. unat k \<le> length m \<and> take (unat k) m = take (unat k) buf' \<longrightarrow>
      ParseCommStream (SdkCheckPreamble crc16 crc32) SdkParsePacket m k = Inr (Some (delivered p m)))"
  using assms by (rule sdk.stream_roundtrip)

theorem livox_packet_roundtrip_witness:
  "\<exists>k buf'. SdkPack sample_crc16 sample_crc32 (replicate 30 0) 30 sample_packet = Inr (Some k, buf') \<and>
    ParseCommStream (SdkCheckPreamble sample_crc16 sample_crc32) SdkParsePacket buf' k
      = Inr (Some (delivered sample_packet buf'))"
proof -
  have "fits (replicate 30 0) 30 sample_packet" by (simp add: fits_def sample_packet_def)
  from livox_packet_roundtrip[OF this, of sample_crc16 sample_crc32] show ?thesis by blast
qed



text \<open>C35. Parsing a report stores for every key the last value the report gives it.\<close>

theorem livox_report_parsed:
  assumes "length rsvd = 2" "take (unat (pk_data_len p)) (pk_data p) = report_bytes rsvd kvs"
    "unat (pk_data_len p) = length (report_bytes rsvd kvs)" "\<forall>kv \<in> set kvs. good_value kv" "wf_state si"
  shows "\<exists>si'. ParseStateInfo p si keys = Inr (True, si', keys \<union> known_keys kvs) \<and> says kvs si si'"
  using assms by (rule ParseStateInfo_report)

theorem livox_report_parsed_witness:
  "\<exists>si'. ParseStateInfo sample_report_packet sample_info {}
      = Inr (True, si', {} \<union> known_keys sample_report) \<and> state_of si' kKeyPatternMode = Some (Raw [2])"
proof -
  have "\<exists>si'. ParseStateInfo sample_report_packet sample_info {}
      = Inr (True, si', {} \<union> known_keys sample_report) \<and> says sample_report sample_info si'"
    by (rule livox_report_parsed[of "[0, 0]"])
      (simp_all add: sample_info_wf sample_report_good sample_report_packet_def sample_report_length)
  then show ?thesis
    by (auto simp: says_def sample_report_def value_size_def value_of_def key_values)
qed

text \<open>C36. A report becomes a JSON object with one member for each key it had.\<close>

theorem livox_report_json:
  assumes "length rsvd = 2" "take (unat (pk_data_len p)) (pk_data p) = report_bytes rsvd kvs"
    "unat (pk_data_len p) = length (report_bytes rsvd kvs)" "\<forall>kv \<in> set kvs. good_value kv" "wf_state si"
    "\<forall>(k, v) \<in> set kvs. k \<in> {kKeySn, kKeyProductInfo} \<longrightarrow> 0 \<in> set v"
  shows "\<exists>body. ParseReport p si = Inr (Some (StartObject # body @ [EndObject])) \<and>
    json_run body [Members] = Some [Members] \<and>
    top_names 0 body = map snd (filter (\<lambda>(k, name). k \<in> known_keys kvs) report_members)"
  using assms by (rule ParseReport_good)

theorem livox_report_json_witness:
  "\<exists>body. ParseReport sample_report_packet sample_info = Inr (Some (StartObject # body @ [EndObject])) \<and>
    top_names 0 body = [''pattern_mode'', ''sn'']"
proof -
  have "\<exists>body. ParseReport sample_report_packet sample_info = Inr (Some (StartObject # body @ [EndObject])) \<and>
    json_run body [Members] = Some [Members] \<and>
    top_names 0 body = map snd (filter (\<lambda>(k, name). k \<in> known_keys sample_report) report_members)"
    by (rule livox_report_json[of "[0, 0]"])
      (simp_all add: sample_info_wf sample_report_good sample_report_packet_def sample_report_length,
        simp add: sample_report_def key_values)
  moreover have "known_keys sample_report = {kKeyPatternMode, kKeySn}"
    by (auto simp: known_keys_def sample_report_def value_size_def key_values)
  moreover have "map snd (filter (\<lambda>(k, name). k \<in> {kKeyPatternMode, kKeySn}) report_members)
      = [''pattern_mode'', ''sn'']"
    by (simp add: report_members_def key_values)
  ultimately show ?thesis by auto
qed

text \<open>C37. The configuration sent to a lidar reads back as the addresses and ports configured.\<close>

theorem livox_config_reads_back:
  assumes "host_ip h = dotted [a, b, c, d]" "multicast_ip h = []" "host_net_info cfg = h" "wf_state si"
  shows "\<exists>r k buf'. BuildUpdateMid360LidarCfgRequest cfg = Inr r \<and>
    SdkPack crc16 crc32 (replicate 1401 0) 1400 (command_packet seq kCommandIDLidarWorkModeControl r)
      = Inr (Some k, buf') \<and>
    (\<exists>p si'. ParseCommStream (SdkCheckPreamble crc16 crc32) SdkParsePacket buf' k = Inr (Some p) \<and>
      ParseStateInfo p si {} =
        Inr (True, si', {kKeyStateInfoHostIpCfg, kKeyLidarPointDataHostIpCfg, kKeyLidarImuHostIpCfg}) \<and>
      si_host_state_info si' = \<lparr>txt_host_ip = dotted [a, b, c, d], txt_dst_port = host_push_msg_port h,
        txt_src_port = kMid360LidarPushMsgPort\<rparr> \<and>
      si_pointcloud_host_ipcfg si' = \<lparr>txt_host_ip = dotted [a, b, c, d],
        txt_dst_port = host_point_data_port h, txt_src_port = kMid360LidarPointCloudPort\<rparr> \<and>
      si_imu_host_ipcfg si' = \<lparr>txt_host_ip = dotted [a, b, c, d], txt_dst_port = host_imu_data_port h,
        txt_src_port = kMid360LidarImuDataPort\<rparr>)"
  using assms by (rule mid360_config_read_back)

theorem livox_config_reads_back_witness:
  "\<exists>r k buf'. BuildUpdateMid360LidarCfgRequest sample_cfg = Inr r \<and>
    SdkPack sample_crc16 sample_crc32 (replicate 1401 0) 1400
      (command_packet 7 kCommandIDLidarWorkModeControl r) = Inr (Some k, buf')"
proof -
  have "host_ip (host_net_info sample_cfg) = dotted [192, 168, 1, 50]" "multicast_ip (host_net_info sample_cfg) = []"
    by (simp_all add: sample_cfg_def)
  from livox_config_reads_back[OF this refl sample_info_wf, of sample_crc16 sample_crc32 7]
  show ?thesis by blast
qed



text \<open>C39. Downsampling keeps the point of a voxel that is closest to its middle.\<close>

theorem ikd_downsample:
  assumes "selection nth_element" "history nth_element A T k" "finite_point p" "voxel_box k p = Inr (b, key)"
    "add_downsampled nth_element p k = Inr (c, k')"
  shows "\<exists>q. let V = filter_mset (in_box b) (points k); mid = voxel_middle k p key in
    q \<in># add_mset p V \<and> (\<forall>x \<in># add_mset p V. \<not> fless (calc_dist x mid) (calc_dist q mid)) \<and>
    (if V = {#} \<or> same_point p q then c = 1 \<and> points k' = add_mset q (points k - V)
     else c = 0 \<and> points k' = points k)"
  using selection.history_spec [OF assms(1,2)] selection.add_downsampled_spec [OF assms(1) _ assms(3-5)] by blast

theorem ikd_downsample_witness:
  "\<exists>c k' q. add_downsampled sort_by (at_xyz 7 7 7) sample_kd = Inr (c, k') \<and> c = 1 \<and>
     points k' = add_mset (at_xyz 7 7 7) (mset sample_cloud)"
proof -
  obtain k' where a: "add_downsampled sort_by (at_xyz 7 7 7) sample_kd = Inr (1, k')"
    using sample_added by blast
  from ikd_downsample [OF sorting.selection_axioms sample_history finite_at_xyz sample_voxel a] a
  show ?thesis by (auto simp: Let_def sample_points sample_voxel_empty)
qed

text \<open>C40. Adding a point with downsampling can follow a null pointer.\<close>

theorem ikd_downsample_null:
  assumes "selection nth_element" "history nth_element A T k" "Rebuild_Ptr k = None" "Root_Node k = Node n l r"
    "\<not> tree_deleted n" "finite_point p" "voxel_box k p = Inr (b, key)"
    "\<forall>x \<in># points k. in_box b x \<and>
       \<not> fless (calc_dist x (voxel_middle k p key)) (calc_dist p (voxel_middle k p key))"
    "points k \<noteq> {#}" "\<not> covering b n" "covered b l" "covered b r"
    "10 < ikd_size k" "ikd_size k < 1500" "fless (delete_criterion_param k) (Num 1)"
  shows "Add_Points nth_element dflt (p # ps) True k = Inl (Fault NullDeref)"
proof -
  have k: "ikd_ok k" using selection.history_spec [OF assms(1,2)] by blast
  have "\<forall>x \<in># points k. \<not> fless (calc_dist x (voxel_middle k p key)) (calc_dist p (voxel_middle k p key))"
    "\<forall>x \<in># points k. in_box b x" using assms(8) by blast+
  from selection.add_downsampled_null [OF assms(1) k assms(3-7) this(1) assms(9) this(2) assms(10-15)]
  have "add_downsampled nth_element p k = Inl (Fault NullDeref)" .
  then show ?thesis using assms(4) by (simp add: Add_Points_def)
qed

theorem ikd_downsample_null_witness:
  "Add_Points sort_by (at_xyz 0 0 0) [at_xyz 64 63 64] True row_kd = Inl (Fault NullDeref)"
proof (rule ikd_downsample_null [OF sorting.selection_axioms row_history row_root(2,1) row_fields(1) finite_at_xyz row_voxel(1)])
  show "points row_kd \<noteq> {#}" by (simp add: row_points row_half1_def)
qed (use row_inside row_fields in \<open>simp_all add: row_voxel row_root ikd_size_def\<close>)

section \<open>Further theorems\<close>

text \<open>With complete writes the serial port is a first-in first-out channel.\<close>

theorem serial_in_order:
  assumes "full_run es (opened junk buf) s" "length junk = rxtx_buffer_size" "length buf = rxtx_buffer_size"
  shows "accepted s = wire s @ on_the_way s @ stored (tx_rbuf s)"
  using full_run_in_order [OF assms(1) opened_inv [OF assms(2,3)]] by (simp add: in_order_def)

theorem serial_in_order_witness:
  "\<exists>s. full_run [Send [1, 2, 3]] (opened (replicate rxtx_buffer_size 0) (replicate rxtx_buffer_size 0)) s \<and>
     accepted s = wire s @ on_the_way s @ stored (tx_rbuf s)"
proof -
  let ?o = "opened (replicate rxtx_buffer_size 0) (replicate rxtx_buffer_size 0)"
  obtain res s where "SendBytes [1, 2, 3] ?o = (res, s)" by fastforce
  then have "full_run [Send [1, 2, 3]] ?o s" by (auto simp: full_run_Cons intro: serial_step.send)
  with serial_in_order [OF this] show ?thesis by auto
qed

text \<open>A partial write loses the bytes that were not taken.\<close>

theorem serial_partial_write_loses:
  assumes "serial_inv s" "in_order s" "in_flight s = [l]" "stored (tx_rbuf s) = []" "n < l"
  shows "on_the_way (write_done n s) = [] \<and> stored (tx_rbuf (write_done n s)) = [] \<and>
    accepted (write_done n s) = wire (write_done n s) @ drop n (on_the_way s) \<and>
    drop n (on_the_way s) \<noteq> []"
  using assms by (rule partial_write_loses)

theorem serial_partial_write_loses_witness:
  "\<exists>s. full_run [Send [7, 8], Run_Posted]
      (opened (replicate rxtx_buffer_size 0) (replicate rxtx_buffer_size 0)) s \<and>
    accepted (write_done 1 s) = wire (write_done 1 s) @ [8] \<and> on_the_way (write_done 1 s) = []"
proof -
  let ?o = "opened (replicate rxtx_buffer_size 0) (replicate rxtx_buffer_size 0)"
  have len: "length [7, 8 :: u8] < rxtx_buffer_size" by (simp add: rxtx_buffer_size_def)
  have o: "serial_inv ?o" "in_order ?o" using opened_inv by simp_all
  have "is_open ?o" "idle ?o" using o(2) by (auto simp: opened_def idle_def in_order_def)
  from send_and_start [OF o this _ len] obtain s where
    s: "full_run [Send [7, 8], Run_Posted] ?o s" "serial_inv s" "in_order s"
      "in_flight s = [length [7, 8 :: u8]]" "on_the_way s = [7, 8]" "stored (tx_rbuf s) = []"
    by blast
  have "1 < length [7, 8 :: u8]" by simp
  from serial_partial_write_loses [OF s(2,3,4,6) this] s(1,5) show ?thesis by (intro exI [of _ s]) simp
qed

text \<open>Writing to the ring buffer appends what fits, wherever the indices stand.\<close>

theorem ring_write:
  assumes "ring_inv r"
  shows "\<exists>r'. Write xs r = (min (length xs) (capacity r - length (stored r)), r') \<and> ring_inv r' \<and>
    stored r' = stored r @ take (min (length xs) (capacity r - length (stored r))) xs \<and>
    capacity r' = capacity r"
  unfolding Write_def using rb.fill_spec [OF assms] .

theorem ring_write_witness:
  "\<exists>r'. Write [1, 2, 3 :: u8] \<lparr>rb_buffer = [9, 9], rb_size = 2, rb_size_mask = 1,
      rb_write_index = - 1, rb_read_index = - 1\<rparr> = (2, r') \<and> stored r' = [1, 2]"
proof -
  let ?r = "\<lparr>rb_buffer = [9, 9 :: u8], rb_size = 2, rb_size_mask = 1, rb_write_index = - 1,
    rb_read_index = - 1\<rparr>"
  have "ring_inv ?r" unfolding ring_inv_def
    by (intro conjI exI [of _ 1]) (simp_all add: capacity_def occupied_def GetOccupiedSize_def mask_eq_exp_minus_1)
  moreover have "stored ?r = []" "capacity ?r = 2"
    by (simp_all add: stored_def capacity_def occupied_def GetOccupiedSize_def)
  ultimately show ?thesis using ring_write [of ?r "[1, 2, 3]"] by auto
qed

text \<open>Reading takes the oldest bytes; peeking returns the same bytes.\<close>

theorem ring_read_peek:
  assumes "ring_inv r"
  shows "\<exists>r'. Read n r = (take n (stored r), r') \<and> ring_inv r' \<and> stored r' = drop n (stored r) \<and>
    capacity r' = capacity r \<and> Peek n r = take n (stored r)"
  using rb.drain_spec [OF assms, of n] Peek_stored [OF assms, of n] by (simp add: Read_def)

theorem ring_read_peek_witness:
  "\<exists>r'. Read 5 \<lparr>rb_buffer = [1, 2], rb_size = 2, rb_size_mask = 1, rb_write_index = 1,
      rb_read_index = - 1\<rparr> = ([2, 1 :: u8], r') \<and> stored r' = []"
proof -
  let ?r = "\<lparr>rb_buffer = [1, 2 :: u8], rb_size = 2, rb_size_mask = 1, rb_write_index = 1,
    rb_read_index = - 1\<rparr>"
  have "ring_inv ?r" unfolding ring_inv_def
    by (intro conjI exI [of _ 1]) (simp_all add: capacity_def occupied_def GetOccupiedSize_def mask_eq_exp_minus_1)
  moreover have "stored ?r = [2, 1]"
    by (simp add: stored_def capacity_def occupied_def GetOccupiedSize_def upt_rec
        unsigned_minus_1_eq_mask mask_eq_exp_minus_1 flip: numeral_2_eq_2)
  ultimately show ?thesis using ring_read_peek [of ?r 5] by auto
qed

text \<open>Encoding a decoded motion command gives the same counts up to one towards zero.\<close>

theorem v2_reencode:
  "\<exists>f'. EncodeCanFrameV2 junk \<lparr>msg_type = AgxMsgMotionCommand,
        msg_body = U_motion_command (decode_motion_command d)\<rparr> cnt (sample_frame i sample_bytes)
        = Inr (True, cnt, f') \<and>
     (\<forall>g \<in> {mcf_linear_velocity, mcf_angular_velocity, mcf_lateral_velocity, mcf_steering_angle}.
        towards_zero (val16 (g (cast_MotionCommandFrame d)))
          (val16 (g (cast_MotionCommandFrame (can_data f')))))"
  using motion_command_reencode [of junk d cnt "sample_frame i sample_bytes"] by simp

theorem v2_reencode_witness:
  "\<exists>f'. EncodeCanFrameV2 sample_bytes \<lparr>msg_type = AgxMsgMotionCommand,
        msg_body = U_motion_command (decode_motion_command sample_bytes)\<rparr> 0 (sample_frame 0 sample_bytes)
        = Inr (True, 0, f') \<and>
     towards_zero (val16 (mcf_linear_velocity (cast_MotionCommandFrame sample_bytes)))
       (val16 (mcf_linear_velocity (cast_MotionCommandFrame (can_data f'))))"
  using v2_reencode [of sample_bytes sample_bytes 0 0] by blast

text \<open>A decoded speed is the thousandth of its count up to the precision of a float.\<close>

theorem decoded_speed_accuracy:
  "\<exists>v. milli w = Num v \<and> \<bar>v - of_int (sint w) / 1000\<bar> \<le> \<bar>of_int (sint w)\<bar> / 1000 / 2 ^ 23"
  by (rule milli_error)

text \<open>A version 1 frame goes out with the checksum of the protocol.\<close>

theorem v1_frames_carry_checksum:
  assumes "V1EncodeMessage l junk m s f = Inr (True, s', f')" "wf_frame f"
  shows "can_dlc f' = 8 \<and> can_id f' \<in> {0x130, 0x140, 0x210} \<and> can_data f' ! 7 = v1_checksum f'"
  using V1EncodeMessage_checked [OF assms] by (auto simp: v1_checked_def)

theorem v1_frames_carry_checksum_witness:
  "\<exists>s' f'. V1EncodeMessage BunkerLimits sample_bytes \<lparr>msg_type = AgxMsgLightCommand,
      msg_body = U_light_command sample_light\<rparr> (v1_counters sample_statics) (sample_frame 0 sample_bytes)
      = Inr (True, s', f') \<and> can_data f' ! 7 = v1_checksum f'"
proof -
  obtain s' f' where "V1EncodeMessage BunkerLimits sample_bytes \<lparr>msg_type = AgxMsgLightCommand,
      msg_body = U_light_command sample_light\<rparr> (v1_counters sample_statics) (sample_frame 0 sample_bytes)
      = Inr (True, s', f')"
    by (simp add: V1EncodeMessage_def EncodeCanFrameV1_def v1_encode_light_command_def v1_send_eq)
  from this v1_frames_carry_checksum [OF this] show ?thesis by auto
qed

text \<open>The switch positions are determined by the frame just when all four bit patterns are documented ones.\<close>

theorem rc_switches_determined:
  "(\<forall>u u'. decode_rc_state u d = decode_rc_state u' d) =
     (let sws = rcf_sws (cast_RcStateFrame d) in
       (sws AND 0x03 = 0x02 \<or> sws AND 0x03 = 0x03) \<and>
       (sws AND 0x0c = 0x08 \<or> sws AND 0x0c = 0x04 \<or> sws AND 0x0c = 0x0c) \<and>
       (sws AND 0x30 = 0x20 \<or> sws AND 0x30 = 0x10 \<or> sws AND 0x30 = 0x30) \<and>
       (sws AND 0xc0 = 0x80 \<or> sws AND 0xc0 = 0xc0))"
  (is "?det = ?ok")
proof
  let ?one = "sample_rc\<lparr>swa := 1, swb := 3, swc := 3, swd := 1\<rparr>"
  let ?two = "sample_rc\<lparr>swa := 3, swb := 4, swc := 4, swd := 3\<rparr>"
  assume ?det
  then have "decode_rc_state ?one d = decode_rc_state ?two d" by blast
  then show ?ok
    by (simp add: decode_rc_state_def Let_def switch2_def switch3_def split: if_splits)
next
  assume ?ok
  then show ?det by (auto simp: decode_rc_state_def Let_def switch2_def switch3_def)
qed

text \<open>Feedback of motor i goes to slot i of the actuator array.\<close>

theorem actuator_feedback_stored:
  assumes "can_id f = 0x251 + i" "i < 8" "wf_robot r"
  shows "\<exists>r'. ParseCANFrame (V2Parser j) t k f r = Inr r' \<and>
    actuator_state_msgs r' = (actuator_state_msgs r)\<lparr>as_time_stamp := now_actuator t,
      as_actuator_hs_state := (as_actuator_hs_state (actuator_state_msgs r))
        [unat i := decode_actuator_hs (can_id f) (can_data f)]\<rparr> \<and>
    core_state_msgs r' = core_state_msgs r \<and>
    common_sensor_state_msgs r' = common_sensor_state_msgs r"
proof -
  have i: "i \<in> {0, 1, 2, 3, 4, 5, 6, 7}" using assms(2) by (rule word_less_8_cases)
  have hs: "length (as_actuator_hs_state (actuator_state_msgs r)) = 8"
    using assms(3) by (simp add: wf_robot_def wf_actuators_def)
  have "DecodeCanFrameV2 (junk_rc j) f (local_msg k) = (True, \<lparr>msg_type = AgxMsgActuatorHSState,
      msg_body = U_actuator_hs_state (decode_actuator_hs (can_id f) (can_data f))\<rparr>)"
    using assms(1) i by (auto simp: DecodeCanFrameV2_def decode_groups)
  moreover have "hs_motor_id (decode_actuator_hs (can_id f) (can_data f)) = ucast i"
    using assms(1) by (simp add: decode_actuator_hs_def Let_def)
  moreover have "unat (ucast i :: u8) = unat i" using i by auto
  ultimately show ?thesis using hs i
    by (auto simp: ParseCANFrame_def V2Parser_decode UpdateRobotCoreState_def UpdateActuatorState_def
        UpdateCommonSensorState_def UpdateResponseVersion_def Let_def store_def)
qed

theorem actuator_feedback_stored_witness:
  "\<exists>r'. ParseCANFrame (V2Parser sample_junk) sample_clock sample_locals
      (sample_frame 0x253 [0x01, 0xf4, 0, 10, 0, 0, 0, 9]) sample_robot = Inr r' \<and>
    hs_rpm (as_actuator_hs_state (actuator_state_msgs r') ! 2) = 500"
proof -
  let ?f = "sample_frame 0x253 [0x01, 0xf4, 0, 10, 0, 0, 0, 9]"
  have f: "can_id ?f = 0x251 + 2" by (simp add: sample_frame_def)
  have rpm: "hs_rpm (decode_actuator_hs (can_id ?f) (can_data ?f)) = 500"
    by (simp add: decode_actuator_hs_def sample_frame_def cast_ActuatorHSStateFrame_def s16_at_def
        val16_def join16_def)
  obtain r' where "ParseCANFrame (V2Parser sample_junk) sample_clock sample_locals ?f sample_robot = Inr r'"
    "actuator_state_msgs r' = (actuator_state_msgs sample_robot)\<lparr>as_time_stamp := now_actuator sample_clock,
      as_actuator_hs_state := (as_actuator_hs_state (actuator_state_msgs sample_robot))
        [unat (2 :: u32) := decode_actuator_hs (can_id ?f) (can_data ?f)]\<rparr>"
    using actuator_feedback_stored [OF f _ sample_wf(1)] by fastforce
  moreover have "length (as_actuator_hs_state (actuator_state_msgs sample_robot)) = 8"
    by (simp add: sample_robot_def sample_actuators_def)
  ultimately show ?thesis using rpm by auto
qed

text \<open>Motion feedback is stored in the core group, and renews the time stamp of the actuator group as every accepted frame does.\<close>

theorem motion_feedback_stored:
  assumes "can_id f = 0x221"
  shows "ParseCANFrame (V2Parser j) t k f r = Inr (r\<lparr>
    core_state_msgs := (core_state_msgs r)\<lparr>cs_time_stamp := now_core t,
      cs_motion_state := decode_motion_state (can_data f)\<rparr>,
    actuator_state_msgs := (actuator_state_msgs r)\<lparr>as_time_stamp := now_actuator t\<rparr>\<rparr>)"
  using assms
  by (simp add: ParseCANFrame_def V2Parser_decode decode_simps UpdateRobotCoreState_def
      UpdateActuatorState_def UpdateCommonSensorState_def UpdateResponseVersion_def Let_def)

theorem motion_feedback_stored_witness:
  "\<exists>r'. ParseCANFrame (V2Parser sample_junk) sample_clock sample_locals
      (sample_frame 0x221 sample_bytes) sample_robot = Inr r' \<and>
    as_time_stamp (actuator_state_msgs r') = 2 \<and>
    cs_motion_state (core_state_msgs r') = decode_motion_state sample_bytes"
  using motion_feedback_stored [of "sample_frame 0x221 sample_bytes" sample_junk sample_clock sample_locals
      sample_robot] by (simp add: sample_frame_def sample_clock_def)

text \<open>The version request ends, with a complete printable version string or with the empty one.\<close>

theorem version_string_complete:
  assumes "can r = Some ready" "\<forall>(e, b) \<in> set obs. wf_version b"
    and "\<exists>(e, b) \<in> set obs. timeout_sec \<le> e \<or> 80 \<le> length b"
  shows "\<exists>v r'. RequestVersion k timeout_sec obs r = Inr (Some v, r') \<and>
    (v = [] \<or> 80 \<le> length v) \<and> (\<forall>c \<in> set v. is_printable c)"
proof -
  obtain r' where r': "send_version_request k r = Inr r'"
    using assms(1) by (simp add: send_version_request_def SendFrame_def)
  obtain w where w: "wait_version timeout_sec obs [] = Some w"
    using wait_version_returns [OF assms(3)] by blast
  moreover have "wf_version w"
    using wait_version_Some [OF w _ assms(2)] by (simp add: wf_version_def)
  ultimately show ?thesis using r' by (auto simp: RequestVersion_def wf_version_def)
qed

theorem version_string_complete_witness:
  "\<exists>v r'. RequestVersion sample_locals 3 [(0, []), (1, replicate 80 65), (2, [])] sample_robot = Inr (Some v, r') \<and>
    (v = [] \<or> 80 \<le> length v) \<and> (\<forall>c \<in> set v. is_printable c)"
  by (rule version_string_complete [where ready = True])
    (auto simp: sample_robot_def wf_version_def is_printable_def)

text \<open>On a robot that was never connected the commands are without effect, and the version request dereferences a null pointer.\<close>

theorem unconnected_robot:
  assumes "can r = None"
  shows "run_command P k c r = Inr r \<and> RequestVersion k n obs r = Inl NullDeref"
proof
  have "\<not> connected r" using assms by (simp add: connected_def)
  then show "run_command P k c r = Inr r" by (cases c) (auto simp: command_defs)
  show "RequestVersion k n obs r = Inl NullDeref"
    using assms by (simp add: RequestVersion_def send_version_request_def SendFrame_def)
qed

theorem unconnected_robot_witness:
  "RequestVersion sample_locals 3 [] (sample_robot\<lparr>can := None\<rparr>) = Inl NullDeref"
  using unconnected_robot [of "sample_robot\<lparr>can := None\<rparr>"] by simp

text \<open>The wrappers create the object of the requested version, and nothing for an unknown one.\<close>

theorem wrapper_versions:
  "ScoutRobot_GetParserProtocolVersion j (ScoutRobot ver mini) =
     (if ver = UNKONWN then Inl Uninitialised else Inr ver) \<and>
   ScoutRobot_GetParserProtocolVersion j (ScoutMiniOmniRobot ver) =
     (if ver = UNKONWN then Inl Uninitialised else Inr ver) \<and>
   call (HunterRobot ver) (\<lambda>c. Inr (GetParserProtocolVersion (hunter_parser j c))) =
     (if ver = UNKONWN then Inl Uninitialised else Inr ver) \<and>
   call (BunkerRobot ver) (\<lambda>c. Inr (GetParserProtocolVersion (bunker_parser j c))) =
     (if ver = UNKONWN then Inl Uninitialised else Inr ver)"
  by (cases ver; simp add: ScoutRobot_GetParserProtocolVersion_def ScoutRobot_def
      ScoutMiniOmniRobot_def HunterRobot_def BunkerRobot_def call_def Let_def)+

text \<open>The Titan's brake methods send each other's frames.\<close>

theorem titan_brakes_swapped:
  assumes "connected r" "wf_locals k"
  shows "(\<exists>r' f. TitanBase_ActivateBrake j k r = Inr r' \<and> HunterBase_ReleaseBrake (V2Parser j) k r = Inr r' \<and>
      bus r' = bus r @ [f] \<and> can_id f = 0x131 \<and> can_data f ! 0 = 0) \<and>
    (\<exists>r' f. TitanBase_ReleaseBrake j k r = Inr r' \<and> HunterBase_ActivateBrake (V2Parser j) k r = Inr r' \<and>
      bus r' = bus r @ [f] \<and> can_id f = 0x131 \<and> can_data f ! 0 = 1)"
  using v2_brake_frame [OF assms, of j 0] v2_brake_frame [OF assms, of j 1]
  by (auto simp: TitanBase_ActivateBrake_def TitanBase_ReleaseBrake_def HunterBase_ActivateBrake_def
      HunterBase_ReleaseBrake_def)

theorem titan_brakes_swapped_witness:
  "\<exists>r' f. TitanBase_ActivateBrake sample_junk sample_locals sample_robot = Inr r' \<and> bus r' = [f] \<and>
     can_data f ! 0 = 0"
  using titan_brakes_swapped [OF sample_wf(2,3), of sample_junk] by auto

text \<open>Motion modes on the bus: the Ranger Mini V1 remaps side slip to 3 and cannot park.\<close>

theorem ranger_mini_modes:
  assumes "connected r" "wf_locals k"
  shows "RangerRobot_SetMotionMode j k 3 RangerMiniV1Base r = Inr r \<and>
    (md \<noteq> 3 \<longrightarrow> (\<exists>r' f. RangerRobot_SetMotionMode j k md RangerMiniV1Base r = Inr r' \<and>
      bus r' = bus r @ [f] \<and> can_id f = 0x141 \<and> can_data f ! 0 = (if md = 4 then 3 else md))) \<and>
    (\<exists>r' f. RangerRobot_SetMotionMode j k md RangerBaseV2 r = Inr r' \<and>
      bus r' = bus r @ [f] \<and> can_id f = 0x141 \<and> can_data f ! 0 = md)"
  using v2_motion_mode_frame [OF assms, of j md] v2_motion_mode_frame [OF assms, of j 3]
  by (auto simp: RangerMiniV1_SetMotionMode_def)

theorem ranger_mini_modes_witness:
  "\<exists>r' f. RangerRobot_SetMotionMode sample_junk sample_locals 4 RangerMiniV1Base sample_robot = Inr r' \<and>
     bus r' = [f] \<and> can_data f ! 0 = 3"
  using ranger_mini_modes [OF sample_wf(2,3), of sample_junk 4] by auto

text \<open>In side slip mode the reported angular velocity of the Ranger Mini V1 is indeterminate.\<close>

theorem ranger_mini_slip_undetermined:
  "(\<forall>u u'. angular_velocity (rc_motion_state (RangerMiniV1_GetRobotState u r)) =
       angular_velocity (rc_motion_state (RangerMiniV1_GetRobotState u' r))) =
     (motion_mode (cs_motion_mode_state (core_state_msgs r)) \<noteq> kSideSlip)"
  (is "?det = ?ok")
proof
  assume det: ?det
  obtain u :: RangerCoreState where True by blast
  let ?u = "\<lambda>x. u\<lparr>rc_motion_state := sample_motion\<lparr>angular_velocity := x\<rparr>\<rparr>"
  from det have "angular_velocity (rc_motion_state (RangerMiniV1_GetRobotState (?u (Num 0)) r)) =
    angular_velocity (rc_motion_state (RangerMiniV1_GetRobotState (?u (Num 1)) r))" by blast
  then show ?ok by (auto simp: RangerMiniV1_GetRobotState_def mini_motion_def Let_def)
next
  assume ?ok
  then show ?det by (simp add: RangerMiniV1_GetRobotState_def mini_motion_def Let_def)
qed

text \<open>A Ranger whose lights were put under control cannot be released through its wrapper.\<close>

theorem ranger_light_stays_on:
  assumes "connected r" "wf_locals k"
  shows "RangerRobot_DisableLightControl c r = Inr r \<and>
    (\<exists>r' f. RangerRobot_SetLightCommand j k fm fv rm rv c r = Inr r' \<and> bus r' = bus r @ [f] \<and>
      can_id f = 0x121 \<and> can_data f ! 0 = 1) \<and>
    (\<exists>r' f. DisableLightControl (V2Parser j) k r = Inr r' \<and> bus r' = bus r @ [f] \<and>
      can_id f = 0x121 \<and> can_data f ! 0 = 0)"
  using assms
  by (simp_all add: RangerRobot_DisableLightControl_def RangerRobot_SetLightCommand_def
      SendLightCommand_def DisableLightControl_def encode_and_send_def V2Parser_encode
      EncodeCanFrameV2_def encode_light_command_def Let_def SendFrame_connected wf_locals_def
      mem_LightCommandFrame_def)

theorem ranger_light_stays_on_witness:
  "\<exists>r' f. RangerRobot_SetLightCommand sample_junk sample_locals 1 0 1 0 RangerBaseV2 sample_robot = Inr r' \<and>
     bus r' = [f] \<and> RangerRobot_DisableLightControl RangerBaseV2 r' = Inr r'"
proof -
  obtain r' f where r': "RangerRobot_SetLightCommand sample_junk sample_locals 1 0 1 0 RangerBaseV2
      sample_robot = Inr r'" "bus r' = [f]"
    using ranger_light_stays_on [OF sample_wf(2,3), of RangerBaseV2 sample_junk 1 0 1 0] by auto
  then show ?thesis by (simp add: RangerRobot_DisableLightControl_def)
qed

text \<open>The detector returns by its timeout, with the answer unknown on a silent bus.\<close>

theorem detector_returns:
  assumes "\<exists>p \<in> set obs. uint t \<le> fst p"
  shows "\<exists>v. DetectProtocolVersion t obs = Some v \<and> ((\<forall>p \<in> set obs. snd p = []) \<longrightarrow> v = UNKONWN)"
proof -
  obtain d where d: "detect_loop (uint t) obs \<lparr>msg_v1_detected = False, msg_v2_detected = False\<rparr> = Some d"
    using detect_loop_returns [OF assms] by blast
  then obtain v where v: "DetectProtocolVersion t obs = Some v" by (simp add: DetectProtocolVersion_def)
  obtain fs where fs: "set fs \<subseteq> (\<Union>p \<in> set obs. set (snd p))"
    "v = AGX_V1 \<longleftrightarrow> (\<exists>f \<in> set fs. can_id f = 0x151) \<and> \<not> (\<exists>f \<in> set fs. can_id f \<in> {0x221, 0x241})"
    "v = AGX_V2 \<longleftrightarrow> \<not> (\<exists>f \<in> set fs. can_id f = 0x151) \<and> (\<exists>f \<in> set fs. can_id f \<in> {0x221, 0x241})"
    using verdict_frames [OF v] .
  have "v = UNKONWN" if "\<forall>p \<in> set obs. snd p = []"
  proof -
    have "fs = []" using that fs(1) by auto
    with fs(2,3) show ?thesis by (cases v) auto
  qed
  with v show ?thesis by blast
qed

theorem detector_returns_witness:
  "\<exists>v. DetectProtocolVersion 1 [(0, []), (1, [])] = Some v \<and> v = UNKONWN"
  using detector_returns [of "[(0, []), (1, [])]" 1] by simp

text \<open>The check of a datagram reads past its end exactly when the length field says so.\<close>

theorem livox_check_overreads:
  assumes "24 \<le> unat sz" "unat sz \<le> length buf"
  shows "SdkCheckPreamble crc16 crc32 buf sz = Inl e \<longleftrightarrow>
    e = OutOfRange \<and> header_ok crc16 buf \<and> length buf < unat (length_field buf)"
  using assms by (rule SdkCheckPreamble_error)

theorem livox_check_overreads_witness:
  "SdkCheckPreamble (\<lambda>_. 0) sample_crc32
     [0xAA, 0, 100, 0, 0, 0, 0, 0, 0, 0, 0, 0, 0, 0, 0, 0, 0, 0, 0, 0, 0, 0, 0, 0] 24 = Inl OutOfRange"
  by (rule livox_check_overreads[THEN iffD2])
    (simp_all add: header_ok_def length_field_def kSdkProtocolSof_def kSdkVer_def)

text \<open>Packing very long data passes the size test and writes out of bounds.\<close>

theorem livox_pack_overflow:
  assumes "65512 \<le> unat (pk_data_len p)" "pk_protocol p = kLidarSdk"
    "unat (pk_data_len p) \<le> length (pk_data p)"
    "24 \<le> unat sz" "unat sz \<le> length buf" "length buf < 65536"
  shows "SdkPack crc16 crc32 buf sz p = Inl OutOfRange"
  using assms by (rule SdkPack_overflow)

theorem livox_pack_overflow_witness:
  "SdkPack sample_crc16 sample_crc32 (replicate 1401 0) 1400
    (sample_packet\<lparr>pk_data := replicate 65520 0, pk_data_len := 65520\<rparr>) = Inl OutOfRange"
  by (rule livox_pack_overflow) (simp_all add: sample_packet_def)

text \<open>A command that could not be sent calls its callback twice and reports success.\<close>

theorem livox_failed_send_called_twice:
  assumes "unat len \<le> length d" "unat len \<le> 1376" "GetLidarCommandHandler s handle = Some ty"
    "unat (gh_seq s) \<le> 65535" "1 \<le> unat (gh_seq s)" "now + 1000 < later"
  shows "\<exists>s'. SendCommand crc16 crc32 handle cmd d len (Some i) False now s
      = Inr (kLivoxLidarStatusSuccess, s', [Callback i kLivoxLidarStatusSendFailed handle None]) \<and>
    Callback i kLivoxLidarStatusTimeout handle None \<in> set (snd (CommandsHandle later s'))"
  using assms by (rule failed_send)

theorem livox_failed_send_called_twice_witness:
  "\<exists>s'. SendCommand sample_crc16 sample_crc32 5 0x101 [1, 2, 3] 3 (Some 4) False 10 sample_handler
      = Inr (kLivoxLidarStatusSuccess, s', [Callback 4 kLivoxLidarStatusSendFailed 5 None]) \<and>
    Callback 4 kLivoxLidarStatusTimeout 5 None \<in> set (snd (CommandsHandle 2000 s'))"
  by (rule livox_failed_send_called_twice[where ty = kLivoxLidarTypeMid360])
    (simp_all add: sample_handler_def seq_start_def GetLidarCommandHandler_def)

text \<open>An acknowledgement that overtakes the registration is lost.\<close>

theorem livox_early_ack_lost:
  assumes "unat len \<le> length d" "unat len \<le> 1376" "GetLidarCommandHandler s handle = Some ty"
    "unat (gh_seq s) \<le> 65535" "1 \<le> unat (gh_seq s)" "now + 1000 < later" "gh_unregistered s = []"
    "map_of (gh_commands s) (fst (GetSeq (gh_seq s))) = None" "pk_seq_num p = fst (GetSeq (gh_seq s))"
  shows "\<exists>s1 out. transmit crc16 crc32 handle cmd d len (Some i) True s = Inr (kLivoxLidarStatusSuccess, s1, out) \<and>
    invoked out = {#} \<and> HandleAck handle p s1 = (s1, []) \<and>
    Callback i kLivoxLidarStatusTimeout handle None \<in> set (snd (CommandsHandle later (register 0 now s1)))"
  using assms by (rule early_ack)

theorem livox_early_ack_lost_witness:
  "\<exists>s1 out. transmit sample_crc16 sample_crc32 5 0x101 [1, 2, 3] 3 (Some 4) True sample_handler
      = Inr (kLivoxLidarStatusSuccess, s1, out) \<and>
    HandleAck 5 (sample_packet\<lparr>pk_seq_num := 2\<rparr>) s1 = (s1, []) \<and>
    Callback 4 kLivoxLidarStatusTimeout 5 None \<in> set (snd (CommandsHandle 2000 (register 0 10 s1)))"
proof -
  have "\<exists>s1 out. transmit sample_crc16 sample_crc32 5 0x101 [1, 2, 3] 3 (Some 4) True sample_handler
      = Inr (kLivoxLidarStatusSuccess, s1, out) \<and> invoked out = {#} \<and>
    HandleAck 5 (sample_packet\<lparr>pk_seq_num := 2\<rparr>) s1 = (s1, []) \<and>
    Callback 4 kLivoxLidarStatusTimeout 5 None \<in> set (snd (CommandsHandle 2000 (register 0 10 s1)))"
    by (rule livox_early_ack_lost[where ty = kLivoxLidarTypeMid360])
      (simp_all add: sample_handler_def seq_start_def GetLidarCommandHandler_def GetSeq_def Let_def)
  then show ?thesis by blast
qed

text \<open>A dotted address converts back to its bytes, and 256 converts to 0.\<close>

theorem livox_ip_roundtrip:
  "IpToU8 (dotted [a, b, c, d]) = Inr [a, b, c, d] \<and>
   IpToU8 (dec 256 @ dot # dotted [b, c, d]) = Inr [0, b, c, d]"
  by (simp add: IpToU8_dotted) (simp add: IpToU8_def ip_parts_dot ip_parts_last dec_no_dot ip_part_256
      to_string_def ip_part_to_string[unfolded to_string_def])

text \<open>A report that states too long a value overflows the member of its key.\<close>

theorem livox_value_overflow:
  assumes "value_size key = Some m" "key \<notin> set address_keys" "wf_state si"
  shows "parse_value key off n data si = Inl e \<longleftrightarrow>
    e = OutOfRange \<and> (length data < unat off + unat n \<or> m < unat n)"
  using assms by (rule parse_value_error)

theorem livox_value_overflow_witness:
  "parse_value kKeyMac 8 7 (replicate 40 1) sample_info = Inl OutOfRange"
  using livox_value_overflow[of kKeyMac 6 sample_info 8 7 "replicate 40 1" OutOfRange]
  by (simp add: sample_info_wf value_size_def address_keys_def key_values)

text \<open>Deleting a stored point can silently do nothing.\<close>

theorem ikd_tied_not_deleted:
  "selection (sort_by :: unit nth_fn) \<and> at_xyz 1 0 0 \<in># points tied_kd \<and>
   (\<exists>k. Delete_Points sort_by [at_xyz 1 0 0] tied_kd = Inr k \<and> points k = points tied_kd)"
proof -
  have "points tied_kd = mset tied_cloud"
    unfolding tied_kd_def by (rule sorting.build_ok) (simp add: tied_cloud_def)
  moreover have "\<exists>k. Delete_Points sort_by [at_xyz 1 0 0] tied_kd = Inr k \<and> points k = mset tied_cloud"
    unfolding tied_kd_def tied_cloud_def
    by (simp add: eval_build eval_update eval_boxes eval_run eval_points eval_dist delete_point_def goes_left_def)
  ultimately show ?thesis using sorting.selection_axioms by (simp add: tied_cloud_def)
qed

text \<open>Undoing deletions in a box restores points that are not in the box.\<close>

theorem ikd_restore_outside:
  "\<not> in_box (slab 0 7) (at_xyz 20 0 1) \<and>
   (\<exists>c k1 k2. Delete_Point_Boxes sort_by [slab 10 30] sample_kd = Inr (c, k1) \<and>
     points k1 = {#at_xyz 5 0 0, at_xyz 1 2 0#} \<and>
     Add_Point_Boxes sort_by [slab 0 7] k1 = Inr k2 \<and>
     points k2 = {#at_xyz 5 0 0, at_xyz 1 2 0, at_xyz 20 0 1#})"
  unfolding sample_kd_def sample_cloud_def
  by (simp add: eval_build eval_update eval_boxes eval_run eval_points delete_box_def delete_all_def
      restore_box_def restore_all_def)

text \<open>After a jump back in time the next scan is lost.\<close>

theorem lio_loop_back_loses:
  assumes "sync_run False skew tf es bs s" "lidar_pushed s" "fless t (last_timestamp_lidar (ch1 s))"
    "sync_packages False skew tf (pcl_cbk t c s) = Inr (True, s')"
  shows "queued (ch1 s') = [] \<and> meas_lidar (Measures s') = meas_lidar (Measures s) \<and>
    lidar_beg_time (Measures s') = lidar_beg_time (Measures s)"
  using loop_back_loses assms(2-4) by blast

theorem lio_loop_back_loses_witness:
  "\<exists>s s'. lidar_pushed (s :: unit buffers) \<and> sync_packages False (Num 1) id (pcl_cbk (Num 10) (sample_scan 5) s) = Inr (True, s') \<and>
    queued (ch1 s') = []"
proof -
  obtain s s' where e: "exec False (Num 1) id (holding @ [Imu (imu_at 18)]) (new_buffers (Num 0) (Num 0)) = Inr ([], s)"
    "lidar_pushed s" "fless (Num 10) (last_timestamp_lidar (ch1 s))"
    "sync_packages False (Num 1) id (pcl_cbk (Num 10) (sample_scan 5) s) = Inr (True, s')" using sample_loop_back by auto
  from lio_loop_back_loses [OF exec_run [OF sync_run.start e(1)] e(2-4)] e(2,4) show ?thesis by metis
qed

text \<open>The default sizes of the local map delete the surroundings of the robot.\<close>

theorem lio_default_map:
  assumes "selection nth_element" "ikd_ok (ikdtree m)" "small_tree 0 (ikdtree m)" "Localmap_Initialized m" "LocalMap_Points m = cube 100"
  shows "\<exists>m'. lasermap_fov_segment nth_element (Num 200) (Num 300) (Num 0, Num 0, Num 0) m = Inr m' \<and>
    filter_mset (in_box (cube 50)) (points (ikdtree m')) = {#}"
proof -
  have w: "wide (move_distance (Num 200) (Num 300)) (Num (- 100), Num 100)"
    by (simp add: default_move wide_def representable_def)
  obtain m' where m': "lasermap_fov_segment nth_element (Num 200) (Num 300) (Num 0, Num 0, Num 0) m = Inr m'"
    using fov_segment_returns [OF assms(1-3)] by blast
  have b: "LocalMap_Points m' = next_box (Num 200) (Num 300) (Num 0, Num 0, Num 0) (cube 100)"
    using fov_segment_box(1) [OF m' assms(4)] assms(5) by simp
  have "points (ikdtree m') = filter_mset (\<lambda>p. in_box (cube 100) p \<longrightarrow> in_box (LocalMap_Points m') p) (points (ikdtree m))"
    using fov_segment_spec(5) [OF assms(1,2) m' assms(4)] wide_fits_range [OF w] assms(5) by (simp add: cube_ranges)
  then have "filter_mset (in_box (cube 50)) (points (ikdtree m')) = {#}"
    using default_gone by (auto simp: b filter_filter_mset intro!: filter_mset_all)
  with m' show ?thesis by blast
qed

theorem lio_default_map_witness:
  "\<exists>m'. lasermap_fov_segment sort_by (Num 200) (Num 300) (Num 0, Num 0, Num 0) (sample_mapper 100 [lat 1 2 3]) = Inr m' \<and>
    filter_mset (in_box (cube 50)) (points (ikdtree m')) = {#}"
  using lio_default_map [OF sorting.selection_axioms, of "sample_mapper 100 [lat 1 2 3]"] lio_tree_ok [of "[lat 1 2 3]"]
  by (simp add: sample_mapper_def)

text \<open>In every run of the synchroniser a call of sync_packages reads no empty deque.\<close>

theorem lio_sync_succeeds:
  assumes "sync_run multi skew tf es bs s"
  shows "\<exists>b s'. sync_packages multi skew tf s = Inr (b, s')"
  by (rule sync_succeeds [OF assms])

text \<open>A Velodyne scan without times reads its vectors out of range exactly when a ring number reaches N_SCANS.\<close>

theorem lio_velodyne_ring:
  assumes "point_filter_num (param P n) \<noteq> 0" "0 \<le> N_SCANS (param P n)" "ps \<noteq> []" "\<not> fless (Num 0) (vl_time (last ps))"
  shows "velodyne_handler atan2 n ps P = Inl OutOfRange \<longleftrightarrow> (\<exists>p \<in> set ps. N_SCANS (param P n) \<le> uint (vl_ring p))"
  by (rule velodyne_untimed_faults(1) [OF assms])

text \<open>A message for an unknown type of lidar gives the cloud of the message before again.\<close>

theorem lio_unknown_type:
  assumes "lidar_type (param P n) \<notin> {2, 3}"
  shows "process_cloud2 atan2 n msg P = Inr (pl_surf P, P)"
  by (rule process_unknown [OF assms])

text \<open>In every run of the two variants a call of their synchronisers reads no empty deque.\<close>

theorem lio_variants_read_safely:
  shows "adaptive_node N T es s \<Longrightarrow> multi_lidar N \<Longrightarrow> \<exists>d b num. adaptive_sync N s = Inr (d, b, num)"
    and "async_run tf (new_async e e2) es' bs s' \<Longrightarrow> \<exists>d s''. sync_async tf s' = Inr (d, s'')"
  using adaptive_sync_succeeds sync_async_step [OF async_run_ok [OF _ new_async_ok]] by blast+

text \<open>Bundling all scans at once drops the scans that arrived while the bundle waited for the IMU.\<close>

theorem lio_merged_clears:
  assumes "lidar_pushed b" "sync_merged True tf b = Inr (True, b')"
  shows "lidar_buffer (ch1 b') = [] \<and> lidar_buffer (ch2 b') = [] \<and>
    Measures b' = (Measures b)\<lparr>meas_imu := meas_imu (Measures b')\<rparr>"
  by (rule merged_clears [OF assms])

end
